(* ===== verification/Prelude.thy ===== *)
theory Prelude
  imports Complex_Main
begin

text \<open>
  What every component of the development shares.

  \<^item> The JavaScript values the services compute with: \<open>jsnum\<close> (a number that may
    be infinite or NaN), \<open>json\<close> (a parsed JSON value) and the string helpers
    \<open>trim\<close>, \<open>startsWith\<close> and the kebab slug pattern.
  \<^item> Tables. A Postgres table is the list of its rows in insertion order; \<open>find_row\<close> is
    \<^verbatim>\<open>SELECT .. WHERE key = k\<close>, \<open>update_where\<close> is \<^verbatim>\<open>UPDATE .. WHERE\<close>,
    \<open>delete_where\<close> is \<^verbatim>\<open>DELETE .. WHERE\<close>; the lemmas about them carry the proofs
    of every table invariant.
  \<^item> Transactions. The body of a \<^verbatim>\<open>BEGIN .. COMMIT\<close> block is a function of type
    \<open>('s, 'a, 'r) tx\<close>: it goes on with a value, returns \<open>'r\<close> early after an explicit
    \<^verbatim>\<open>ROLLBACK\<close>, or throws. \<open>after Q\<close> states a postcondition of a body.
\<close>

named_theorems row_simps \<open>lookup after a table operation\<close>
named_theorems after_simps \<open>postconditions of transaction bodies\<close>
named_theorems no_abort_intros \<open>bodies without an early return\<close>
named_theorems aborts_simps \<open>the early returns of transaction bodies\<close>

section \<open>JavaScript values\<close>

datatype jsnum = Fin rat | PosInf | NegInf | NaN

fun isFinite :: "jsnum \<Rightarrow> bool" where
  "isFinite (Fin q) = True"
| "isFinite _ = False"

fun isInteger :: "jsnum \<Rightarrow> bool" where
  "isInteger (Fin q) = (of_int \<lfloor>q\<rfloor> = q)"
| "isInteger _ = False"

text \<open>The comparisons \<open><\<close>, \<open>>\<close> of numbers: every comparison with NaN is false.\<close>

fun js_less :: "jsnum \<Rightarrow> jsnum \<Rightarrow> bool" where
  "js_less NaN _ = False"
| "js_less _ NaN = False"
| "js_less (Fin a) (Fin b) = (a < b)"
| "js_less NegInf NegInf = False"
| "js_less NegInf _ = True"
| "js_less _ NegInf = False"
| "js_less PosInf _ = False"
| "js_less (Fin _) PosInf = True"

datatype json =
    JNull
  | JBool bool
  | JNum rat
  | JStr string
  | JArr "json list"
  | JObj "(string \<times> json) list"

text \<open>An optional value in a payload: \<^verbatim>\<open>null\<close> where the code has null.\<close>

definition json_opt :: "string option \<Rightarrow> json" where
  "json_opt x = (case x of None \<Rightarrow> JNull | Some s \<Rightarrow> JStr s)"

definition jnat :: "nat \<Rightarrow> json" where
  "jnat n = JNum (of_nat n)"

text \<open>
  A string is the list of its characters. \<open>trim\<close> removes the white space JavaScript's
  \<^verbatim>\<open>String.prototype.trim\<close> removes among characters below 256: tab, line feed, vertical
  tab, form feed, carriage return, space and no-break space.
\<close>

definition js_space :: "char \<Rightarrow> bool" where
  "js_space c = (of_char c \<in> {9, 10, 11, 12, 13, 32, 160 :: nat})"

definition trim_left :: "string \<Rightarrow> string" where
  "trim_left s = dropWhile js_space s"

definition trim :: "string \<Rightarrow> string" where
  "trim s = rev (trim_left (rev (trim_left s)))"

fun startsWith :: "string \<Rightarrow> string \<Rightarrow> bool" where
  "startsWith [] s = True"
| "startsWith (c # cs) [] = False"
| "startsWith (c # cs) (x # xs) = (c = x \<and> startsWith cs xs)"

text \<open>
  \<^verbatim>\<open>params.x ?? ''\<close> followed by \<^verbatim>\<open>trim()\<close>: a missing or null argument is \<open>None\<close>.
\<close>

definition trim_opt :: "string option \<Rightarrow> string" where
  "trim_opt x = (case x of None \<Rightarrow> [] | Some s \<Rightarrow> trim s)"

text \<open>\<^verbatim>\<open>s.split(c)\<close> for one character, and the text of a list joined by a separator.\<close>

fun split_on :: "char \<Rightarrow> string \<Rightarrow> string list" where
  "split_on c [] = [[]]"
| "split_on c (x # xs) = (if x = c then [] # split_on c xs else
     (case split_on c xs of p # ps \<Rightarrow> (x # p) # ps | [] \<Rightarrow> [[x]]))"

fun join_with :: "string \<Rightarrow> string list \<Rightarrow> string" where
  "join_with sep [] = []"
| "join_with sep [x] = x"
| "join_with sep (x # xs) = x @ sep @ join_with sep xs"

text \<open>Decimal digits of a number, as template literals print it.\<close>

fun show_nat :: "nat \<Rightarrow> string" where
  "show_nat n =
     (if n < 10 then [char_of (n + 48)] else show_nat (n div 10) @ [char_of (n mod 10 + 48)])"

declare show_nat.simps [simp del]

text \<open>
  \<^verbatim>\<open>new Date(ms).toISOString()\<close>: the civil date of a day number (days since 1970-01-01, proleptic
  Gregorian calendar), then the time of day. Years beyond 0..9999 take a sign and six digits.
\<close>

definition civil_date :: "int \<Rightarrow> int \<times> int \<times> int" where
  "civil_date days =
     (let z = days + 719468;
          era = z div 146097;
          doe = z mod 146097;
          yoe = (doe - doe div 1460 + doe div 36524 - doe div 146096) div 365;
          doy = doe - (365 * yoe + yoe div 4 - yoe div 100);
          mp = (5 * doy + 2) div 153;
          day = doy - (153 * mp + 2) div 5 + 1;
          month = (if mp < 10 then mp + 3 else mp - 9)
      in (yoe + era * 400 + (if month \<le> 2 then 1 else 0), month, day))"

fun pad_zero :: "nat \<Rightarrow> string \<Rightarrow> string" where
  "pad_zero n s = replicate (n - length s) (CHR ''0'') @ s"

definition digits :: "nat \<Rightarrow> int \<Rightarrow> string" where
  "digits n i = pad_zero n (show_nat (nat i))"

definition iso_text :: "int \<Rightarrow> string" where
  "iso_text ms =
     (let (y, mo, da) = civil_date (ms div 86400000);
          t = ms mod 86400000;
          year = (if 0 \<le> y \<and> y \<le> 9999 then digits 4 y
                  else (if y < 0 then ''-'' else ''+'') @ digits 6 \<bar>y\<bar>)
      in year @ ''-'' @ digits 2 mo @ ''-'' @ digits 2 da @ ''T'' @ digits 2 (t div 3600000) @ '':'' @
         digits 2 (t div 60000 mod 60) @ '':'' @ digits 2 (t div 1000 mod 60) @ ''.'' @
         digits 3 (t mod 1000) @ ''Z'')"

lemma trim_Nil [simp]: "trim [] = []"
  by (simp add: trim_def trim_left_def)

lemma trim_left_id: "xs = [] \<or> \<not> js_space (hd xs) \<Longrightarrow> trim_left xs = xs"
  by (cases xs) (simp_all add: trim_left_def)

lemma trim_left_head: "trim_left s = [] \<or> \<not> js_space (hd (trim_left s))"
  by (induction s) (auto simp: trim_left_def)

lemma trim_left_suffix: "\<exists>ys. s = ys @ trim_left s"
  unfolding trim_left_def by (metis takeWhile_dropWhile_id)

lemma trim_right_head:
  assumes "xs = [] \<or> \<not> js_space (hd xs)"
  shows "rev (trim_left (rev xs)) = [] \<or> \<not> js_space (hd (rev (trim_left (rev xs))))"
proof -
  obtain ys where "rev xs = ys @ trim_left (rev xs)" using trim_left_suffix by blast
  then have "xs = rev (trim_left (rev xs)) @ rev ys" by (metis rev_append rev_rev_ident)
  then have "rev (trim_left (rev xs)) \<noteq> [] \<Longrightarrow> hd xs = hd (rev (trim_left (rev xs)))"
    by (metis hd_append2)
  moreover from this have "rev (trim_left (rev xs)) \<noteq> [] \<Longrightarrow> xs \<noteq> []"
    by (auto simp: trim_left_def)
  ultimately show ?thesis using assms by metis
qed

lemma trim_idem [simp]: "trim (trim s) = trim s"
proof -
  let ?r = "rev (trim_left (rev (trim_left s)))"
  have "trim_left ?r = ?r"
    by (rule trim_left_id) (rule trim_right_head [OF trim_left_head])
  then show ?thesis
    by (simp add: trim_def trim_left_id [OF trim_left_head])
qed

section \<open>Tables\<close>

definition find_row :: "('r \<Rightarrow> 'k) \<Rightarrow> 'k \<Rightarrow> 'r list \<Rightarrow> 'r option" where
  "find_row key k tbl = find (\<lambda>r. key r = k) tbl"

definition update_where :: "('r \<Rightarrow> bool) \<Rightarrow> ('r \<Rightarrow> 'r) \<Rightarrow> 'r list \<Rightarrow> 'r list" where
  "update_where P f tbl = map (\<lambda>r. if P r then f r else r) tbl"

definition delete_where :: "('r \<Rightarrow> bool) \<Rightarrow> 'r list \<Rightarrow> 'r list" where
  "delete_where P tbl = filter (\<lambda>r. \<not> P r) tbl"

definition exists_where :: "('r \<Rightarrow> bool) \<Rightarrow> 'r list \<Rightarrow> bool" where
  "exists_where P tbl = list_ex P tbl"

text \<open>\<open>pkey\<close>: the primary key of the table holds.\<close>

definition pkey :: "('r \<Rightarrow> 'k) \<Rightarrow> 'r list \<Rightarrow> bool" where
  "pkey key tbl = distinct (map key tbl)"

lemma find_row_Nil [simp, row_simps]: "find_row key k [] = None"
  by (simp add: find_row_def)

lemma find_row_Cons [row_simps]:
  "find_row key k (r # rs) = (if key r = k then Some r else find_row key k rs)"
  by (simp add: find_row_def)

lemma find_row_append [row_simps]:
  "find_row key k (xs @ ys) = (case find_row key k xs of None \<Rightarrow> find_row key k ys | Some r \<Rightarrow> Some r)"
  by (induction xs) (simp_all add: find_row_def)

lemma find_row_Some: "find_row key k tbl = Some r \<Longrightarrow> r \<in> set tbl \<and> key r = k"
  by (induction tbl) (auto simp: find_row_Cons split: if_splits)

lemma find_row_in: "find_row key k tbl = Some r \<Longrightarrow> r \<in> set tbl"
  by (blast dest: find_row_Some)

lemma find_row_key: "find_row key k tbl = Some r \<Longrightarrow> key r = k"
  by (blast dest: find_row_Some)

lemma find_row_None: "find_row key k tbl = None \<longleftrightarrow> (\<forall>r \<in> set tbl. key r \<noteq> k)"
  by (induction tbl) (auto simp: find_row_Cons)

lemma find_row_pkey:
  assumes "pkey key tbl" and "r \<in> set tbl"
  shows "find_row key (key r) tbl = Some r"
  using assms by (induction tbl) (auto simp: find_row_Cons pkey_def)

lemma find_row_update_where [row_simps]:
  assumes "\<And>r. key (f r) = key r"
  shows "find_row key k (update_where P f tbl) =
    map_option (\<lambda>r. if P r then f r else r) (find_row key k tbl)"
  using assms by (induction tbl) (simp_all add: update_where_def find_row_def)

lemma update_where_Nil [simp]: "update_where P f [] = []"
  by (simp add: update_where_def)

lemma update_where_append [simp]:
  "update_where P f (xs @ ys) = update_where P f xs @ update_where P f ys"
  by (simp add: update_where_def)

lemma length_update_where [simp]: "length (update_where P f xs) = length xs"
  by (simp add: update_where_def)

lemma set_update_where: "set (update_where P f tbl) = (\<lambda>r. if P r then f r else r) ` set tbl"
  by (simp add: update_where_def)

lemma in_update_where:
  "r' \<in> set (update_where P f tbl) \<longleftrightarrow> (\<exists>r \<in> set tbl. r' = (if P r then f r else r))"
  by (auto simp: update_where_def)

lemma map_update_where:
  "(\<And>r. g (f r) = g r) \<Longrightarrow> map g (update_where P f tbl) = map g tbl"
  by (simp add: update_where_def)

lemma pkey_update_where [row_simps]:
  "(\<And>r. key (f r) = key r) \<Longrightarrow> pkey key (update_where P f tbl) = pkey key tbl"
  by (simp add: pkey_def map_update_where)

lemma pkey_snoc [row_simps]:
  "pkey key (tbl @ [r]) \<longleftrightarrow> pkey key tbl \<and> find_row key (key r) tbl = None"
  by (auto simp: pkey_def find_row_None) (metis imageI)

lemma pkey_Nil [simp]: "pkey key []"
  by (simp add: pkey_def)

lemma pkey_delete_where: "pkey key tbl \<Longrightarrow> pkey key (delete_where P tbl)"
  by (simp add: pkey_def delete_where_def distinct_map_filter)

lemma in_delete_where [simp]: "r \<in> set (delete_where P tbl) \<longleftrightarrow> r \<in> set tbl \<and> \<not> P r"
  by (auto simp: delete_where_def)

lemma delete_where_append [simp]:
  "delete_where P (xs @ ys) = delete_where P xs @ delete_where P ys"
  by (simp add: delete_where_def)

lemma filter_delete_where: "(\<And>x. P x \<Longrightarrow> \<not> Q x) \<Longrightarrow> filter P (delete_where Q xs) = filter P xs"
  by (induction xs) (auto simp: delete_where_def)

lemma pkey_unique:
  "pkey key tbl \<Longrightarrow> r \<in> set tbl \<Longrightarrow> s \<in> set tbl \<Longrightarrow> key r = key s \<Longrightarrow> r = s"
  by (metis find_row_pkey option.inject)

lemma filter_update_where:
  "(\<And>r. r \<in> set tbl \<Longrightarrow> Q (if P r then f r else r) = Q r) \<Longrightarrow>
    filter Q (update_where P f tbl) = update_where P f (filter Q tbl)"
  by (induction tbl) (auto simp: update_where_def)

lemma image_update_where:
  "(\<And>r. g (f r) = g r) \<Longrightarrow> g ` set (update_where P f xs) = g ` set xs"
  by (metis list.set_map map_update_where)

lemma update_where_none: "(\<And>r. r \<in> set tbl \<Longrightarrow> \<not> P r) \<Longrightarrow> update_where P f tbl = tbl"
  by (induction tbl) (auto simp: update_where_def)

section \<open>Transaction bodies\<close>

datatype ('a, 'r, 'x) ctl = Next 'a | Abort 'r | Throw 'x

type_synonym ('s, 'a, 'r, 'x) tx = "'s \<Rightarrow> ('a, 'r, 'x) ctl \<times> 's"

definition tx_return :: "'a \<Rightarrow> ('s, 'a, 'r, 'x) tx" where
  "tx_return a s = (Next a, s)"

text \<open>\<open>tx_abort r\<close>: \<^verbatim>\<open>ROLLBACK; return r\<close>. \<open>tx_throw x\<close>: \<^verbatim>\<open>throw x\<close>.\<close>

definition tx_abort :: "'r \<Rightarrow> ('s, 'a, 'r, 'x) tx" where
  "tx_abort r s = (Abort r, s)"

definition tx_throw :: "'x \<Rightarrow> ('s, 'a, 'r, 'x) tx" where
  "tx_throw x s = (Throw x, s)"

definition tx_bind :: "('s, 'a, 'r, 'x) tx \<Rightarrow> ('a \<Rightarrow> ('s, 'b, 'r, 'x) tx) \<Rightarrow> ('s, 'b, 'r, 'x) tx" where
  "tx_bind m f s = (case m s of
     (Next a, s') \<Rightarrow> f a s'
   | (Abort r, s') \<Rightarrow> (Abort r, s')
   | (Throw x, s') \<Rightarrow> (Throw x, s'))"

definition tx_then :: "('s, 'a, 'r, 'x) tx \<Rightarrow> ('s, 'b, 'r, 'x) tx \<Rightarrow> ('s, 'b, 'r, 'x) tx" where
  "tx_then m n = tx_bind m (\<lambda>_. n)"

text \<open>A list of statements run one after the other.\<close>

fun tx_block :: "('s, unit, 'r, 'x) tx list \<Rightarrow> ('s, unit, 'r, 'x) tx" where
  "tx_block [] = tx_return ()"
| "tx_block (m # ms) = tx_then m (tx_block ms)"

text \<open>An unconditional write: one SQL statement that cannot fail.\<close>

definition tx_write :: "('s \<Rightarrow> 's) \<Rightarrow> ('s, unit, 'r, 'x) tx" where
  "tx_write f s = (Next (), f s)"

definition tx_unit :: "('s, 'a, 'r, 'x) tx \<Rightarrow> ('s, unit, 'r, 'x) tx" where
  "tx_unit m = tx_then m (tx_return ())"

text \<open>A result checked against a postcondition that speaks of the \<open>Next\<close> outcome only.\<close>

definition after :: "('a \<Rightarrow> 's \<Rightarrow> bool) \<Rightarrow> ('a, 'r, 'x) ctl \<times> 's \<Rightarrow> bool" where
  "after Q res = (case res of (Next a, s) \<Rightarrow> Q a s | _ \<Rightarrow> True)"

lemma after_pair [simp]:
  "after Q (Next a, s) = Q a s" "after Q (Abort r, s)" "after Q (Throw x, s)"
  by (simp_all add: after_def)

lemma after_bind [after_simps]:
  "after Q (tx_bind m f s) = after (\<lambda>a s'. after Q (f a s')) (m s)"
  by (auto simp: after_def tx_bind_def split: prod.splits ctl.splits)

lemma after_then [after_simps]:
  "after Q (tx_then m n s) = after (\<lambda>_ s'. after Q (n s')) (m s)"
  by (simp add: tx_then_def after_bind)

lemma after_prims [after_simps]:
  "after Q (tx_return a s) = Q a s"
  "after Q (tx_abort r s)"
  "after Q (tx_throw x s)"
  by (simp_all add: tx_return_def tx_abort_def tx_throw_def)

lemma after_write [after_simps]: "after Q (tx_write f s) = Q () (f s)"
  by (simp add: tx_write_def)

lemma after_unit [after_simps]: "after Q (tx_unit m s) = after (\<lambda>_ s'. Q () s') (m s)"
  by (simp add: tx_unit_def after_then after_prims)

lemma after_block [after_simps]:
  "after Q (tx_block [] s) = Q () s"
  "after Q (tx_block (m # ms) s) = after (\<lambda>_ s'. after Q (tx_block ms s')) (m s)"
  by (simp_all add: after_then after_prims)

lemma after_cons:
  "after Q (tx_then (tx_block (m # ms)) n s) = after (\<lambda>_ s'. after Q (tx_then (tx_block ms) n s')) (m s)"
  by (simp add: after_then after_block)

lemma after_if [after_simps]:
  "after Q ((if b then m else n) s) = (if b then after Q (m s) else after Q (n s))"
  "after Q (if b then x else y) = (if b then after Q x else after Q y)"
  by simp_all

lemma after_mono: "after Q res \<Longrightarrow> (\<And>a s. Q a s \<Longrightarrow> R a s) \<Longrightarrow> after R res"
  by (auto simp: after_def split: prod.splits ctl.splits)

lemma after_conj: "after Q res \<Longrightarrow> after R res \<Longrightarrow> after (\<lambda>a s. Q a s \<and> R a s) res"
  by (auto simp: after_def split: prod.splits ctl.splits)

lemma after_Next: "after Q res \<Longrightarrow> res = (Next a, s) \<Longrightarrow> Q a s"
  by simp

lemma after_I: "(\<And>a s. res = (Next a, s) \<Longrightarrow> Q a s) \<Longrightarrow> after Q res"
  by (auto simp: after_def split: prod.splits ctl.splits)

lemma after_UNIV [simp]: "after (\<lambda>a s. True) res"
  by (auto simp: after_def split: prod.splits ctl.splits)

lemma tx_simps:
  "tx_return a s = (Next a, s)" "tx_abort r s = (Abort r, s)" "tx_throw x s = (Throw x, s)"
  "tx_write f s = (Next (), f s)"
  by (simp_all add: tx_return_def tx_abort_def tx_throw_def tx_write_def)

lemma tx_bind_simps:
  "m s = (Next a, s') \<Longrightarrow> tx_bind m f s = f a s'"
  "m s = (Abort r, s') \<Longrightarrow> tx_bind m f s = (Abort r, s')"
  "m s = (Throw x, s') \<Longrightarrow> tx_bind m f s = (Throw x, s')"
  by (simp_all add: tx_bind_def)

lemma tx_bind_Next:
  "tx_bind m f s = (Next b, s'') \<longleftrightarrow> (\<exists>a s'. m s = (Next a, s') \<and> f a s' = (Next b, s''))"
  by (auto simp: tx_bind_def split: prod.splits ctl.splits)

lemma tx_then_Next:
  "tx_then m n s = (Next b, s'') \<longleftrightarrow> (\<exists>a s'. m s = (Next a, s') \<and> n s' = (Next b, s''))"
  by (simp add: tx_then_def tx_bind_Next)

text \<open>A body that does not return early: it commits or throws.\<close>

definition no_abort :: "('a, 'r, 'x) ctl \<times> 's \<Rightarrow> bool" where
  "no_abort res = (case res of (Abort r, s) \<Rightarrow> False | _ \<Rightarrow> True)"

lemma no_abort_pair [simp]:
  "no_abort (Next a, s)" "no_abort (Throw x, s)" "\<not> no_abort (Abort r, s)"
  by (simp_all add: no_abort_def)

lemma no_abort_prims [no_abort_intros]:
  "no_abort (tx_return a s)" "no_abort (tx_throw x s)" "no_abort (tx_write f s)"
  by (simp_all add: tx_return_def tx_throw_def tx_write_def)

lemma no_abort_bind [no_abort_intros]:
  "no_abort (m s) \<Longrightarrow> (\<And>a s'. no_abort (f a s')) \<Longrightarrow> no_abort (tx_bind m f s)"
  unfolding tx_bind_def by (cases "m s", cases "fst (m s)") auto

lemma no_abort_then [no_abort_intros]:
  "no_abort (m s) \<Longrightarrow> (\<And>s'. no_abort (n s')) \<Longrightarrow> no_abort (tx_then m n s)"
  unfolding tx_then_def by (rule no_abort_bind)

lemma no_abort_unit [no_abort_intros]: "no_abort (m s) \<Longrightarrow> no_abort (tx_unit m s)"
  unfolding tx_unit_def by (rule no_abort_then, assumption) (rule no_abort_prims)

lemma no_abort_block [no_abort_intros]:
  "no_abort (tx_block [] s)"
  "no_abort (m s) \<Longrightarrow> (\<And>s'. no_abort (tx_block ms s')) \<Longrightarrow> no_abort (tx_block (m # ms) s)"
proof -
  show "no_abort (tx_block [] s)" by (simp add: tx_return_def)
  show "no_abort (m s) \<Longrightarrow> (\<And>s'. no_abort (tx_block ms s')) \<Longrightarrow> no_abort (tx_block (m # ms) s)"
    by (simp add: no_abort_then)
qed

text \<open>\<open>aborts A\<close> states what the early returns of a body can be, as \<open>after Q\<close> does for its end.\<close>

definition aborts :: "('r \<Rightarrow> bool) \<Rightarrow> ('a, 'r, 'x) ctl \<times> 's \<Rightarrow> bool" where
  "aborts A res = (case res of (Abort r, s) \<Rightarrow> A r | _ \<Rightarrow> True)"

lemma aborts_pair [simp]:
  "aborts A (Next a, s)" "aborts A (Throw x, s)" "aborts A (Abort r, s) = A r"
  by (simp_all add: aborts_def)

lemma aborts_prims [aborts_simps]:
  "aborts A (tx_return a s)" "aborts A (tx_throw x s)" "aborts A (tx_write f s)" "aborts A (tx_abort r s) = A r"
  by (simp_all add: tx_simps)

lemma aborts_bind [aborts_simps]:
  "aborts A (tx_bind m f s) \<longleftrightarrow> aborts A (m s) \<and> after (\<lambda>a s'. aborts A (f a s')) (m s)"
  by (auto simp: tx_bind_def after_def aborts_def split: prod.splits ctl.splits)

lemma aborts_then [aborts_simps]:
  "aborts A (tx_then m n s) \<longleftrightarrow> aborts A (m s) \<and> after (\<lambda>_ s'. aborts A (n s')) (m s)"
  by (simp add: tx_then_def aborts_bind)

lemma aborts_if [aborts_simps]:
  "aborts A ((if b then m else n) s) = (if b then aborts A (m s) else aborts A (n s))"
  "aborts A (if b then x else y) = (if b then aborts A x else aborts A y)"
  by simp_all

lemma aborts_no_abort: "no_abort res \<Longrightarrow> aborts A res"
  by (auto simp: aborts_def no_abort_def split: prod.splits ctl.splits)

lemma no_abort_aborts: "no_abort res \<longleftrightarrow> aborts (\<lambda>_. False) res"
  by (simp add: aborts_def no_abort_def)

section \<open>Relations between states\<close>

text \<open>
  The contract of a transaction body for a relation \<open>R\<close> between the state before and after: when every
  statement respects \<open>R\<close> and \<open>R\<close> composes, so does the body. It is stated for any type of state.
\<close>

locale path =
  fixes R :: "'s \<Rightarrow> 's \<Rightarrow> bool"
  assumes rel_refl [simp, intro]: "R s s"
    and rel_trans: "R s s' \<Longrightarrow> R s' s'' \<Longrightarrow> R s s''"
begin

lemma rel_return: "after (\<lambda>_. R s) (tx_return a s)" "after (\<lambda>_. R s) (Next a, s)"
  by (simp_all add: after_prims)

lemma rel_bind:
  assumes "after (\<lambda>_. R s) (m s)" and "\<And>a s'. after (\<lambda>_. R s') (f a s')"
  shows "after (\<lambda>_. R s) (tx_bind m f s)"
  unfolding after_bind
  by (rule after_mono [OF assms(1)]) (rule after_mono [OF assms(2)], erule (1) rel_trans)

lemma rel_then:
  "after (\<lambda>_. R s) (m s) \<Longrightarrow> (\<And>s'. after (\<lambda>_. R s') (n s')) \<Longrightarrow> after (\<lambda>_. R s) (tx_then m n s)"
  unfolding tx_then_def by (rule rel_bind)

lemma rel_unit: "after (\<lambda>_. R s) (m s) \<Longrightarrow> after (\<lambda>_. R s) (tx_unit m s)"
  by (simp add: after_unit)

lemma rel_block:
  "(\<And>m s'. m \<in> set ms \<Longrightarrow> after (\<lambda>_. R s') (m s')) \<Longrightarrow> after (\<lambda>_. R s) (tx_block ms s)"
  by (induction ms arbitrary: s) (auto intro: rel_then rel_return simp: after_prims)

lemma rel_block_Nil: "after (\<lambda>_. R s) (tx_block [] s)"
  by (simp add: after_prims)

lemma rel_block_Cons:
  "after (\<lambda>_. R s) (m s) \<Longrightarrow> (\<And>s'. after (\<lambda>_. R s') (tx_block ms s')) \<Longrightarrow>
    after (\<lambda>_. R s) (tx_block (m # ms) s)"
  unfolding tx_block.simps by (rule rel_then)

lemma rel_write_step: "R s (f s) \<Longrightarrow> after (\<lambda>_. R s) (tx_write f s)"
  by (simp add: after_write)

lemma rel_from: "R s s' \<Longrightarrow> after (\<lambda>_. R s') res \<Longrightarrow> after (\<lambda>_. R s) res"
  by (auto intro: after_mono rel_trans)

end

end
