(* ===== verification/Schema.thy ===== *)
theory Schema
  imports Prelude
begin

text \<open>
  The data of the coordination services: the rows of the Postgres tables they read and write
  (one record per table, columns in the order of the migrations), the enumerations behind the
  \<^verbatim>\<open>CHECK\<close> constraints and the TypeScript union types, the database \<open>db\<close> as the record of its
  tables, the environment \<open>env\<close> of one call (feature flag, clocks, UUID supply), and
  \<open>transaction\<close>, which runs a body between \<^verbatim>\<open>BEGIN\<close> and \<^verbatim>\<open>COMMIT\<close>.

  Columns of type UUID and TEXT are strings; BIGINT and INT are \<open>int\<close> or \<open>nat\<close>; NUMERIC is
  \<open>rat\<close> (exact, as in Postgres); TIMESTAMPTZ is \<open>int\<close>, milliseconds since the epoch.
\<close>

section \<open>Errors\<close>

text \<open>\<open>hub_code\<close>: the codes of \<^verbatim>\<open>ContextHubError\<close> (core/errors.ts). Messages are left out.\<close>

datatype hub_code =
    UNAUTHORIZED | FORBIDDEN | BAD_REQUEST | NOT_FOUND | INTERNAL | CONFLICT
  | ASSERTED_IDENTITY_REJECTED | CREDENTIAL_EXPIRED | SERVICE_UNAVAILABLE
  | TOPIC_NOT_ACTIVE | ALREADY_RESOLVED | RESOLUTION_PENDING
  | INTAKE_ALREADY_TRIAGED | INTAKE_ALREADY_DISMISSED | REPEAT_ENDORSER
  | UNMET_DEPENDENCIES | UPSTREAM_NOT_BASELINED | CHAINED_TASK_DEPENDENCY_INVALID

text \<open>
  What a service function can throw: a \<^verbatim>\<open>ContextHubError\<close>, an error of the database driver
  (a unique violation 23505, a malformed literal for a typed column 22P02, a number out of range
  22003), or a JavaScript \<^verbatim>\<open>TypeError\<close> from reading a row that is not there.
\<close>

datatype exn = Hub hub_code | Pg_unique | Pg_syntax | Pg_range | Js_type_error | Plain_error

section \<open>Enumerations\<close>

datatype topic_status = Chartered | Active | Closing | Closed

datatype level = Execution | Coordination | Authority

datatype actor_type = Human | Ai

datatype topology = Parallel | Sequential | Rolling

datatype task_status = Posted | Claimed | In_progress | Completed | Disputed | Abandoned

datatype artifact_state = Draft | Working | Baselined | For_review | Final | Superseded

datatype route_shape = Counter_sign | Escalate_to_authority

datatype procedure_kind = Unilateral | Collective

datatype request_status = Open | Approved | Returned | Rejected | Escalation_exhausted

datatype step_status =
    S_pending | S_motion_proposed | S_endorsed | S_returned | S_rejected | S_escalated

datatype motion_status = Proposed | Seconded | Balloting | Carried | Failed | Lapsed | Vetoed

datatype vote_choice = For | Against | Abstain

datatype intake_status = Received | Triaged | Dismissed

datatype dispute_status = D_open | Under_resolution | Resolved

text \<open>The text of each value, as it is stored and compared in the code.\<close>

fun level_text :: "level \<Rightarrow> string" where
  "level_text Execution = ''execution''"
| "level_text Coordination = ''coordination''"
| "level_text Authority = ''authority''"

definition parse_level :: "string \<Rightarrow> level option" where
  "parse_level s = find (\<lambda>l. level_text l = s) [Authority, Coordination, Execution]"

fun actor_type_text :: "actor_type \<Rightarrow> string" where
  "actor_type_text Human = ''human''"
| "actor_type_text Ai = ''ai''"

definition parse_actor_type :: "string \<Rightarrow> actor_type option" where
  "parse_actor_type s = find (\<lambda>a. actor_type_text a = s) [Human, Ai]"

fun topology_text :: "topology \<Rightarrow> string" where
  "topology_text Parallel = ''parallel''"
| "topology_text Sequential = ''sequential''"
| "topology_text Rolling = ''rolling''"

definition parse_topology :: "string \<Rightarrow> topology option" where
  "parse_topology s = find (\<lambda>t. topology_text t = s) [Parallel, Sequential, Rolling]"

fun procedure_text :: "procedure_kind \<Rightarrow> string" where
  "procedure_text Unilateral = ''unilateral''"
| "procedure_text Collective = ''collective''"

definition parse_procedure :: "string \<Rightarrow> procedure_kind option" where
  "parse_procedure s = find (\<lambda>p. procedure_text p = s) [Unilateral, Collective]"

fun choice_text :: "vote_choice \<Rightarrow> string" where
  "choice_text For = ''for''"
| "choice_text Against = ''against''"
| "choice_text Abstain = ''abstain''"

definition parse_choice :: "string \<Rightarrow> vote_choice option" where
  "parse_choice s = find (\<lambda>c. choice_text c = s) [For, Against, Abstain]"

fun shape_text :: "route_shape \<Rightarrow> string" where
  "shape_text Counter_sign = ''counter_sign''"
| "shape_text Escalate_to_authority = ''escalate_to_authority''"

fun task_status_text :: "task_status \<Rightarrow> string" where
  "task_status_text Posted = ''posted''"
| "task_status_text Claimed = ''claimed''"
| "task_status_text In_progress = ''in_progress''"
| "task_status_text Completed = ''completed''"
| "task_status_text Disputed = ''disputed''"
| "task_status_text Abandoned = ''abandoned''"

fun artifact_state_text :: "artifact_state \<Rightarrow> string" where
  "artifact_state_text Draft = ''draft''"
| "artifact_state_text Working = ''working''"
| "artifact_state_text Baselined = ''baselined''"
| "artifact_state_text For_review = ''for_review''"
| "artifact_state_text Final = ''final''"
| "artifact_state_text Superseded = ''superseded''"

fun motion_status_text :: "motion_status \<Rightarrow> string" where
  "motion_status_text Proposed = ''proposed''"
| "motion_status_text Seconded = ''seconded''"
| "motion_status_text Balloting = ''balloting''"
| "motion_status_text Carried = ''carried''"
| "motion_status_text Failed = ''failed''"
| "motion_status_text Lapsed = ''lapsed''"
| "motion_status_text Vetoed = ''vetoed''"

fun request_status_text :: "request_status \<Rightarrow> string" where
  "request_status_text Open = ''open''"
| "request_status_text Approved = ''approved''"
| "request_status_text Returned = ''returned''"
| "request_status_text Rejected = ''rejected''"
| "request_status_text Escalation_exhausted = ''escalation_exhausted''"

lemma parse_level_text [simp]: "parse_level (level_text l) = Some l"
  by (cases l) (simp_all add: parse_level_def)

lemma parse_actor_type_text [simp]: "parse_actor_type (actor_type_text a) = Some a"
  by (cases a) (simp_all add: parse_actor_type_def)

lemma parse_topology_text [simp]: "parse_topology (topology_text t) = Some t"
  by (cases t) (simp_all add: parse_topology_def)

lemma parse_choice_text [simp]: "parse_choice (choice_text c) = Some c"
  by (cases c) (simp_all add: parse_choice_def)

section \<open>Orders on the enumerations\<close>

text \<open>
  \<open>LEVEL_RANK\<close> orders the levels of authority, and the status of a topic only ever
  moves up in the order chartered, active, closing, closed.
\<close>

fun level_rank :: "level \<Rightarrow> nat" where
  "level_rank Execution = 0"
| "level_rank Coordination = 1"
| "level_rank Authority = 2"

lemma level_rank_inj: "level_rank a = level_rank b \<Longrightarrow> a = b"
  by (cases a; cases b) simp_all

instantiation level :: linorder
begin

definition less_eq_level :: "level \<Rightarrow> level \<Rightarrow> bool" where
  "less_eq_level a b = (level_rank a \<le> level_rank b)"

definition less_level :: "level \<Rightarrow> level \<Rightarrow> bool" where
  "less_level a b = (level_rank a < level_rank b)"

instance
  by standard (auto simp: less_eq_level_def less_level_def intro: level_rank_inj)

end

fun topic_rank :: "topic_status \<Rightarrow> nat" where
  "topic_rank Chartered = 0"
| "topic_rank Active = 1"
| "topic_rank Closing = 2"
| "topic_rank Closed = 3"

lemma topic_rank_inj: "topic_rank a = topic_rank b \<Longrightarrow> a = b"
  by (cases a; cases b) simp_all

instantiation topic_status :: linorder
begin

definition less_eq_topic_status :: "topic_status \<Rightarrow> topic_status \<Rightarrow> bool" where
  "less_eq_topic_status a b = (topic_rank a \<le> topic_rank b)"

definition less_topic_status :: "topic_status \<Rightarrow> topic_status \<Rightarrow> bool" where
  "less_topic_status a b = (topic_rank a < topic_rank b)"

instance
  by standard (auto simp: less_eq_topic_status_def less_topic_status_def intro: topic_rank_inj)

end

lemma level_le_Authority [simp]: "(l :: level) \<le> Authority"
  by (cases l) (simp_all add: less_eq_level_def)

lemma topic_status_le_Closed [simp]: "(s :: topic_status) \<le> Closed"
  by (cases s) (simp_all add: less_eq_topic_status_def)

section \<open>Rows\<close>

record topic_row =
  t_id :: string
  t_project :: string
  t_name :: string
  t_charter :: string
  t_status :: topic_status
  t_next_seq :: nat
  t_created_by :: string
  t_created_at :: int

record actor_row =
  a_project :: string
  a_id :: string
  a_type :: actor_type
  a_display_name :: string

record participant_row =
  p_topic :: string
  p_actor :: string
  p_level :: level
  p_joined_at :: int
  p_granted_by :: "string option"

record event_row =
  e_topic :: string
  e_seq :: nat
  e_id :: string
  e_ts :: int
  e_actor :: string
  e_type :: string
  e_subject_type :: string
  e_subject :: string
  e_payload :: json

record task_row =
  tk_id :: string
  tk_topic :: string
  tk_title :: string
  tk_topology :: topology
  tk_depends_on :: "string list"
  tk_raci :: json
  tk_status :: task_status
  tk_created_by :: string
  tk_created_at :: int

record artifact_row =
  af_id :: string
  af_topic :: string
  af_task :: string
  af_slot :: string
  af_kind :: string
  af_state :: artifact_state
  af_version :: nat
  af_fence :: int
  af_content :: "string option"

record version_row =
  v_artifact :: string
  v_version :: nat
  v_state :: artifact_state
  v_content :: "string option"
  v_fence :: "int option"
  v_note :: string
  v_created_by :: string

record claim_row =
  c_id :: string
  c_topic :: string
  c_task :: string
  c_artifact :: string
  c_actor :: string
  c_fence :: int
  c_expires :: int

record matrix_row =
  mx_id :: string
  mx_project :: string
  mx_topic :: "string option"
  mx_kind :: string
  mx_min :: int
  mx_max :: int
  mx_level :: level
  mx_shape :: route_shape
  mx_procedure :: procedure_kind
  mx_body :: "string option"

record matrix_level_row =
  ml_matrix :: string
  ml_level :: level
  ml_body :: string

text \<open>The optional \<^verbatim>\<open>execution_task\<close> blob (chaining.ts, \<^verbatim>\<open>ExecutionTaskBlob\<close>).\<close>

record exec_blob =
  x_title :: "string option"
  x_topology :: "topology option"
  x_slot :: "string option"
  x_kind :: "string option"
  x_depends_on :: "string list option"
  x_raci :: "(string \<times> json) list option"

record request_row =
  r_id :: string
  r_topic :: string
  r_subject_type :: string
  r_subject :: string
  r_kind :: string
  r_weight :: int
  r_procedure :: procedure_kind
  r_shape :: route_shape
  r_status :: request_status
  r_current :: nat
  r_submitted_by :: string
  r_created_at :: int
  r_exec :: "exec_blob option"
  r_bodies :: "(level \<times> string) list option"

record step_row =
  s_request :: string
  s_index :: nat
  s_office :: level
  s_snapshot :: string
  s_procedure :: procedure_kind
  s_deadline :: int
  s_status :: step_status
  s_decided_by :: "string option"
  s_decided_at :: "int option"
  s_body :: "string option"
  s_motion :: "string option"

record body_row =
  b_id :: string
  b_project :: string
  b_name :: string
  b_quorum :: rat
  b_threshold :: rat
  b_veto :: "string list"
  b_created_by :: string
  b_created_at :: int

record member_row =
  bm_body :: string
  bm_actor :: string
  bm_weight :: rat
  bm_added_at :: int

record tally =
  ta_for :: rat
  ta_against :: rat
  ta_abstain :: rat
  ta_participating :: rat
  ta_base :: rat
  ta_quorum :: rat
  ta_threshold :: rat
  ta_quorum_met :: bool

record motion_row =
  m_id :: string
  m_body :: string
  m_topic :: string
  m_subject_ref :: string
  m_status :: motion_status
  m_proposed_by :: string
  m_seconded_by :: "string option"
  m_deadline :: int
  m_tally :: "tally option"
  m_created_at :: int
  m_exec :: "exec_blob option"

record vote_row =
  vt_motion :: string
  vt_actor :: string
  vt_choice :: vote_choice
  vt_weight :: rat
  vt_proxy :: "string option"
  vt_cast_at :: int

record proxy_row =
  px_body :: string
  px_principal :: string
  px_proxy :: string
  px_granted_by :: string
  px_granted_at :: int

record intake_row =
  i_id :: string
  i_project :: string
  i_topic :: "string option"
  i_kind :: string
  i_body :: string
  i_submitted_by :: string
  i_status :: intake_status
  i_routed_to :: "string option"
  i_created_at :: int

record dispute_row =
  d_id :: string
  d_topic :: string
  d_subject_ref :: string
  d_parties :: "string list"
  d_status :: dispute_status
  d_request :: "string option"
  d_created_at :: int

text \<open>Authorization: principals, grants and the decision log (services/authorize.ts, grants.ts).\<close>

datatype principal_status = P_active | P_suspended | P_retired

datatype principal_kind = P_human | P_agent | P_system

datatype scope_type = S_global | S_project | S_topic | S_task | S_group

datatype capability = C_read | C_write | C_admin | C_delegate

datatype action = A_read | A_write | A_admin | A_delegate

datatype res_kind =
    K_global | K_project | K_topic | K_task | K_group
  | K_artifact | K_doc | K_lesson | K_body | K_intake | K_motion | K_dispute | K_request

datatype allow_reason = ROOT | GRANT | AUTH_DISABLED

datatype deny_reason =
  NO_PRINCIPAL | PRINCIPAL_INACTIVE | NO_COVERING_GRANT | OUT_OF_SCOPE | GRANT_REVOKED

datatype decision = Allow allow_reason "string option" | Deny deny_reason

record principal_row =
  pr_id :: string
  pr_is_root :: bool
  pr_status :: principal_status
  pr_kind :: principal_kind
  pr_name :: string
  pr_is_system :: bool
  pr_created :: int

record grant_row =
  g_id :: string
  g_grantee :: string
  g_scope_type :: scope_type
  g_scope_id :: "string option"
  g_capability :: capability
  g_granted_by :: string
  g_granted_at :: int
  g_revoked_at :: "int option"

record authz_row =
  z_principal :: "string option"
  z_action :: action
  z_kind :: res_kind
  z_resource :: "string option"
  z_decision :: decision

section \<open>The database\<close>

record db =
  topics :: "topic_row list"
  actors :: "actor_row list"
  participants :: "participant_row list"
  events :: "event_row list"
  tasks :: "task_row list"
  artifacts :: "artifact_row list"
  versions :: "version_row list"
  claims :: "claim_row list"
  matrix :: "matrix_row list"
  matrix_levels :: "matrix_level_row list"
  requests :: "request_row list"
  steps :: "step_row list"
  bodies :: "body_row list"
  members :: "member_row list"
  motions :: "motion_row list"
  votes :: "vote_row list"
  proxies :: "proxy_row list"
  intake_items :: "intake_row list"
  disputes :: "dispute_row list"
  projects :: "string list"
  doc_projects :: "(string \<times> string) list"
  lesson_projects :: "(string \<times> string) list"
  principals :: "principal_row list"
  grants :: "grant_row list"
  authz_decisions :: "authz_row list"
  fencing_seq :: nat
  uuid_ctr :: nat

text \<open>
  The environment of one call. \<open>pg_now\<close> is Postgres' \<^verbatim>\<open>now()\<close>, \<open>js_now\<close> is
  \<^verbatim>\<open>Date.now()\<close>. Third-party code is a parameter: \<open>is_uuid\<close> is \<^verbatim>\<open>validate\<close> of the npm
  package \<^verbatim>\<open>uuid\<close>, \<open>pg_uuid\<close> says which strings Postgres accepts for a UUID column,
  \<open>uuid_of n\<close> is the \<open>n\<close>-th value the UUID generators return
  (\<^verbatim>\<open>randomUUID()\<close>, \<^verbatim>\<open>gen_random_uuid()\<close>). \<open>num_text\<close> is the text JavaScript prints for
  a number (its floating-point formatting is not modelled).
\<close>

record env =
  auth_enabled :: bool
  default_project :: "string option"
  pg_now :: int
  js_now :: int
  is_uuid :: "string \<Rightarrow> bool"
  pg_uuid :: "string \<Rightarrow> bool"
  uuid_of :: "nat \<Rightarrow> string"
  num_text :: "rat \<Rightarrow> string"

text \<open>
  A rollback restores every table. The two counters keep their values: a Postgres sequence is not
  rolled back, and the UUID generator is outside the database.
\<close>

definition rollback :: "db \<Rightarrow> db \<Rightarrow> db" where
  "rollback d0 d1 = d0\<lparr>fencing_seq := fencing_seq d1, uuid_ctr := uuid_ctr d1\<rparr>"

type_synonym ('a, 'r) dtx = "(db, 'a, 'r, exn) tx"

text \<open>The result of a service function, and the database it leaves.\<close>

type_synonym 'r outcome = "(exn + 'r) \<times> db"

text \<open>
  \<^verbatim>\<open>BEGIN\<close> .. \<^verbatim>\<open>COMMIT\<close>: the body's final value is the result; an early return or a throw rolls back.
\<close>

definition transaction :: "('r, 'r) dtx \<Rightarrow> db \<Rightarrow> 'r outcome" where
  "transaction body d = (case body d of
     (Next r, d') \<Rightarrow> (Inr r, d')
   | (Abort r, d') \<Rightarrow> (Inr r, rollback d d')
   | (Throw x, d') \<Rightarrow> (Inl x, rollback d d'))"

definition throw :: "hub_code \<Rightarrow> db \<Rightarrow> 'r outcome" where
  "throw c d = (Inl (Hub c), d)"

text \<open>A generated id: the next value of the UUID supply.\<close>

definition gen_uuid :: "env \<Rightarrow> (string, 'r) dtx" where
  "gen_uuid E d = (Next (uuid_of E (uuid_ctr d)), d\<lparr>uuid_ctr := Suc (uuid_ctr d)\<rparr>)"

text \<open>\<^verbatim>\<open>nextval('coordination_fencing_seq')\<close>; the sequence starts at 1.\<close>

definition nextval :: "(int, 'r) dtx" where
  "nextval d = (Next (int (Suc (fencing_seq d))), d\<lparr>fencing_seq := Suc (fencing_seq d)\<rparr>)"

text \<open>
  \<^verbatim>\<open>INSERT\<close> with a primary key or unique index: a duplicate raises 23505.
\<close>

definition insert_row ::
  "('row \<Rightarrow> 'k) \<Rightarrow> (db \<Rightarrow> 'row list) \<Rightarrow> (('row list \<Rightarrow> 'row list) \<Rightarrow> db \<Rightarrow> db) \<Rightarrow> 'row \<Rightarrow> (unit, 'r) dtx"
  where
  "insert_row key sel upd row d =
     (if find_row key (key row) (sel d) = None
      then (Next (), upd (\<lambda>tbl. tbl @ [row]) d)
      else (Throw Pg_unique, d))"

text \<open>
  A scan loop: every item is handled in a transaction of its own, a throw is logged and the loop goes
  on. The count is the number of items whose transaction committed with \<open>True\<close>.
\<close>

fun each_item :: "('i \<Rightarrow> (bool, bool) dtx) \<Rightarrow> 'i list \<Rightarrow> db \<Rightarrow> nat \<times> db" where
  "each_item f [] d = (0, d)"
| "each_item f (x # xs) d = (case transaction (f x) d of
     (res, d') \<Rightarrow> (case each_item f xs d' of
        (n, d'') \<Rightarrow> (if res = Inr True then Suc n else n, d'')))"

lemma snd_throw [simp]: "snd (throw c d) = d" "fst (throw c d) = Inl (Hub c)"
  by (simp_all add: throw_def)

lemma after_gen_uuid [after_simps]:
  "after Q (gen_uuid E d) = Q (uuid_of E (uuid_ctr d)) (d\<lparr>uuid_ctr := Suc (uuid_ctr d)\<rparr>)"
  by (simp add: gen_uuid_def)

lemma after_nextval [after_simps]:
  "after Q (nextval d) = Q (int (Suc (fencing_seq d))) (d\<lparr>fencing_seq := Suc (fencing_seq d)\<rparr>)"
  by (simp add: nextval_def)

lemma after_insert_row [after_simps]:
  "after Q (insert_row key sel upd row d) =
    (find_row key (key row) (sel d) = None \<longrightarrow> Q () (upd (\<lambda>tbl. tbl @ [row]) d))"
  by (cases "find_row key (key row) (sel d)") (simp_all add: insert_row_def)

lemma no_abort_db [no_abort_intros]:
  "no_abort (gen_uuid E d)" "no_abort (nextval d)" "no_abort (insert_row key sel upd row d)"
  by (simp_all add: gen_uuid_def nextval_def insert_row_def)

lemma aborts_db [aborts_simps]:
  "aborts A (gen_uuid E d)" "aborts A (nextval d)" "aborts A (insert_row key sel upd row d)"
  by (simp_all add: aborts_no_abort no_abort_db)

text \<open>What a transaction that answers has done.\<close>

lemma committed_result:
  "transaction m d = (Inr r, d') \<Longrightarrow> aborts A (m d) \<Longrightarrow> \<not> A r \<Longrightarrow> after Q (m d) \<Longrightarrow> Q r d'"
  by (auto simp: transaction_def aborts_def after_def split: prod.splits ctl.splits)

lemma committed:
  "transaction m d = (Inr r, d') \<Longrightarrow> no_abort (m d) \<Longrightarrow> after Q (m d) \<Longrightarrow> Q r d'"
  by (auto simp: transaction_def no_abort_def after_def split: prod.splits ctl.splits)

text \<open>A transaction that answers with an early return has changed no table.\<close>

lemma refused_result:
  assumes "transaction m d = (Inr r, d')" and "after (\<lambda>r _. \<not> A r) (m d)" and "A r" and "aborts B (m d)"
  shows "B r \<and> (\<exists>s. d' = rollback d s)"
  using assms by (auto simp: transaction_def after_def aborts_def split: prod.splits ctl.splits)

lemma transaction_simps:
  "body d = (Next r, d') \<Longrightarrow> transaction body d = (Inr r, d')"
  "body d = (Abort r, d') \<Longrightarrow> transaction body d = (Inr r, rollback d d')"
  "body d = (Throw x, d') \<Longrightarrow> transaction body d = (Inl x, rollback d d')"
  by (simp_all add: transaction_def)

section \<open>Effects: relations between the database before and after\<close>

text \<open>
  The contract between the transaction manager and a relation \<open>R\<close> that says what an operation may
  do to the database: \<open>R\<close> composes, and it allows what happens outside the tables (a rollback keeps
  the counters, a check writes the decision log). A client proves \<open>R\<close> for each statement of a
  body; the rules of the locale then carry it over the body, the transaction and the whole call.
\<close>

locale effect =
  fixes R :: "db \<Rightarrow> db \<Rightarrow> bool"
  assumes rel_compose: "R d d' \<Longrightarrow> R d' d'' \<Longrightarrow> R d d''"
    and rel_outside: "R d (d\<lparr>fencing_seq := f, uuid_ctr := u, authz_decisions := l\<rparr>)"

sublocale effect \<subseteq> path R
proof
  show "R d d" for d
    using rel_outside [where d = d and f = "fencing_seq d" and u = "uuid_ctr d" and l = "authz_decisions d"] by simp
qed (rule rel_compose)

context effect
begin

lemma rel_log: "R d (d\<lparr>authz_decisions := l\<rparr>)"
  using rel_outside [where d = d and f = "fencing_seq d" and u = "uuid_ctr d" and l = l] by simp

lemma rel_rollback: "R d (rollback d d')"
  using rel_outside [where d = d and f = "fencing_seq d'" and u = "uuid_ctr d'" and l = "authz_decisions d"]
  by (simp add: rollback_def)

lemma rel_uuid: "after (\<lambda>_. R d) (gen_uuid E d)"
  using rel_outside [where d = d and f = "fencing_seq d" and u = "Suc (uuid_ctr d)" and l = "authz_decisions d"]
  by (simp add: after_gen_uuid)

lemma rel_nextval: "after (\<lambda>_. R d) (nextval d)"
  using rel_outside [where d = d and f = "Suc (fencing_seq d)" and u = "uuid_ctr d" and l = "authz_decisions d"]
  by (simp add: after_nextval)

lemma rel_transaction:
  assumes "after (\<lambda>_. R d) (body d)"
  shows "R d (snd (transaction body d))"
  using assms by (auto simp: transaction_def rel_rollback split: prod.splits ctl.splits)

lemma rel_throw: "R d (snd (throw c d))"
  by (simp add: rel_refl)

lemma rel_each_item:
  assumes "\<And>x d. after (\<lambda>_. R d) (f x d)"
  shows "R d (snd (each_item f xs d))"
proof (induction xs arbitrary: d)
  case Nil
  then show ?case by (simp add: rel_refl)
next
  case (Cons x xs)
  have "R d (snd (transaction (f x) d))" by (rule rel_transaction) (rule assms)
  with Cons.IH [of "snd (transaction (f x) d)"] show ?case
    by (auto intro: rel_trans split: prod.split)
qed

text \<open>The same, for items that are still what the scan saw: \<open>Q\<close> is kept by the other items.\<close>

lemma rel_each_item_when:
  assumes step: "\<And>x d. Q x d \<Longrightarrow> after (\<lambda>_. R d) (f x d)"
    and keep: "\<And>x y d. Q x d \<Longrightarrow> Q y d \<Longrightarrow> Q y (snd (transaction (f x) d))"
    and start: "\<And>x. x \<in> set xs \<Longrightarrow> Q x d"
  shows "R d (snd (each_item f xs d))"
  using start
proof (induction xs arbitrary: d)
  case Nil
  then show ?case by simp
next
  case (Cons x xs)
  have "R d (snd (transaction (f x) d))" using Cons.prems by (intro rel_transaction step) simp
  moreover have "R (snd (transaction (f x) d)) (snd (each_item f xs (snd (transaction (f x) d))))"
    using Cons.prems by (intro Cons.IH keep) simp_all
  ultimately show ?case
    by (auto intro: rel_trans split: prod.split)
qed

lemma rel_each_item_eq:
  assumes "\<And>x d. after (\<lambda>_. R d) (f x d)" and "each_item f xs d = (n, d')"
  shows "R d d'"
  using rel_each_item [of f d xs] assms by simp

lemmas rel_rules =
  rel_return rel_uuid rel_nextval rel_bind rel_then rel_unit rel_block_Nil rel_block_Cons
  rel_transaction rel_throw rel_refl

end

text \<open>An invariant of the tables is the special case \<open>I d \<longrightarrow> I d'\<close>.\<close>

locale table_invariant =
  fixes I :: "db \<Rightarrow> bool"
  assumes outside: "I (d\<lparr>fencing_seq := f, uuid_ctr := u, authz_decisions := l\<rparr>) = I d"
begin

lemma decision_log: "I (d\<lparr>authz_decisions := l\<rparr>) = I d"
  using outside [where d = d and f = "fencing_seq d" and u = "uuid_ctr d" and l = l] by simp

end

sublocale table_invariant \<subseteq> kept: effect "\<lambda>d d'. I d \<longrightarrow> I d'"
  by unfold_locales (simp_all add: outside)

end
