(* ===== verification/Scenario.thy ===== *)
theory Scenario
  imports Schema
begin

text \<open>
  The empty database and a development environment (authorization off, fixed clocks, numbered
  identifiers), with which the witnesses of the properties run the model on concrete inputs.
\<close>

definition empty_db :: db where
  "empty_db = \<lparr>topics = [], actors = [], participants = [], events = [], tasks = [], artifacts = [],
     versions = [], claims = [], matrix = [], matrix_levels = [], requests = [], steps = [],
     bodies = [], members = [], motions = [], votes = [], proxies = [], intake_items = [],
     disputes = [], projects = [], doc_projects = [], lesson_projects = [], principals = [],
     grants = [], authz_decisions = [], fencing_seq = 0, uuid_ctr = 0\<rparr>"

definition dev_env :: env where
  "dev_env = \<lparr>auth_enabled = False, default_project = None, pg_now = 1000000, js_now = 1000000,
     is_uuid = (\<lambda>_. True), pg_uuid = (\<lambda>_. True), uuid_of = (\<lambda>n. replicate (Suc n) (CHR ''u'')),
     num_text = (\<lambda>_. [])\<rparr>"

text \<open>The same environment with the authorization chokepoint switched on.\<close>

definition auth_env :: env where
  "auth_env = dev_env\<lparr>auth_enabled := True\<rparr>"

definition a_topic :: "string \<Rightarrow> topic_status \<Rightarrow> nat \<Rightarrow> topic_row" where
  "a_topic tid s n = \<lparr>t_id = tid, t_project = ''p'', t_name = ''n'', t_charter = ''c'', t_status = s,
     t_next_seq = n, t_created_by = ''owner'', t_created_at = 0\<rparr>"

definition an_event :: "string \<Rightarrow> nat \<Rightarrow> event_row" where
  "an_event tid n = \<lparr>e_topic = tid, e_seq = n, e_id = replicate n (CHR ''e''), e_ts = 0, e_actor = ''a'',
     e_type = ''topic.actor_joined'', e_subject_type = ''topic'', e_subject = tid, e_payload = JNull\<rparr>"

definition a_seat :: "string \<Rightarrow> string \<Rightarrow> level \<Rightarrow> participant_row" where
  "a_seat tid actor l = \<lparr>p_topic = tid, p_actor = actor, p_level = l, p_joined_at = 0, p_granted_by = None\<rparr>"

definition a_task :: "string \<Rightarrow> string \<Rightarrow> topology \<Rightarrow> string list \<Rightarrow> task_status \<Rightarrow> task_row" where
  "a_task kid tid tp deps s = \<lparr>tk_id = kid, tk_topic = tid, tk_title = ''t'', tk_topology = tp,
     tk_depends_on = deps, tk_raci = JObj [], tk_status = s, tk_created_by = ''owner'', tk_created_at = 0\<rparr>"

definition an_artifact :: "string \<Rightarrow> string \<Rightarrow> string \<Rightarrow> artifact_state \<Rightarrow> nat \<Rightarrow> artifact_row" where
  "an_artifact aid tid kid s n = \<lparr>af_id = aid, af_topic = tid, af_task = kid, af_slot = ''s'',
     af_kind = ''k'', af_state = s, af_version = n, af_fence = 0, af_content = None\<rparr>"

definition a_version :: "string \<Rightarrow> nat \<Rightarrow> artifact_state \<Rightarrow> string option \<Rightarrow> version_row" where
  "a_version aid n s c = \<lparr>v_artifact = aid, v_version = n, v_state = s, v_content = c, v_fence = None,
     v_note = [], v_created_by = ''owner''\<rparr>"

definition a_claim :: "string \<Rightarrow> string \<Rightarrow> string \<Rightarrow> string \<Rightarrow> string \<Rightarrow> int \<Rightarrow> claim_row" where
  "a_claim cid tid kid aid actor expiry = \<lparr>c_id = cid, c_topic = tid, c_task = kid, c_artifact = aid,
     c_actor = actor, c_fence = 1, c_expires = expiry\<rparr>"

text \<open>An active topic with one task, its artifact, and a live claim of \<open>ann\<close>.\<close>

definition board_db :: db where
  "board_db = empty_db\<lparr>topics := [a_topic ''T'' Active 0], tasks := [a_task ''K'' ''T'' Parallel [] Claimed],
     artifacts := [an_artifact ''A'' ''T'' ''K'' Draft 1], versions := [a_version ''A'' 1 Draft None],
     claims := [a_claim ''C'' ''T'' ''K'' ''A'' ''ann'' 2000000]\<rparr>"

text \<open>The task of \<open>board_db\<close> with an expired claim of \<open>ann\<close>.\<close>

definition stale_db :: db where
  "stale_db = board_db\<lparr>claims := [a_claim ''C'' ''T'' ''K'' ''A'' ''ann'' 500000]\<rparr>"

text \<open>An active topic with a live claim and an open request.\<close>

definition busy_db :: db where
  "busy_db = board_db\<lparr>requests := [\<lparr>r_id = ''R'', r_topic = ''T'', r_subject_type = ''artifact'', r_subject = ''A'',
     r_kind = ''k'', r_weight = 1, r_procedure = Unilateral, r_shape = Counter_sign, r_status = Open, r_current = 0,
     r_submitted_by = ''sue'', r_created_at = 0, r_exec = None, r_bodies = None\<rparr>]\<rparr>"

text \<open>A request of \<open>sue\<close> that waits for the coordinator \<open>lea\<close>.\<close>

definition desk_db :: db where
  "desk_db = empty_db\<lparr>topics := [a_topic ''T'' Active 0],
     participants := [a_seat ''T'' ''sue'' Execution, a_seat ''T'' ''lea'' Coordination],
     artifacts := [an_artifact ''A'' ''T'' ''K'' For_review 1], versions := [a_version ''A'' 1 Draft None],
     requests := [\<lparr>r_id = ''R'', r_topic = ''T'', r_subject_type = ''artifact'', r_subject = ''A'', r_kind = ''k'',
       r_weight = 1, r_procedure = Unilateral, r_shape = Counter_sign, r_status = Open, r_current = 0,
       r_submitted_by = ''sue'', r_created_at = 0, r_exec = None, r_bodies = None\<rparr>],
     steps := [\<lparr>s_request = ''R'', s_index = 0, s_office = Coordination, s_snapshot = ''m'',
       s_procedure = Unilateral, s_deadline = 2000000, s_status = S_pending,
       s_decided_by = None, s_decided_at = None, s_body = None, s_motion = None\<rparr>]\<rparr>"

text \<open>A motion that is balloting, with one member.\<close>

definition ballot_db :: db where
  "ballot_db = empty_db\<lparr>topics := [a_topic ''T'' Active 0],
     bodies := [\<lparr>b_id = ''B'', b_project = ''p'', b_name = ''n'', b_quorum = 1, b_threshold = 1 / 2, b_veto = [],
       b_created_by = ''ann'', b_created_at = 0\<rparr>],
     members := [\<lparr>bm_body = ''B'', bm_actor = ''ann'', bm_weight = 3, bm_added_at = 0\<rparr>],
     motions := [\<lparr>m_id = ''M'', m_body = ''B'', m_topic = ''T'', m_subject_ref = ''s'', m_status = Balloting,
       m_proposed_by = ''bob'', m_seconded_by = Some ''ann'', m_deadline = 2000000, m_tally = None,
       m_created_at = 0, m_exec = None\<rparr>]\<rparr>"

definition person :: "string \<Rightarrow> bool \<Rightarrow> principal_row" where
  "person pid rt = \<lparr>pr_id = pid, pr_is_root = rt, pr_status = P_active, pr_kind = P_agent, pr_name = pid,
     pr_is_system = False, pr_created = 0\<rparr>"

text \<open>An active administrator, and a member without grants.\<close>

definition members_db :: db where
  "members_db = empty_db\<lparr>principals := [person ''root'' True, person ''mia'' False]\<rparr>"

lemmas scenario_defs = empty_db_def dev_env_def auth_env_def a_topic_def an_event_def a_seat_def
  a_task_def an_artifact_def a_version_def a_claim_def board_db_def person_def

end
