(* ===== verification/Authorize.thy ===== *)
theory Authorize
  imports Scenario
begin

text \<open>
  The authorization chokepoint (services/authorize.ts): the pure decision core
  (\<open>capabilityCovers\<close>, \<open>scopeCovers\<close>, \<open>decide\<close>), the resolution of a resource reference to
  its scope chain, and \<open>authorize\<close> / \<open>assertAuthorized\<close> with the decision log.
  \<open>guarded\<close> is the call every service function starts with. The locale \<open>gate\<close> states what
  the services rely on: a check writes nothing but the decision log.
\<close>

section \<open>Pure core\<close>

text \<open>A resource as its resolved scope chain: project, topic, task from the outside in.\<close>

datatype res_scope =
    R_global
  | R_project string
  | R_topic string string
  | R_task string string string
  | R_group string

fun cap_rank :: "capability \<Rightarrow> nat" where
  "cap_rank C_read = 1"
| "cap_rank C_write = 2"
| "cap_rank C_admin = 3"
| "cap_rank C_delegate = 0"

fun act_rank :: "action \<Rightarrow> nat" where
  "act_rank A_read = 1"
| "act_rank A_write = 2"
| "act_rank A_admin = 3"
| "act_rank A_delegate = 0"

definition capabilityCovers :: "capability \<Rightarrow> action \<Rightarrow> bool" where
  "capabilityCovers granted act =
     (if act = A_delegate then granted = C_delegate
      else if granted = C_delegate then False
      else act_rank act \<le> cap_rank granted)"

fun scope_project :: "res_scope \<Rightarrow> string option" where
  "scope_project (R_project p) = Some p"
| "scope_project (R_topic p t) = Some p"
| "scope_project (R_task p t k) = Some p"
| "scope_project _ = None"

fun scope_topic :: "res_scope \<Rightarrow> string option" where
  "scope_topic (R_topic p t) = Some t"
| "scope_topic (R_task p t k) = Some t"
| "scope_topic _ = None"

fun scope_task :: "res_scope \<Rightarrow> string option" where
  "scope_task (R_task p t k) = Some k"
| "scope_task _ = None"

fun scope_group :: "res_scope \<Rightarrow> string option" where
  "scope_group (R_group g) = Some g"
| "scope_group _ = None"

definition scopeCovers :: "grant_row \<Rightarrow> res_scope \<Rightarrow> bool" where
  "scopeCovers g res = (case g_scope_type g of
     S_global \<Rightarrow> True
   | S_project \<Rightarrow> scope_project res \<noteq> None \<and> g_scope_id g = scope_project res
   | S_topic \<Rightarrow> scope_topic res \<noteq> None \<and> g_scope_id g = scope_topic res
   | S_task \<Rightarrow> scope_task res \<noteq> None \<and> g_scope_id g = scope_task res
   | S_group \<Rightarrow> scope_group res \<noteq> None \<and> g_scope_id g = scope_group res)"

definition decide :: "principal_row option \<Rightarrow> action \<Rightarrow> res_scope \<Rightarrow> grant_row list \<Rightarrow> decision" where
  "decide pr act res activeGrants = (case pr of
     None \<Rightarrow> Deny NO_PRINCIPAL
   | Some p \<Rightarrow>
       if pr_is_root p then Allow ROOT None
       else if pr_status p \<noteq> P_active then Deny PRINCIPAL_INACTIVE
       else (case find (\<lambda>g. capabilityCovers (g_capability g) act \<and> scopeCovers g res) activeGrants of
               Some g \<Rightarrow> Allow GRANT (Some (g_id g))
             | None \<Rightarrow> Deny NO_COVERING_GRANT))"

section \<open>Resolution of resources\<close>

record res_ref =
  ref_kind :: res_kind
  ref_id :: "string option"

abbreviation rref :: "res_kind \<Rightarrow> string \<Rightarrow> res_ref" where
  "rref k i \<equiv> \<lparr>ref_kind = k, ref_id = Some i\<rparr>"

definition topic_scope :: "db \<Rightarrow> string \<Rightarrow> res_scope option" where
  "topic_scope d tid = map_option (\<lambda>t. R_topic (t_project t) tid) (find_row t_id tid (topics d))"

definition task_scope :: "db \<Rightarrow> string \<Rightarrow> res_scope option" where
  "task_scope d kid = (case find_row tk_id kid (tasks d) of
     None \<Rightarrow> None
   | Some k \<Rightarrow> map_option (\<lambda>t. R_task (t_project t) (tk_topic k) kid)
                (find_row t_id (tk_topic k) (topics d)))"

definition resolveResourceScope :: "env \<Rightarrow> res_ref \<Rightarrow> db \<Rightarrow> res_scope option" where
  "resolveResourceScope E rf d =
     (if ref_kind rf = K_global then Some R_global
      else let i = trim_opt (ref_id rf) in
        if i = [] then None
        else case ref_kind rf of
            K_project \<Rightarrow> Some (R_project i)
          | K_group \<Rightarrow> Some (R_group i)
          | K_topic \<Rightarrow> topic_scope d i
          | K_artifact \<Rightarrow> (case find_row af_id i (artifacts d) of
                None \<Rightarrow> None | Some a \<Rightarrow> task_scope d (af_task a))
          | K_doc \<Rightarrow> (if is_uuid E i then map_option R_project (map_of (doc_projects d) i) else None)
          | K_lesson \<Rightarrow> (if is_uuid E i then map_option R_project (map_of (lesson_projects d) i) else None)
          | K_body \<Rightarrow> (if is_uuid E i
                then map_option (\<lambda>b. R_project (b_project b)) (find_row b_id i (bodies d)) else None)
          | K_intake \<Rightarrow> (if is_uuid E i
                then map_option (\<lambda>x. R_project (i_project x)) (find_row i_id i (intake_items d)) else None)
          | K_motion \<Rightarrow> (if is_uuid E i
                then Option.bind (find_row m_id i (motions d)) (\<lambda>m. topic_scope d (m_topic m)) else None)
          | K_dispute \<Rightarrow> (if is_uuid E i
                then Option.bind (find_row d_id i (disputes d)) (\<lambda>x. topic_scope d (d_topic x)) else None)
          | K_request \<Rightarrow> (if is_uuid E i
                then Option.bind (find_row r_id i (requests d)) (\<lambda>r. topic_scope d (r_topic r)) else None)
          | K_task \<Rightarrow> (if is_uuid E i then task_scope d i else None)
          | K_global \<Rightarrow> Some R_global)"

definition loadPrincipalLite :: "env \<Rightarrow> string option \<Rightarrow> db \<Rightarrow> principal_row option" where
  "loadPrincipalLite E pid d = (case pid of
     None \<Rightarrow> None
   | Some p \<Rightarrow> if is_uuid E p then find_row pr_id p (principals d) else None)"

definition loadActiveGrants :: "string \<Rightarrow> db \<Rightarrow> grant_row list" where
  "loadActiveGrants pid d = filter (\<lambda>g. g_grantee g = pid \<and> g_revoked_at g = None) (grants d)"

section \<open>Decision, log, gate\<close>

definition evaluate :: "env \<Rightarrow> string option \<Rightarrow> action \<Rightarrow> res_ref \<Rightarrow> db \<Rightarrow> decision \<times> res_scope option" where
  "evaluate E pid act rf d = (case loadPrincipalLite E pid d of
     None \<Rightarrow> (Deny NO_PRINCIPAL, None)
   | Some p \<Rightarrow>
       if pr_is_root p then (Allow ROOT None, None)
       else if pr_status p \<noteq> P_active then (Deny PRINCIPAL_INACTIVE, None)
       else (case resolveResourceScope E rf d of
               None \<Rightarrow> (Deny OUT_OF_SCOPE, None)
             | Some res \<Rightarrow>
                 (decide (Some p) act res (loadActiveGrants (pr_id p) d), Some res)))"

text \<open>
  \<open>authorize\<close>: with authorization disabled the answer is ALLOW, with no read and no log; otherwise
  the decision is appended to \<^verbatim>\<open>authz_decisions\<close>. The log write is best effort in the code; the
  model is the run in which it succeeds. The logged resource id is cut to 256 characters.
\<close>

definition logDecision ::
  "string option \<Rightarrow> action \<Rightarrow> res_ref \<Rightarrow> decision \<Rightarrow> db \<Rightarrow> db" where
  "logDecision pid act rf dec d =
     d\<lparr>authz_decisions := authz_decisions d @
        [\<lparr>z_principal = pid, z_action = act, z_kind = ref_kind rf,
          z_resource = map_option (take 256) (ref_id rf), z_decision = dec\<rparr>]\<rparr>"

definition authorize ::
  "env \<Rightarrow> string option \<Rightarrow> action \<Rightarrow> res_ref \<Rightarrow> db \<Rightarrow> decision \<times> db" where
  "authorize E pid act rf d =
     (if \<not> auth_enabled E then (Allow AUTH_DISABLED None, d)
      else let dec = fst (evaluate E pid act rf d) in (dec, logDecision pid act rf dec d))"

definition assertAuthorized ::
  "env \<Rightarrow> string option \<Rightarrow> action \<Rightarrow> res_ref \<Rightarrow> db \<Rightarrow> exn option \<times> db" where
  "assertAuthorized E pid act rf d = (case authorize E pid act rf d of
     (Allow _ _, d') \<Rightarrow> (None, d')
   | (Deny why, d') \<Rightarrow>
       (if why = OUT_OF_SCOPE \<or> act = A_read then (Some (Hub NOT_FOUND), d')
        else (Some (Hub FORBIDDEN), d')))"

definition hasGlobalGrant :: "env \<Rightarrow> string option \<Rightarrow> action \<Rightarrow> db \<Rightarrow> bool" where
  "hasGlobalGrant E pid act d =
     (if \<not> auth_enabled E then True
      else case loadPrincipalLite E pid d of
          None \<Rightarrow> False
        | Some p \<Rightarrow>
            if pr_is_root p then True
            else if pr_status p \<noteq> P_active then False
            else list_ex (\<lambda>g. g_scope_type g = S_global \<and> capabilityCovers (g_capability g) act)
                   (loadActiveGrants (pr_id p) d))"

definition explainAuthorization ::
  "env \<Rightarrow> string option \<Rightarrow> action \<Rightarrow> res_ref \<Rightarrow> db \<Rightarrow> decision \<times> res_scope option" where
  "explainAuthorization E pid act rf d =
     (if \<not> auth_enabled E then (Allow AUTH_DISABLED None, None)
      else case evaluate E pid act rf d of
          (Allow w g, res) \<Rightarrow> (Allow w g, res)
        | (Deny w, res) \<Rightarrow> (Deny w, None))"

text \<open>\<^verbatim>\<open>await assertAuthorized(..)\<close> and the rest of the function.\<close>

definition guarded ::
  "env \<Rightarrow> string option \<Rightarrow> action \<Rightarrow> res_ref \<Rightarrow> (db \<Rightarrow> 'r outcome) \<Rightarrow> db \<Rightarrow> 'r outcome" where
  "guarded E pid act rf rest d = (case assertAuthorized E pid act rf d of
     (Some x, d') \<Rightarrow> (Inl x, d')
   | (None, d') \<Rightarrow> rest d')"

section \<open>What the services rely on\<close>

text \<open>A gate answers and writes nothing but the decision log.\<close>

locale gate =
  fixes check :: "db \<Rightarrow> exn option \<times> db"
  assumes only_log: "\<exists>l. snd (check d) = d\<lparr>authz_decisions := l\<rparr>"
begin

lemma gate_keeps:
  assumes "table_invariant I" and "I d"
  shows "I (snd (check d))"
  using only_log [of d] assms table_invariant.decision_log [of I] by auto

lemma gate_frame: "check d = (r, d') \<Longrightarrow> d' = d\<lparr>authz_decisions := authz_decisions d'\<rparr>"
  using only_log [of d] by auto

end

interpretation authz: gate "assertAuthorized E pid act rf" for E pid act rf
proof
  fix d
  show "\<exists>l. snd (assertAuthorized E pid act rf d) = d\<lparr>authz_decisions := l\<rparr>"
  proof (cases "auth_enabled E")
    case True
    then show ?thesis
      by (auto simp: assertAuthorized_def authorize_def logDecision_def Let_def
          split: decision.splits prod.splits)
  next
    case False
    then have "snd (assertAuthorized E pid act rf d) = d\<lparr>authz_decisions := authz_decisions d\<rparr>"
      by (simp add: assertAuthorized_def authorize_def)
    then show ?thesis by blast
  qed
qed

text \<open>A guarded service is denied, or runs on a database that differs in the log alone.\<close>

lemma guarded_cases:
  obtains x l where "guarded E pid act rf rest d = (Inl x, d\<lparr>authz_decisions := l\<rparr>)"
    and "x \<in> {Hub NOT_FOUND, Hub FORBIDDEN}"
  | l where "guarded E pid act rf rest d = rest (d\<lparr>authz_decisions := l\<rparr>)"
    and "fst (assertAuthorized E pid act rf d) = None"
proof -
  obtain r d' where a: "assertAuthorized E pid act rf d = (r, d')" by force
  from authz.gate_frame [OF a] obtain l where d': "d' = d\<lparr>authz_decisions := l\<rparr>" by blast
  show thesis
  proof (cases r)
    case None
    with a d' show thesis by (intro that(2)) (simp_all add: guarded_def)
  next
    case (Some x)
    with a have "x \<in> {Hub NOT_FOUND, Hub FORBIDDEN}"
      by (auto simp: assertAuthorized_def split: prod.splits decision.splits if_splits)
    with a d' Some show thesis by (intro that(1)) (simp_all add: guarded_def)
  qed
qed

lemma guarded_post:
  "(\<And>l. P (snd (rest (d\<lparr>authz_decisions := l\<rparr>)))) \<Longrightarrow> (\<And>l. P (d\<lparr>authz_decisions := l\<rparr>)) \<Longrightarrow>
    P (snd (guarded E pid act rf rest d))"
  by (cases rule: guarded_cases [of E pid act rf rest d]) simp_all

lemma guarded_result:
  "(\<And>l. P (rest (d\<lparr>authz_decisions := l\<rparr>))) \<Longrightarrow>
    (\<And>x l. x \<in> {Hub NOT_FOUND, Hub FORBIDDEN} \<Longrightarrow> P (Inl x, d\<lparr>authz_decisions := l\<rparr>)) \<Longrightarrow>
    P (guarded E pid act rf rest d)"
  by (cases rule: guarded_cases [of E pid act rf rest d]) simp_all

lemma guarded_Inr:
  assumes "guarded E pid act rf rest d = (Inr r, d')"
  obtains l where "rest (d\<lparr>authz_decisions := l\<rparr>) = (Inr r, d')"
  using assms by (cases rule: guarded_cases [of E pid act rf rest d]) auto

lemma guarded_committed:
  assumes "guarded E pid act rf (transaction body) d = (Inr r, d')"
    and "\<And>l. aborts A (body (d\<lparr>authz_decisions := l\<rparr>))" and "\<not> A r"
    and "\<And>l. after Q (body (d\<lparr>authz_decisions := l\<rparr>))"
  shows "Q r d'"
  using assms(1)
proof (rule guarded_Inr)
  fix l
  assume "transaction body (d\<lparr>authz_decisions := l\<rparr>) = (Inr r, d')"
  then show "Q r d'" using assms(2-4) by (rule committed_result)
qed

context effect
begin

lemma rel_guarded:
  assumes "\<And>d'. R d' (snd (rest d'))"
  shows "R d (snd (guarded E pid act rf rest d))"
proof (cases rule: guarded_cases [of E pid act rf rest d])
  case (1 x l)
  then show ?thesis using rel_log by simp
next
  case (2 l)
  then show ?thesis using rel_trans [OF rel_log assms] by simp
qed

end

lemma guarded_off [simp]: "\<not> auth_enabled E \<Longrightarrow> guarded E pid act rf rest d = rest d"
  by (simp add: guarded_def assertAuthorized_def authorize_def)

section \<open>The decision core\<close>

lemma decide_allow_iff:
  "(\<exists>w g. decide p act res gs = Allow w g) \<longleftrightarrow>
     (\<exists>x. p = Some x \<and> (pr_is_root x \<or> pr_status x = P_active \<and>
        (\<exists>g \<in> set gs. capabilityCovers (g_capability g) act \<and> scopeCovers g res)))"
  by (auto simp: decide_def find_Some_iff find_None_iff split: option.splits)

text \<open>\<open>below r s\<close>: the resource \<open>r\<close> sits at or below the scope \<open>s\<close> on the same branch.\<close>

fun below :: "res_scope \<Rightarrow> res_scope \<Rightarrow> bool" where
  "below r R_global = True"
| "below r (R_project p) = (scope_project r = Some p)"
| "below r (R_topic p t) = (scope_project r = Some p \<and> scope_topic r = Some t)"
| "below r (R_task p t k) = (r = R_task p t k)"
| "below r (R_group g) = (r = R_group g)"

lemma scopeCovers_below: "scopeCovers g s \<Longrightarrow> below r s \<Longrightarrow> scopeCovers g r"
  by (cases s) (auto simp: scopeCovers_def split: scope_type.splits)

lemma capabilityCovers_mono:
  "capabilityCovers c a \<Longrightarrow> a \<noteq> A_delegate \<Longrightarrow> b \<noteq> A_delegate \<Longrightarrow> act_rank b \<le> act_rank a \<Longrightarrow>
    capabilityCovers c b"
  by (auto simp: capabilityCovers_def split: if_splits)

lemma evaluate_allow:
  "evaluate E pid act rf d = (Allow w g, res) \<Longrightarrow>
    \<exists>p. loadPrincipalLite E pid d = Some p \<and> (pr_is_root p \<or> pr_status p = P_active)"
  by (auto simp: evaluate_def split: option.splits if_splits)

text \<open>The decision does not read the decision log.\<close>

lemma evaluate_log [simp]:
  "evaluate E pid act rf (d\<lparr>authz_decisions := l\<rparr>) = evaluate E pid act rf d"
  by (simp add: evaluate_def loadPrincipalLite_def resolveResourceScope_def loadActiveGrants_def
      topic_scope_def task_scope_def Let_def cong: if_cong option.case_cong res_kind.case_cong)

lemma authorize_log [simp]:
  "fst (authorize E pid act rf (d\<lparr>authz_decisions := l\<rparr>)) = fst (authorize E pid act rf d)"
  by (simp add: authorize_def Let_def)

lemma assertAuthorized_log [simp]:
  "fst (assertAuthorized E pid act rf (d\<lparr>authz_decisions := l\<rparr>)) = fst (assertAuthorized E pid act rf d)"
proof -
  have "fst (assertAuthorized E pid act rf d) = (case fst (authorize E pid act rf d) of
      Allow _ _ \<Rightarrow> None
    | Deny why \<Rightarrow> Some (Hub (if why = OUT_OF_SCOPE \<or> act = A_read then NOT_FOUND else FORBIDDEN)))" for d
    by (auto simp: assertAuthorized_def split: prod.splits decision.splits)
  then show ?thesis by simp
qed

text \<open>A read that is denied is answered \<open>NOT_FOUND\<close>, whatever the reason.\<close>

lemma assertAuthorized_read:
  "fst (assertAuthorized E pid A_read rf d) \<in> {None, Some (Hub NOT_FOUND)}"
  by (auto simp: assertAuthorized_def split: prod.splits decision.splits)

section \<open>Properties\<close>

text \<open>What allows an action: the root principal, or an active grant of an active principal that covers it.\<close>

definition entitled :: "env \<Rightarrow> string option \<Rightarrow> action \<Rightarrow> res_ref \<Rightarrow> db \<Rightarrow> bool" where
  "entitled E pid act rf d \<longleftrightarrow> (\<exists>p. loadPrincipalLite E pid d = Some p \<and>
     (pr_is_root p \<or> pr_status p = P_active \<and>
        (\<exists>res. resolveResourceScope E rf d = Some res \<and>
          (\<exists>g \<in> set (grants d). g_grantee g = pr_id p \<and> g_revoked_at g = None \<and>
             capabilityCovers (g_capability g) act \<and> scopeCovers g res))))"

lemma evaluate_entitled: "(\<exists>w g. fst (evaluate E pid act rf d) = Allow w g) \<longleftrightarrow> entitled E pid act rf d"
  using decide_allow_iff
  by (auto simp: evaluate_def entitled_def loadActiveGrants_def split: option.split)

text \<open>
  Property C27. Default deny: with authorization switched on, the gate opens exactly for the root principal
  and for an active principal with an unrevoked grant that covers the action and the resource's scope. Every
  refusal is \<^verbatim>\<open>NOT_FOUND\<close> or \<^verbatim>\<open>FORBIDDEN\<close>, and a refused read is always \<^verbatim>\<open>NOT_FOUND\<close>, so
  a reader cannot tell a hidden resource from a missing one.
\<close>

theorem default_deny:
  "fst (assertAuthorized E pid act rf d) \<in>
    (if auth_enabled E then (if entitled E pid act rf d then {None}
       else if act = A_read then {Some (Hub NOT_FOUND)} else {Some (Hub NOT_FOUND), Some (Hub FORBIDDEN)})
     else {None})"
proof (cases "auth_enabled E")
  case True
  have gate: "fst (assertAuthorized E pid act rf d) = (case fst (evaluate E pid act rf d) of
      Allow _ _ \<Rightarrow> None
    | Deny why \<Rightarrow> Some (Hub (if why = OUT_OF_SCOPE \<or> act = A_read then NOT_FOUND else FORBIDDEN)))"
    using True by (auto simp: assertAuthorized_def authorize_def Let_def split: decision.splits)
  show ?thesis
    using True evaluate_entitled [of E pid act rf d] unfolding gate
    by (cases "fst (evaluate E pid act rf d)") auto
qed (simp add: assertAuthorized_def authorize_def)

end
