(* ===== verification/Events.thy ===== *)
theory Events
  imports Authorize
begin

text \<open>
  The append-only event log of a topic (services/coordinationEvents.ts, coordinationConstants.ts):
  \<open>appendEvent\<close>, the only writer of \<^verbatim>\<open>coordination_events\<close>, and \<open>replayEvents\<close>, the cursor read.

  \<open>log_ext d d'\<close> is what a sequence of appends may do to the log; it is reflexive and transitive,
  so a transaction body satisfies it when each of its statements does. The invariant \<open>log_ok\<close>
  (sequence numbers of a topic are 1, 2, .. without a gap) and the seal of a closed topic
  follow from it for every operation at once.
\<close>

section \<open>The catalogue\<close>

definition EVENT_TYPES :: "string list" where
  "EVENT_TYPES =
    [''topic.chartered'', ''topic.actor_joined'', ''topic.closed'',
     ''task.posted'', ''task.claimed'', ''task.released'', ''task.completed'', ''task.deferred'',
     ''artifact.created'', ''artifact.versioned'', ''artifact.state_changed'',
     ''claim.granted'', ''claim.conflict'', ''claim.expired'',
     ''request.submitted'', ''request.step_decided'', ''request.step_escalated'', ''request.resolved'',
     ''motion.proposed'', ''motion.seconded'', ''vote.cast'', ''motion.tallied'', ''motion.vetoed'',
     ''intake.received'', ''intake.triaged'', ''dispute.opened'', ''dispute.resolved'',
     ''topic.closing'',
     ''claim.force_lapsed'', ''request.force_closed'', ''motion.force_lapsed'',
     ''dispute.force_closed'', ''intake.force_dismissed'',
     ''topic.level_granted'']"

definition SUBJECT_TYPES :: "string list" where
  "SUBJECT_TYPES =
    [''task'', ''artifact'', ''request'', ''motion'', ''dispute'', ''intake'', ''topic'']"

record event_input =
  ei_topic :: string
  ei_actor :: string
  ei_type :: string
  ei_subject_type :: string
  ei_subject :: string
  ei_payload :: json

text \<open>The object literal \<^verbatim>\<open>{ topic_id, actor_id, type, subject_type, subject_id, payload }\<close>.\<close>

definition ev :: "string \<Rightarrow> string \<Rightarrow> string \<Rightarrow> string \<Rightarrow> string \<Rightarrow> (string \<times> json) list \<Rightarrow> event_input" where
  "ev topic actor ty sty subj payload =
     \<lparr>ei_topic = topic, ei_actor = actor, ei_type = ty, ei_subject_type = sty,
      ei_subject = subj, ei_payload = JObj payload\<rparr>"

record append_result =
  ar_seq :: nat
  ar_event_id :: string
  ar_ts :: int

section \<open>appendEvent\<close>

text \<open>\<^verbatim>\<open>UPDATE topics SET next_seq = next_seq + 1 WHERE topic_id = $1 AND status <> 'closed'\<close>\<close>

definition bump_seq :: "string \<Rightarrow> topic_row list \<Rightarrow> topic_row list" where
  "bump_seq tid = update_where (\<lambda>t. t_id t = tid \<and> t_status t \<noteq> Closed)
                    (\<lambda>t. t\<lparr>t_next_seq := Suc (t_next_seq t)\<rparr>)"

definition appendEvent :: "env \<Rightarrow> event_input \<Rightarrow> (append_result, 'r) dtx" where
  "appendEvent E evt d =
     (if ei_type evt \<notin> set EVENT_TYPES then (Throw (Hub BAD_REQUEST), d)
      else if ei_subject_type evt \<notin> set SUBJECT_TYPES then (Throw (Hub BAD_REQUEST), d)
      else case find_row t_id (ei_topic evt) (topics d) of
          None \<Rightarrow> (Throw (Hub NOT_FOUND), d)
        | Some t \<Rightarrow>
            if t_status t = Closed then (Throw (Hub BAD_REQUEST), d)
            else
              let seq = Suc (t_next_seq t);
                  eid = uuid_of E (uuid_ctr d);
                  row = \<lparr>e_topic = ei_topic evt, e_seq = seq, e_id = eid, e_ts = pg_now E,
                         e_actor = ei_actor evt, e_type = ei_type evt,
                         e_subject_type = ei_subject_type evt, e_subject = ei_subject evt,
                         e_payload = ei_payload evt\<rparr>;
                  d1 = d\<lparr>topics := bump_seq (ei_topic evt) (topics d), uuid_ctr := Suc (uuid_ctr d)\<rparr>
              in if exists_where (\<lambda>e. (e_topic e = ei_topic evt \<and> e_seq e = seq) \<or> e_id e = eid) (events d)
                 then (Throw Pg_unique, d1)
                 else (Next \<lparr>ar_seq = seq, ar_event_id = eid, ar_ts = pg_now E\<rparr>,
                       d1\<lparr>events := events d @ [row]\<rparr>))"

text \<open>An append whose result the caller ignores.\<close>

definition emit :: "env \<Rightarrow> event_input \<Rightarrow> (unit, 'r) dtx" where
  "emit E evt = tx_unit (appendEvent E evt)"

section \<open>The log of a topic\<close>

definition log_of :: "db \<Rightarrow> string \<Rightarrow> event_row list" where
  "log_of d tid = filter (\<lambda>e. e_topic e = tid) (events d)"

definition topic_of :: "db \<Rightarrow> string \<Rightarrow> topic_row option" where
  "topic_of d tid = find_row t_id tid (topics d)"

definition topic_status_of :: "db \<Rightarrow> string \<Rightarrow> topic_status option" where
  "topic_status_of d tid = map_option t_status (topic_of d tid)"

definition log_ok :: "db \<Rightarrow> bool" where
  "log_ok d \<longleftrightarrow> pkey t_id (topics d) \<and>
     (\<forall>tid. map e_seq (log_of d tid) =
        (case topic_of d tid of None \<Rightarrow> [] | Some t \<Rightarrow> [1..<Suc (t_next_seq t)]))"

text \<open>\<open>log_step d d' tid n\<close>: the topic's log grew by \<open>n\<close> events, numbered from its counter.\<close>

definition log_step :: "db \<Rightarrow> db \<Rightarrow> string \<Rightarrow> nat \<Rightarrow> bool" where
  "log_step d d' tid n \<longleftrightarrow>
     topic_of d' tid = map_option (\<lambda>t. t\<lparr>t_next_seq := t_next_seq t + n\<rparr>) (topic_of d tid) \<and>
     (topic_of d tid = None \<or> topic_status_of d tid = Some Closed \<longrightarrow> n = 0) \<and>
     (\<exists>new. log_of d' tid = log_of d tid @ new \<and>
        map e_seq new = (case topic_of d tid of None \<Rightarrow> []
          | Some t \<Rightarrow> [Suc (t_next_seq t)..<Suc (t_next_seq t + n)]))"

definition log_ext :: "db \<Rightarrow> db \<Rightarrow> bool" where
  "log_ext d d' \<longleftrightarrow> map t_id (topics d') = map t_id (topics d) \<and> (\<forall>tid. \<exists>n. log_step d d' tid n)"

lemma log_step_refl: "topics d' = topics d \<Longrightarrow> events d' = events d \<Longrightarrow> log_step d d' tid 0"
  by (auto simp: log_step_def topic_of_def log_of_def option.map_ident cong: option.map_cong
      split: option.splits)

lemma log_ext_same: "topics d' = topics d \<Longrightarrow> events d' = events d \<Longrightarrow> log_ext d d'"
  by (simp add: log_ext_def) (blast intro: log_step_refl)

lemma log_ext_refl [simp, intro]: "log_ext d d"
  by (rule log_ext_same) simp_all

lemma log_step_trans:
  assumes a: "log_step d d' tid n" and b: "log_step d' d'' tid m"
  shows "log_step d d'' tid (n + m)"
proof (cases "topic_of d tid")
  case None
  with a b show ?thesis by (auto simp: log_step_def)
next
  case (Some t)
  from a Some obtain new where 1: "topic_of d' tid = Some (t\<lparr>t_next_seq := t_next_seq t + n\<rparr>)"
      "log_of d' tid = log_of d tid @ new" "map e_seq new = [Suc (t_next_seq t)..<Suc (t_next_seq t + n)]"
    by (auto simp: log_step_def)
  with b obtain new' where 2: "topic_of d'' tid = Some (t\<lparr>t_next_seq := t_next_seq t + n + m\<rparr>)"
      "log_of d'' tid = log_of d' tid @ new'"
      "map e_seq new' = [Suc (t_next_seq t + n)..<Suc (t_next_seq t + n + m)]"
    by (auto simp: log_step_def)
  from 1 2 have new: "map e_seq (new @ new') = [Suc (t_next_seq t)..<Suc (t_next_seq t + (n + m))]"
    using upt_add_eq_append [of "Suc (t_next_seq t)" "Suc (t_next_seq t + n)" m]
    by (simp add: add.assoc)
  have closed: "topic_status_of d tid = Some Closed \<longrightarrow> n + m = 0"
    using a b 1 Some by (auto simp: log_step_def topic_status_of_def)
  from 1 2 new closed Some show ?thesis
    unfolding log_step_def by (auto simp: add.assoc intro!: exI [of _ "new @ new'"])
qed

lemma log_ext_trans [trans]: "log_ext d d' \<Longrightarrow> log_ext d' d'' \<Longrightarrow> log_ext d d''"
  unfolding log_ext_def by (metis log_step_trans)

lemma log_ext_same_trans:
  "log_ext d d' \<Longrightarrow> topics d'' = topics d' \<Longrightarrow> events d'' = events d' \<Longrightarrow> log_ext d d''"
  by (blast intro: log_ext_trans log_ext_same)

lemma pkey_map: "pkey k xs \<longleftrightarrow> distinct (map k xs)"
  by (simp add: pkey_def)

lemma log_ext_ok: "log_ok d \<Longrightarrow> log_ext d d' \<Longrightarrow> log_ok d'"
proof -
  assume ok: "log_ok d" and ext: "log_ext d d'"
  have "map e_seq (log_of d' tid) = (case topic_of d' tid of None \<Rightarrow> [] | Some t \<Rightarrow> [1..<Suc (t_next_seq t)])"
    for tid
  proof -
    obtain n where s: "log_step d d' tid n" using ext by (auto simp: log_ext_def)
    show ?thesis
    proof (cases "topic_of d tid")
      case None
      with s ok show ?thesis by (auto simp: log_step_def log_ok_def)
    next
      case (Some t)
      with s ok show ?thesis
        using upt_add_eq_append [of 1 "Suc (t_next_seq t)" n]
        by (auto simp: log_step_def log_ok_def simp del: upt_Suc)
    qed
  qed
  with ok ext show ?thesis by (simp add: log_ok_def log_ext_def pkey_map)
qed

text \<open>A closed topic: its log and its row are frozen.\<close>

lemma log_ext_sealed:
  assumes "log_ext d d'" and "topic_status_of d tid = Some Closed"
  shows "log_of d' tid = log_of d tid" and "topic_status_of d' tid = Some Closed"
proof -
  obtain n where s: "log_step d d' tid n" using assms(1) by (auto simp: log_ext_def)
  with assms(2) show "log_of d' tid = log_of d tid" "topic_status_of d' tid = Some Closed"
    by (auto simp: log_step_def topic_status_of_def)
qed

lemma log_ext_status:
  assumes "log_ext d d'"
  shows "topic_status_of d' tid = topic_status_of d tid"
proof -
  obtain n where "log_step d d' tid n" using assms by (auto simp: log_ext_def)
  then show ?thesis
    by (cases "topic_of d tid") (simp_all add: log_step_def topic_status_of_def)
qed

lemma log_ext_prefix: "log_ext d d' \<Longrightarrow> \<exists>new. log_of d' tid = log_of d tid @ new"
  unfolding log_ext_def log_step_def by blast

section \<open>What an append does\<close>

lemma topic_of_bump:
  "topic_of (d\<lparr>topics := bump_seq x (topics d)\<rparr>) tid =
     map_option (\<lambda>t. if tid = x \<and> t_status t \<noteq> Closed then t\<lparr>t_next_seq := Suc (t_next_seq t)\<rparr> else t)
       (topic_of d tid)"
  by (cases "topic_of d tid")
    (auto simp: topic_of_def bump_seq_def find_row_update_where dest: find_row_key)

lemma map_bump_seq [simp]: "map t_id (bump_seq x ts) = map t_id ts"
  by (simp add: bump_seq_def map_update_where)

text \<open>
  The state after a successful append, as an explicit update. Every table but the topics' counters
  and the log is the table before the call.
\<close>

lemma appendEvent_Next:
  assumes "appendEvent E evt d = (Next r, d')"
  obtains t row where
    "topic_of d (ei_topic evt) = Some t" "t_status t \<noteq> Closed"
    "row = \<lparr>e_topic = ei_topic evt, e_seq = Suc (t_next_seq t), e_id = uuid_of E (uuid_ctr d),
            e_ts = pg_now E, e_actor = ei_actor evt, e_type = ei_type evt,
            e_subject_type = ei_subject_type evt, e_subject = ei_subject evt,
            e_payload = ei_payload evt\<rparr>"
    "d' = d\<lparr>topics := bump_seq (ei_topic evt) (topics d), uuid_ctr := Suc (uuid_ctr d),
            events := events d @ [row]\<rparr>"
    "ei_type evt \<in> set EVENT_TYPES" "ei_subject_type evt \<in> set SUBJECT_TYPES"
    "r = \<lparr>ar_seq = Suc (t_next_seq t), ar_event_id = uuid_of E (uuid_ctr d), ar_ts = pg_now E\<rparr>"
  using assms by (auto simp: appendEvent_def topic_of_def Let_def split: if_splits option.splits)

lemma appendEvent_log_ext:
  assumes "appendEvent E evt d = (Next r, d')"
  shows "log_ext d d'"
proof -
  from assms obtain t row where 1: "topic_of d (ei_topic evt) = Some t" "t_status t \<noteq> Closed"
    "e_topic row = ei_topic evt" "e_seq row = Suc (t_next_seq t)"
    "d' = d\<lparr>topics := bump_seq (ei_topic evt) (topics d), uuid_ctr := Suc (uuid_ctr d),
            events := events d @ [row]\<rparr>"
    by (elim appendEvent_Next) (rule that, simp_all)
  let ?x = "ei_topic evt"
  have "log_step d d' tid (if tid = ?x then 1 else 0)" for tid
  proof (cases "tid = ?x")
    case True
    then have "topic_of d' tid = Some (t\<lparr>t_next_seq := Suc (t_next_seq t)\<rparr>)"
      using 1 topic_of_bump [of ?x d tid] by (simp add: topic_of_def)
    moreover have "log_of d' tid = log_of d tid @ [row]" using 1 True by (simp add: log_of_def)
    ultimately show ?thesis using 1 True by (simp add: log_step_def topic_status_of_def)
  next
    case False
    then have "topic_of d' tid = topic_of d tid"
      using 1 topic_of_bump [of ?x d tid]
      by (cases "topic_of d tid") (simp_all add: topic_of_def)
    moreover have "log_of d' tid = log_of d tid" using 1 False by (simp add: log_of_def)
    ultimately show ?thesis using False
      by (cases "topic_of d tid") (simp_all add: log_step_def)
  qed
  with 1 show ?thesis unfolding log_ext_def by auto
qed

text \<open>
  \<open>logged d d'\<close>: between \<open>d\<close> and \<open>d'\<close> nothing happened but appends. The rule for \<open>emit\<close> in a
  postcondition proof is \<open>after_emit\<close>.
\<close>

definition logged :: "db \<Rightarrow> db \<Rightarrow> bool" where
  "logged d d' \<longleftrightarrow> log_ext d d' \<and>
     (\<exists>ts es u. d' = d\<lparr>topics := ts, events := es, uuid_ctr := u\<rparr>)"

lemma loggedI:
  "log_ext d d' \<Longrightarrow> d' = d\<lparr>topics := ts, events := es, uuid_ctr := u\<rparr> \<Longrightarrow> logged d d'"
  unfolding logged_def by blast

lemma logged_eqI:
  "log_ext d d' \<Longrightarrow> d' = d\<lparr>topics := topics d', events := events d', uuid_ctr := uuid_ctr d'\<rparr> \<Longrightarrow>
    logged d d'"
  unfolding logged_def by blast

lemma logged_refl [simp, intro]: "logged d d"
  by (rule loggedI [where ts = "topics d" and es = "events d" and u = "uuid_ctr d"]) (simp_all add: log_ext_refl)

lemma logged_trans [trans]: "logged d d' \<Longrightarrow> logged d' d'' \<Longrightarrow> logged d d''"
proof -
  assume a: "logged d d'" and b: "logged d' d''"
  from a obtain ts es u where 1: "log_ext d d'" "d' = d\<lparr>topics := ts, events := es, uuid_ctr := u\<rparr>"
    unfolding logged_def by blast
  from b obtain ts' es' u' where 2: "log_ext d' d''"
    "d'' = d'\<lparr>topics := ts', events := es', uuid_ctr := u'\<rparr>" unfolding logged_def by blast
  show ?thesis
    by (rule loggedI [where ts = ts' and es = es' and u = u'])
      (use 1 2 in \<open>auto intro: log_ext_trans\<close>)
qed

lemma logged_ext: "logged d d' \<Longrightarrow> log_ext d d'"
  by (simp add: logged_def)

lemma appendEvent_logged: "appendEvent E evt d = (Next r, d') \<Longrightarrow> logged d d'"
  by (frule appendEvent_log_ext, erule appendEvent_Next)
    (rule logged_eqI, assumption, simp)

lemma after_append:
  fixes Q :: "append_result \<Rightarrow> db \<Rightarrow> bool"
  assumes "\<And>r d'. (appendEvent E evt :: (append_result, 'r) dtx) d = (Next r, d') \<Longrightarrow> logged d d' \<Longrightarrow> Q r d'"
  shows "after Q ((appendEvent E evt :: (append_result, 'r) dtx) d)"
  using assms by (auto intro!: after_I dest: appendEvent_logged)

lemma emit_Next:
  assumes "(emit E evt :: (unit, 'r) dtx) d = (Next u, d')"
  obtains r where "(appendEvent E evt :: (append_result, 'r) dtx) d = (Next r, d')"
  using assms by (auto simp: emit_def tx_unit_def tx_then_Next tx_return_def)

lemma after_emit: "(\<And>d'. logged d d' \<Longrightarrow> Q () d') \<Longrightarrow> after Q (emit E evt d)"
  by (rule after_I) (auto elim!: emit_Next dest: appendEvent_logged)

lemma no_abort_emit [no_abort_intros]: "no_abort (appendEvent E evt d)" "no_abort (emit E evt d)"
proof -
  show "no_abort (appendEvent E evt d)" for d :: db
    by (simp add: appendEvent_def Let_def split: option.split)
  then show "no_abort (emit E evt d)" unfolding emit_def by (rule no_abort_unit)
qed

lemma aborts_emit [aborts_simps]: "aborts A (appendEvent E evt d)" "aborts A (emit E evt d)"
  by (simp_all add: aborts_no_abort no_abort_emit)

text \<open>A write with its event: the transaction commits both, or nothing.\<close>

lemma write_and_emit:
  fixes r :: 'a
  obtains d' where "transaction (tx_then (tx_block [tx_write f, emit E e]) (tx_return r)) d = (Inr r, d')"
    and "logged (f d) d'"
  | x d' where "transaction (tx_then (tx_block [tx_write f, emit E e]) (tx_return r)) d = (Inl x, rollback d d')"
proof -
  let ?m = "tx_then (tx_block [tx_write f, emit E e]) (tx_return r) :: ('a, 'a) dtx"
  have na: "no_abort (?m d)" by (intro no_abort_intros)
  have po: "after (\<lambda>a d'. a = r \<and> logged (f d) d') (?m d)"
    by (auto simp: after_simps intro!: after_emit simp del: tx_block.simps)
  show thesis
  proof (cases "?m d")
    case (Pair c d')
    show thesis
    proof (cases c)
      case (Next a)
      note res = Pair [unfolded this]
      have "a = r" "logged (f d) d'" using after_Next [OF po res] by blast+
      then show thesis using transaction_simps(1) [of ?m, OF res] by (intro that(1) [of d']) simp_all
    next
      case (Abort a)
      with na show thesis unfolding Pair by simp
    next
      case (Throw x)
      show thesis
        using transaction_simps(3) [of ?m, OF Pair [unfolded Throw]] by (intro that(2) [of x d'])
    qed
  qed
qed

text \<open>The tables a logged step leaves alone.\<close>

lemma logged_frame [simp]:
  assumes "logged d d'"
  shows "actors d' = actors d" "participants d' = participants d" "tasks d' = tasks d"
    "artifacts d' = artifacts d" "versions d' = versions d" "claims d' = claims d"
    "matrix d' = matrix d" "matrix_levels d' = matrix_levels d" "requests d' = requests d"
    "steps d' = steps d" "bodies d' = bodies d" "members d' = members d" "motions d' = motions d"
    "votes d' = votes d" "proxies d' = proxies d" "intake_items d' = intake_items d"
    "disputes d' = disputes d" "projects d' = projects d" "principals d' = principals d"
    "grants d' = grants d" "authz_decisions d' = authz_decisions d" "fencing_seq d' = fencing_seq d"
    "doc_projects d' = doc_projects d" "lesson_projects d' = lesson_projects d"
  using assms unfolding logged_def by auto

lemma logged_status [simp]: "logged d d' \<Longrightarrow> topic_status_of d' tid = topic_status_of d tid"
  by (simp add: logged_def log_ext_status)

lemma emit_closed:
  "topic_status_of d (ei_topic evt) = Some Closed \<Longrightarrow> emit E evt d \<noteq> (Next u, d')"
  by (auto elim!: emit_Next appendEvent_Next simp: topic_status_of_def)

interpretation logok: table_invariant log_ok
  by unfold_locales (simp add: log_ok_def log_of_def topic_of_def)

section \<open>The contract of a service call\<close>

text \<open>
  What a service needs of a relation \<open>R\<close> to be proved to stay within it: \<open>R\<close> allows an append to a
  log, and any write that leaves the topics, the log and the board (tasks, artifacts, versions,
  claims) alone. The extensions of the locale in \<open>Chaining\<close>, \<open>Artifacts\<close> and \<open>Board\<close> add the
  statements that do touch the board; \<open>base_service\<close> is for the operations that leave the routes of
  requests and the motions alone as well. Every component proves \<open>R\<close> for its operations once, in the
  locale; the interpretations give it for the log here and for the law of the board in \<open>BoardLaw\<close>.
\<close>

definition untouched :: "db \<Rightarrow> db \<Rightarrow> bool" where
  "untouched d d' \<longleftrightarrow> topics d' = topics d \<and> events d' = events d \<and> tasks d' = tasks d \<and>
     artifacts d' = artifacts d \<and> versions d' = versions d \<and> claims d' = claims d"

declare untouched_def [simp]

definition outer :: "db \<Rightarrow> db \<Rightarrow> bool" where
  "outer d d' \<longleftrightarrow> untouched d d' \<and> requests d' = requests d \<and> steps d' = steps d \<and> motions d' = motions d"

declare outer_def [simp]

locale append_service = effect R for R :: "db \<Rightarrow> db \<Rightarrow> bool" +
  assumes rel_logged: "logged d d' \<Longrightarrow> R d d'"
begin

lemma rel_emit: "after (\<lambda>_. R d) (emit E evt d)"
  by (rule after_emit) (rule rel_logged)

lemma rel_append: "after (\<lambda>_. R d) (appendEvent E evt d)"
  by (rule after_append) (rule rel_logged)

lemmas emit_rules = rel_rules rel_guarded rel_emit rel_append

end

locale base_service = append_service +
  assumes rel_outer: "outer d d' \<Longrightarrow> R d d'"
begin

lemma rel_outer_write: "outer d (f d) \<Longrightarrow> after (\<lambda>_. R d) (tx_write f d)"
  by (simp add: after_write rel_outer)

lemma rel_outer_insert:
  "outer d (upd (\<lambda>tbl. tbl @ [row]) d) \<Longrightarrow> after (\<lambda>_. R d) (insert_row key sel upd row d)"
  by (simp add: after_insert_row rel_outer)

lemmas outer_rules = emit_rules rel_outer_write rel_outer_insert

end

locale log_service = base_service +
  assumes rel_untouched: "untouched d d' \<Longrightarrow> R d d'"
begin

lemma rel_write: "untouched d (f d) \<Longrightarrow> after (\<lambda>_. R d) (tx_write f d)"
  by (simp add: after_write rel_untouched)

lemma rel_insert:
  "untouched d (upd (\<lambda>tbl. tbl @ [row]) d) \<Longrightarrow> after (\<lambda>_. R d) (insert_row key sel upd row d)"
  by (simp add: after_insert_row rel_untouched)

lemmas rules = emit_rules rel_write rel_insert

end

interpretation log: log_service log_ext
  by unfold_locales (auto intro: log_ext_trans log_ext_same logged_ext)

section \<open>replayEvents\<close>

record replay_result =
  rp_events :: "event_row list"
  rp_next_cursor :: int
  rp_has_more :: bool

text \<open>\<^verbatim>\<open>SELECT .. WHERE topic_id = $1 AND seq > $2 ORDER BY seq ASC LIMIT $3\<close>\<close>

definition forward_page :: "db \<Rightarrow> string \<Rightarrow> int \<Rightarrow> nat \<Rightarrow> event_row list" where
  "forward_page d tid since lmt =
     take lmt (sort_key e_seq (filter (\<lambda>e. e_topic e = tid \<and> since < int (e_seq e)) (events d)))"

text \<open>\<^verbatim>\<open>.. ORDER BY seq DESC LIMIT $2\<close>, then \<^verbatim>\<open>reverse()\<close>.\<close>

definition tail_page :: "db \<Rightarrow> string \<Rightarrow> nat \<Rightarrow> event_row list" where
  "tail_page d tid lmt =
     rev (take lmt (rev (sort_key e_seq (filter (\<lambda>e. e_topic e = tid) (events d)))))"

definition cursor_after :: "int \<Rightarrow> event_row list \<Rightarrow> int" where
  "cursor_after since es = (if es = [] then since else int (e_seq (last es)))"

text \<open>
  In tail mode a page that is full but empty (a limit of 0) makes the code read
  \<^verbatim>\<open>events[0].seq\<close> of an empty array: a \<^verbatim>\<open>TypeError\<close>.
\<close>

definition replay_read :: "string \<Rightarrow> int \<Rightarrow> nat \<Rightarrow> bool \<Rightarrow> db \<Rightarrow> exn + replay_result" where
  "replay_read tid since lmt tail d =
     (if topic_of d tid = None then Inl (Hub NOT_FOUND)
      else if tail then
        let es = tail_page d tid lmt in
        (if length es = lmt then
           (case es of
              [] \<Rightarrow> Inl Js_type_error
            | e # _ \<Rightarrow> Inr \<lparr>rp_events = es, rp_next_cursor = cursor_after since es,
                rp_has_more = exists_where (\<lambda>x. e_topic x = tid \<and> e_seq x < e_seq e) (events d)\<rparr>)
         else Inr \<lparr>rp_events = es, rp_next_cursor = cursor_after since es, rp_has_more = False\<rparr>)
      else
        let es = forward_page d tid since lmt in
        Inr \<lparr>rp_events = es, rp_next_cursor = cursor_after since es, rp_has_more = (length es = lmt)\<rparr>)"

definition DEFAULT_REPLAY_LIMIT :: nat where
  "DEFAULT_REPLAY_LIMIT = 1000"

definition replayEvents ::
  "env \<Rightarrow> string option \<Rightarrow> string \<Rightarrow> int option \<Rightarrow> nat option \<Rightarrow> bool \<Rightarrow> db \<Rightarrow> replay_result outcome" where
  "replayEvents E pid tid since_seq lmt tail =
     guarded E pid A_read (rref K_topic tid) (\<lambda>d.
       (replay_read tid (case since_seq of None \<Rightarrow> 0 | Some s \<Rightarrow> s)
          (case lmt of None \<Rightarrow> DEFAULT_REPLAY_LIMIT | Some l \<Rightarrow> l) tail d, d))"

text \<open>
  The client the interface describes: it asks for the next page from \<open>next_cursor\<close> while
  \<open>has_more\<close> is true.
\<close>

fun replay_all ::
  "nat \<Rightarrow> env \<Rightarrow> string option \<Rightarrow> string \<Rightarrow> int \<Rightarrow> nat \<Rightarrow> db \<Rightarrow> event_row list option" where
  "replay_all 0 E pid tid since lmt d = None"
| "replay_all (Suc fuel) E pid tid since lmt d =
     (case replayEvents E pid tid (Some since) (Some lmt) False d of
        (Inl _, _) \<Rightarrow> None
      | (Inr r, d') \<Rightarrow>
          if rp_has_more r
          then map_option (\<lambda>es. rp_events r @ es) (replay_all fuel E pid tid (rp_next_cursor r) lmt d')
          else Some (rp_events r))"

text \<open>Over a log without gaps, the events past a cursor are a suffix of the log.\<close>

lemma seq_list_sorted: "map f xs = [a..<b] \<Longrightarrow> sort_key f xs = xs"
  by (simp add: sort_key_id_if_sorted)

lemma seq_list_filter:
  assumes "map f xs = [Suc m..<Suc n]"
  shows "filter (\<lambda>e. m + k < f e) xs = drop k xs"
  using assms
proof (induction xs arbitrary: m k)
  case Nil
  then show ?case by simp
next
  case (Cons x xs)
  then have "m < n" by (metis Suc_less_eq list.distinct(1) list.simps(9) upt_conv_Nil not_less)
  with Cons.prems have fx: "f x = Suc m" and rest: "map f xs = [Suc (Suc m)..<Suc n]"
    by (simp_all add: upt_conv_Cons del: upt_Suc)
  show ?case
  proof (cases k)
    case 0
    have "\<forall>e \<in> set xs. m < f e"
      using rest by (metis (no_types) Suc_lessD Suc_le_lessD atLeastLessThan_iff atLeastLessThan_upt
          image_eqI image_set)
    with 0 fx show ?thesis by (simp add: filter_id_conv)
  next
    case (Suc j)
    with Cons.IH [OF rest, of j] fx show ?thesis by (simp add: add.commute)
  qed
qed

lemma log_ok_seq:
  "log_ok d \<Longrightarrow> topic_of d tid = Some t \<Longrightarrow> map e_seq (log_of d tid) = [1..<Suc (t_next_seq t)]"
  by (auto simp: log_ok_def)

lemma log_ok_length:
  "log_ok d \<Longrightarrow> topic_of d tid = Some t \<Longrightarrow> length (log_of d tid) = t_next_seq t"
  using log_ok_seq [of d tid t] by (metis diff_Suc_1 length_map length_upt)

lemma forward_page_log:
  assumes "log_ok d" and "topic_of d tid = Some t"
  shows "forward_page d tid (int k) lmt = take lmt (drop k (log_of d tid))"
proof -
  have seq: "map e_seq (log_of d tid) = [Suc 0..<Suc (t_next_seq t)]"
    using log_ok_seq [OF assms] by simp
  have "filter (\<lambda>e. e_topic e = tid \<and> int k < int (e_seq e)) (events d)
      = filter (\<lambda>e. 0 + k < e_seq e) (log_of d tid)"
    by (simp add: log_of_def conj_commute)
  also have "\<dots> = drop k (log_of d tid)" by (rule seq_list_filter [OF seq])
  moreover have "sort_key e_seq (drop k (log_of d tid)) = drop k (log_of d tid)"
    using seq by (intro sort_key_id_if_sorted) (simp add: drop_map [symmetric] del: upt_Suc)
  ultimately show ?thesis by (simp add: forward_page_def)
qed

lemma tail_page_log:
  assumes "log_ok d" and "topic_of d tid = Some t"
  shows "tail_page d tid lmt = drop (t_next_seq t - lmt) (log_of d tid)"
proof -
  have "sort_key e_seq (log_of d tid) = log_of d tid"
    using log_ok_seq [OF assms] by (rule seq_list_sorted)
  then show ?thesis
    using log_ok_length [OF assms] by (simp add: tail_page_def log_of_def take_rev)
qed

lemma log_ok_nth:
  assumes "log_ok d" and "topic_of d tid = Some t" and "i < t_next_seq t"
  shows "e_seq (log_of d tid ! i) = Suc i"
proof -
  have "e_seq (log_of d tid ! i) = map e_seq (log_of d tid) ! i"
    using assms log_ok_length [OF assms(1,2)] by simp
  also have "\<dots> = Suc i" using assms(3) by (simp add: log_ok_seq [OF assms(1,2)] del: upt_Suc)
  finally show ?thesis .
qed

lemma cursor_after_page:
  assumes "log_ok d" and "topic_of d tid = Some t" and "k \<le> t_next_seq t"
  shows "cursor_after (int k) (take lmt (drop k (log_of d tid))) = int (min (k + lmt) (t_next_seq t))"
proof (cases "lmt = 0 \<or> k = t_next_seq t")
  case True
  with assms log_ok_length [OF assms(1,2)] show ?thesis by (auto simp: cursor_after_def)
next
  case False
  let ?p = "take lmt (drop k (log_of d tid))"
  have len: "length ?p = min lmt (t_next_seq t - k)" using log_ok_length [OF assms(1,2)] by simp
  with False assms(3) have ne: "?p \<noteq> []" and pos: "0 < length ?p" by auto
  have "last ?p = ?p ! (length ?p - 1)" using ne by (rule last_conv_nth)
  also have "\<dots> = drop k (log_of d tid) ! (length ?p - 1)"
    using pos by (intro nth_take) auto
  also have "\<dots> = log_of d tid ! (k + (length ?p - 1))"
    using pos by (intro nth_drop) auto
  finally have "last ?p = log_of d tid ! (k + (length ?p - 1))" .
  moreover have "k + (length ?p - 1) < t_next_seq t" using len pos assms(3) by linarith
  ultimately have "e_seq (last ?p) = Suc (k + (length ?p - 1))"
    using log_ok_nth [OF assms(1,2)] by simp
  with ne pos len assms(3) show ?thesis by (auto simp: cursor_after_def min_def)
qed

lemma replay_all_log:
  assumes "log_ok d" and "topic_of d tid = Some t" and "0 < lmt"
    and "fst (assertAuthorized E pid A_read (rref K_topic tid) d) = None"
    and "k \<le> t_next_seq t" and "t_next_seq t - k < fuel"
  shows "replay_all fuel E pid tid (int k) lmt d = Some (drop k (log_of d tid))"
  using assms
proof (induction fuel arbitrary: k d)
  case 0
  then show ?case by simp
next
  case (Suc fuel)
  obtain l where r: "replayEvents E pid tid (Some (int k)) (Some lmt) False d =
      (replay_read tid (int k) lmt False (d\<lparr>authz_decisions := l\<rparr>), d\<lparr>authz_decisions := l\<rparr>)"
    using Suc.prems(4) authz.only_log [of E pid A_read "rref K_topic tid" d] that
    by (cases "assertAuthorized E pid A_read (rref K_topic tid) d")
      (auto simp: replayEvents_def guarded_def)
  let ?d = "d\<lparr>authz_decisions := l\<rparr>"
  let ?p = "take lmt (drop k (log_of d tid))"
  have same: "log_of ?d tid = log_of d tid" "topic_of ?d tid = topic_of d tid" "log_ok ?d = log_ok d"
    by (simp_all add: log_of_def topic_of_def log_ok_def)
  note page = forward_page_log [of ?d tid t k lmt] cursor_after_page [of ?d tid t k lmt]
  have read: "replay_read tid (int k) lmt False ?d = Inr \<lparr>rp_events = ?p,
      rp_next_cursor = int (min (k + lmt) (t_next_seq t)), rp_has_more = (length ?p = lmt)\<rparr>"
    using Suc.prems page same by (simp add: replay_read_def)
  show ?case
  proof (cases "length ?p = lmt")
    case True
    with Suc.prems log_ok_length [OF Suc.prems(1,2)] have le: "k + lmt \<le> t_next_seq t" by simp
    then have "replay_all fuel E pid tid (int (k + lmt)) lmt ?d = Some (drop (k + lmt) (log_of d tid))"
      using Suc.IH [of ?d "k + lmt"] Suc.prems same by simp
    moreover have "?p @ drop (k + lmt) (log_of d tid) = drop k (log_of d tid)"
      by (metis add.commute append_take_drop_id drop_drop)
    ultimately show ?thesis using True le r read by (simp add: min_absorb1)
  next
    case False
    then have "?p = drop k (log_of d tid)" by (simp add: min_def split: if_splits)
    with False r read show ?thesis by simp
  qed
qed

section \<open>Properties\<close>

text \<open>
  Property C19. On a log without gaps, and with an event id that is not in use, \<^verbatim>\<open>appendEvent\<close> refuses
  an unknown type or subject type, an unknown topic and a closed topic; otherwise it returns the next
  sequence number of the topic, adds exactly that event at the end of the topic's log, and leaves the
  logs of the other topics alone.
\<close>

theorem appendEvent_spec:
  assumes "log_ok d" and "\<forall>e \<in> set (events d). e_id e \<noteq> uuid_of E (uuid_ctr d)"
  shows "(case topic_status_of d (ei_topic evt) of
      Some s \<Rightarrow> if ei_type evt \<in> set EVENT_TYPES \<and> ei_subject_type evt \<in> set SUBJECT_TYPES \<and> s \<noteq> Closed
        then \<exists>r d' e. appendEvent E evt d = (Next r, d') \<and> ar_seq r = Suc (length (log_of d (ei_topic evt))) \<and>
          log_of d' (ei_topic evt) = log_of d (ei_topic evt) @ [e] \<and>
          (e_seq e, e_type e, e_actor e, e_subject e, e_payload e) =
            (ar_seq r, ei_type evt, ei_actor evt, ei_subject evt, ei_payload evt) \<and>
          (\<forall>x. x \<noteq> ei_topic evt \<longrightarrow> log_of d' x = log_of d x)
        else appendEvent E evt d = (Throw (Hub BAD_REQUEST), d)
    | None \<Rightarrow> fst (appendEvent E evt d) \<in> {Throw (Hub BAD_REQUEST), Throw (Hub NOT_FOUND)} \<and>
        snd (appendEvent E evt d) = d)"
proof (cases "topic_of d (ei_topic evt)")
  case None
  then show ?thesis
    by (simp add: topic_status_of_def) (simp add: appendEvent_def topic_of_def)
next
  case (Some t)
  have len: "length (log_of d (ei_topic evt)) = t_next_seq t" by (rule log_ok_length [OF assms(1) Some])
  have "e_seq e < Suc (t_next_seq t)" if "e \<in> set (events d)" "e_topic e = ei_topic evt" for e
  proof -
    have "e \<in> set (log_of d (ei_topic evt))" using that by (simp add: log_of_def)
    then have "e_seq e \<in> set (map e_seq (log_of d (ei_topic evt)))" by simp
    then show ?thesis using log_ok_seq [OF assms(1) Some] by (simp del: upt_Suc)
  qed
  then have "\<not> exists_where (\<lambda>e. e_topic e = ei_topic evt \<and> e_seq e = Suc (t_next_seq t) \<or>
      e_id e = uuid_of E (uuid_ctr d)) (events d)"
    using assms(2) by (fastforce simp: exists_where_def list_ex_iff)
  with Some len show ?thesis
    by (auto simp: topic_status_of_def appendEvent_def topic_of_def [symmetric] Let_def log_of_def)
qed

theorem appendEvent_spec_witness:
  "\<exists>r d'. appendEvent dev_env (ev ''T'' ''ann'' ''task.posted'' ''task'' ''K'' [])
      (empty_db\<lparr>topics := [a_topic ''T'' Active 0]\<rparr>) = (Next r, d') \<and> ar_seq r = 1"
proof -
  let ?d = "empty_db\<lparr>topics := [a_topic ''T'' Active 0]\<rparr>"
  have "log_ok ?d"
    by (simp add: log_ok_def scenario_defs log_of_def topic_of_def find_row_Cons pkey_def)
  then show ?thesis
    using appendEvent_spec [of ?d dev_env "ev ''T'' ''ann'' ''task.posted'' ''task'' ''K'' []"]
    by (auto simp: scenario_defs ev_def topic_status_of_def topic_of_def find_row_Cons EVENT_TYPES_def
        SUBJECT_TYPES_def log_of_def)
qed

text \<open>
  Property C20. Paging through \<^verbatim>\<open>replayEvents\<close> from cursor 0 while \<^verbatim>\<open>has_more\<close> is true ends, within one
  call more than the topic has events, and the pages together are the whole log, in order, whatever
  the page size.
\<close>

theorem replay_complete:
  assumes "log_ok d" and "topic_of d tid = Some t" and "0 < lmt"
    and "fst (assertAuthorized E pid A_read (rref K_topic tid) d) = None"
  shows "replay_all (Suc (t_next_seq t)) E pid tid 0 lmt d = Some (log_of d tid)"
  using replay_all_log [OF assms, of 0 "Suc (t_next_seq t)"] by simp

definition two_events :: db where
  "two_events = empty_db\<lparr>topics := [a_topic ''T'' Active 2],
     events := [an_event ''T'' 1, an_event ''T'' 2]\<rparr>"

lemma two_events_ok: "log_ok two_events"
  by (auto simp: log_ok_def two_events_def scenario_defs log_of_def topic_of_def find_row_Cons pkey_def
      upt_conv_Cons)

theorem replay_complete_witness:
  "replay_all 3 dev_env None ''T'' 0 1 two_events = Some [an_event ''T'' 1, an_event ''T'' 2]"
  using replay_complete [OF two_events_ok, of "''T''" "a_topic ''T'' Active 2" 1 dev_env None]
  by (simp add: two_events_def scenario_defs topic_of_def find_row_Cons assertAuthorized_def authorize_def
      log_of_def)

text \<open>
  In tail mode \<^verbatim>\<open>replayEvents\<close> returns the last events of the log, at most the limit, in
  ascending order; the cursor it hands out is the topic's latest sequence number, so a forward read from
  it misses nothing, and \<^verbatim>\<open>has_more\<close> says whether older events were left out.
\<close>

theorem replay_tail:
  assumes "log_ok d" and "topic_of d tid = Some t" and "0 < lmt" and "0 < t_next_seq t"
  shows "replay_read tid 0 lmt True d = Inr
    \<lparr>rp_events = drop (length (log_of d tid) - lmt) (log_of d tid), rp_next_cursor = int (t_next_seq t),
     rp_has_more = (lmt < length (log_of d tid))\<rparr>"
proof -
  let ?n = "t_next_seq t"
  let ?p = "drop (?n - lmt) (log_of d tid)"
  note len = log_ok_length [OF assms(1,2)]
  have page: "tail_page d tid lmt = ?p" by (rule tail_page_log [OF assms(1,2)])
  have pl: "length ?p = min lmt ?n" using len by (simp add: min_def)
  have ne: "?p \<noteq> []" using pl assms(3,4) by (metis length_0_conv min_less_iff_conj less_irrefl)
  have "last ?p = log_of d tid ! (?n - 1)" using ne len by (simp add: last_conv_nth)
  then have cur: "cursor_after 0 ?p = int ?n"
    using ne log_ok_nth [OF assms(1,2), of "?n - 1"] assms(4) by (simp add: cursor_after_def)
  have hd: "e_seq (hd ?p) = Suc (?n - lmt)"
    using ne len log_ok_nth [OF assms(1,2), of "?n - lmt"] assms(3,4) by (simp add: hd_drop_conv_nth)
  have "exists_where (\<lambda>x. e_topic x = tid \<and> e_seq x < Suc (?n - lmt)) (events d) \<longleftrightarrow>
      (\<exists>i \<in> set (map e_seq (log_of d tid)). i < Suc (?n - lmt))"
    by (auto simp: exists_where_def list_ex_iff log_of_def)
  also have "\<dots> \<longleftrightarrow> lmt < ?n"
    using assms(3,4) unfolding log_ok_seq [OF assms(1,2)]
    by (auto simp del: upt_Suc intro!: bexI [of _ "Suc 0"])
  finally have more: "exists_where (\<lambda>x. e_topic x = tid \<and> e_seq x < Suc (?n - lmt)) (events d) = (lmt < ?n)" .
  show ?thesis
  proof (cases "length ?p = lmt")
    case True
    obtain e es where p: "?p = e # es" using ne by (cases ?p) auto
    with True page cur hd more len assms(2) show ?thesis
      by (simp add: replay_read_def Let_def)
  next
    case False
    with pl have "?n \<le> lmt" by (simp add: min_def split: if_splits)
    with False page cur len assms(2) show ?thesis by (simp add: replay_read_def Let_def)
  qed
qed

theorem replay_tail_witness:
  "replay_read ''T'' 0 1 True two_events = Inr
    \<lparr>rp_events = [an_event ''T'' 2], rp_next_cursor = 2, rp_has_more = True\<rparr>"
  using replay_tail [OF two_events_ok, of "''T''" "a_topic ''T'' Active 2" 1]
  by (simp add: two_events_def scenario_defs topic_of_def find_row_Cons log_of_def)

end
