(* ===== verification/Topics.thy ===== *)
theory Topics
  imports Events
begin

text \<open>
  The topic lifecycle (services/topics.ts, all but \<^verbatim>\<open>closeTopic\<close>, which is in \<open>Closing\<close>):
  \<open>charterTopic\<close>, \<open>joinTopic\<close> with its two transactions, \<open>grantLevel\<close> and \<open>getTopic\<close>.
  \<open>evolves\<close> is what any operation may do to the topics: the status moves forward only, the log
  grows at its end, the log of a closed topic does not change, the identity of a topic is fixed.

  A nullish string argument is the empty string, as \<^verbatim>\<open>(x ?? '').trim()\<close> makes it.
\<close>

section \<open>Evolution of topics\<close>

definition topic_grows :: "db \<Rightarrow> db \<Rightarrow> string \<Rightarrow> topic_row \<Rightarrow> bool" where
  "topic_grows d d' tid t \<longleftrightarrow>
     (\<exists>t'. topic_of d' tid = Some t' \<and> t_status t \<le> t_status t' \<and> t_id t' = t_id t \<and>
        t_project t' = t_project t \<and> t_created_by t' = t_created_by t) \<and>
     (\<exists>new. log_of d' tid = log_of d tid @ new \<and> (t_status t = Closed \<longrightarrow> new = []))"

definition evolves :: "db \<Rightarrow> db \<Rightarrow> bool" where
  "evolves d d' \<longleftrightarrow> (\<forall>tid t. topic_of d tid = Some t \<longrightarrow> topic_grows d d' tid t)"

lemma topic_grows_trans:
  assumes "topic_grows d d' tid t" and "\<And>t'. topic_of d' tid = Some t' \<Longrightarrow> topic_grows d' d'' tid t'"
  shows "topic_grows d d'' tid t"
proof -
  from assms(1) obtain t' new where 1: "topic_of d' tid = Some t'" "t_status t \<le> t_status t'"
    "t_id t' = t_id t" "t_project t' = t_project t" "t_created_by t' = t_created_by t"
    "log_of d' tid = log_of d tid @ new" "t_status t = Closed \<longrightarrow> new = []"
    unfolding topic_grows_def by blast
  from assms(2) [OF 1(1)] obtain t'' new' where 2: "topic_of d'' tid = Some t''"
    "t_status t' \<le> t_status t''" "t_id t'' = t_id t'" "t_project t'' = t_project t'"
    "t_created_by t'' = t_created_by t'"
    "log_of d'' tid = log_of d' tid @ new'" "t_status t' = Closed \<longrightarrow> new' = []"
    unfolding topic_grows_def by blast
  have "t_status t = Closed \<Longrightarrow> t_status t' = Closed"
    using 1(2) by (metis order.antisym topic_status_le_Closed)
  with 1 2 show ?thesis unfolding topic_grows_def by (auto intro: order.trans)
qed

lemma evolves_trans: "evolves d d' \<Longrightarrow> evolves d' d'' \<Longrightarrow> evolves d d''"
  unfolding evolves_def by (blast intro: topic_grows_trans)

lemma log_ext_evolves: "log_ext d d' \<Longrightarrow> evolves d d'"
  unfolding evolves_def
proof (intro allI impI)
  fix tid t
  assume e: "log_ext d d'" and t: "topic_of d tid = Some t"
  then obtain n where "log_step d d' tid n" by (auto simp: log_ext_def)
  with t show "topic_grows d d' tid t"
    by (auto simp: log_step_def topic_grows_def topic_status_of_def)
qed

lemma evolves_status: "evolves d d' \<Longrightarrow> topic_status_of d tid = Some s \<Longrightarrow>
    \<exists>s'. topic_status_of d' tid = Some s' \<and> s \<le> s'"
  unfolding evolves_def topic_grows_def topic_status_of_def by fastforce

lemma evolves_sealed:
  "evolves d d' \<Longrightarrow> topic_status_of d tid = Some Closed \<Longrightarrow>
    topic_status_of d' tid = Some Closed \<and> log_of d' tid = log_of d tid"
proof -
  assume e: "evolves d d'" and c: "topic_status_of d tid = Some Closed"
  from c obtain t where t: "topic_of d tid = Some t" "t_status t = Closed"
    by (auto simp: topic_status_of_def)
  with e obtain t' where "topic_of d' tid = Some t'" "Closed \<le> t_status t'"
    and "log_of d' tid = log_of d tid"
    unfolding evolves_def topic_grows_def by fastforce
  then show ?thesis
    by (metis map_option_eq_Some order.antisym topic_status_le_Closed topic_status_of_def)
qed

text \<open>A status change of one topic, forward.\<close>

definition set_status :: "string \<Rightarrow> (topic_status \<Rightarrow> bool) \<Rightarrow> topic_status \<Rightarrow> db \<Rightarrow> db" where
  "set_status tid P s d = d\<lparr>topics := update_where (\<lambda>t. t_id t = tid \<and> P (t_status t))
                                        (\<lambda>t. t\<lparr>t_status := s\<rparr>) (topics d)\<rparr>"

lemma topic_of_set_status:
  "topic_of (set_status tid P s d) x =
     map_option (\<lambda>t. if x = tid \<and> P (t_status t) then t\<lparr>t_status := s\<rparr> else t) (topic_of d x)"
  by (cases "topic_of d x")
    (auto simp: topic_of_def set_status_def find_row_update_where dest: find_row_key)

lemma set_status_evolves:
  assumes "\<And>t. topic_of d tid = Some t \<Longrightarrow> P (t_status t) \<Longrightarrow> t_status t \<le> s"
  shows "evolves d (set_status tid P s d)"
proof -
  have "log_of (set_status tid P s d) x = log_of d x" for x by (simp add: log_of_def set_status_def)
  with assms show ?thesis by (auto simp: evolves_def topic_grows_def topic_of_set_status)
qed

lemma set_status_log_ok: "log_ok (set_status tid P s d) = log_ok d"
proof -
  have "log_of (set_status tid P s d) x = log_of d x" for x by (simp add: log_of_def set_status_def)
  moreover have "pkey t_id (topics (set_status tid P s d)) = pkey t_id (topics d)"
    by (simp add: set_status_def pkey_update_where)
  moreover have "(case topic_of (set_status tid P s d) x of None \<Rightarrow> [] | Some t \<Rightarrow> [1..<Suc (t_next_seq t)])
      = (case topic_of d x of None \<Rightarrow> [] | Some t \<Rightarrow> [1..<Suc (t_next_seq t)])" for x
    by (auto simp: topic_of_set_status split: option.splits)
  ultimately show ?thesis by (simp add: log_ok_def)
qed

text \<open>What one operation does to the topics: they evolve, and the logs stay without gaps.\<close>

definition topic_step :: "db \<Rightarrow> db \<Rightarrow> bool" where
  "topic_step d d' \<longleftrightarrow> evolves d d' \<and> (log_ok d \<longrightarrow> log_ok d')"

lemma log_ext_step: "log_ext d d' \<Longrightarrow> topic_step d d'"
  by (simp add: topic_step_def log_ext_evolves) (blast intro: log_ext_ok)

lemma set_status_step:
  "(\<And>t. topic_of d tid = Some t \<Longrightarrow> P (t_status t) \<Longrightarrow> t_status t \<le> s) \<Longrightarrow>
    topic_step d (set_status tid P s d)"
  by (simp add: topic_step_def set_status_log_ok set_status_evolves)

interpretation topic: log_service topic_step
proof
  show "topic_step d d''" if "topic_step d d'" "topic_step d' d''" for d d' d''
    using that unfolding topic_step_def by (blast intro: evolves_trans)
  show "topic_step d (d\<lparr>fencing_seq := f, uuid_ctr := u, authz_decisions := l\<rparr>)" for d f u l
    by (rule log_ext_step) (rule log.rel_outside)
  show "topic_step d d'" if "logged d d'" for d d'
    using that by (intro log_ext_step log.rel_logged)
  show "topic_step d d'" if "outer d d'" for d d'
    using that by (intro log_ext_step log.rel_outer)
  show "topic_step d d'" if "untouched d d'" for d d'
    using that by (intro log_ext_step log.rel_untouched)
qed

section \<open>charterTopic\<close>

record topic_record =
  tr_id :: string
  tr_project :: string
  tr_name :: string
  tr_charter :: string
  tr_status :: topic_status
  tr_created_by :: string
  tr_created_at :: int

definition charterTopic ::
  "env \<Rightarrow> string option \<Rightarrow> string \<Rightarrow> string \<Rightarrow> string \<Rightarrow> string \<Rightarrow> db \<Rightarrow> topic_record outcome" where
  "charterTopic E pid project_id name charter created_by =
     guarded E pid A_write (rref K_project project_id) (\<lambda>d.
       let projectId = trim project_id; nm = trim name; ch = trim charter; createdBy = trim created_by
       in if projectId = [] \<or> nm = [] \<or> ch = [] \<or> createdBy = [] then throw BAD_REQUEST d
          else transaction (tx_bind (gen_uuid E) (\<lambda>topicId.
            tx_then (tx_block
              [insert_row t_id topics topics_update
                 \<lparr>t_id = topicId, t_project = projectId, t_name = nm, t_charter = ch,
                  t_status = Chartered, t_next_seq = 0, t_created_by = createdBy,
                  t_created_at = pg_now E\<rparr>,
               emit E (ev topicId createdBy ''topic.chartered'' ''topic'' topicId
                 [(''name'', JStr nm), (''project_id'', JStr projectId)])])
            (tx_return
               \<lparr>tr_id = topicId, tr_project = projectId, tr_name = nm, tr_charter = ch,
                tr_status = Chartered, tr_created_by = createdBy, tr_created_at = pg_now E\<rparr>))) d)"

section \<open>Topic and roster\<close>

record roster_entry =
  ro_actor :: string
  ro_level :: level
  ro_joined_at :: int
  ro_type :: "actor_type option"
  ro_display_name :: "string option"

text \<open>\<^verbatim>\<open>fetchTopicWithRoster\<close>: the roster is in the order of joining; actors are left-joined.\<close>

definition actor_of :: "db \<Rightarrow> string \<Rightarrow> string \<Rightarrow> actor_row option" where
  "actor_of d project actor = find_row (\<lambda>a. (a_project a, a_id a)) (project, actor) (actors d)"

definition roster_of :: "db \<Rightarrow> topic_row \<Rightarrow> roster_entry list" where
  "roster_of d t = map (\<lambda>p.
       \<lparr>ro_actor = p_actor p, ro_level = p_level p, ro_joined_at = p_joined_at p,
        ro_type = map_option a_type (actor_of d (t_project t) (p_actor p)),
        ro_display_name = map_option a_display_name (actor_of d (t_project t) (p_actor p))\<rparr>)
     (sort_key p_joined_at (filter (\<lambda>p. p_topic p = t_id t) (participants d)))"

definition fetchTopicWithRoster :: "db \<Rightarrow> string \<Rightarrow> (topic_record \<times> roster_entry list) option" where
  "fetchTopicWithRoster d topicId = (case topic_of d topicId of
     None \<Rightarrow> None
   | Some t \<Rightarrow> Some
       (\<lparr>tr_id = t_id t, tr_project = t_project t, tr_name = t_name t, tr_charter = t_charter t,
         tr_status = t_status t, tr_created_by = t_created_by t, tr_created_at = t_created_at t\<rparr>,
        roster_of d t))"

definition getTopic ::
  "env \<Rightarrow> string option \<Rightarrow> string \<Rightarrow> db \<Rightarrow> (topic_record \<times> roster_entry list) outcome" where
  "getTopic E pid topic_id d =
     (let topicId = trim topic_id in
      if topicId = [] then throw BAD_REQUEST d
      else guarded E pid A_read (rref K_topic topicId) (\<lambda>d.
        case fetchTopicWithRoster d topicId of
          None \<Rightarrow> throw NOT_FOUND d
        | Some tr \<Rightarrow> (Inr tr, d)) d)"

section \<open>joinTopic\<close>

definition participant_of :: "db \<Rightarrow> string \<Rightarrow> string \<Rightarrow> participant_row option" where
  "participant_of d topic actor =
     find_row (\<lambda>p. (p_topic p, p_actor p)) (topic, actor) (participants d)"

text \<open>
  \<^verbatim>\<open>INSERT INTO actors .. ON CONFLICT (project_id, actor_id) DO UPDATE SET display_name .. RETURNING type\<close>.
\<close>

definition upsert_actor ::
  "string \<Rightarrow> string \<Rightarrow> actor_type \<Rightarrow> string \<Rightarrow> (actor_type, 'r) dtx" where
  "upsert_actor project actor ty name d = (case actor_of d project actor of
     None \<Rightarrow> (Next ty, d\<lparr>actors := actors d @
       [\<lparr>a_project = project, a_id = actor, a_type = ty, a_display_name = name\<rparr>]\<rparr>)
   | Some a \<Rightarrow> (Next (a_type a), d\<lparr>actors :=
       update_where (\<lambda>x. a_project x = project \<and> a_id x = actor)
         (\<lambda>x. x\<lparr>a_display_name := name\<rparr>) (actors d)\<rparr>))"

text \<open>Transaction 1: the join writes.\<close>

definition join_writes ::
  "env \<Rightarrow> string \<Rightarrow> string \<Rightarrow> actor_type \<Rightarrow> string \<Rightarrow> level \<Rightarrow> (unit, unit) dtx" where
  "join_writes E topicId actorId actorType displayName lvl d =
     (case topic_of d topicId of
        None \<Rightarrow> (Throw (Hub NOT_FOUND), d)
      | Some t \<Rightarrow>
          if t_status t = Closed then (Throw (Hub BAD_REQUEST), d)
          else
            let isOwner = (actorId = t_created_by t);
                seat = (if isOwner then lvl else Execution);
                grantedBy = (if isOwner then Some actorId else None)
            in if \<not> isOwner \<and> lvl \<noteq> Execution then (Throw (Hub BAD_REQUEST), d)
               else tx_bind (upsert_actor (t_project t) actorId actorType displayName) (\<lambda>ty.
                 if ty \<noteq> actorType then tx_throw (Hub BAD_REQUEST)
                 else (\<lambda>d1.
                   if participant_of d1 topicId actorId \<noteq> None then (Next (), d1)
                   else tx_block
                     [tx_write (\<lambda>x. x\<lparr>participants := participants x @
                        [\<lparr>p_topic = topicId, p_actor = actorId, p_level = seat,
                          p_joined_at = pg_now E, p_granted_by = grantedBy\<rparr>]\<rparr>),
                      tx_write (set_status topicId (\<lambda>s. s = Chartered) Active),
                      emit E (ev topicId actorId ''topic.actor_joined'' ''topic'' topicId
                        [(''level'', JStr (level_text seat)),
                         (''actor_type'', JStr (actor_type_text actorType))])] d1)) d)"

record induction_pack =
  in_topic :: topic_record
  in_roster :: "roster_entry list"
  in_events :: "event_row list"
  in_cursor :: int
  in_has_more :: bool

text \<open>
  Transaction 2: the induction pack. A throw of \<^verbatim>\<open>replayEvents\<close> rolls back, which also drops the
  decision it logged; the writes of transaction 1 stay.
\<close>

definition induction_read ::
  "env \<Rightarrow> string option \<Rightarrow> string \<Rightarrow> int \<Rightarrow> db \<Rightarrow> induction_pack outcome" where
  "induction_read E pid topicId sinceSeq d =
     (let tr = fetchTopicWithRoster d topicId in
      case (if sinceSeq = 0 then replayEvents E pid topicId None None True d
            else replayEvents E pid topicId (Some sinceSeq) None False d) of
        (Inl x, _) \<Rightarrow> (Inl x, d)
      | (Inr r, d') \<Rightarrow>
          (case tr of
             None \<Rightarrow> (Inl (Hub NOT_FOUND), d')
           | Some (topic, roster) \<Rightarrow> (Inr
               \<lparr>in_topic = topic, in_roster = roster, in_events = rp_events r,
                in_cursor = rp_next_cursor r, in_has_more = rp_has_more r\<rparr>, d')))"

definition joinTopic ::
  "env \<Rightarrow> string option \<Rightarrow> string \<Rightarrow> string \<Rightarrow> string \<Rightarrow> string \<Rightarrow> string \<Rightarrow> int option \<Rightarrow>
     db \<Rightarrow> induction_pack outcome" where
  "joinTopic E pid topic_id actor_id actor_type display_name lvl since_seq =
     guarded E pid A_write (rref K_topic topic_id) (\<lambda>d.
       let topicId = trim topic_id; actorId = trim actor_id; displayName = trim display_name
       in if topicId = [] \<or> actorId = [] \<or> displayName = [] then throw BAD_REQUEST d
          else case parse_actor_type actor_type of
            None \<Rightarrow> throw BAD_REQUEST d
          | Some actorType \<Rightarrow>
            (case parse_level lvl of
               None \<Rightarrow> throw BAD_REQUEST d
             | Some l \<Rightarrow>
                 (case transaction (join_writes E topicId actorId actorType displayName l) d of
                    (Inl x, d') \<Rightarrow> (Inl x, d')
                  | (Inr _, d') \<Rightarrow>
                      induction_read E pid topicId (case since_seq of None \<Rightarrow> 0 | Some s \<Rightarrow> s) d')))"

section \<open>grantLevel\<close>

datatype grant_level_result =
    GL_granted level level  \<comment> \<open>level, prior level\<close>
  | GL_topic_not_found
  | GL_topic_closed
  | GL_self_grant_forbidden
  | GL_not_authorized
  | GL_target_not_participant

definition grantLevel ::
  "env \<Rightarrow> string option \<Rightarrow> string \<Rightarrow> string \<Rightarrow> string \<Rightarrow> string \<Rightarrow> db \<Rightarrow> grant_level_result outcome" where
  "grantLevel E pid topic_id actor_id lvl granted_by =
     guarded E pid A_admin (rref K_topic topic_id) (\<lambda>d.
       let topicId = trim topic_id; targetActor = trim actor_id; grantedBy = trim granted_by
       in if topicId = [] \<or> targetActor = [] \<or> grantedBy = [] then throw BAD_REQUEST d
          else case parse_level lvl of
            None \<Rightarrow> throw BAD_REQUEST d
          | Some l \<Rightarrow> transaction (\<lambda>d.
              case topic_of d topicId of
                None \<Rightarrow> (Abort GL_topic_not_found, d)
              | Some t \<Rightarrow>
                  if t_status t = Closed \<or> t_status t = Closing then (Abort GL_topic_closed, d)
                  else if grantedBy = targetActor then (Abort GL_self_grant_forbidden, d)
                  else if \<not> (grantedBy = t_created_by t \<or>
                      map_option p_level (participant_of d topicId grantedBy) = Some Authority)
                  then (Abort GL_not_authorized, d)
                  else (case participant_of d topicId targetActor of
                      None \<Rightarrow> (Abort GL_target_not_participant, d)
                    | Some p \<Rightarrow>
                        tx_then (tx_block
                          [tx_write (\<lambda>x. x\<lparr>participants :=
                             update_where (\<lambda>q. p_topic q = topicId \<and> p_actor q = targetActor)
                               (\<lambda>q. q\<lparr>p_level := l, p_granted_by := Some grantedBy\<rparr>)
                               (participants x)\<rparr>),
                           emit E (ev topicId grantedBy ''topic.level_granted'' ''topic'' topicId
                             [(''actor_id'', JStr targetActor), (''level'', JStr (level_text l)),
                              (''granted_by'', JStr grantedBy),
                              (''prior_level'', JStr (level_text (p_level p)))])])
                        (tx_return (GL_granted l (p_level p))) d)) d)"

section \<open>Inside a service relation\<close>

context base_service
begin

lemma rel_upsert_actor: "after (\<lambda>_. R d) (upsert_actor p a ty nm d)"
  by (auto simp: upsert_actor_def intro: rel_outer split: option.split)

lemma rel_join_writes:
  assumes "\<And>d. R d (set_status tid (\<lambda>s. s = Chartered) Active d)"
  shows "after (\<lambda>_. R d) (join_writes E tid aid ty nm lvl d)"
  unfolding join_writes_def Let_def
  by (auto intro!: rel_rules rel_upsert_actor rel_emit rel_write_step assms rel_outer
      simp: tx_throw_def split: option.split)

lemma rel_replayEvents: "R d (snd (replayEvents E pid tid ss lmt tail d))"
  unfolding replayEvents_def by (rule rel_guarded) simp

lemma rel_induction_read: "R d (snd (induction_read E pid tid ss d))"
proof -
  have "R d (snd (if ss = 0 then replayEvents E pid tid None None True d
      else replayEvents E pid tid (Some ss) None False d))"
    by (simp add: rel_replayEvents)
  then show ?thesis
    unfolding induction_read_def Let_def by (auto split: prod.split sum.split option.split)
qed

lemma rel_joinTopic:
  assumes "\<And>t d. R d (set_status t (\<lambda>s. s = Chartered) Active d)"
  shows "R d (snd (joinTopic E pid tid aid ty nm lvl ss d))"
proof -
  have "R d (snd (case transaction (join_writes E t a y n l) d of
      (Inl x, d') \<Rightarrow> (Inl x, d') | (Inr _, d') \<Rightarrow> induction_read E pid t q d'))" for d t a y n l q
  proof -
    obtain r d' where w: "transaction (join_writes E t a y n l) d = (r, d')" by force
    have "R d (snd (transaction (join_writes E t a y n l) d))"
      by (rule rel_transaction) (rule rel_join_writes [OF assms])
    then have "R d d'" by (simp add: w)
    then show ?thesis
      using rel_trans [OF _ rel_induction_read] by (simp add: w split: sum.split)
  qed
  then show ?thesis
    unfolding joinTopic_def Let_def
    by (intro rel_guarded) (auto simp: throw_def split: option.split)
qed

lemma rel_grantLevel: "R d (snd (grantLevel E pid tid aid lvl gb d))"
  unfolding grantLevel_def Let_def
  by (intro rel_guarded) (auto simp: throw_def intro!: outer_rules split: option.split)

lemma rel_charterTopic:
  assumes "\<And>row d. find_row t_id (t_id row) (topics d) = None \<Longrightarrow> t_next_seq row = 0 \<Longrightarrow>
    R d (topics_update (\<lambda>tbl. tbl @ [row]) d)"
  shows "R d (snd (charterTopic E pid pr nm ch cb d))"
  unfolding charterTopic_def Let_def
  by (auto intro!: rel_guarded rel_rules rel_emit assms simp: after_insert_row)

end

lemma charter_step:
  assumes "find_row t_id (t_id row) (topics d) = None" and "t_next_seq row = 0"
  shows "topic_step d (topics_update (\<lambda>tbl. tbl @ [row]) d)"
proof -
  let ?d = "topics_update (\<lambda>tbl. tbl @ [row]) d"
  have old: "topic_of ?d tid = topic_of d tid" if "tid \<noteq> t_id row" for tid
    using that by (simp add: topic_of_def row_simps split: option.split)
  have new: "topic_of d (t_id row) = None" "topic_of ?d (t_id row) = Some row"
    using assms(1) by (simp_all add: topic_of_def row_simps)
  have log: "log_of ?d tid = log_of d tid" for tid by (simp add: log_of_def)
  have "topic_grows d ?d tid t" if "topic_of d tid = Some t" for tid t
    using that old new log by (cases "tid = t_id row") (auto simp: topic_grows_def)
  moreover have "log_ok ?d" if ok: "log_ok d"
  proof -
    have "map e_seq (log_of ?d tid) = (case topic_of ?d tid of None \<Rightarrow> [] | Some t \<Rightarrow> [1..<Suc (t_next_seq t)])"
      for tid
      using ok old new log assms(2) by (cases "tid = t_id row") (auto simp: log_ok_def)
    then show ?thesis using ok assms(1) by (simp add: log_ok_def pkey_snoc)
  qed
  ultimately show ?thesis by (simp add: topic_step_def evolves_def)
qed

lemma charterTopic_step: "topic_step d (snd (charterTopic E pid pr nm ch cb d))"
  by (rule topic.rel_charterTopic) (rule charter_step)

lemma joinTopic_step: "topic_step d (snd (joinTopic E pid tid aid ty nm lvl ss d))"
  by (rule topic.rel_joinTopic) (auto intro!: set_status_step simp: less_eq_topic_status_def)

section \<open>Properties\<close>

lemma transaction_at: "transaction body d = transaction (\<lambda>_. body d) d"
  by (simp add: transaction_def)

lemma transaction_out:
  "transaction (\<lambda>_. (Abort r, s)) d = (Inr r, rollback d s)"
  "transaction (\<lambda>_. (Throw x, s)) d = (Inl x, rollback d s)"
  by (simp_all add: transaction_def)

text \<open>What a join may do to the seats: one new seat, at \<open>Execution\<close> unless the actor created the topic.\<close>

definition seats_after_join :: "string \<Rightarrow> string \<Rightarrow> db \<Rightarrow> db \<Rightarrow> bool" where
  "seats_after_join tid aid d d' \<longleftrightarrow> (\<forall>x a. participant_of d' x a = participant_of d x a \<or>
     (participant_of d x a = None \<and> x = tid \<and> a = aid \<and>
      (\<exists>p. participant_of d' x a = Some p \<and>
         (p_level p = Execution \<or> (\<exists>t. topic_of d x = Some t \<and> t_created_by t = a)))))"

lemma seats_same: "participants d' = participants d \<Longrightarrow> seats_after_join tid aid d d'"
  by (simp add: seats_after_join_def participant_of_def)

lemma seats_new:
  assumes "participants d' = participants d @ [p]" and "p_topic p = tid" and "p_actor p = aid"
    and "participant_of d tid aid = None"
    and "p_level p = Execution \<or> (\<exists>t. topic_of d tid = Some t \<and> t_created_by t = aid)"
  shows "seats_after_join tid aid d d'"
  using assms by (auto simp: seats_after_join_def participant_of_def find_row_append find_row_Cons split: option.splits)

lemma seat_block:
  assumes same: "participants d1 = participants d" and "participant_of d1 tid aid = None"
    and "seat = Execution \<or> (\<exists>t. topic_of d tid = Some t \<and> t_created_by t = aid)"
  shows "after (\<lambda>_. seats_after_join tid aid d) (tx_block
    [tx_write (\<lambda>x. x\<lparr>participants := participants x @
       [\<lparr>p_topic = tid, p_actor = aid, p_level = seat, p_joined_at = pg_now E, p_granted_by = gb\<rparr>]\<rparr>),
     tx_write (set_status tid (\<lambda>s. s = Chartered) Active), emit E e] d1)"
proof -
  have "participant_of d tid aid = None" using assms by (simp add: participant_of_def)
  with assms show ?thesis
    by (auto simp: after_simps set_status_def simp del: tx_block.simps
      intro!: after_emit seats_new [where p = "\<lparr>p_topic = tid, p_actor = aid, p_level = seat,
        p_joined_at = pg_now E, p_granted_by = gb\<rparr>"])
qed

lemma join_writes_seats: "after (\<lambda>_. seats_after_join tid aid d) (join_writes E tid aid ty nm l d)"
proof (cases "topic_of d tid")
  case None
  then show ?thesis by (simp add: join_writes_def)
next
  case (Some t)
  have up: "after (\<lambda>_ d1. participants d1 = participants d) (upsert_actor p a ty nm d)" for p a
    by (simp add: upsert_actor_def split: option.split)
  show ?thesis
    using Some
    by (auto simp: join_writes_def Let_def after_bind after_prims intro!: after_mono [OF up] seats_same seat_block
        simp del: tx_block.simps)
qed

lemma induction_read_seats: "participants (snd (induction_read E pid tid ss d)) = participants d"
proof -
  have "participants (snd (replayEvents E pid tid a b c d)) = participants d" for a b c
    unfolding replayEvents_def by (rule guarded_post) simp_all
  then show ?thesis
    unfolding induction_read_def Let_def by (auto split: prod.split sum.split option.split) (metis snd_conv)+
qed

text \<open>
  Joining a topic changes no seat that exists, adds at most the seat of the joining actor,
  and gives a level above \<^verbatim>\<open>execution\<close> to the topic's creator only, whatever level is asked for.
\<close>

theorem joinTopic_levels:
  "seats_after_join (trim tid) (trim aid) d (snd (joinTopic E pid tid aid ty nm lvl ss d))"
proof -
  have main: "seats_after_join t a d' (snd (case transaction (join_writes E t a y n l) d' of
      (Inl x, d'') \<Rightarrow> (Inl x, d'') | (Inr _, d'') \<Rightarrow> induction_read E pid t q d''))" for d' t a y n l q
  proof -
    obtain r d2 where w: "transaction (join_writes E t a y n l) d' = (r, d2)" by force
    have "seats_after_join t a d' d2"
      using join_writes_seats [of t a d' E y n l] w
      by (auto simp: transaction_def rollback_def intro: seats_same split: prod.splits ctl.splits)
    then show ?thesis
      using induction_read_seats [of E pid t q d2]
      by (simp add: w seats_after_join_def participant_of_def split: sum.split)
  qed
  have log: "seats_after_join (trim tid) (trim aid) (d\<lparr>authz_decisions := l\<rparr>) d' =
      seats_after_join (trim tid) (trim aid) d d'" for l d'
    by (simp add: seats_after_join_def participant_of_def topic_of_def)
  show ?thesis
    unfolding joinTopic_def Let_def
  proof (rule guarded_post)
    show "seats_after_join (trim tid) (trim aid) d (d\<lparr>authz_decisions := l\<rparr>)" for l
      by (rule seats_same) simp
  qed (use main [of "trim tid" "trim aid" "d\<lparr>authz_decisions := l\<rparr>" for l, unfolded log]
      in \<open>auto simp: throw_def intro!: seats_same split: option.split\<close>)
qed

text \<open>
  \<^verbatim>\<open>grantLevel\<close> succeeds only on a topic that is not closing or closed, for a granter that
  is not the target and that either created the topic or sits on it with \<^verbatim>\<open>authority\<close>; then it changes
  the level of exactly the target's seat. In every other case no seat changes.
\<close>

theorem grantLevel_spec:
  "case grantLevel E pid tid aid lvl gb d of
     (Inr (GL_granted l prior), d') \<Rightarrow>
       (\<exists>t p. topic_of d (trim tid) = Some t \<and> t_status t \<notin> {Closing, Closed} \<and> trim gb \<noteq> trim aid \<and>
          (trim gb = t_created_by t \<or> map_option p_level (participant_of d (trim tid) (trim gb)) = Some Authority) \<and>
          participant_of d (trim tid) (trim aid) = Some p \<and> prior = p_level p \<and> parse_level lvl = Some l \<and>
          participants d' = update_where (\<lambda>q. p_topic q = trim tid \<and> p_actor q = trim aid)
            (\<lambda>q. q\<lparr>p_level := l, p_granted_by := Some (trim gb)\<rparr>) (participants d))
   | (_, d') \<Rightarrow> participants d' = participants d"
proof -
  define P :: "grant_level_result outcome \<Rightarrow> bool" where "P = (\<lambda>res. case res of
     (Inr (GL_granted l prior), d') \<Rightarrow>
       (\<exists>t p. topic_of d (trim tid) = Some t \<and> t_status t \<notin> {Closing, Closed} \<and> trim gb \<noteq> trim aid \<and>
          (trim gb = t_created_by t \<or> map_option p_level (participant_of d (trim tid) (trim gb)) = Some Authority) \<and>
          participant_of d (trim tid) (trim aid) = Some p \<and> prior = p_level p \<and> parse_level lvl = Some l \<and>
          participants d' = update_where (\<lambda>q. p_topic q = trim tid \<and> p_actor q = trim aid)
            (\<lambda>q. q\<lparr>p_level := l, p_granted_by := Some (trim gb)\<rparr>) (participants d))
   | (_, d') \<Rightarrow> participants d' = participants d)"
  have other: "P (Inl x, d')" "P (Inr GL_topic_not_found, d')" "P (Inr GL_topic_closed, d')"
    "P (Inr GL_self_grant_forbidden, d')" "P (Inr GL_not_authorized, d')" "P (Inr GL_target_not_participant, d')"
    if "participants d' = participants d" for x d'
    using that by (simp_all add: P_def)
  have grant: "P (transaction (\<lambda>_. tx_then (tx_block [tx_write (\<lambda>x. x\<lparr>participants :=
        update_where (\<lambda>q. p_topic q = trim tid \<and> p_actor q = trim aid)
          (\<lambda>q. q\<lparr>p_level := l, p_granted_by := Some who\<rparr>) (participants x)\<rparr>), emit E e])
      (tx_return (GL_granted l (p_level p))) (d\<lparr>authz_decisions := al\<rparr>)) (d\<lparr>authz_decisions := al\<rparr>))"
    if "topic_of d (trim tid) = Some t" "t_status t \<notin> {Closing, Closed}" "trim gb \<noteq> trim aid"
      "who = trim gb" "trim gb = t_created_by t \<or> map_option p_level (participant_of d (trim tid) (trim gb)) = Some Authority"
      "participant_of d (trim tid) (trim aid) = Some p" "parse_level lvl = Some l" for l e al t p who
    by (subst transaction_at [symmetric], rule write_and_emit [where E = E and e = e
        and r = "GL_granted l (p_level p)" and d = "d\<lparr>authz_decisions := al\<rparr>"
        and f = "\<lambda>x. x\<lparr>participants := update_where (\<lambda>q. p_topic q = trim tid \<and> p_actor q = trim aid)
          (\<lambda>q. q\<lparr>p_level := l, p_granted_by := Some who\<rparr>) (participants x)\<rparr>"])
      (use that in \<open>auto simp: P_def rollback_def simp del: tx_block.simps\<close>)
  have same: "topic_of (d\<lparr>authz_decisions := l\<rparr>) x = topic_of d x"
    "participant_of (d\<lparr>authz_decisions := l\<rparr>) x a = participant_of d x a" for l x a
    by (simp_all add: participant_of_def topic_of_def)
  have "P (grantLevel E pid tid aid lvl gb d)"
    unfolding grantLevel_def Let_def
    by (rule guarded_result, subst transaction_at)
      (auto simp: throw_def transaction_out rollback_def same simp del: tx_block.simps split: option.split
        intro!: other grant)
  then show ?thesis by (simp add: P_def)
qed

end
