(* ===== verification/Chaining.thy ===== *)
theory Chaining
  imports Topics
begin

text \<open>
  Outcome chaining (services/chaining.ts): the optional \<^verbatim>\<open>execution_task\<close> blob of a request or a
  motion, its validation, the task parameters derived from it, and \<open>emitChain\<close>, which posts the
  follow-up task inside the transaction that resolves the request or carries the motion.
\<close>

section \<open>Text patterns\<close>

definition code_of :: "char \<Rightarrow> nat" where
  "code_of c = of_char c"

definition is_digit :: "char \<Rightarrow> bool" where
  "is_digit c = (48 \<le> code_of c \<and> code_of c \<le> 57)"

definition is_lower :: "char \<Rightarrow> bool" where
  "is_lower c = (97 \<le> code_of c \<and> code_of c \<le> 122)"

text \<open>\<^verbatim>\<open>SLOT_REGEX = /^[a-z0-9][a-z0-9-]*$/\<close>\<close>

fun slot_ok :: "string \<Rightarrow> bool" where
  "slot_ok [] = False"
| "slot_ok (c # cs) =
     ((is_lower c \<or> is_digit c) \<and> list_all (\<lambda>x. is_lower x \<or> is_digit x \<or> x = CHR ''-'') cs)"

text \<open>\<^verbatim>\<open>UUID_REGEX\<close>: groups of 8, 4, 4, 4 and 12 hexadecimal digits, in either case.\<close>

definition is_hex :: "char \<Rightarrow> bool" where
  "is_hex c = (is_digit c \<or> (97 \<le> code_of c \<and> code_of c \<le> 102) \<or> (65 \<le> code_of c \<and> code_of c \<le> 70))"

fun hex_groups :: "nat list \<Rightarrow> string \<Rightarrow> bool" where
  "hex_groups [] s = False"
| "hex_groups [n] s = (length s = n \<and> list_all is_hex s)"
| "hex_groups (n # m # ns) s =
     (n < length s \<and> list_all is_hex (take n s) \<and> s ! n = CHR ''-'' \<and>
      hex_groups (m # ns) (drop (Suc n) s))"

definition uuid_ok :: "string \<Rightarrow> bool" where
  "uuid_ok = hex_groups [8, 4, 4, 4, 12]"

text \<open>The canonical text of a UUID, as Postgres stores and prints it: lower case.\<close>

definition uuid_canon :: "string \<Rightarrow> string" where
  "uuid_canon = map (\<lambda>c. if 65 \<le> code_of c \<and> code_of c \<le> 70 then char_of (code_of c + 32) else c)"

section \<open>The length of \<open>JSON.stringify\<close>\<close>

text \<open>
  Characters below 32 are escaped: five of them in two characters, the others as \<^verbatim>\<open>\u00XX\<close>; the quote
  and the backslash take two.
\<close>

definition char_width :: "char \<Rightarrow> nat" where
  "char_width c =
     (if code_of c \<in> {8, 9, 10, 12, 13, 34, 92} then 2 else if code_of c < 32 then 6 else 1)"

definition quoted_length :: "string \<Rightarrow> nat" where
  "quoted_length s = 2 + sum_list (map char_width s)"

definition commas :: "'a list \<Rightarrow> nat" where
  "commas xs = length xs - 1"

fun json_length :: "(rat \<Rightarrow> string) \<Rightarrow> json \<Rightarrow> nat" where
  "json_length num JNull = 4"
| "json_length num (JBool b) = (if b then 4 else 5)"
| "json_length num (JNum q) = length (num q)"
| "json_length num (JStr s) = quoted_length s"
| "json_length num (JArr js) = 2 + sum_list (map (json_length num) js) + commas js"
| "json_length num (JObj kvs) =
     2 + sum_list (map (\<lambda>kv. quoted_length (fst kv) + 1 + json_length num (snd kv)) kvs) + commas kvs"

section \<open>validateExecutionTask\<close>

definition MAX_TITLE_LEN :: nat where "MAX_TITLE_LEN = 512"
definition MAX_SLOT_LEN :: nat where "MAX_SLOT_LEN = 64"
definition MAX_KIND_LEN :: nat where "MAX_KIND_LEN = 64"
definition MAX_DEPENDS_ON :: nat where "MAX_DEPENDS_ON = 32"
definition MAX_RACI_BYTES :: nat where "MAX_RACI_BYTES = 8192"

definition bad :: "exn + 'a" where
  "bad = Inl (Hub BAD_REQUEST)"

text \<open>A field check: an absent field stays absent, a present one must pass.\<close>

definition field :: "(string \<times> json) list \<Rightarrow> string \<Rightarrow> (json \<Rightarrow> 'a option) \<Rightarrow> exn + 'a option" where
  "field b k check = (case map_of b k of
     None \<Rightarrow> Inr None
   | Some v \<Rightarrow> (case check v of None \<Rightarrow> bad | Some x \<Rightarrow> Inr (Some x)))"

fun check_title :: "json \<Rightarrow> string option" where
  "check_title (JStr s) = (if MAX_TITLE_LEN < length s then None else Some s)"
| "check_title _ = None"

fun check_topology :: "json \<Rightarrow> topology option" where
  "check_topology (JStr s) = parse_topology s"
| "check_topology _ = None"

fun check_slot :: "json \<Rightarrow> string option" where
  "check_slot (JStr s) = (if slot_ok s \<and> length s \<le> MAX_SLOT_LEN then Some s else None)"
| "check_slot _ = None"

fun check_kind :: "json \<Rightarrow> string option" where
  "check_kind (JStr s) = (if trim s \<noteq> [] \<and> length s \<le> MAX_KIND_LEN then Some s else None)"
| "check_kind _ = None"

fun uuid_text :: "json \<Rightarrow> string option" where
  "uuid_text (JStr s) = (if uuid_ok s then Some s else None)"
| "uuid_text _ = None"

fun check_depends_on :: "json \<Rightarrow> string list option" where
  "check_depends_on (JArr js) =
     (if MAX_DEPENDS_ON < length js then None
      else if list_all (\<lambda>j. uuid_text j \<noteq> None) js then Some (List.map_filter uuid_text js) else None)"
| "check_depends_on _ = None"

fun check_raci :: "(rat \<Rightarrow> string) \<Rightarrow> json \<Rightarrow> (string \<times> json) list option" where
  "check_raci num (JObj kvs) =
     (if MAX_RACI_BYTES < json_length num (JObj kvs) then None else Some kvs)"
| "check_raci num _ = None"

definition sum_bind :: "exn + 'a \<Rightarrow> ('a \<Rightarrow> exn + 'b) \<Rightarrow> exn + 'b" where
  "sum_bind r f = (case r of Inl x \<Rightarrow> Inl x | Inr a \<Rightarrow> f a)"

text \<open>\<open>None\<close> is \<^verbatim>\<open>undefined\<close>; \<open>Some JNull\<close> is \<^verbatim>\<open>null\<close>.\<close>

definition validateExecutionTask :: "env \<Rightarrow> json option \<Rightarrow> exn + exec_blob option" where
  "validateExecutionTask E blob = (case blob of
     None \<Rightarrow> Inr None
   | Some JNull \<Rightarrow> Inr None
   | Some (JObj b) \<Rightarrow>
       sum_bind (field b ''title'' check_title) (\<lambda>title.
       sum_bind (field b ''topology'' check_topology) (\<lambda>topo.
       sum_bind (field b ''slot'' check_slot) (\<lambda>slot.
       sum_bind (field b ''kind'' check_kind) (\<lambda>kind.
       sum_bind (field b ''depends_on'' check_depends_on) (\<lambda>deps.
       sum_bind (field b ''raci'' (check_raci (num_text E))) (\<lambda>raci.
         Inr (Some \<lparr>x_title = title, x_topology = topo, x_slot = slot, x_kind = kind,
                    x_depends_on = deps, x_raci = raci\<rparr>)))))))
   | Some _ \<Rightarrow> bad)"

section \<open>buildChainedTaskParams\<close>

datatype chain_source = Src_request | Src_motion

record task_params =
  tp_topic :: string
  tp_title :: string
  tp_topology :: topology
  tp_slot :: string
  tp_kind :: string
  tp_depends_on :: "string list"
  tp_raci :: "(string \<times> json) list"
  tp_created_by :: string

text \<open>\<^verbatim>\<open>{ ...obj, [k]: v }\<close>: an existing key keeps its place.\<close>

definition obj_set :: "(string \<times> json) list \<Rightarrow> string \<Rightarrow> json \<Rightarrow> (string \<times> json) list" where
  "obj_set obj k v = (if k \<in> fst ` set obj then map (\<lambda>kv. if fst kv = k then (k, v) else kv) obj
                      else obj @ [(k, v)])"

definition or_else :: "'a option \<Rightarrow> 'a \<Rightarrow> 'a" where
  "or_else x y = (case x of None \<Rightarrow> y | Some v \<Rightarrow> v)"

definition empty_blob :: exec_blob where
  "empty_blob = \<lparr>x_title = None, x_topology = None, x_slot = None, x_kind = None,
                 x_depends_on = None, x_raci = None\<rparr>"

fun source_link_key :: "chain_source \<Rightarrow> string" where
  "source_link_key Src_request = ''source_request''"
| "source_link_key Src_motion = ''source_motion''"

fun default_title :: "chain_source \<Rightarrow> string \<Rightarrow> string" where
  "default_title Src_request kind = ''Execute approved request: '' @ kind"
| "default_title Src_motion kind = ''Execute carried motion: '' @ kind"

definition buildChainedTaskParams ::
  "chain_source \<Rightarrow> string \<Rightarrow> string \<Rightarrow> string \<Rightarrow> exec_blob option \<Rightarrow> string \<Rightarrow> task_params" where
  "buildChainedTaskParams source source_id topic_id kind oblob acting_actor =
     (let blob = or_else oblob empty_blob;
          slotHex = take 16 (filter (\<lambda>c. c \<noteq> CHR ''-'') source_id)
      in \<lparr>tp_topic = topic_id,
          tp_title = or_else (x_title blob) (default_title source kind),
          tp_topology = or_else (x_topology blob) Parallel,
          tp_slot = or_else (x_slot blob) (''exec-'' @ slotHex),
          tp_kind = or_else (x_kind blob) kind,
          tp_depends_on = or_else (x_depends_on blob) [],
          tp_raci = obj_set (or_else (x_raci blob) []) (source_link_key source) (JStr source_id),
          tp_created_by = acting_actor\<rparr>)"

section \<open>emitChain\<close>

datatype chain_result =
    Posted_task string string  \<comment> \<open>task, artifact\<close>
  | Deferred_closing string    \<comment> \<open>the event; the topic is closing\<close>
  | Deferred_closed string     \<comment> \<open>the event; the topic is closed\<close>

text \<open>\<^verbatim>\<open>SELECT count(*) FROM tasks WHERE task_id = ANY($1::uuid[]) AND topic_id = $2\<close>\<close>

definition dependency_rows :: "db \<Rightarrow> string list \<Rightarrow> string \<Rightarrow> task_row list" where
  "dependency_rows d deps topic =
     filter (\<lambda>k. tk_id k \<in> uuid_canon ` set deps \<and> tk_topic k = topic) (tasks d)"

text \<open>\<open>${topic_id}:${task_id}:${slot}\<close>\<close>

definition artifact_name :: "string \<Rightarrow> string \<Rightarrow> string \<Rightarrow> string" where
  "artifact_name topic task slot = topic @ '':'' @ task @ '':'' @ slot"

text \<open>
  The three rows of a new task: the task, its one output artifact (\<open>draft\<close>, version 1) and the
  artifact's first version. \<^verbatim>\<open>postTask\<close> inserts the same rows.
\<close>

definition create_task :: "env \<Rightarrow> string \<Rightarrow> string \<Rightarrow> task_params \<Rightarrow> (unit, 'r) dtx" where
  "create_task E artifactId taskId p = tx_block
     [insert_row tk_id tasks tasks_update
        \<lparr>tk_id = taskId, tk_topic = tp_topic p, tk_title = tp_title p, tk_topology = tp_topology p,
         tk_depends_on = map uuid_canon (tp_depends_on p), tk_raci = JObj (tp_raci p),
         tk_status = Posted, tk_created_by = tp_created_by p, tk_created_at = pg_now E\<rparr>,
      insert_row af_id artifacts artifacts_update
        \<lparr>af_id = artifactId, af_topic = tp_topic p, af_task = taskId, af_slot = tp_slot p,
         af_kind = tp_kind p, af_state = Draft, af_version = 1, af_fence = 0, af_content = None\<rparr>,
      insert_row (\<lambda>v. (v_artifact v, v_version v)) versions versions_update
        \<lparr>v_artifact = artifactId, v_version = 1, v_state = Draft, v_content = None,
         v_fence = None, v_note = ''created'', v_created_by = tp_created_by p\<rparr>]"

definition task_payload :: "task_params \<Rightarrow> (string \<times> json) list" where
  "task_payload p = [(''title'', JStr (tp_title p)), (''topology'', JStr (topology_text (tp_topology p))),
                     (''slot'', JStr (tp_slot p))]"

definition artifact_created :: "string \<Rightarrow> string \<Rightarrow> string \<Rightarrow> task_params \<Rightarrow> event_input" where
  "artifact_created actor artifactId taskId p =
     ev (tp_topic p) actor ''artifact.created'' ''artifact'' artifactId
       [(''task_id'', JStr taskId), (''slot'', JStr (tp_slot p)), (''kind'', JStr (tp_kind p))]"

definition would_be_task :: "task_params \<Rightarrow> json" where
  "would_be_task p = JObj (task_payload p @
     [(''kind'', JStr (tp_kind p)), (''depends_on'', JArr (map JStr (tp_depends_on p))),
      (''raci'', JObj (tp_raci p))])"

definition defer_chain ::
  "env \<Rightarrow> string \<Rightarrow> string \<Rightarrow> string \<Rightarrow> task_params \<Rightarrow> bool \<Rightarrow> (chain_result, 'r) dtx" where
  "defer_chain E source_type source_id actor p closing =
     tx_bind (gen_uuid E) (\<lambda>phantomId.
     tx_bind (appendEvent E (ev (tp_topic p) actor ''task.deferred'' ''topic'' (tp_topic p)
       [(''source_event_type'', JStr source_type), (''source_id'', JStr source_id),
        (''reason'', JStr (if closing then ''topic_closing'' else ''topic_closed'')),
        (''phantom_id'', JStr phantomId), (''would_be_task'', would_be_task p)])) (\<lambda>e.
     tx_return (if closing then Deferred_closing (ar_event_id e) else Deferred_closed (ar_event_id e))))"

definition post_chain ::
  "env \<Rightarrow> string \<Rightarrow> string \<Rightarrow> string \<Rightarrow> task_params \<Rightarrow> (chain_result, 'r) dtx" where
  "post_chain E source_type source_id actor p =
     tx_bind (gen_uuid E) (\<lambda>taskId.
       let artifactId = artifact_name (tp_topic p) taskId (tp_slot p) in
       tx_then (tx_block
         [create_task E artifactId taskId p,
          emit E (ev (tp_topic p) actor ''task.posted'' ''task'' taskId
            (task_payload p @ [(''chained_from'', JStr source_type), (''source_id'', JStr source_id)])),
          emit E (artifact_created actor artifactId taskId p)])
       (tx_return (Posted_task taskId artifactId)))"

definition emitChain ::
  "env \<Rightarrow> string \<Rightarrow> string \<Rightarrow> string \<Rightarrow> task_params \<Rightarrow> (chain_result, 'r) dtx" where
  "emitChain E source_type source_id actor p d =
     (case topic_of d (tp_topic p) of
        None \<Rightarrow> (Throw (Hub NOT_FOUND), d)
      | Some t \<Rightarrow>
          if t_status t = Closing \<or> t_status t = Closed
          then defer_chain E source_type source_id actor p (t_status t = Closing) d
          else if tp_depends_on p \<noteq> [] \<and>
                  length (dependency_rows d (tp_depends_on p) (tp_topic p)) \<noteq> length (tp_depends_on p)
          then (Throw (Hub CHAINED_TASK_DEPENDENCY_INVALID), d)
          else post_chain E source_type source_id actor p d)"

section \<open>Inside a service relation\<close>

text \<open>A new task with its artifact and first version: the effect of \<open>create_task\<close>.\<close>

definition task_created :: "task_row \<Rightarrow> artifact_row \<Rightarrow> version_row \<Rightarrow> db \<Rightarrow> db \<Rightarrow> bool" where
  "task_created k a v d d' \<longleftrightarrow>
     find_row tk_id (tk_id k) (tasks d) = None \<and> find_row af_id (af_id a) (artifacts d) = None \<and>
     af_task a = tk_id k \<and> af_topic a = tk_topic k \<and> tk_status k = Posted \<and>
     v_artifact v = af_id a \<and> v_version v = 1 \<and> af_version a = 1 \<and> v_content v = af_content a \<and>
     d' = versions_update (\<lambda>tbl. tbl @ [v]) (artifacts_update (\<lambda>tbl. tbl @ [a])
            (tasks_update (\<lambda>tbl. tbl @ [k]) d))"

locale task_service = append_service +
  assumes rel_task_created: "task_created k a v d d' \<Longrightarrow> R d d'"
begin

lemma rel_create_task: "after (\<lambda>_. R d) (create_task E aid kid p d)"
proof -
  let ?k = "\<lparr>tk_id = kid, tk_topic = tp_topic p, tk_title = tp_title p, tk_topology = tp_topology p,
         tk_depends_on = map uuid_canon (tp_depends_on p), tk_raci = JObj (tp_raci p),
         tk_status = Posted, tk_created_by = tp_created_by p, tk_created_at = pg_now E\<rparr>"
  let ?a = "\<lparr>af_id = aid, af_topic = tp_topic p, af_task = kid, af_slot = tp_slot p,
         af_kind = tp_kind p, af_state = Draft, af_version = 1, af_fence = 0, af_content = None\<rparr>"
  let ?v = "\<lparr>v_artifact = aid, v_version = 1, v_state = Draft, v_content = None,
         v_fence = None, v_note = ''created'', v_created_by = tp_created_by p\<rparr>"
  show ?thesis
    unfolding create_task_def
    using rel_task_created [of ?k ?a ?v d]
    by (simp add: after_simps task_created_def)
qed

lemma rel_emitChain: "after (\<lambda>_. R d) (emitChain E sty sid ac p d)"
  unfolding emitChain_def defer_chain_def post_chain_def Let_def
  by (auto intro!: emit_rules rel_create_task split: option.split)

end

interpretation log: task_service log_ext
  by unfold_locales (simp add: task_created_def log_ext_same)

interpretation topic: task_service topic_step
  by unfold_locales (simp add: log_ext_step log.rel_task_created)

end
