(* ===== verification/Artifacts.thy ===== *)
theory Artifacts
  imports Topics "HOL-Library.Sublist"
begin

text \<open>
  Versioned artifact writes (services/artifacts.ts): \<open>writeArtifact\<close> and \<open>baselineArtifact\<close>
  behind the guard that fuses writable state, fencing token and claim, the classification of a
  failed guard, and \<open>revertArtifact\<close>, the recovery write of the claims sweep.
\<close>

datatype conflict_reason =
  Artifact_not_found | Bad_artifact_state | Fencing_token_stale | Claim_not_live | Claim_not_owned

datatype write_result =
    W_ok nat artifact_state
  | W_conflict conflict_reason

section \<open>Numbers bound to a BIGINT column\<close>

text \<open>
  The driver sends a number as its decimal text: a fraction, or a value of at least \<open>10\<^sup>2\<^sup>1\<close> (printed
  with an exponent), is no integer literal (22P02); an integer beyond 64 bits is out of range (22003).
\<close>

definition bind_bigint :: "rat \<Rightarrow> exn + int" where
  "bind_bigint q =
     (if of_int \<lfloor>q\<rfloor> \<noteq> q \<or> 10 ^ 21 \<le> \<bar>q\<bar> then Inl Pg_syntax
      else if \<lfloor>q\<rfloor> < - (2 ^ 63) \<or> 2 ^ 63 \<le> \<lfloor>q\<rfloor> then Inl Pg_range
      else Inr \<lfloor>q\<rfloor>)"

section \<open>The guard\<close>

definition artifact_of :: "db \<Rightarrow> string \<Rightarrow> artifact_row option" where
  "artifact_of d aid = find_row af_id aid (artifacts d)"

definition WRITE_WRITABLE_STATES :: "artifact_state list" where
  "WRITE_WRITABLE_STATES = [Draft, Working, Baselined]"

definition BASELINE_WRITABLE_STATES :: "artifact_state list" where
  "BASELINE_WRITABLE_STATES = [Draft, Working]"

text \<open>\<^verbatim>\<open>EXISTS (SELECT 1 FROM claims c WHERE c.claim_id = $2 AND c.artifact_id = $1 AND ..)\<close>\<close>

definition owns_live_claim :: "env \<Rightarrow> db \<Rightarrow> string \<Rightarrow> string \<Rightarrow> string \<Rightarrow> bool" where
  "owns_live_claim E d artifactId claimId actorId =
     exists_where (\<lambda>c. c_id c = claimId \<and> c_artifact c = artifactId \<and> c_actor c = actorId \<and>
                       pg_now E < c_expires c) (claims d)"

text \<open>The \<^verbatim>\<open>WHERE\<close> clause of the guarded \<^verbatim>\<open>UPDATE\<close>, on the locked row.\<close>

definition write_guard ::
  "env \<Rightarrow> db \<Rightarrow> artifact_state list \<Rightarrow> string \<Rightarrow> string \<Rightarrow> int \<Rightarrow> string \<Rightarrow> bool" where
  "write_guard E d writable artifactId claimId token actorId =
     exists_where (\<lambda>a. af_id a = artifactId \<and> af_state a \<in> set writable \<and> af_fence a \<le> token \<and>
                       owns_live_claim E d artifactId claimId actorId) (artifacts d)"

definition classifyGuardConflict ::
  "env \<Rightarrow> db \<Rightarrow> string \<Rightarrow> string \<Rightarrow> int \<Rightarrow> string \<Rightarrow> artifact_state list \<Rightarrow> conflict_reason" where
  "classifyGuardConflict E d artifactId claimId token actorId writable =
     (case artifact_of d artifactId of
        None \<Rightarrow> Artifact_not_found
      | Some a \<Rightarrow>
          if af_state a \<notin> set writable then Bad_artifact_state
          else if token < af_fence a then Fencing_token_stale
          else (case find (\<lambda>c. c_id c = claimId \<and> c_artifact c = artifactId \<and>
                              pg_now E < c_expires c) (claims d) of
              None \<Rightarrow> Claim_not_live
            | Some c \<Rightarrow> if c_actor c \<noteq> actorId then Claim_not_owned else Claim_not_live))"

section \<open>A new version\<close>

text \<open>
  \<open>next_version\<close> is the pair of statements every write ends in: \<^verbatim>\<open>UPDATE artifacts SET ..,
  version = version + 1 .. RETURNING version\<close> and the \<^verbatim>\<open>INSERT INTO artifact_versions\<close> with the
  returned version. \<open>None\<close> for the token leaves \<^verbatim>\<open>accepted_fencing_token\<close> alone; \<open>vfence\<close> is the
  token written to the version row.
\<close>

definition bump_artifact ::
  "string \<Rightarrow> artifact_state \<Rightarrow> string option \<Rightarrow> int option \<Rightarrow> artifact_row \<Rightarrow> artifact_row" where
  "bump_artifact artifactId st content token a =
     a\<lparr>af_state := st, af_content := content, af_version := Suc (af_version a),
       af_fence := (case token of None \<Rightarrow> af_fence a | Some f \<Rightarrow> f)\<rparr>"

definition next_version ::
  "string \<Rightarrow> artifact_state \<Rightarrow> string option \<Rightarrow> int option \<Rightarrow> int option \<Rightarrow> string \<Rightarrow> string \<Rightarrow>
     (nat, 'r) dtx" where
  "next_version artifactId st content token vfence note actor d =
     (case artifact_of d artifactId of
        None \<Rightarrow> (Throw Js_type_error, d)
      | Some a \<Rightarrow>
          tx_then (tx_block
            [tx_write (\<lambda>x. x\<lparr>artifacts := update_where (\<lambda>b. af_id b = artifactId)
                               (bump_artifact artifactId st content token) (artifacts x)\<rparr>),
             insert_row (\<lambda>v. (v_artifact v, v_version v)) versions versions_update
               \<lparr>v_artifact = artifactId, v_version = Suc (af_version a), v_state = st,
                v_content = content, v_fence = vfence, v_note = note, v_created_by = actor\<rparr>])
          (tx_return (Suc (af_version a))) d)"

definition topicIdForArtifact :: "string \<Rightarrow> (string, 'r) dtx" where
  "topicIdForArtifact artifactId d = (case artifact_of d artifactId of
     None \<Rightarrow> (Throw (Hub NOT_FOUND), d)
   | Some a \<Rightarrow> (Next (af_topic a), d))"

definition state_changed ::
  "string \<Rightarrow> string \<Rightarrow> string \<Rightarrow> artifact_state \<Rightarrow> artifact_state \<Rightarrow> event_input" where
  "state_changed topic actor artifactId from to =
     ev topic actor ''artifact.state_changed'' ''artifact'' artifactId
       [(''from'', JStr (artifact_state_text from)), (''to'', JStr (artifact_state_text to))]"

section \<open>writeArtifact\<close>

definition write_body ::
  "env \<Rightarrow> string \<Rightarrow> string \<Rightarrow> rat \<Rightarrow> string \<Rightarrow> string \<Rightarrow> (write_result, write_result) dtx" where
  "write_body E artifactId claimId fencingToken contentRef actorId d =
     (case artifact_of d artifactId of
        None \<Rightarrow> (Abort (W_conflict Artifact_not_found), d)
      | Some pre \<Rightarrow>
          if \<not> pg_uuid E claimId then (Throw Pg_syntax, d)
          else (case bind_bigint fencingToken of
            Inl x \<Rightarrow> (Throw x, d)
          | Inr token \<Rightarrow>
              if \<not> write_guard E d WRITE_WRITABLE_STATES artifactId claimId token actorId
              then (Abort (W_conflict (classifyGuardConflict E d artifactId claimId token actorId
                             WRITE_WRITABLE_STATES)), d)
              else tx_bind (next_version artifactId Working (Some contentRef) (Some token)
                              (Some token) ''write'' actorId) (\<lambda>newVersion.
                   tx_bind (topicIdForArtifact artifactId) (\<lambda>topicId.
                   tx_then (tx_block
                     [emit E (ev topicId actorId ''artifact.versioned'' ''artifact'' artifactId
                        [(''version'', jnat newVersion), (''fencing_token'', JNum (of_int token))]),
                      (if af_state pre \<noteq> Working
                       then emit E (state_changed topicId actorId artifactId (af_state pre) Working)
                       else tx_return ())])
                   (tx_return (W_ok newVersion Working)))) d))"

fun finite_value :: "jsnum \<Rightarrow> rat option" where
  "finite_value (Fin q) = Some q"
| "finite_value _ = None"

definition writeArtifact ::
  "env \<Rightarrow> string option \<Rightarrow> string \<Rightarrow> string \<Rightarrow> jsnum \<Rightarrow> string \<Rightarrow> string \<Rightarrow> db \<Rightarrow> write_result outcome"
  where
  "writeArtifact E pid artifact_id claim_id fencing_token content_ref actor_id =
     guarded E pid A_write (rref K_artifact (trim artifact_id)) (\<lambda>d.
       let artifactId = trim artifact_id; claimId = trim claim_id; actorId = trim actor_id
       in if artifactId = [] \<or> claimId = [] \<or> actorId = [] then throw BAD_REQUEST d
          else case finite_value fencing_token of
            None \<Rightarrow> throw BAD_REQUEST d
          | Some q \<Rightarrow>
              if trim content_ref = [] then throw BAD_REQUEST d
              else transaction (write_body E artifactId claimId q content_ref actorId) d)"

section \<open>baselineArtifact\<close>

definition baseline_body ::
  "env \<Rightarrow> string \<Rightarrow> string \<Rightarrow> rat \<Rightarrow> string \<Rightarrow> (write_result, write_result) dtx" where
  "baseline_body E artifactId claimId fencingToken actorId d =
     (case artifact_of d artifactId of
        None \<Rightarrow> (Abort (W_conflict Artifact_not_found), d)
      | Some pre \<Rightarrow>
          if \<not> pg_uuid E claimId then (Throw Pg_syntax, d)
          else (case bind_bigint fencingToken of
            Inl x \<Rightarrow> (Throw x, d)
          | Inr token \<Rightarrow>
              if \<not> write_guard E d BASELINE_WRITABLE_STATES artifactId claimId token actorId
              then (Abort (W_conflict (classifyGuardConflict E d artifactId claimId token actorId
                             BASELINE_WRITABLE_STATES)), d)
              else tx_bind (next_version artifactId Baselined (af_content pre) (Some token)
                              None ''baselined'' actorId) (\<lambda>newVersion.
                   tx_bind (topicIdForArtifact artifactId) (\<lambda>topicId.
                   tx_then (emit E (state_changed topicId actorId artifactId (af_state pre) Baselined))
                     (tx_return (W_ok newVersion Baselined)))) d))"

definition baselineArtifact ::
  "env \<Rightarrow> string option \<Rightarrow> string \<Rightarrow> string \<Rightarrow> jsnum \<Rightarrow> string \<Rightarrow> db \<Rightarrow> write_result outcome" where
  "baselineArtifact E pid artifact_id claim_id fencing_token actor_id =
     guarded E pid A_write (rref K_artifact (trim artifact_id)) (\<lambda>d.
       let artifactId = trim artifact_id; claimId = trim claim_id; actorId = trim actor_id
       in if artifactId = [] \<or> claimId = [] \<or> actorId = [] then throw BAD_REQUEST d
          else case finite_value fencing_token of
            None \<Rightarrow> throw BAD_REQUEST d
          | Some q \<Rightarrow> transaction (baseline_body E artifactId claimId q actorId) d)"

section \<open>revertArtifact\<close>

record revert_info =
  rv_version :: nat
  rv_state :: artifact_state
  rv_from :: artifact_state

text \<open>\<^verbatim>\<open>WHERE artifact_id = $1 AND state = 'baselined' ORDER BY version DESC LIMIT 1\<close>\<close>

definition last_baselined :: "db \<Rightarrow> string \<Rightarrow> version_row option" where
  "last_baselined d artifactId =
     (case rev (sort_key v_version
             (filter (\<lambda>v. v_artifact v = artifactId \<and> v_state v = Baselined) (versions d))) of
        [] \<Rightarrow> None
      | v # _ \<Rightarrow> Some v)"

definition revertArtifact :: "string \<Rightarrow> string \<Rightarrow> (revert_info, 'r) dtx" where
  "revertArtifact artifactId actorId d = (case artifact_of d artifactId of
     None \<Rightarrow> (Throw (Hub NOT_FOUND), d)
   | Some cur \<Rightarrow>
       let target = (case last_baselined d artifactId of
             Some v \<Rightarrow> (Baselined, v_content v, ''reverted to v'' @ show_nat (v_version v))
           | None \<Rightarrow> (Draft, None, ''reverted to draft''))
       in tx_bind (next_version artifactId (fst target) (fst (snd target)) None None
                     (snd (snd target)) actorId)
            (\<lambda>newVersion. tx_return
               \<lparr>rv_version = newVersion, rv_state = fst target, rv_from = af_state cur\<rparr>) d)"

section \<open>Inside a service relation\<close>

text \<open>A new version of the artifact \<open>b\<close>: the effect of \<open>next_version\<close>.\<close>

definition artifact_versioned ::
  "artifact_row \<Rightarrow> artifact_state \<Rightarrow> int option \<Rightarrow> version_row \<Rightarrow> db \<Rightarrow> db \<Rightarrow> bool" where
  "artifact_versioned b st tk v d d' \<longleftrightarrow>
     b \<in> set (artifacts d) \<and> v_artifact v = af_id b \<and> v_version v = Suc (af_version b) \<and>
     d' = versions_update (\<lambda>tbl. tbl @ [v])
            (d\<lparr>artifacts := update_where (\<lambda>x. af_id x = af_id b)
                              (bump_artifact (af_id b) st (v_content v) tk) (artifacts d)\<rparr>)"

locale artifact_service = append_service +
  assumes rel_artifact_versioned: "artifact_versioned b st tk v d d' \<Longrightarrow> R d d'"
begin

lemma rel_next_version: "after (\<lambda>_. R d) (next_version aid st ct tk vf nt ac d)"
proof (cases "artifact_of d aid")
  case None
  then show ?thesis by (simp add: next_version_def)
next
  case (Some b)
  then have "b \<in> set (artifacts d)" "af_id b = aid"
    by (auto simp: artifact_of_def dest: find_row_Some)
  then show ?thesis
    using Some rel_artifact_versioned [of b st tk
        "\<lparr>v_artifact = aid, v_version = Suc (af_version b), v_state = st, v_content = ct,
          v_fence = vf, v_note = nt, v_created_by = ac\<rparr>" d]
    by (simp add: next_version_def after_simps artifact_versioned_def)
qed

lemma rel_topicIdForArtifact: "after (\<lambda>_. R d) (topicIdForArtifact aid d)"
  by (simp add: topicIdForArtifact_def rel_refl split: option.split)

lemma rel_revertArtifact: "after (\<lambda>_. R d) (revertArtifact aid ac d)"
  unfolding revertArtifact_def Let_def
  by (auto intro!: emit_rules rel_next_version split: option.split)

lemma rel_write_body: "after (\<lambda>_. R d) (write_body E aid cid q ct ac d)"
  unfolding write_body_def
  by (auto intro!: emit_rules rel_next_version rel_topicIdForArtifact split: option.split sum.split)

lemma rel_baseline_body: "after (\<lambda>_. R d) (baseline_body E aid cid q ac d)"
  unfolding baseline_body_def
  by (auto intro!: emit_rules rel_next_version rel_topicIdForArtifact split: option.split sum.split)

lemma rel_writeArtifact: "R d (snd (writeArtifact E pid aid cid f ct ac d))"
  unfolding writeArtifact_def
  by (auto intro!: emit_rules rel_write_body simp: Let_def split: option.split)

lemma rel_baselineArtifact: "R d (snd (baselineArtifact E pid aid cid f ac d))"
  unfolding baselineArtifact_def
  by (auto intro!: emit_rules rel_baseline_body simp: Let_def split: option.split)

end

interpretation log: artifact_service log_ext
  by unfold_locales (simp add: artifact_versioned_def log_ext_same)

interpretation topic: artifact_service topic_step
  by unfold_locales (simp add: log_ext_step log.rel_artifact_versioned)

section \<open>Properties\<close>

text \<open>
  \<open>version_written E d writable aid cid tok ac st ct d'\<close>: the artifact was writable, the token not older
  than the accepted one, the claim live and the actor's; exactly one version was added, with the next
  number, and no other artifact changed.
\<close>

definition version_written ::
  "env \<Rightarrow> db \<Rightarrow> artifact_state list \<Rightarrow> string \<Rightarrow> string \<Rightarrow> int \<Rightarrow> string \<Rightarrow> artifact_state \<Rightarrow>
     (artifact_row \<Rightarrow> string option) \<Rightarrow> nat \<Rightarrow> db \<Rightarrow> bool" where
  "version_written E d writable aid cid tok ac st ct n d' \<longleftrightarrow>
     (\<exists>a v. artifact_of d aid = Some a \<and> af_state a \<in> set writable \<and> af_fence a \<le> tok \<and>
        owns_live_claim E d aid cid ac \<and> n = Suc (af_version a) \<and>
        artifact_of d' aid = Some (a\<lparr>af_state := st, af_content := ct a, af_version := n, af_fence := tok\<rparr>) \<and>
        (\<forall>x. x \<noteq> aid \<longrightarrow> artifact_of d' x = artifact_of d x) \<and>
        map af_id (artifacts d') = map af_id (artifacts d) \<and> versions d' = versions d @ [v] \<and>
        (v_artifact v, v_version v, v_state v, v_content v) = (aid, n, st, ct a))"

lemma artifact_frame [simp]:
  "artifact_of (d\<lparr>authz_decisions := l\<rparr>) x = artifact_of d x"
  "write_guard E (d\<lparr>authz_decisions := l\<rparr>) ws x c t a = write_guard E d ws x c t a"
  "owns_live_claim E (d\<lparr>authz_decisions := l\<rparr>) x c a = owns_live_claim E d x c a"
  "classifyGuardConflict E (d\<lparr>authz_decisions := l\<rparr>) x c t a ws = classifyGuardConflict E d x c t a ws"
  by (simp_all add: artifact_of_def write_guard_def owns_live_claim_def classifyGuardConflict_def
      cong: option.case_cong if_cong)

lemma logged_artifacts: "logged d d' \<Longrightarrow> artifact_of d' x = artifact_of d x" "logged d d' \<Longrightarrow> versions d' = versions d"
  "logged d d' \<Longrightarrow> artifacts d' = artifacts d"
  by (auto simp: logged_def artifact_of_def)

lemma aborts_next_version [aborts_simps]: "aborts A (next_version aid st ct tk vf nt ac d)"
  unfolding next_version_def
  by (auto simp: aborts_simps after_simps split: option.split)

lemma aborts_topicIdForArtifact [aborts_simps]: "aborts A (topicIdForArtifact aid d)"
  by (simp add: topicIdForArtifact_def split: option.split)

lemma write_guard_row:
  assumes "pkey af_id (artifacts d)" and "write_guard E d ws aid cid tok ac" and "artifact_of d aid = Some a"
  shows "af_state a \<in> set ws" "af_fence a \<le> tok" "owns_live_claim E d aid cid ac"
proof -
  obtain b where b: "b \<in> set (artifacts d)" "af_id b = aid" "af_state b \<in> set ws" "af_fence b \<le> tok"
    "owns_live_claim E d aid cid ac"
    using assms(2) by (auto simp: write_guard_def exists_where_def list_ex_iff)
  have "a = b" using pkey_unique [OF assms(1)] b(1,2) assms(3) find_row_Some unfolding artifact_of_def by metis
  with b show "af_state a \<in> set ws" "af_fence a \<le> tok" "owns_live_claim E d aid cid ac" by simp_all
qed

lemma artifact_of_bump:
  "artifact_of (versions_update f (d\<lparr>artifacts := update_where (\<lambda>b. af_id b = aid)
      (bump_artifact aid st ct tk) (artifacts d)\<rparr>)) x =
    (if x = aid then map_option (bump_artifact aid st ct tk) (artifact_of d aid) else artifact_of d x)"
proof -
  have "artifact_of (versions_update f (d\<lparr>artifacts := update_where (\<lambda>b. af_id b = aid)
      (bump_artifact aid st ct tk) (artifacts d)\<rparr>)) x =
    map_option (\<lambda>b. if af_id b = aid then bump_artifact aid st ct tk b else b) (artifact_of d x)"
    by (simp add: artifact_of_def find_row_update_where bump_artifact_def)
  then show ?thesis
    using find_row_key [of af_id x "artifacts d"] by (cases "artifact_of d x") (auto simp: artifact_of_def)
qed

lemma next_version_written:
  assumes "pkey af_id (artifacts d)" and "write_guard E d ws aid cid tok ac" and "artifact_of d aid = Some a"
    and "ct = f a"
  shows "after (\<lambda>n d'. version_written E d ws aid cid tok ac st f n d')
    (next_version aid st ct (Some tok) vf nt by' d)"
  using write_guard_row [OF assms(1-3)] assms(3,4)
  by (auto simp: next_version_def after_simps artifact_of_bump version_written_def bump_artifact_def map_update_where
      simp del: tx_block.simps)

lemma written_logged:
  "version_written E d ws aid cid tok ac st ct n d1 \<Longrightarrow> logged d1 d2 \<Longrightarrow> version_written E d ws aid cid tok ac st ct n d2"
  unfolding version_written_def by (simp add: logged_artifacts)

lemma written_frame [simp]:
  "version_written E (d\<lparr>authz_decisions := l\<rparr>) = version_written E d"
  by (intro ext) (simp add: version_written_def)

text \<open>What a refusal of the guard is true of.\<close>

fun conflict_holds :: "env \<Rightarrow> db \<Rightarrow> artifact_state list \<Rightarrow> string \<Rightarrow> string \<Rightarrow> int \<Rightarrow> string \<Rightarrow> conflict_reason \<Rightarrow> bool" where
  "conflict_holds E d ws aid cid tok ac Artifact_not_found \<longleftrightarrow> artifact_of d aid = None"
| "conflict_holds E d ws aid cid tok ac Bad_artifact_state \<longleftrightarrow>
     (\<exists>a. artifact_of d aid = Some a \<and> af_state a \<notin> set ws)"
| "conflict_holds E d ws aid cid tok ac Fencing_token_stale \<longleftrightarrow>
     (\<exists>a. artifact_of d aid = Some a \<and> af_state a \<in> set ws \<and> tok < af_fence a)"
| "conflict_holds E d ws aid cid tok ac Claim_not_live \<longleftrightarrow>
     (\<forall>c \<in> set (claims d). \<not> (c_id c = cid \<and> c_artifact c = aid \<and> pg_now E < c_expires c))"
| "conflict_holds E d ws aid cid tok ac Claim_not_owned \<longleftrightarrow>
     (\<exists>c \<in> set (claims d). c_id c = cid \<and> c_artifact c = aid \<and> pg_now E < c_expires c \<and> c_actor c \<noteq> ac)"

lemma classify_holds:
  assumes "\<not> write_guard E d ws aid cid tok ac"
  shows "conflict_holds E d ws aid cid tok ac (classifyGuardConflict E d aid cid tok ac ws)"
proof (cases "artifact_of d aid")
  case None
  then show ?thesis by (simp add: classifyGuardConflict_def)
next
  case (Some a)
  let ?P = "\<lambda>c. c_id c = cid \<and> c_artifact c = aid \<and> pg_now E < c_expires c"
  have a: "a \<in> set (artifacts d)" "af_id a = aid" using Some by (auto simp: artifact_of_def dest: find_row_Some)
  show ?thesis
  proof (cases "af_state a \<in> set ws \<and> af_fence a \<le> tok")
    case False
    then show ?thesis using Some by (auto simp: classifyGuardConflict_def)
  next
    case True
    then have own: "\<not> owns_live_claim E d aid cid ac"
      using assms a by (auto simp: write_guard_def exists_where_def list_ex_iff)
    show ?thesis
    proof (cases "find ?P (claims d)")
      case None
      then show ?thesis using Some True by (simp add: classifyGuardConflict_def) (auto simp: find_None_iff)
    next
      case (Some c)
      then have "c \<in> set (claims d)" "?P c" by (auto simp: find_Some_iff)
      moreover from this own have "c_actor c \<noteq> ac" by (auto simp: owns_live_claim_def exists_where_def list_ex_iff)
      ultimately show ?thesis using \<open>artifact_of d aid = Some a\<close> Some True by (auto simp: classifyGuardConflict_def)
    qed
  qed
qed

lemma finite_value_Some: "finite_value f = Some q \<longleftrightarrow> f = Fin q"
  by (cases f) auto

lemma writeArtifact_ran:
  assumes "writeArtifact E pid aid cid f ct ac d = (Inr r, d')"
  obtains q l where "f = Fin q" "transaction (write_body E (trim aid) (trim cid) q ct (trim ac)) (d\<lparr>authz_decisions := l\<rparr>) = (Inr r, d')"
  using assms unfolding writeArtifact_def
  by (auto simp: Let_def throw_def finite_value_Some elim!: guarded_Inr split: if_splits option.splits)

lemma writeArtifact_written:
  assumes "writeArtifact E pid aid cid f ct ac d = (Inr (W_ok n st), d')" and "pkey af_id (artifacts d)"
  shows "\<exists>q tok. f = Fin q \<and> bind_bigint q = Inr tok \<and> st = Working \<and>
    version_written E d WRITE_WRITABLE_STATES (trim aid) (trim cid) tok (trim ac) Working (\<lambda>_. Some ct) n d'"
proof -
  obtain q l where q: "f = Fin q" and
    run: "transaction (write_body E (trim aid) (trim cid) q ct (trim ac)) (d\<lparr>authz_decisions := l\<rparr>) = (Inr (W_ok n st), d')"
    using assms(1) by (rule writeArtifact_ran)
  let ?B = "write_body E (trim aid) (trim cid) q ct (trim ac) (d\<lparr>authz_decisions := l\<rparr>)"
  define Q where "Q = (\<lambda>r d'. \<exists>tok n. bind_bigint q = Inr tok \<and> r = W_ok n Working \<and>
    version_written E d WRITE_WRITABLE_STATES (trim aid) (trim cid) tok (trim ac) Working (\<lambda>_. Some ct) n d')"
  have early: "aborts (\<lambda>r. \<exists>c. r = W_conflict c) ?B"
    by (auto simp: write_body_def aborts_simps after_simps split: option.split sum.split intro!: after_I)
  have "after Q ?B"
    using assms(2) unfolding write_body_def
    by (auto simp: after_simps topicIdForArtifact_def Q_def split: option.split sum.split
        intro!: after_mono [OF next_version_written] after_emit simp del: tx_block.simps; metis written_logged)
  from committed_result [where Q = Q, OF run early _ this] show ?thesis using q by (auto simp: Q_def)
qed

text \<open>
  Property C23. A write succeeds only behind the whole guard: the artifact is in a writable state, the
  presented fencing token is not older than the accepted one, and the actor owns the named live claim. It
  then adds exactly one version, numbered one higher, with the given content, makes the token the
  accepted one, and changes no other artifact.
\<close>

theorem writeArtifact_spec:
  assumes "writeArtifact E pid aid cid f ct ac d = (Inr (W_ok n st), d')" and "pkey af_id (artifacts d)"
  shows "\<exists>q tok. f = Fin q \<and> bind_bigint q = Inr tok \<and> st = Working \<and>
    version_written E d WRITE_WRITABLE_STATES (trim aid) (trim cid) tok (trim ac) Working (\<lambda>_. Some ct) n d'"
  using assms by (rule writeArtifact_written)

text \<open>
  A refused write names a reason that holds of the state it saw (no such artifact, a state that
  is not writable, a token older than the accepted one, no such live claim, or a live claim of someone else),
  and changes neither artifacts nor versions nor claims.
\<close>

theorem writeArtifact_refused:
  assumes "writeArtifact E pid aid cid f ct ac d = (Inr (W_conflict c), d')"
  shows "(\<exists>tok. conflict_holds E d WRITE_WRITABLE_STATES (trim aid) (trim cid) tok (trim ac) c) \<and>
    artifacts d' = artifacts d \<and> versions d' = versions d \<and> claims d' = claims d \<and> events d' = events d"
proof -
  obtain q l where "f = Fin q" and
    run: "transaction (write_body E (trim aid) (trim cid) q ct (trim ac)) (d\<lparr>authz_decisions := l\<rparr>) = (Inr (W_conflict c), d')"
    using assms(1) by (rule writeArtifact_ran)
  let ?B = "write_body E (trim aid) (trim cid) q ct (trim ac) (d\<lparr>authz_decisions := l\<rparr>)"
  have late: "after (\<lambda>r _. \<not> (\<exists>c. r = W_conflict c)) ?B"
    by (auto simp: write_body_def after_simps split: option.split sum.split intro!: after_I)
  have early: "aborts (\<lambda>r. \<forall>c. r = W_conflict c \<longrightarrow> (\<exists>tok. conflict_holds E d WRITE_WRITABLE_STATES (trim aid) (trim cid) tok (trim ac) c)) ?B"
    by (auto simp: write_body_def aborts_simps after_simps split: option.split sum.split intro!: after_I classify_holds)
  from refused_result [OF run late _ early] show ?thesis by (auto simp: rollback_def)
qed

theorem writeArtifact_spec_witness:
  "map v_version (versions (snd (writeArtifact dev_env None ''A'' ''C'' (Fin 1) ''blob'' ''ann'' board_db))) = [1, 2]"
proof -
  let ?run = "writeArtifact dev_env None ''A'' ''C'' (Fin 1) ''blob'' ''ann'' board_db"
  have "fst ?run = Inr (W_ok 2 Working)" by code_simp
  then have run: "?run = (Inr (W_ok 2 Working), snd ?run)" by (metis prod.collapse)
  moreover have "pkey af_id (artifacts board_db)" by code_simp
  ultimately obtain q tok where "version_written dev_env board_db WRITE_WRITABLE_STATES (trim ''A'') (trim ''C'') tok
      (trim ''ann'') Working (\<lambda>_. Some ''blob'') 2 (snd ?run)"
    using writeArtifact_spec [OF run] by blast
  moreover have "map v_version (versions board_db) = [1]" by code_simp
  ultimately show ?thesis unfolding version_written_def by auto
qed

theorem writeArtifact_refused_witness:
  "versions (snd (writeArtifact dev_env None ''A'' ''C'' (Fin 1) ''blob'' ''bob'' board_db)) = versions board_db"
proof -
  let ?run = "writeArtifact dev_env None ''A'' ''C'' (Fin 1) ''blob'' ''bob'' board_db"
  have "fst ?run = Inr (W_conflict Claim_not_owned)" by code_simp
  then have run: "?run = (Inr (W_conflict Claim_not_owned), snd ?run)" by (metis prod.collapse)
  from writeArtifact_refused [OF run] show ?thesis by blast
qed

lemma baselineArtifact_written:
  assumes "baselineArtifact E pid aid cid f ac d = (Inr (W_ok n st), d')" and "pkey af_id (artifacts d)"
  shows "\<exists>tok. version_written E d BASELINE_WRITABLE_STATES (trim aid) (trim cid) tok (trim ac) Baselined af_content n d'"
proof -
  obtain q l where
    run: "transaction (baseline_body E (trim aid) (trim cid) q (trim ac)) (d\<lparr>authz_decisions := l\<rparr>) = (Inr (W_ok n st), d')"
    using assms(1) unfolding baselineArtifact_def
    by (auto simp: Let_def throw_def elim!: guarded_Inr split: if_splits option.splits)
  let ?B = "baseline_body E (trim aid) (trim cid) q (trim ac) (d\<lparr>authz_decisions := l\<rparr>)"
  define Q where "Q = (\<lambda>r d'. \<exists>tok n. r = W_ok n Baselined \<and>
    version_written E d BASELINE_WRITABLE_STATES (trim aid) (trim cid) tok (trim ac) Baselined af_content n d')"
  have early: "aborts (\<lambda>r. \<exists>c. r = W_conflict c) ?B"
    by (auto simp: baseline_body_def aborts_simps after_simps split: option.split sum.split intro!: after_I)
  have "after Q ?B"
    using assms(2) unfolding baseline_body_def
    by (auto simp: after_simps topicIdForArtifact_def Q_def split: option.split sum.split
        intro!: after_mono [OF next_version_written [where f = af_content]] after_emit simp del: tx_block.simps;
      metis written_logged)
  from committed_result [where Q = Q, OF run early _ this] show ?thesis by (auto simp: Q_def)
qed

text \<open>The newest baselined version, when it is newer than all others.\<close>

lemma last_baselined_newest:
  assumes "v \<in> set (versions d)" "v_artifact v = aid" "v_state v = Baselined"
    and "\<And>w. w \<in> set (versions d) \<Longrightarrow> v_artifact w = aid \<Longrightarrow> v_state w = Baselined \<Longrightarrow> w = v \<or> v_version w < v_version v"
  shows "last_baselined d aid = Some v"
proof -
  let ?vs = "filter (\<lambda>v. v_artifact v = aid \<and> v_state v = Baselined) (versions d)"
  have "?vs \<noteq> []" using assms(1-3) by (auto simp: filter_empty_conv)
  then have "rev (sort_key v_version ?vs) \<noteq> []" by (metis rev_is_Nil_conv set_empty set_sort)
  then obtain z zs where z: "rev (sort_key v_version ?vs) = z # zs" by (meson neq_Nil_conv)
  then have eq: "sort_key v_version ?vs = rev zs @ [z]" by (metis rev.simps(2) rev_rev_ident)
  have in_vs: "set (sort_key v_version ?vs) = set ?vs" by simp
  have "sorted (map v_version (rev zs @ [z]))" unfolding eq [symmetric] by simp
  then have "v_version w \<le> v_version z" if "w \<in> set ?vs" for w
    using that in_vs unfolding eq by (auto simp: sorted_append)
  moreover have "z \<in> set ?vs" using in_vs unfolding eq by auto
  ultimately have "z = v" using assms by (auto simp: not_less [symmetric])
  then show ?thesis by (simp add: last_baselined_def z)
qed

text \<open>
  A revert undoes writes back to the last baseline: baselining an artifact, then writing to it,
  then reverting it gives back the content that was baselined, in the state \<^verbatim>\<open>baselined\<close>, as a new version
  (nothing is erased).
\<close>

theorem baseline_roundtrip:
  assumes "pkey af_id (artifacts d)"
    and "\<forall>v \<in> set (versions d). \<forall>a. artifact_of d (v_artifact v) = Some a \<longrightarrow> v_version v \<le> af_version a"
    and "baselineArtifact E pid aid cid f ac d = (Inr (W_ok n st), d1)"
    and "writeArtifact E' pid aid cid f' ct ac d1 = (Inr (W_ok m st'), d2)"
    and "revertArtifact (trim aid) ac' d2 = (Next i, d3)"
  shows "\<exists>a a'. artifact_of d (trim aid) = Some a \<and> artifact_of d3 (trim aid) = Some a' \<and>
    (af_content a', af_state a', af_version a') = (af_content a, Baselined, Suc m) \<and>
    prefix (versions d2) (versions d3)"
proof -
  obtain a v1 where b: "artifact_of d (trim aid) = Some a" "n = Suc (af_version a)"
    "versions d1 = versions d @ [v1]" "v_artifact v1 = trim aid" "v_version v1 = n" "v_state v1 = Baselined"
    "v_content v1 = af_content a" "map af_id (artifacts d1) = map af_id (artifacts d)"
    using baselineArtifact_written [OF assms(3,1)] unfolding version_written_def by auto
  have "pkey af_id (artifacts d1)" using b(8) assms(1) by (simp add: pkey_def)
  then obtain a2 v2 where w: "versions d2 = versions d1 @ [v2]" "v_artifact v2 = trim aid" "v_state v2 = Working"
    "artifact_of d2 (trim aid) = Some a2" "af_version a2 = m"
    using writeArtifact_written [OF assms(4)] unfolding version_written_def by auto
  have "last_baselined d2 (trim aid) = Some v1"
    by (rule last_baselined_newest) (use b w assms(2) in \<open>auto simp: less_Suc_eq_le\<close>)
  then have "after (\<lambda>_ d'. artifact_of d' (trim aid) = Some (a2\<lparr>af_state := Baselined, af_content := af_content a,
      af_version := Suc m\<rparr>) \<and> prefix (versions d2) (versions d')) (revertArtifact (trim aid) ac' d2)"
    using b(7) w by (auto simp: revertArtifact_def Let_def next_version_def after_simps artifact_of_bump bump_artifact_def
        simp del: tx_block.simps)
  from after_Next [OF this assms(5)] b(1) show ?thesis by auto
qed

theorem baseline_roundtrip_witness:
  "\<exists>d d2 d3. map_option af_content (artifact_of d ''A'') = Some (Some ''good'') \<and>
     map_option af_content (artifact_of d2 ''A'') = Some (Some ''bad'') \<and>
     map_option af_content (artifact_of d3 ''A'') = Some (Some ''good'')"
proof -
  let ?d = "snd (writeArtifact dev_env None ''A'' ''C'' (Fin 1) ''good'' ''ann'' board_db)"
  let ?d1 = "snd (baselineArtifact dev_env None ''A'' ''C'' (Fin 1) ''ann'' ?d)"
  let ?d2 = "snd (writeArtifact dev_env None ''A'' ''C'' (Fin 1) ''bad'' ''ann'' ?d1)"
  let ?rev = "revertArtifact (trim ''A'') ''sweep'' ?d2 :: (revert_info, unit, exn) ctl \<times> db"
  have "fst (baselineArtifact dev_env None ''A'' ''C'' (Fin 1) ''ann'' ?d) = Inr (W_ok 3 Baselined)"
    "fst (writeArtifact dev_env None ''A'' ''C'' (Fin 1) ''bad'' ''ann'' ?d1) = Inr (W_ok 4 Working)"
    "fst ?rev = Next \<lparr>rv_version = 5, rv_state = Baselined, rv_from = Working\<rparr>"
    by code_simp+
  then have "baselineArtifact dev_env None ''A'' ''C'' (Fin 1) ''ann'' ?d = (Inr (W_ok 3 Baselined), ?d1)"
    "writeArtifact dev_env None ''A'' ''C'' (Fin 1) ''bad'' ''ann'' ?d1 = (Inr (W_ok 4 Working), ?d2)"
    "?rev = (Next \<lparr>rv_version = 5, rv_state = Baselined, rv_from = Working\<rparr>, snd ?rev)"
    by (metis prod.collapse)+
  moreover have "pkey af_id (artifacts ?d)" by code_simp
  moreover have "\<forall>v \<in> set (versions ?d). \<forall>a. artifact_of ?d (v_artifact v) = Some a \<longrightarrow> v_version v \<le> af_version a"
  proof -
    have "list_all (\<lambda>v. case artifact_of ?d (v_artifact v) of None \<Rightarrow> True | Some a \<Rightarrow> v_version v \<le> af_version a) (versions ?d)"
      by code_simp
    then show ?thesis by (auto simp: list_all_iff split: option.splits)
  qed
  ultimately have "\<exists>a a'. artifact_of ?d (trim ''A'') = Some a \<and> artifact_of (snd ?rev) (trim ''A'') = Some a' \<and>
      (af_content a', af_state a', af_version a') = (af_content a, Baselined, Suc 4) \<and>
      prefix (versions ?d2) (versions (snd ?rev))"
    by (intro baseline_roundtrip [where d = ?d and ?d1.0 = ?d1])
  moreover have "trim ''A'' = ''A''" by code_simp
  moreover have "map_option af_content (artifact_of ?d ''A'') = Some (Some ''good'')"
    "map_option af_content (artifact_of ?d2 ''A'') = Some (Some ''bad'')" by code_simp+
  ultimately show ?thesis by (intro exI [of _ ?d] exI [of _ ?d2] exI [of _ "snd ?rev"]) auto
qed

end
