(* ===== verification/Board.thy ===== *)
theory Board
  imports Chaining Artifacts
begin

text \<open>
  The board (services/board.ts): tasks and the claim lifecycle. A task has one output artifact; a
  claim is a lease on it with a time to live and a fencing token. \<open>claimTask\<close> enforces the task's
  topology, removes expired claims, refuses while a claim is live, and grants otherwise.
\<close>

section \<open>Time to live\<close>

definition DEFAULT_TTL_MINUTES :: int where "DEFAULT_TTL_MINUTES = 30"
definition MAX_TTL_MINUTES :: int where "MAX_TTL_MINUTES = 240"

fun clampTtl :: "jsnum option \<Rightarrow> int" where
  "clampTtl (Some (Fin q)) =
     (if q < 1 then 1 else if of_int MAX_TTL_MINUTES < q then MAX_TTL_MINUTES else \<lfloor>q\<rfloor>)"
| "clampTtl _ = DEFAULT_TTL_MINUTES"

lemma clampTtl_bounds: "1 \<le> clampTtl t \<and> clampTtl t \<le> MAX_TTL_MINUTES"
proof (cases t)
  case None
  then show ?thesis by (simp add: DEFAULT_TTL_MINUTES_def MAX_TTL_MINUTES_def)
next
  case (Some n)
  show ?thesis
  proof (cases n)
    case (Fin q)
    with Some show ?thesis
      by (auto simp: MAX_TTL_MINUTES_def le_floor_iff floor_le_iff)
  qed (simp_all add: Some DEFAULT_TTL_MINUTES_def MAX_TTL_MINUTES_def)
qed

section \<open>postTask\<close>

record task_record =
  kr_task :: task_row
  kr_depends_on :: "string list"
  kr_artifact :: string

definition post_body ::
  "env \<Rightarrow> string \<Rightarrow> string \<Rightarrow> task_params \<Rightarrow> (task_record, task_record) dtx" where
  "post_body E taskId artifactId p =
     tx_then (tx_block
       [create_task E artifactId taskId p,
        emit E (ev (tp_topic p) (tp_created_by p) ''task.posted'' ''task'' taskId (task_payload p)),
        emit E (artifact_created (tp_created_by p) artifactId taskId p)])
     (tx_return
       \<lparr>kr_task = \<lparr>tk_id = taskId, tk_topic = tp_topic p, tk_title = tp_title p,
                   tk_topology = tp_topology p, tk_depends_on = map uuid_canon (tp_depends_on p),
                   tk_raci = JObj (tp_raci p), tk_status = Posted, tk_created_by = tp_created_by p,
                   tk_created_at = pg_now E\<rparr>,
        kr_depends_on = tp_depends_on p, kr_artifact = artifactId\<rparr>)"

text \<open>The reads before \<^verbatim>\<open>BEGIN\<close>: topic, then dependencies; the task id is drawn before them.\<close>

definition post_checked :: "env \<Rightarrow> task_params \<Rightarrow> db \<Rightarrow> task_record outcome" where
  "post_checked E p d0 =
     (let taskId = uuid_of E (uuid_ctr d0);
          artifactId = artifact_name (tp_topic p) taskId (tp_slot p);
          d = d0\<lparr>uuid_ctr := Suc (uuid_ctr d0)\<rparr>
      in case topic_of d (tp_topic p) of
          None \<Rightarrow> throw NOT_FOUND d
        | Some t \<Rightarrow>
            if t_status t = Closed \<or> t_status t = Closing then throw BAD_REQUEST d
            else if tp_depends_on p \<noteq> [] \<and>
                    length (dependency_rows d (tp_depends_on p) (tp_topic p)) \<noteq> length (tp_depends_on p)
            then throw BAD_REQUEST d
            else transaction (post_body E taskId artifactId p) d)"

definition postTask ::
  "env \<Rightarrow> string option \<Rightarrow> string \<Rightarrow> string \<Rightarrow> string \<Rightarrow> string list option \<Rightarrow>
     (string \<times> json) list option \<Rightarrow> string \<Rightarrow> string \<Rightarrow> string \<Rightarrow> db \<Rightarrow> task_record outcome" where
  "postTask E pid topic_id title topo depends_on raci slot kind created_by =
     guarded E pid A_write (rref K_topic (trim topic_id)) (\<lambda>d.
       let topicId = trim topic_id; ti = trim title; sl = trim slot; ki = trim kind;
           createdBy = trim created_by; dependsOn = or_else depends_on []
       in if topicId = [] \<or> ti = [] \<or> ki = [] \<or> createdBy = [] then throw BAD_REQUEST d
          else case parse_topology topo of
            None \<Rightarrow> throw BAD_REQUEST d
          | Some tp \<Rightarrow>
              if \<not> slot_ok sl \<or> 64 < length sl then throw BAD_REQUEST d
              else if \<not> list_all uuid_ok dependsOn then throw BAD_REQUEST d
              else post_checked E
                \<lparr>tp_topic = topicId, tp_title = ti, tp_topology = tp, tp_slot = sl, tp_kind = ki,
                 tp_depends_on = dependsOn, tp_raci = or_else raci [], tp_created_by = createdBy\<rparr> d)"

section \<open>listBoard\<close>

definition board_rows :: "db \<Rightarrow> string \<Rightarrow> string option \<Rightarrow> (task_row \<times> artifact_row) list" where
  "board_rows d topicId status =
     concat (map (\<lambda>k. map (Pair k) (filter (\<lambda>a. af_task a = tk_id k) (artifacts d)))
       (sort_key tk_created_at
         (filter (\<lambda>k. tk_topic k = topicId \<and>
             (case status of None \<Rightarrow> True | Some s \<Rightarrow> s = [] \<or> task_status_text (tk_status k) = s))
           (tasks d))))"

definition listBoard ::
  "env \<Rightarrow> string option \<Rightarrow> string \<Rightarrow> string option \<Rightarrow> db \<Rightarrow> (task_row \<times> artifact_row) list outcome" where
  "listBoard E pid topic_id status d =
     (let topicId = trim topic_id in
      if topicId = [] then throw BAD_REQUEST d
      else guarded E pid A_read (rref K_topic topicId) (\<lambda>d.
        if topic_of d topicId = None then throw NOT_FOUND d
        else (Inr (board_rows d topicId status), d)) d)"

section \<open>claimTask\<close>

datatype claim_result =
    Claim_granted string int int string  \<comment> \<open>claim, token, expires, artifact\<close>
  | Claim_task_completed
  | Claim_conflict string int            \<comment> \<open>incumbent, expires\<close>
  | Claim_not_found
  | Claim_topic_closed
  | Claim_unmet "string list" "(string \<times> task_status) list"
  | Claim_not_baselined "(string \<times> artifact_state) list"

definition task_of :: "db \<Rightarrow> string \<Rightarrow> task_row option" where
  "task_of d kid = find_row tk_id kid (tasks d)"

text \<open>\<^verbatim>\<open>SELECT artifact_id FROM artifacts WHERE task_id = $1\<close>, first row.\<close>

definition artifact_of_task :: "db \<Rightarrow> string \<Rightarrow> artifact_row option" where
  "artifact_of_task d kid = find_row af_task kid (artifacts d)"

definition live_claim :: "env \<Rightarrow> db \<Rightarrow> string \<Rightarrow> claim_row option" where
  "live_claim E d artifactId =
     find (\<lambda>c. c_artifact c = artifactId \<and> pg_now E < c_expires c) (claims d)"

definition missing_deps :: "db \<Rightarrow> task_row \<Rightarrow> string list" where
  "missing_deps d k = filter (\<lambda>x. x \<notin> tk_id ` set (tasks d)) (tk_depends_on k)"

definition incomplete_deps :: "db \<Rightarrow> task_row \<Rightarrow> (string \<times> task_status) list" where
  "incomplete_deps d k =
     map (\<lambda>x. (tk_id x, tk_status x))
       (filter (\<lambda>x. tk_id x \<in> set (tk_depends_on k) \<and> tk_status x \<noteq> Completed) (tasks d))"

definition unbaselined_deps :: "db \<Rightarrow> task_row \<Rightarrow> (string \<times> artifact_state) list" where
  "unbaselined_deps d k =
     map (\<lambda>a. (af_task a, af_state a))
       (filter (\<lambda>a. af_task a \<in> set (tk_depends_on k) \<and> af_state a \<noteq> Baselined) (artifacts d))"

text \<open>The topology check: \<open>None\<close> lets the claim through.\<close>

definition topology_block :: "db \<Rightarrow> task_row \<Rightarrow> claim_result option" where
  "topology_block d k =
     (if tk_depends_on k = [] then None
      else case tk_topology k of
          Sequential \<Rightarrow>
            if missing_deps d k \<noteq> [] \<or> incomplete_deps d k \<noteq> []
            then Some (Claim_unmet (missing_deps d k) (incomplete_deps d k)) else None
        | Rolling \<Rightarrow>
            if unbaselined_deps d k \<noteq> [] then Some (Claim_not_baselined (unbaselined_deps d k)) else None
        | Parallel \<Rightarrow> None)"

definition drop_expired :: "env \<Rightarrow> string \<Rightarrow> db \<Rightarrow> db" where
  "drop_expired E artifactId d = d\<lparr>claims :=
     delete_where (\<lambda>c. c_artifact c = artifactId \<and> c_expires c \<le> pg_now E) (claims d)\<rparr>"

definition set_task_status :: "string \<Rightarrow> task_status \<Rightarrow> db \<Rightarrow> db" where
  "set_task_status kid s d = d\<lparr>tasks :=
     update_where (\<lambda>k. tk_id k = kid) (\<lambda>k. k\<lparr>tk_status := s\<rparr>) (tasks d)\<rparr>"

text \<open>
  \<^verbatim>\<open>INSERT INTO claims\<close> under the unique index \<^verbatim>\<open>claims_active_uniq (artifact_id)\<close> and the primary
  key, then \<^verbatim>\<open>UPDATE tasks SET status = 'claimed'\<close>.
\<close>

definition insert_claim :: "claim_row \<Rightarrow> (unit, 'r) dtx" where
  "insert_claim c d =
     (if exists_where (\<lambda>x. c_artifact x = c_artifact c \<or> c_id x = c_id c) (claims d)
      then (Throw Pg_unique, d)
      else (Next (), set_task_status (c_task c) Claimed (d\<lparr>claims := claims d @ [c]\<rparr>)))"

lemma after_insert_claim:
  "after Q (insert_claim c d) =
    (\<not> exists_where (\<lambda>x. c_artifact x = c_artifact c \<or> c_id x = c_id c) (claims d) \<longrightarrow>
      Q () (set_task_status (c_task c) Claimed (d\<lparr>claims := claims d @ [c]\<rparr>)))"
  by (simp add: insert_claim_def)

text \<open>Once no live claim stands in the way: token, lease, task status, events.\<close>

definition grant_claim ::
  "env \<Rightarrow> task_row \<Rightarrow> string \<Rightarrow> string \<Rightarrow> int \<Rightarrow> (claim_result, claim_result) dtx" where
  "grant_claim E k artifactId actorId ttl =
     tx_bind nextval (\<lambda>token.
     tx_bind (gen_uuid E) (\<lambda>claimId.
       let expiresAt = js_now E + ttl * 60000 in
       tx_then (tx_block
         [insert_claim
            \<lparr>c_id = claimId, c_topic = tk_topic k, c_task = tk_id k, c_artifact = artifactId,
             c_actor = actorId, c_fence = token, c_expires = expiresAt\<rparr>,
          emit E (ev (tk_topic k) actorId ''claim.granted'' ''artifact'' artifactId
            [(''task_id'', JStr (tk_id k)), (''actor_id'', JStr actorId)]),
          emit E (ev (tk_topic k) actorId ''task.claimed'' ''task'' (tk_id k)
            [(''actor_id'', JStr actorId)])])
       (tx_return (Claim_granted claimId token expiresAt artifactId))))"

definition claim_body ::
  "env \<Rightarrow> string \<Rightarrow> string \<Rightarrow> int \<Rightarrow> (claim_result, claim_result) dtx" where
  "claim_body E taskId actorId ttl d =
     (if \<not> pg_uuid E taskId then (Throw Pg_syntax, d)
      else case task_of d taskId of
        None \<Rightarrow> (Abort Claim_not_found, d)
      | Some k \<Rightarrow>
          if tk_status k = Completed then (Abort Claim_task_completed, d)
          else if topic_status_of d (tk_topic k) \<in> {Some Closed, Some Closing}
          then (Abort Claim_topic_closed, d)
          else (case topology_block d k of
            Some r \<Rightarrow> (Abort r, d)
          | None \<Rightarrow>
              (case artifact_of_task d taskId of
                 None \<Rightarrow> (Throw Js_type_error, d)
               | Some a \<Rightarrow>
                   tx_then (tx_write (drop_expired E (af_id a))) (\<lambda>d1.
                     case live_claim E d1 (af_id a) of
                       Some c \<Rightarrow> (Abort (Claim_conflict (c_actor c) (c_expires c)), d1)
                     | None \<Rightarrow> grant_claim E k (af_id a) actorId ttl d1) d)))"

definition claimTask ::
  "env \<Rightarrow> string option \<Rightarrow> string \<Rightarrow> string \<Rightarrow> jsnum option \<Rightarrow> db \<Rightarrow> claim_result outcome" where
  "claimTask E pid task_id actor_id ttl_minutes d =
     (let taskId = trim task_id; actorId = trim actor_id
      in if taskId = [] \<or> actorId = [] then throw BAD_REQUEST d
         else guarded E pid A_write (rref K_task taskId)
                (transaction (claim_body E taskId actorId (clampTtl ttl_minutes))) d)"

section \<open>releaseTask\<close>

datatype release_result =
  Rel_released | Rel_not_found | Rel_claim_expired | Rel_not_owner | Rel_topic_closed

text \<open>\<^verbatim>\<open>DELETE FROM claims WHERE claim_id = $1\<close>, and the task's new status.\<close>

definition drop_claim :: "claim_row \<Rightarrow> (task_row \<Rightarrow> task_row) \<Rightarrow> string \<Rightarrow> db \<Rightarrow> db" where
  "drop_claim c f kid d = d\<lparr>claims := delete_where (\<lambda>x. c_id x = c_id c) (claims d),
     tasks := update_where (\<lambda>k. tk_id k = kid) f (tasks d)\<rparr>"

definition release_body ::
  "env \<Rightarrow> string \<Rightarrow> string \<Rightarrow> (release_result, release_result) dtx" where
  "release_body E taskId actorId d =
     (if \<not> pg_uuid E taskId then (Throw Pg_syntax, d)
      else case task_of d taskId of
        None \<Rightarrow> (Abort Rel_not_found, d)
      | Some k \<Rightarrow>
          if topic_status_of d (tk_topic k) = Some Closed then (Abort Rel_topic_closed, d)
          else (case artifact_of_task d taskId of
            None \<Rightarrow> (Throw Js_type_error, d)
          | Some a \<Rightarrow>
              (case live_claim E d (af_id a) of
                 None \<Rightarrow> (Abort Rel_claim_expired, d)
               | Some c \<Rightarrow>
                   if c_actor c \<noteq> actorId then (Abort Rel_not_owner, d)
                   else tx_then (tx_block
                     [tx_write (drop_claim c (\<lambda>x. x\<lparr>tk_status := Posted\<rparr>) taskId),
                      emit E (ev (tk_topic k) actorId ''task.released'' ''task'' taskId
                        [(''actor_id'', JStr actorId)])])
                     (tx_return Rel_released) d)))"

definition releaseTask ::
  "env \<Rightarrow> string option \<Rightarrow> string \<Rightarrow> string \<Rightarrow> db \<Rightarrow> release_result outcome" where
  "releaseTask E pid task_id actor_id d =
     (let taskId = trim task_id; actorId = trim actor_id
      in if taskId = [] \<or> actorId = [] then throw BAD_REQUEST d
         else guarded E pid A_write (rref K_task taskId)
                (transaction (release_body E taskId actorId)) d)"

section \<open>completeTask\<close>

datatype complete_result =
  Cmp_completed | Cmp_not_found | Cmp_already_completed | Cmp_no_live_claim | Cmp_not_owner
| Cmp_bad_artifact_state | Cmp_topic_closed

text \<open>
  The writes of a completion: the artifact goes to review, every claim on it is deleted, the task
  is completed.
\<close>

definition complete_rows :: "string \<Rightarrow> string \<Rightarrow> db \<Rightarrow> db" where
  "complete_rows artifactId kid d =
     d\<lparr>artifacts := update_where (\<lambda>a. af_id a = artifactId \<and> af_state a \<in> {Draft, Working, Baselined})
                     (\<lambda>a. a\<lparr>af_state := For_review\<rparr>) (artifacts d),
       claims := delete_where (\<lambda>c. c_artifact c = artifactId) (claims d),
       tasks := update_where (\<lambda>k. tk_id k = kid) (\<lambda>k. k\<lparr>tk_status := Completed\<rparr>) (tasks d)\<rparr>"

definition complete_body ::
  "env \<Rightarrow> string \<Rightarrow> string \<Rightarrow> (complete_result, complete_result) dtx" where
  "complete_body E taskId actorId d =
     (if \<not> pg_uuid E taskId then (Throw Pg_syntax, d)
      else case task_of d taskId of
        None \<Rightarrow> (Abort Cmp_not_found, d)
      | Some k \<Rightarrow>
          if tk_status k = Completed then (Abort Cmp_already_completed, d)
          else if topic_status_of d (tk_topic k) = Some Closed then (Abort Cmp_topic_closed, d)
          else (case artifact_of_task d taskId of
            None \<Rightarrow> (Throw Js_type_error, d)
          | Some a \<Rightarrow>
              (case live_claim E d (af_id a) of
                 None \<Rightarrow> (Abort Cmp_no_live_claim, d)
               | Some c \<Rightarrow>
                   if c_actor c \<noteq> actorId then (Abort Cmp_not_owner, d)
                   else if af_state a \<notin> {Draft, Working, Baselined}
                   then (Abort Cmp_bad_artifact_state, d)
                   else tx_then (tx_block
                     [tx_write (complete_rows (af_id a) taskId),
                      emit E (ev (tk_topic k) actorId ''task.completed'' ''task'' taskId
                        [(''actor_id'', JStr actorId)]),
                      emit E (state_changed (tk_topic k) actorId (af_id a) (af_state a) For_review)])
                     (tx_return Cmp_completed) d)))"

definition completeTask ::
  "env \<Rightarrow> string option \<Rightarrow> string \<Rightarrow> string \<Rightarrow> db \<Rightarrow> complete_result outcome" where
  "completeTask E pid task_id actor_id d =
     (let taskId = trim task_id; actorId = trim actor_id
      in if taskId = [] \<or> actorId = [] then throw BAD_REQUEST d
         else guarded E pid A_write (rref K_task taskId)
                (transaction (complete_body E taskId actorId)) d)"

section \<open>Inside a service relation\<close>

text \<open>
  The three changes of claims, with what the code has checked when it makes them: a lease on an
  artifact that has no live claim, the owner's release, the owner's completion.
\<close>

definition claim_regranted ::
  "env \<Rightarrow> task_row \<Rightarrow> artifact_row \<Rightarrow> claim_row \<Rightarrow> db \<Rightarrow> db \<Rightarrow> bool" where
  "claim_regranted E k a c d d' \<longleftrightarrow>
     task_of d (tk_id k) = Some k \<and> tk_status k \<noteq> Completed \<and> artifact_of_task d (tk_id k) = Some a \<and>
     live_claim E (drop_expired E (af_id a) d) (af_id a) = None \<and>
     c_artifact c = af_id a \<and> c_task c = tk_id k \<and> c_topic c = tk_topic k \<and>
     \<not> exists_where (\<lambda>x. c_artifact x = c_artifact c \<or> c_id x = c_id c)
         (claims (drop_expired E (af_id a) d)) \<and>
     d' = set_task_status (tk_id k) Claimed
            (claims_update (\<lambda>cs. cs @ [c]) (drop_expired E (af_id a) d))"

definition claim_released :: "env \<Rightarrow> string \<Rightarrow> db \<Rightarrow> db \<Rightarrow> bool" where
  "claim_released E kid d d' \<longleftrightarrow>
     (\<exists>a c. artifact_of_task d kid = Some a \<and> live_claim E d (af_id a) = Some c \<and>
        d' = drop_claim c (\<lambda>x. x\<lparr>tk_status := Posted\<rparr>) kid d)"

definition task_finished :: "string \<Rightarrow> db \<Rightarrow> db \<Rightarrow> bool" where
  "task_finished kid d d' \<longleftrightarrow>
     (\<exists>a. artifact_of_task d kid = Some a \<and> d' = complete_rows (af_id a) kid d)"

locale board_service = task_service R + artifact_service R for R +
  assumes rel_claim_regranted: "claim_regranted E k a c d d' \<Longrightarrow> R d d'"
    and rel_claim_released: "claim_released E kid d d' \<Longrightarrow> R d d'"
    and rel_task_finished: "task_finished kid d d' \<Longrightarrow> R d d'"
begin

lemma rel_post_body: "after (\<lambda>_. R d) (post_body E kid aid p d)"
  unfolding post_body_def by (auto intro!: emit_rules rel_create_task)

lemma rel_post_checked: "R d (snd (post_checked E p d))"
proof -
  let ?d = "d\<lparr>uuid_ctr := Suc (uuid_ctr d)\<rparr>"
  have "R d ?d" using rel_outside [where d = d and f = "fencing_seq d" and l = "authz_decisions d"] by simp
  moreover have "R ?d (snd (post_checked E p d))"
    unfolding post_checked_def Let_def
    by (auto intro!: emit_rules rel_post_body split: option.split)
  ultimately show ?thesis by (rule rel_trans)
qed

lemma rel_postTask: "R d (snd (postTask E pid tid ti topo dep ra sl ki cb d))"
  unfolding postTask_def Let_def
  by (auto intro!: emit_rules rel_post_checked split: option.split)

lemma rel_grant_claim:
  assumes "task_of d (tk_id k) = Some k" and "tk_status k \<noteq> Completed"
    and "artifact_of_task d (tk_id k) = Some a"
    and "live_claim E (drop_expired E (af_id a) d) (af_id a) = None"
  shows "after (\<lambda>_. R d) (grant_claim E k (af_id a) ac ttl (drop_expired E (af_id a) d))"
proof -
  let ?d = "d\<lparr>fencing_seq := Suc (fencing_seq d), uuid_ctr := Suc (uuid_ctr d)\<rparr>"
  have start: "R d ?d" using rel_outside [where d = d and l = "authz_decisions d"] by simp
  have "R d d'" if "claim_regranted E k a c ?d d'" for c d'
    using rel_trans [OF start rel_claim_regranted [OF that]] .
  then have grant: "R d (set_task_status (tk_id k) Claimed
      (claims_update (\<lambda>cs. cs @ [c]) (drop_expired E (af_id a) ?d)))"
    if "c_artifact c = af_id a" "c_task c = tk_id k" "c_topic c = tk_topic k"
      "\<not> exists_where (\<lambda>x. c_artifact x = af_id a \<or> c_id x = c_id c) (claims (drop_expired E (af_id a) d))"
    for c
    using that assms
    by (simp add: claim_regranted_def task_of_def artifact_of_task_def live_claim_def drop_expired_def)
  note row = grant [of "\<lparr>c_id = uuid_of E (uuid_ctr d), c_topic = tk_topic k, c_task = tk_id k,
        c_artifact = af_id a, c_actor = ac, c_fence = 1 + int (fencing_seq d),
        c_expires = js_now E + ttl * 60000\<rparr>"]
  show ?thesis
    unfolding grant_claim_def Let_def after_bind after_nextval after_gen_uuid
    by (subst after_cons, simp only: after_insert_claim, intro impI, rule rel_from [rotated],
        rule rel_then)
      (use row in \<open>auto simp: drop_expired_def comp_def intro!: emit_rules\<close>)
qed

lemma rel_claim_body: "after (\<lambda>_. R d) (claim_body E kid ac ttl d)"
proof -
  have "task_of d kid = Some k \<Longrightarrow> tk_id k = kid" for k
    by (auto simp: task_of_def dest: find_row_key)
  then show ?thesis
    unfolding claim_body_def
    by (auto simp: after_simps intro!: rel_grant_claim split: option.split)
qed

lemma rel_release_body: "after (\<lambda>_. R d) (release_body E kid ac d)"
proof -
  have "R d (drop_claim c (\<lambda>x. x\<lparr>tk_status := Posted\<rparr>) kid d)"
    if "artifact_of_task d kid = Some a" "live_claim E d (af_id a) = Some c" for a c
    using that by (intro rel_claim_released) (auto simp: claim_released_def)
  then show ?thesis
    unfolding release_body_def
    by (auto intro!: rel_rules rel_emit rel_write_step split: option.split)
qed

lemma rel_complete_body: "after (\<lambda>_. R d) (complete_body E kid ac d)"
proof -
  have "R d (complete_rows (af_id a) kid d)" if "artifact_of_task d kid = Some a" for a
    using that by (intro rel_task_finished) (auto simp: task_finished_def)
  then show ?thesis
    unfolding complete_body_def
    by (auto intro!: rel_rules rel_emit rel_write_step split: option.split)
qed

lemma rel_claimTask: "R d (snd (claimTask E pid kid ac ttl d))"
  unfolding claimTask_def Let_def by (auto intro!: emit_rules rel_claim_body)

lemma rel_releaseTask: "R d (snd (releaseTask E pid kid ac d))"
  unfolding releaseTask_def Let_def by (auto intro!: emit_rules rel_release_body)

lemma rel_completeTask: "R d (snd (completeTask E pid kid ac d))"
  unfolding completeTask_def Let_def by (auto intro!: emit_rules rel_complete_body)

end

interpretation log: board_service log_ext
  by unfold_locales
    (auto simp: claim_regranted_def claim_released_def task_finished_def set_task_status_def
      drop_expired_def drop_claim_def complete_rows_def intro: log_ext_same)

interpretation topic: board_service topic_step
  by unfold_locales
    (simp_all add: log_ext_step log.rel_claim_regranted log.rel_claim_released log.rel_task_finished)

section \<open>Properties\<close>

text \<open>What \<open>grant_claim\<close> leaves behind when it commits.\<close>

lemma aborts_insert_claim [aborts_simps]: "aborts A (insert_claim c d)"
  by (simp add: insert_claim_def)

lemma aborts_grant_claim [aborts_simps]: "aborts A (grant_claim E k aid ac ttl d)"
  unfolding grant_claim_def Let_def by (rule aborts_no_abort, intro no_abort_intros) (simp add: insert_claim_def)

text \<open>Two keyed deletions of claims see the same rows.\<close>

lemma filter_drop_expired:
  "filter (\<lambda>c. c_artifact c = x \<and> pg_now E < c_expires c) (claims (drop_expired E x d)) =
    filter (\<lambda>c. c_artifact c = x \<and> pg_now E < c_expires c) (claims d)"
  unfolding drop_expired_def by simp (rule filter_delete_where, simp)

lemma live_claim_empty: "live_claim E d x = None \<longleftrightarrow> filter (\<lambda>c. c_artifact c = x \<and> pg_now E < c_expires c) (claims d) = []"
  by (auto simp: live_claim_def find_None_iff filter_empty_conv)

lemma live_claim_drop: "live_claim E (drop_expired E x d) x = None \<longleftrightarrow> live_claim E d x = None"
  by (simp add: live_claim_empty filter_drop_expired)

text \<open>A decision written to the authorization log does not show on the board.\<close>

lemma board_frame [simp]:
  "task_of (d\<lparr>authz_decisions := l\<rparr>) x = task_of d x"
  "topic_status_of (d\<lparr>authz_decisions := l\<rparr>) x = topic_status_of d x"
  "topology_block (d\<lparr>authz_decisions := l\<rparr>) k = topology_block d k"
  "artifact_of_task (d\<lparr>authz_decisions := l\<rparr>) x = artifact_of_task d x"
  "live_claim E (d\<lparr>authz_decisions := l\<rparr>) y = live_claim E d y"
proof -
  have "missing_deps (d\<lparr>authz_decisions := l\<rparr>) k = missing_deps d k"
    "incomplete_deps (d\<lparr>authz_decisions := l\<rparr>) k = incomplete_deps d k"
    "unbaselined_deps (d\<lparr>authz_decisions := l\<rparr>) k = unbaselined_deps d k"
    by (simp_all add: missing_deps_def incomplete_deps_def unbaselined_deps_def)
  then show "topology_block (d\<lparr>authz_decisions := l\<rparr>) k = topology_block d k"
    by (simp only: topology_block_def)
qed (simp_all add: task_of_def topic_status_of_def topic_of_def artifact_of_task_def live_claim_def)

lemma drop_expired_frame [simp]:
  "task_of (drop_expired E y d) x = task_of d x"
  "fencing_seq (drop_expired E y d) = fencing_seq d"
  by (simp_all add: task_of_def drop_expired_def)

lemma topology_block_refuses: "topology_block d k = Some r \<Longrightarrow> (\<exists>xs ys. r = Claim_unmet xs ys) \<or> (\<exists>xs. r = Claim_not_baselined xs)"
  by (auto simp: topology_block_def split: if_splits topology.splits)

text \<open>The state a granted claim leaves, for the checks \<open>d\<close> passed.\<close>

definition claim_stands :: "env \<Rightarrow> db \<Rightarrow> string \<Rightarrow> string \<Rightarrow> int \<Rightarrow> string \<Rightarrow> int \<Rightarrow> int \<Rightarrow> string \<Rightarrow> db \<Rightarrow> bool" where
  "claim_stands E d kid ac ttl cid tok exp' aid d' \<longleftrightarrow>
     live_claim E d aid = None \<and>
     (\<exists>k. task_of d kid = Some k \<and> tk_status k \<noteq> Completed \<and> topology_block d k = None \<and>
        topic_status_of d (tk_topic k) \<notin> {Some Closed, Some Closing} \<and>
        map_option af_id (artifact_of_task d kid) = Some aid) \<and>
     (\<exists>c. filter (\<lambda>x. c_artifact x = aid) (claims d') = [c] \<and>
        (c_id c, c_task c, c_actor c, c_fence c, c_expires c) = (cid, kid, ac, tok, exp')) \<and>
     tok = int (fencing_seq d) + 1 \<and> fencing_seq d' = Suc (fencing_seq d) \<and>
     exp' = js_now E + ttl * 60000 \<and>
     map_option tk_status (task_of d' kid) = Some Claimed"

lemma logged_board: "logged d d' \<Longrightarrow> claims d' = claims d" "logged d d' \<Longrightarrow> tasks d' = tasks d"
  "logged d d' \<Longrightarrow> artifacts d' = artifacts d" "logged d d' \<Longrightarrow> fencing_seq d' = fencing_seq d"
  by (auto simp: logged_def)

lemma grant_claim_stands:
  assumes "task_of d (tk_id k) = Some k" "tk_status k \<noteq> Completed" "topology_block d k = None"
    "topic_status_of d (tk_topic k) \<noteq> Some Closed" "topic_status_of d (tk_topic k) \<noteq> Some Closing"
    "artifact_of_task d (tk_id k) = Some a" "live_claim E d (af_id a) = None"
    and "tasks d1 = tasks d" "fencing_seq d1 = fencing_seq d"
  shows "after (\<lambda>r d'. \<exists>cid tok e. r = Claim_granted cid tok e (af_id a) \<and>
      claim_stands E d (tk_id k) ac ttl cid tok e (af_id a) d') (grant_claim E k (af_id a) ac ttl d1)"
proof -
  have none: "filter (\<lambda>x. c_artifact x = y) cs = []" if "\<not> exists_where (\<lambda>x. c_artifact x = y \<or> c_id x = z) cs" for y z cs
    using that by (auto simp: exists_where_def filter_empty_conv list_ex_iff)
  have "task_of d1 (tk_id k) = Some k" using assms(1,8) by (simp add: task_of_def)
  then show ?thesis
    unfolding grant_claim_def Let_def
    by (auto simp: after_simps after_insert_claim set_task_status_def claim_stands_def assms logged_board none
        task_of_def find_row_update_where intro!: after_emit simp del: tx_block.simps)
qed

text \<open>
  Property C21. A granted claim excludes everyone else. It is granted only on a task that is not completed,
  whose topic is open, whose topology lets it start and whose artifact has no live claim; afterwards the
  new claim is the only row for the artifact, with the next fencing token (larger than every token handed out
  before) and a lease of the clamped number of minutes (1 to 240), and the task is \<^verbatim>\<open>claimed\<close>.
\<close>

theorem claimTask_exclusive:
  assumes "claimTask E pid kid ac ttl d = (Inr (Claim_granted cid tok exp' aid), d')"
  shows "claim_stands E d (trim kid) (trim ac) (clampTtl ttl) cid tok exp' aid d' \<and>
    1 \<le> clampTtl ttl \<and> clampTtl ttl \<le> 240"
proof -
  let ?B = "claim_body E (trim kid) (trim ac) (clampTtl ttl)"
  let ?G = "\<lambda>r c t e x. r = Claim_granted c t e x"
  define Q where "Q = (\<lambda>r d'. \<exists>c t e x. ?G r c t e x \<and> claim_stands E d (trim kid) (trim ac) (clampTtl ttl) c t e x d')"
  have run: "guarded E pid A_write (rref K_task (trim kid)) (transaction ?B) d = (Inr (Claim_granted cid tok exp' aid), d')"
    using assms by (auto simp: claimTask_def Let_def throw_def split: if_splits)
  have early: "aborts (\<lambda>r. \<nexists>c t e x. ?G r c t e x) (?B (d\<lparr>authz_decisions := l\<rparr>))" for l
    by (auto simp: claim_body_def aborts_simps after_simps dest!: topology_block_refuses split: option.split)
  have "after Q (?B (d\<lparr>authz_decisions := l\<rparr>))" for l
  proof -
    have "after Q (grant_claim E k (af_id a) (trim ac) (clampTtl ttl) (drop_expired E (af_id a) (d\<lparr>authz_decisions := l\<rparr>)))"
      if "task_of d (trim kid) = Some k" "tk_status k \<noteq> Completed" "topology_block d k = None"
        "topic_status_of d (tk_topic k) \<noteq> Some Closed" "topic_status_of d (tk_topic k) \<noteq> Some Closing"
        "artifact_of_task d (trim kid) = Some a" "live_claim E d (af_id a) = None" for k a
    proof -
      have "tk_id k = trim kid" using that(1) by (auto simp: task_of_def dest: find_row_key)
      with that show ?thesis
        using grant_claim_stands [of d k a E "drop_expired E (af_id a) (d\<lparr>authz_decisions := l\<rparr>)" "trim ac" "clampTtl ttl"]
        unfolding Q_def by (auto simp: drop_expired_def elim!: after_mono)
    qed
    then show ?thesis
      by (auto simp: claim_body_def after_simps live_claim_drop split: option.split)
  qed
  from guarded_committed [where Q = Q, OF run early _ this] show ?thesis
    using clampTtl_bounds [of ttl] by (auto simp: Q_def MAX_TTL_MINUTES_def)
qed

theorem claimTask_exclusive_witness:
  "\<exists>c. filter (\<lambda>x. c_artifact x = ''A'') (claims (snd (claimTask dev_env None ''K'' '' bob'' (Some (Fin 500)) stale_db))) = [c] \<and>
     (c_actor c, c_fence c, c_expires c) = (''bob'', 1, 15400000)"
proof -
  let ?run = "claimTask dev_env None ''K'' '' bob'' (Some (Fin 500)) stale_db"
  have "fst ?run = Inr (Claim_granted ''u'' 1 15400000 ''A'')" by code_simp
  then have run: "?run = (Inr (Claim_granted ''u'' 1 15400000 ''A''), snd ?run)" by (metis prod.collapse)
  have "trim '' bob'' = ''bob''" by code_simp
  with claimTask_exclusive [OF run] show ?thesis unfolding claim_stands_def by auto
qed

text \<open>
  The topology check lets a claim through exactly when the dependencies allow it: a sequential
  task needs every dependency to exist and to be completed, a rolling one needs every artifact of its
  dependencies to be baselined, a parallel one needs nothing.
\<close>

theorem topology_check:
  assumes "pkey tk_id (tasks d)"
  shows "topology_block d k = None \<longleftrightarrow> (case tk_topology k of
      Sequential \<Rightarrow> \<forall>x \<in> set (tk_depends_on k). map_option tk_status (task_of d x) = Some Completed
    | Rolling \<Rightarrow> \<forall>a \<in> set (artifacts d). af_task a \<in> set (tk_depends_on k) \<longrightarrow> af_state a = Baselined
    | Parallel \<Rightarrow> True)"
proof -
  have "missing_deps d k = [] \<and> incomplete_deps d k = [] \<longleftrightarrow>
      (\<forall>x \<in> set (tk_depends_on k). map_option tk_status (task_of d x) = Some Completed)"
    (is "?L \<longleftrightarrow> ?R")
  proof
    assume l: ?L
    show ?R
    proof
      fix x assume "x \<in> set (tk_depends_on k)"
      with l obtain t where "t \<in> set (tasks d)" "tk_id t = x" "tk_status t = Completed"
        by (auto simp: missing_deps_def incomplete_deps_def filter_empty_conv)
      then show "map_option tk_status (task_of d x) = Some Completed"
        using find_row_pkey [OF assms] unfolding task_of_def by fastforce
    qed
  next
    assume r: ?R
    have "x \<in> tk_id ` set (tasks d)" if "x \<in> set (tk_depends_on k)" for x
      using r that find_row_Some unfolding task_of_def by fastforce
    moreover have "tk_status t = Completed" if "t \<in> set (tasks d)" "tk_id t \<in> set (tk_depends_on k)" for t
      using bspec [OF r that(2)] find_row_pkey [OF assms that(1)] by (simp add: task_of_def)
    ultimately show ?L by (auto simp: missing_deps_def incomplete_deps_def filter_empty_conv)
  qed
  then show ?thesis
    by (auto simp: topology_block_def unbaselined_deps_def filter_empty_conv missing_deps_def incomplete_deps_def
        split: topology.split)
qed

theorem topology_check_witness:
  "topology_block (board_db\<lparr>tasks := [a_task ''D'' ''T'' Parallel [] Completed]\<rparr>)
     (a_task ''K'' ''T'' Sequential [''D''] Posted) = None"
proof -
  have "pkey tk_id (tasks (board_db\<lparr>tasks := [a_task ''D'' ''T'' Parallel [] Completed]\<rparr>))" by (simp add: pkey_def)
  from topology_check [OF this, of "a_task ''K'' ''T'' Sequential [''D''] Posted"] show ?thesis
    by (simp add: a_task_def task_of_def find_row_Cons)
qed

text \<open>What a completion by \<open>ac\<close> has checked, and what it changes.\<close>

definition completion :: "env \<Rightarrow> db \<Rightarrow> string \<Rightarrow> string \<Rightarrow> db \<Rightarrow> bool" where
  "completion E d kid ac d' \<longleftrightarrow>
     (\<exists>k a c. task_of d kid = Some k \<and> tk_status k \<noteq> Completed \<and> topic_status_of d (tk_topic k) \<noteq> Some Closed \<and>
        artifact_of_task d kid = Some a \<and> af_state a \<in> {Draft, Working, Baselined} \<and>
        live_claim E d (af_id a) = Some c \<and> c_actor c = ac \<and>
        task_of d' kid = Some (k\<lparr>tk_status := Completed\<rparr>) \<and>
        artifact_of_task d' kid = Some (a\<lparr>af_state := For_review\<rparr>) \<and>
        claims d' = delete_where (\<lambda>x. c_artifact x = af_id a) (claims d))"

text \<open>
  Property C22. Only the owner of the live claim completes a task, and only while the artifact is not under
  review; then the task is completed, no claim on the artifact is left and the artifact is up for review.
\<close>

theorem completeTask_spec:
  assumes "completeTask E pid kid ac d = (Inr Cmp_completed, d')"
  shows "completion E d (trim kid) (trim ac) d'"
proof -
  let ?B = "complete_body E (trim kid) (trim ac)"
  define Q where "Q = (\<lambda>(r :: complete_result) d'. completion E d (trim kid) (trim ac) d')"
  have run: "guarded E pid A_write (rref K_task (trim kid)) (transaction ?B) d = (Inr Cmp_completed, d')"
    using assms by (auto simp: completeTask_def Let_def throw_def split: if_splits)
  have early: "aborts (\<lambda>r. r \<noteq> Cmp_completed) (?B (d\<lparr>authz_decisions := l\<rparr>))" for l
    by (auto simp: complete_body_def aborts_simps after_simps split: option.split intro!: after_emit)
  have "after Q (?B (d\<lparr>authz_decisions := l\<rparr>))" for l
    by (auto simp: complete_body_def after_simps Q_def completion_def logged_board task_of_def artifact_of_task_def
        complete_rows_def find_row_update_where split: option.split intro!: after_emit
        dest: find_row_key simp del: tx_block.simps)
  from guarded_committed [where Q = Q, OF run early _ this] show ?thesis by (simp add: Q_def)
qed

theorem completeTask_spec_witness:
  "claims (snd (completeTask dev_env None ''K'' ''ann'' board_db)) = []"
proof -
  let ?run = "completeTask dev_env None ''K'' ''ann'' board_db"
  have "fst ?run = Inr Cmp_completed" by code_simp
  then have run: "?run = (Inr Cmp_completed, snd ?run)" by (metis prod.collapse)
  have tr: "trim ''K'' = ''K''" by code_simp
  have "map_option af_id (artifact_of_task board_db ''K'') = Some ''A''" "claims board_db = [a_claim ''C'' ''T'' ''K'' ''A'' ''ann'' 2000000]"
    by code_simp+
  with completeTask_spec [OF run] show ?thesis
    unfolding completion_def tr by (auto simp: a_claim_def delete_where_def)
qed

end
