(* ===== verification/DoaMatrix.thy ===== *)
theory DoaMatrix
  imports Scenario "HOL-Library.List_Lexorder" "HOL-Library.Char_ord" "HOL-Library.Product_Lexorder"
begin

text \<open>
  The delegation-of-authority matrix (services/doaMatrix.ts): \<open>resolveMatrixRow\<close> picks the row
  that governs a request of a given kind and weight, \<open>deriveRoute\<close> turns the row's level and shape
  into the ordered list of offices that must endorse.
\<close>

definition STEP_DEADLINE_MINUTES :: int where
  "STEP_DEADLINE_MINUTES = 60"

definition STEP_DEADLINE_MS :: int where
  "STEP_DEADLINE_MS = STEP_DEADLINE_MINUTES * 60000"

text \<open>\<^verbatim>\<open>LEVELS_ASC\<close>; \<^verbatim>\<open>LEVEL_RANK\<close> is \<open>level_rank\<close> of the schema.\<close>

definition LEVELS_ASC :: "level list" where
  "LEVELS_ASC = [Execution, Coordination, Authority]"

record resolved_row =
  rr_matrix :: string
  rr_level :: level
  rr_shape :: route_shape
  rr_snapshot :: string
  rr_procedure :: procedure_kind
  rr_body :: "string option"
  rr_bodies :: "(level \<times> string) list"

section \<open>resolveMatrixRow\<close>

definition default_project_id :: string where
  "default_project_id = ''__default__''"

text \<open>The \<^verbatim>\<open>WHERE\<close> clause.\<close>

definition matrix_match :: "string \<Rightarrow> string \<Rightarrow> string \<Rightarrow> int \<Rightarrow> matrix_row \<Rightarrow> bool" where
  "matrix_match project topic kind weight m \<longleftrightarrow>
     mx_kind m = kind \<and> mx_min m \<le> weight \<and> weight \<le> mx_max m \<and>
     (mx_topic m = Some topic \<or> mx_topic m = None \<and> mx_project m = project \<or>
      mx_topic m = None \<and> mx_project m = default_project_id)"

text \<open>The \<^verbatim>\<open>CASE\<close> column \<open>tier\<close>.\<close>

definition matrix_tier :: "string \<Rightarrow> string \<Rightarrow> matrix_row \<Rightarrow> nat" where
  "matrix_tier project topic m =
     (if mx_topic m = Some topic then 0
      else if mx_topic m = None \<and> mx_project m = project then 1 else 2)"

text \<open>\<^verbatim>\<open>ORDER BY tier ASC, span ASC, m.matrix_id ASC\<close>\<close>

definition matrix_key :: "string \<Rightarrow> string \<Rightarrow> matrix_row \<Rightarrow> nat \<times> int \<times> string" where
  "matrix_key project topic m = (matrix_tier project topic m, mx_max m - mx_min m, mx_id m)"

definition ranked_rows :: "db \<Rightarrow> string \<Rightarrow> string \<Rightarrow> string \<Rightarrow> int \<Rightarrow> matrix_row list" where
  "ranked_rows d project topic kind weight =
     sort_key (matrix_key project topic) (filter (matrix_match project topic kind weight) (matrix d))"

definition bodies_of_row :: "db \<Rightarrow> string \<Rightarrow> (level \<times> string) list" where
  "bodies_of_row d mid =
     map (\<lambda>l. (ml_level l, ml_body l)) (filter (\<lambda>l. ml_matrix l = mid) (matrix_levels d))"

definition resolveMatrixRow ::
  "db \<Rightarrow> string \<Rightarrow> string \<Rightarrow> string \<Rightarrow> int \<Rightarrow> resolved_row option" where
  "resolveMatrixRow d project topic kind weight = (case ranked_rows d project topic kind weight of
     [] \<Rightarrow> None
   | m # _ \<Rightarrow> Some
       \<lparr>rr_matrix = mx_id m, rr_level = mx_level m, rr_shape = mx_shape m,
        rr_snapshot = mx_id m @ '':t'' @ show_nat (matrix_tier project topic m),
        rr_procedure = mx_procedure m, rr_body = mx_body m,
        rr_bodies = bodies_of_row d (mx_id m)\<rparr>)"

section \<open>deriveRoute\<close>

definition deriveRoute :: "level \<Rightarrow> level \<Rightarrow> route_shape \<Rightarrow> level list" where
  "deriveRoute submitterLevel requiredLevel routeShape =
     (if routeShape = Escalate_to_authority then [requiredLevel]
      else
        let ladder = filter (\<lambda>l. level_rank submitterLevel < level_rank l \<and>
                                 level_rank l \<le> level_rank requiredLevel) LEVELS_ASC
        in if ladder = [] then [requiredLevel] else ladder)"

text \<open>The level above: \<open>LEVELS_ASC[LEVEL_RANK[l] + 1] ?? 'authority'\<close>.\<close>

definition next_level :: "level \<Rightarrow> level" where
  "next_level l = (if Suc (level_rank l) < length LEVELS_ASC
                   then LEVELS_ASC ! Suc (level_rank l) else Authority)"

lemma next_level_simps [simp]:
  "next_level Execution = Coordination" "next_level Coordination = Authority"
  "next_level Authority = Authority"
  by (simp_all add: next_level_def LEVELS_ASC_def)

section \<open>What the resolution finds\<close>

lemma ranked_rows_first:
  assumes "ranked_rows d project topic kind weight = m # ms"
  shows "m \<in> set (matrix d)" and "matrix_match project topic kind weight m"
    and "\<And>x. x \<in> set (matrix d) \<Longrightarrow> matrix_match project topic kind weight x \<Longrightarrow>
           matrix_key project topic m \<le> matrix_key project topic x"
proof -
  have set: "set (m # ms) = {x \<in> set (matrix d). matrix_match project topic kind weight x}"
    using assms by (metis ranked_rows_def set_filter set_sort)
  then show "m \<in> set (matrix d)" "matrix_match project topic kind weight m" by auto
  have "sorted (map (matrix_key project topic) (m # ms))"
    using assms by (metis ranked_rows_def sorted_sort_key)
  with set show "matrix_key project topic m \<le> matrix_key project topic x"
    if "x \<in> set (matrix d)" "matrix_match project topic kind weight x" for x
    using that by auto
qed

lemma ranked_rows_none:
  "ranked_rows d project topic kind weight = [] \<longleftrightarrow>
    (\<forall>x \<in> set (matrix d). \<not> matrix_match project topic kind weight x)"
proof -
  have "set (ranked_rows d project topic kind weight) =
      {x \<in> set (matrix d). matrix_match project topic kind weight x}"
    by (simp add: ranked_rows_def)
  then show ?thesis
    by (metis (mono_tags, lifting) empty_Collect_eq set_empty)
qed

text \<open>The route: nonempty, strictly ascending, and it ends at the required level.\<close>

lemma deriveRoute_ne: "deriveRoute s r sh \<noteq> []"
  by (simp add: deriveRoute_def Let_def)

lemma deriveRoute_cases:
  "deriveRoute s r sh =
     (if sh = Counter_sign \<and> s < r then filter (\<lambda>l. s < l \<and> l \<le> r) LEVELS_ASC else [r])"
  by (cases s; cases r; cases sh)
    (simp_all add: deriveRoute_def LEVELS_ASC_def less_level_def less_eq_level_def)

section \<open>Properties\<close>

text \<open>
  \<^verbatim>\<open>resolveMatrixRow\<close> finds a row whenever one applies to the kind and weight, and the
  row it picks is the best one: no applicable row has a better tier (topic before project before default),
  nor a narrower weight span in the same tier.
\<close>

theorem resolve_best:
  "case resolveMatrixRow d project topic kind weight of
     None \<Rightarrow> \<forall>x \<in> set (matrix d). \<not> matrix_match project topic kind weight x
   | Some m \<Rightarrow> \<exists>b \<in> set (matrix d). matrix_match project topic kind weight b \<and>
       (rr_matrix m, rr_level m, rr_shape m, rr_procedure m) = (mx_id b, mx_level b, mx_shape b, mx_procedure b) \<and>
       \<not> (\<exists>x \<in> set (matrix d). matrix_match project topic kind weight x \<and>
            (matrix_tier project topic x < matrix_tier project topic b \<or>
             matrix_tier project topic x = matrix_tier project topic b \<and> mx_max x - mx_min x < mx_max b - mx_min b))"
proof (cases "ranked_rows d project topic kind weight")
  case Nil
  then show ?thesis unfolding resolveMatrixRow_def using ranked_rows_none [of d project topic kind weight] by simp
next
  case (Cons b bs)
  note best = ranked_rows_first [OF Cons]
  have "\<not> (matrix_tier project topic x < matrix_tier project topic b \<or>
      matrix_tier project topic x = matrix_tier project topic b \<and> mx_max x - mx_min x < mx_max b - mx_min b)"
    if "x \<in> set (matrix d)" "matrix_match project topic kind weight x" for x
    using best(3) [OF that] by (auto simp: matrix_key_def less_eq_prod_def)
  then show ?thesis using best(1,2) Cons by (auto simp: resolveMatrixRow_def)
qed

text \<open>A default row for every weight and a row of the project for light requests only.\<close>

definition two_rows :: db where
  "two_rows = empty_db\<lparr>matrix := [
     \<lparr>mx_id = ''md'', mx_project = default_project_id, mx_topic = None, mx_kind = ''k'', mx_min = 0, mx_max = 100,
      mx_level = Authority, mx_shape = Escalate_to_authority, mx_procedure = Unilateral, mx_body = None\<rparr>,
     \<lparr>mx_id = ''mp'', mx_project = ''p'', mx_topic = None, mx_kind = ''k'', mx_min = 0, mx_max = 10,
      mx_level = Coordination, mx_shape = Counter_sign, mx_procedure = Unilateral, mx_body = None\<rparr>]\<rparr>"

theorem resolve_best_witness:
  "\<exists>b \<in> set (matrix two_rows). mx_id b = ''mp'' \<and>
     (\<forall>x \<in> set (matrix two_rows). matrix_match ''p'' ''t'' ''k'' 5 x \<longrightarrow> matrix_tier ''p'' ''t'' b \<le> matrix_tier ''p'' ''t'' x)"
proof -
  have "map_option rr_matrix (resolveMatrixRow two_rows ''p'' ''t'' ''k'' 5) = Some ''mp''" by code_simp
  then obtain m where m: "resolveMatrixRow two_rows ''p'' ''t'' ''k'' 5 = Some m" "rr_matrix m = ''mp''" by auto
  obtain b where "b \<in> set (matrix two_rows)" "mx_id b = ''mp''"
    "\<not> (\<exists>x \<in> set (matrix two_rows). matrix_match ''p'' ''t'' ''k'' 5 x \<and>
      (matrix_tier ''p'' ''t'' x < matrix_tier ''p'' ''t'' b \<or>
       matrix_tier ''p'' ''t'' x = matrix_tier ''p'' ''t'' b \<and> mx_max x - mx_min x < mx_max b - mx_min b))"
    using resolve_best [of two_rows "''p''" "''t''" "''k''" 5] unfolding m(1) option.case m(2) prod.inject by metis
  then show ?thesis by (meson not_le)
qed

text \<open>
  The route of a request is never empty, climbs strictly, ends at the level the matrix
  requires, and never asks an office above it; a counter-signed request whose submitter is below the
  required level passes every level in between, an escalated one goes straight to the required level.
\<close>

theorem route_climbs:
  "deriveRoute s r sh \<noteq> [] \<and> sorted_wrt (<) (deriveRoute s r sh) \<and> last (deriveRoute s r sh) = r \<and>
   set (deriveRoute s r sh) = (if sh = Counter_sign \<and> s < r then {l. s < l \<and> l \<le> r} else {r})"
proof -
  have "{l. s < l \<and> l \<le> r} = set (filter (\<lambda>l. s < l \<and> l \<le> r) LEVELS_ASC)"
    by (auto simp: LEVELS_ASC_def) (metis level.exhaust)+
  then show ?thesis
    unfolding deriveRoute_cases LEVELS_ASC_def
    by (cases s; cases r; cases sh) (simp_all add: less_level_def less_eq_level_def)
qed

end
