(* ===== verification/Requests.thy ===== *)
theory Requests
  imports Chaining DoaMatrix Artifacts
begin

text \<open>
  Approval requests (services/requests.ts): \<open>submitRequest\<close> materializes the route of a request as
  steps, \<open>decideStep\<close> lets an officeholder decide the current step, \<open>applyMotionToStep\<close> carries the
  outcome of a decision body's motion over to the step that waits for it. A collective step is
  decided by a motion that \<open>proposeStepMotion\<close> opens in the same transaction.
\<close>

section \<open>Lookups and single-row updates\<close>

definition request_of :: "db \<Rightarrow> string \<Rightarrow> request_row option" where
  "request_of d rid = find_row r_id rid (requests d)"

definition step_key :: "step_row \<Rightarrow> string \<times> nat" where
  "step_key s = (s_request s, s_index s)"

definition step_of :: "db \<Rightarrow> string \<Rightarrow> nat \<Rightarrow> step_row option" where
  "step_of d rid i = find_row step_key (rid, i) (steps d)"

definition set_request :: "string \<Rightarrow> (request_row \<Rightarrow> request_row) \<Rightarrow> db \<Rightarrow> db" where
  "set_request rid f d = d\<lparr>requests := update_where (\<lambda>r. r_id r = rid) f (requests d)\<rparr>"

definition set_step :: "string \<Rightarrow> nat \<Rightarrow> (step_row \<Rightarrow> step_row) \<Rightarrow> db \<Rightarrow> db" where
  "set_step rid i f d = d\<lparr>steps :=
     update_where (\<lambda>s. s_request s = rid \<and> s_index s = i) f (steps d)\<rparr>"

text \<open>\<^verbatim>\<open>SET status = .., decided_by = .., decided_at = now()\<close>\<close>

definition decide_row :: "env \<Rightarrow> step_status \<Rightarrow> string \<Rightarrow> step_row \<Rightarrow> step_row" where
  "decide_row E st who s =
     s\<lparr>s_status := st, s_decided_by := Some who, s_decided_at := Some (pg_now E)\<rparr>"

definition fresh_deadline :: "env \<Rightarrow> step_row \<Rightarrow> step_row" where
  "fresh_deadline E s = s\<lparr>s_deadline := pg_now E + STEP_DEADLINE_MS\<rparr>"

section \<open>Motions of collective steps\<close>

definition step_subject_ref :: "string \<Rightarrow> nat \<Rightarrow> string" where
  "step_subject_ref rid i = ''request_step:'' @ rid @ '':'' @ show_nat i"

definition step_proposer :: string where
  "step_proposer = ''system:request-step-proposer''"

definition step_motion :: "env \<Rightarrow> string \<Rightarrow> string \<Rightarrow> nat \<Rightarrow> string \<Rightarrow> string \<Rightarrow> motion_row" where
  "step_motion E mid rid i body topic =
     \<lparr>m_id = mid, m_body = body, m_topic = topic, m_subject_ref = step_subject_ref rid i,
      m_status = Proposed, m_proposed_by = step_proposer, m_seconded_by = None,
      m_deadline = pg_now E + STEP_DEADLINE_MS, m_tally = None, m_created_at = pg_now E, m_exec = None\<rparr>"

definition proposeStepMotion ::
  "env \<Rightarrow> string \<Rightarrow> nat \<Rightarrow> string \<Rightarrow> string \<Rightarrow> (unit, 'r) dtx" where
  "proposeStepMotion E rid i body topic =
     tx_bind (gen_uuid E) (\<lambda>mid. tx_block
       [insert_row m_id motions motions_update (step_motion E mid rid i body topic),
        emit E (ev topic step_proposer ''motion.proposed'' ''motion'' mid
          [(''body_id'', JStr body), (''subject_ref'', JStr (step_subject_ref rid i)),
           (''deadline'', JStr (iso_text (pg_now E + STEP_DEADLINE_MS))),
           (''source'', JStr ''request_step''), (''request_id'', JStr rid), (''step_index'', jnat i)]),
        tx_write (set_step rid i (\<lambda>s. s\<lparr>s_status := S_motion_proposed, s_motion := Some mid\<rparr>))])"

section \<open>submitRequest\<close>

datatype submit_result =
    Submitted string "level list"  \<comment> \<open>request, route; the current step is 0\<close>
  | Sub_topic_closed
  | Sub_not_participant
  | Sub_no_route

text \<open>The level-to-body map: the matrix level table, else the single body of the row.\<close>

definition bodyByLevel :: "resolved_row \<Rightarrow> (level \<times> string) list" where
  "bodyByLevel m =
     (if rr_bodies m \<noteq> [] then rr_bodies m
      else if rr_procedure m = Collective
      then (case rr_body m of None \<Rightarrow> [] | Some b \<Rightarrow> [(rr_level m, b)])
      else [])"

text \<open>One body per step; \<open>None\<close> is the \<open>missing_collective_body\<close> error.\<close>

fun step_bodies :: "resolved_row \<Rightarrow> level list \<Rightarrow> string option list option" where
  "step_bodies m [] = Some []"
| "step_bodies m (l # ls) =
     (if rr_procedure m = Collective
      then (case map_of (bodyByLevel m) l of
          None \<Rightarrow> None
        | Some b \<Rightarrow> if b = [] then None else map_option ((#) (Some b)) (step_bodies m ls))
      else map_option ((#) None) (step_bodies m ls))"

definition bodies_distinct :: "resolved_row \<Rightarrow> level list \<Rightarrow> string option list \<Rightarrow> bool" where
  "bodies_distinct m route bs =
     (rr_procedure m = Collective \<and> rr_shape m = Counter_sign \<and> 1 < length route \<longrightarrow> distinct bs)"

definition new_step ::
  "env \<Rightarrow> string \<Rightarrow> resolved_row \<Rightarrow> nat \<times> level \<times> string option \<Rightarrow> step_row" where
  "new_step E rid m x = (case x of (i, l, b) \<Rightarrow>
     \<lparr>s_request = rid, s_index = i, s_office = l, s_snapshot = rr_snapshot m,
      s_procedure = rr_procedure m, s_deadline = pg_now E + STEP_DEADLINE_MS, s_status = S_pending,
      s_decided_by = None, s_decided_at = None, s_body = b, s_motion = None\<rparr>)"

definition route_steps ::
  "env \<Rightarrow> string \<Rightarrow> resolved_row \<Rightarrow> level list \<Rightarrow> string option list \<Rightarrow> step_row list" where
  "route_steps E rid m route bs = map (new_step E rid m) (zip [0..<length route] (zip route bs))"

definition new_request ::
  "env \<Rightarrow> string \<Rightarrow> string \<Rightarrow> string \<Rightarrow> string \<Rightarrow> int \<Rightarrow> string \<Rightarrow> exec_blob option \<Rightarrow> route_shape \<Rightarrow>
     request_row" where
  "new_request E rid topic subj kind weight who ex shape =
     \<lparr>r_id = rid, r_topic = topic, r_subject_type = ''artifact'', r_subject = subj, r_kind = kind,
      r_weight = weight, r_procedure = Unilateral, r_shape = shape, r_status = Open, r_current = 0,
      r_submitted_by = who, r_created_at = pg_now E, r_exec = ex, r_bodies = None\<rparr>"

text \<open>
  The transaction. The body checks come after the request row is inserted; both throw, so the row is
  rolled back.
\<close>

definition submit_body ::
  "env \<Rightarrow> string \<Rightarrow> string \<Rightarrow> string \<Rightarrow> int \<Rightarrow> string \<Rightarrow> exec_blob option \<Rightarrow> string \<Rightarrow>
     resolved_row \<Rightarrow> level list \<Rightarrow> (submit_result, submit_result) dtx" where
  "submit_body E topic subj kind weight who ex rid m route =
     tx_then (insert_row r_id requests requests_update
                (new_request E rid topic subj kind weight who ex (rr_shape m)))
       (case step_bodies m route of
          None \<Rightarrow> tx_throw (Hub BAD_REQUEST)
        | Some bs \<Rightarrow>
            if \<not> bodies_distinct m route bs then tx_throw (Hub BAD_REQUEST)
            else tx_then (tx_block
              [tx_block (map (insert_row step_key steps steps_update) (route_steps E rid m route bs)),
               (if rr_procedure m = Collective \<and> bodyByLevel m \<noteq> []
                then tx_write (set_request rid (\<lambda>r. r\<lparr>r_bodies := Some (bodyByLevel m)\<rparr>))
                else tx_return ()),
               emit E (ev topic who ''request.submitted'' ''request'' rid
                 [(''subject_id'', JStr subj), (''kind'', JStr kind), (''weight'', JNum (of_int weight)),
                  (''route_shape'', JStr (shape_text (rr_shape m))),
                  (''route'', JArr (map (JStr \<circ> level_text) route))]),
               (case bs of
                  Some b # _ \<Rightarrow> (if rr_procedure m = Collective
                                  then proposeStepMotion E rid 0 b topic else tx_return ())
                | _ \<Rightarrow> tx_return ())])
            (tx_return (Submitted rid route)))"

text \<open>The reads before \<^verbatim>\<open>BEGIN\<close>.\<close>

definition submit_checked ::
  "env \<Rightarrow> string \<Rightarrow> string \<Rightarrow> string \<Rightarrow> string \<Rightarrow> int \<Rightarrow> string \<Rightarrow> exec_blob option \<Rightarrow> db \<Rightarrow>
     submit_result outcome" where
  "submit_checked E topicId subjectType subjectId kind weight submittedBy ex d =
     (case topic_of d topicId of
        None \<Rightarrow> throw NOT_FOUND d
      | Some t \<Rightarrow>
          if t_status t = Closed \<or> t_status t = Closing then (Inr Sub_topic_closed, d)
          else if subjectType = ''artifact'' \<and>
                  map_option af_topic (artifact_of d subjectId) \<noteq> Some topicId
          then throw NOT_FOUND d
          else (case participant_of d topicId submittedBy of
              None \<Rightarrow> (Inr Sub_not_participant, d)
            | Some p \<Rightarrow>
                (case resolveMatrixRow d (t_project t) topicId kind weight of
                   None \<Rightarrow> (Inr Sub_no_route, d)
                 | Some m \<Rightarrow>
                     let route = deriveRoute (p_level p) (rr_level m) (rr_shape m);
                         rid = uuid_of E (uuid_ctr d)
                     in transaction (submit_body E topicId subjectId kind weight submittedBy ex rid m route)
                          (d\<lparr>uuid_ctr := Suc (uuid_ctr d)\<rparr>))))"

text \<open>\<open>Number.isInteger\<close>, not negative: the value as a natural number.\<close>

fun nat_value :: "jsnum \<Rightarrow> nat option" where
  "nat_value (Fin q) = (if of_int \<lfloor>q\<rfloor> = q \<and> 0 \<le> q then Some (nat \<lfloor>q\<rfloor>) else None)"
| "nat_value _ = None"

definition submitRequest ::
  "env \<Rightarrow> string option \<Rightarrow> string \<Rightarrow> string \<Rightarrow> string \<Rightarrow> string \<Rightarrow> jsnum \<Rightarrow> string \<Rightarrow> string \<Rightarrow>
     json option \<Rightarrow> db \<Rightarrow> submit_result outcome" where
  "submitRequest E pid topic_id subject_type subject_id kind weight procedure submitted_by execution_task =
     guarded E pid A_write (rref K_topic topic_id) (\<lambda>d.
       let topicId = trim topic_id; subjectType = trim subject_type; subjectId = trim subject_id;
           ki = trim kind; submittedBy = trim submitted_by
       in case validateExecutionTask E execution_task of
            Inl x \<Rightarrow> (Inl x, d)
          | Inr ex \<Rightarrow>
              if topicId = [] \<or> subjectId = [] \<or> ki = [] \<or> submittedBy = [] then throw BAD_REQUEST d
              else if 256 < length ki \<or> 256 < length subjectId \<or> 256 < length submittedBy
              then throw BAD_REQUEST d
              else case nat_value weight of
                None \<Rightarrow> throw BAD_REQUEST d
              | Some w \<Rightarrow>
                  if (2147483647 :: int) < int w then throw BAD_REQUEST d
                  else if parse_procedure (trim procedure) = None then throw BAD_REQUEST d
                  else if subjectType \<noteq> ''artifact'' \<and> subjectType \<noteq> ''dispute''
                  then throw BAD_REQUEST d
                  else submit_checked E topicId subjectType subjectId ki (int w) submittedBy ex d)"

section \<open>resolveArtifact\<close>

definition resolveArtifact :: "env \<Rightarrow> bool \<Rightarrow> string \<Rightarrow> string \<Rightarrow> (bool, 'r) dtx" where
  "resolveArtifact E approve artifactId actorId d =
     (let newState = (if approve then Final else Working);
          note = (if approve then ''request approved'' else ''request returned'')
      in case artifact_of d artifactId of
          None \<Rightarrow> (Next False, d)
        | Some a \<Rightarrow>
            if af_state a \<noteq> For_review then (Next False, d)
            else tx_bind (next_version artifactId newState (af_content a) None None note actorId)
              (\<lambda>version. tx_then (tx_block
                 [emit E (ev (af_topic a) actorId ''artifact.versioned'' ''artifact'' artifactId
                    [(''version'', jnat version)]),
                  emit E (state_changed (af_topic a) actorId artifactId For_review newState)])
               (tx_return True)) d)"

section \<open>decideStep\<close>

datatype decide_result =
    Step_endorsed nat
  | Dec_approved chain_result
  | Dec_returned
  | Dec_rejected
  | Dec_not_found
  | Dec_already_resolved
  | Dec_not_current_step
  | Dec_topic_closed
  | Dec_conflict
  | Dec_not_participant
  | Dec_self_decision_forbidden
  | Dec_not_authorized
  | Dec_repeat_endorser
  | Dec_procedure_is_collective

datatype decision_kind = Endorse | Return | Reject

fun decision_text :: "decision_kind \<Rightarrow> string" where
  "decision_text Endorse = ''endorse''"
| "decision_text Return = ''return''"
| "decision_text Reject = ''reject''"

definition parse_decision :: "string \<Rightarrow> decision_kind option" where
  "parse_decision s = find (\<lambda>k. decision_text k = s) [Endorse, Return, Reject]"

text \<open>Every check before the first write: a refusal, or the request and the step to decide.\<close>

definition decide_checks ::
  "db \<Rightarrow> string \<Rightarrow> nat \<Rightarrow> string \<Rightarrow> decide_result + request_row \<times> step_row" where
  "decide_checks d requestId stepIndex actorId =
     (case request_of d requestId of
        None \<Rightarrow> Inl Dec_not_found
      | Some r \<Rightarrow>
          if r_status r \<noteq> Open then Inl Dec_already_resolved
          else if r_current r \<noteq> stepIndex then Inl Dec_not_current_step
          else if topic_status_of d (r_topic r) = Some Closed then Inl Dec_topic_closed
          else (case step_of d requestId stepIndex of
              None \<Rightarrow> Inl Dec_conflict
            | Some s \<Rightarrow>
                if s_procedure s = Collective then Inl Dec_procedure_is_collective
                else if s_status s \<noteq> S_pending then Inl Dec_conflict
                else (case participant_of d (r_topic r) actorId of
                    None \<Rightarrow> Inl Dec_not_participant
                  | Some p \<Rightarrow>
                      if actorId = r_submitted_by r then Inl Dec_self_decision_forbidden
                      else if p_level p \<noteq> s_office s then Inl Dec_not_authorized
                      else if r_shape r = Counter_sign \<and>
                              exists_where (\<lambda>x. s_request x = requestId \<and> s_index x < stepIndex \<and>
                                                s_decided_by x = Some actorId) (steps d)
                      then Inl Dec_repeat_endorser
                      else Inr (r, s))))"

definition step_decided :: "request_row \<Rightarrow> nat \<Rightarrow> decision_kind \<Rightarrow> string \<Rightarrow> (string \<times> json) list \<Rightarrow> event_input"
  where
  "step_decided r i k who extra =
     ev (r_topic r) who ''request.step_decided'' ''request'' (r_id r)
       ([(''step_index'', jnat i), (''decision'', JStr (decision_text k)), (''decided_by'', JStr who)] @ extra)"

definition request_resolved :: "request_row \<Rightarrow> string \<Rightarrow> request_status \<Rightarrow> bool \<Rightarrow> (string \<times> json) list \<Rightarrow>
    event_input" where
  "request_resolved r who st advanced extra =
     ev (r_topic r) who ''request.resolved'' ''request'' (r_id r)
       ([(''outcome'', JStr (request_status_text st)), (''artifact_advanced'', JBool advanced)] @ extra)"

fun chain_json :: "chain_result \<Rightarrow> json" where
  "chain_json (Posted_task t a) =
     JObj [(''kind'', JStr ''posted''), (''task_id'', JStr t), (''artifact_id'', JStr a)]"
| "chain_json (Deferred_closing e) =
     JObj [(''kind'', JStr ''deferred''), (''reason'', JStr ''topic_closing''),
           (''deferred_event_id'', JStr e)]"
| "chain_json (Deferred_closed e) =
     JObj [(''kind'', JStr ''deferred''), (''reason'', JStr ''topic_closed''),
           (''deferred_event_id'', JStr e)]"

text \<open>The next step becomes current, with a fresh deadline.\<close>

definition advance_step :: "env \<Rightarrow> string \<Rightarrow> nat \<Rightarrow> db \<Rightarrow> db" where
  "advance_step E rid i d =
     set_request rid (\<lambda>r. r\<lparr>r_current := i\<rparr>) (set_step rid i (fresh_deadline E) d)"

text \<open>The last step is endorsed: artifact, events, follow-up task.\<close>

definition approve_request ::
  "env \<Rightarrow> request_row \<Rightarrow> nat \<Rightarrow> string \<Rightarrow> (chain_result, 'r) dtx" where
  "approve_request E r i who =
     tx_then (tx_write (set_request (r_id r) (\<lambda>x. x\<lparr>r_status := Approved\<rparr>)))
     (tx_bind (resolveArtifact E True (r_subject r) who) (\<lambda>advanced.
      tx_then (emit E (step_decided r i Endorse who []))
     (tx_bind (emitChain E ''request.resolved'' (r_id r) who
                (buildChainedTaskParams Src_request (r_id r) (r_topic r) (r_kind r) (r_exec r) who))
       (\<lambda>chain.
      tx_then (emit E (request_resolved r who Approved advanced [(''chain'', chain_json chain)]))
        (tx_return chain)))))"

definition return_request :: "env \<Rightarrow> request_row \<Rightarrow> nat \<Rightarrow> string \<Rightarrow> (unit, 'r) dtx" where
  "return_request E r i who =
     tx_then (tx_write (set_request (r_id r) (\<lambda>x. x\<lparr>r_status := Returned\<rparr>)))
     (tx_bind (resolveArtifact E False (r_subject r) who) (\<lambda>advanced. tx_block
        [emit E (step_decided r i Return who []),
         emit E (request_resolved r who Returned advanced [])]))"

definition reject_request ::
  "env \<Rightarrow> request_row \<Rightarrow> nat \<Rightarrow> string \<Rightarrow> (string \<times> json) list \<Rightarrow> (unit, 'r) dtx" where
  "reject_request E r i who extra = tx_block
     [tx_write (set_request (r_id r) (\<lambda>x. x\<lparr>r_status := Rejected\<rparr>)),
      emit E (step_decided r i Reject who extra),
      emit E (request_resolved r who Rejected False [])]"

fun decided_status :: "decision_kind \<Rightarrow> step_status" where
  "decided_status Endorse = S_endorsed"
| "decided_status Return = S_returned"
| "decided_status Reject = S_rejected"

definition endorse_step ::
  "env \<Rightarrow> request_row \<Rightarrow> nat \<Rightarrow> string \<Rightarrow> (decide_result, 'r) dtx" where
  "endorse_step E r i who d =
     (if step_of d (r_id r) (Suc i) \<noteq> None
      then tx_then (tx_block
             [tx_write (advance_step E (r_id r) (Suc i)), emit E (step_decided r i Endorse who [])])
           (tx_return (Step_endorsed (Suc i))) d
      else tx_bind (approve_request E r i who) (\<lambda>chain. tx_return (Dec_approved chain)) d)"

definition decide_body ::
  "env \<Rightarrow> string \<Rightarrow> nat \<Rightarrow> string \<Rightarrow> decision_kind \<Rightarrow> (decide_result, decide_result) dtx" where
  "decide_body E requestId stepIndex actorId k d =
     (if \<not> pg_uuid E requestId then (Throw Pg_syntax, d)
      else case decide_checks d requestId stepIndex actorId of
        Inl refusal \<Rightarrow> (Abort refusal, d)
      | Inr (r, s) \<Rightarrow>
          tx_then (tx_write (set_step requestId stepIndex (decide_row E (decided_status k) actorId)))
            (case k of
               Endorse \<Rightarrow> endorse_step E r stepIndex actorId
             | Return \<Rightarrow> tx_then (return_request E r stepIndex actorId) (tx_return Dec_returned)
             | Reject \<Rightarrow> tx_then (reject_request E r stepIndex actorId []) (tx_return Dec_rejected)) d)"

definition decideStep ::
  "env \<Rightarrow> string option \<Rightarrow> string \<Rightarrow> jsnum \<Rightarrow> string \<Rightarrow> string \<Rightarrow> db \<Rightarrow> decide_result outcome" where
  "decideStep E pid request_id step_index actor_id decision =
     guarded E pid A_write (rref K_request request_id) (\<lambda>d.
       let requestId = trim request_id; actorId = trim actor_id; de = trim decision
       in if requestId = [] \<or> actorId = [] \<or> de = [] then throw BAD_REQUEST d
          else if 256 < length actorId then throw BAD_REQUEST d
          else case parse_decision de of
            None \<Rightarrow> throw BAD_REQUEST d
          | Some k \<Rightarrow>
              (case nat_value step_index of
                 None \<Rightarrow> throw BAD_REQUEST d
               | Some i \<Rightarrow> transaction (decide_body E requestId i actorId k) d))"

section \<open>applyMotionToStep\<close>

datatype motion_outcome = Out_carried | Out_failed | Out_lapsed | Out_vetoed

fun outcome_status :: "motion_outcome \<Rightarrow> motion_status" where
  "outcome_status Out_carried = Carried"
| "outcome_status Out_failed = Failed"
| "outcome_status Out_lapsed = Lapsed"
| "outcome_status Out_vetoed = Vetoed"

definition motion_ref :: "string \<Rightarrow> string" where
  "motion_ref mid = ''motion:'' @ mid"

text \<open>The events name the topic the caller passes in.\<close>

definition on_topic :: "string \<Rightarrow> request_row \<Rightarrow> request_row" where
  "on_topic topic r = r\<lparr>r_topic := topic\<rparr>"

definition apply_carried ::
  "env \<Rightarrow> request_row \<Rightarrow> nat \<Rightarrow> string \<Rightarrow> (unit, 'r) dtx" where
  "apply_carried E r i who =
     tx_then (tx_write (set_step (r_id r) i (decide_row E S_endorsed who))) (\<lambda>d.
       case step_of d (r_id r) (Suc i) of
         None \<Rightarrow> tx_unit (approve_request E r i who) d
       | Some n \<Rightarrow> tx_block
           [tx_write (advance_step E (r_id r) (Suc i)),
            emit E (step_decided r i Endorse who []),
            (case s_body n of
               Some b \<Rightarrow> (if s_procedure n = Collective \<and> b \<noteq> []
                           then proposeStepMotion E (r_id r) (Suc i) b (r_topic r) else tx_return ())
             | None \<Rightarrow> tx_return ())] d)"

definition step_escalated :: "request_row \<Rightarrow> nat \<Rightarrow> string \<Rightarrow> (string \<times> json) list \<Rightarrow> event_input" where
  "step_escalated r i who extra =
     ev (r_topic r) who ''request.step_escalated'' ''request'' (r_id r)
       ((''step_index'', jnat i) # extra)"

text \<open>A step with no office above it: the request is exhausted.\<close>

definition exhaust_request ::
  "env \<Rightarrow> request_row \<Rightarrow> nat \<Rightarrow> string \<Rightarrow> (string \<times> json) list \<Rightarrow> (unit, 'r) dtx" where
  "exhaust_request E r i who extra = tx_block
     [tx_write (set_step (r_id r) i (decide_row E S_escalated who)),
      tx_write (set_request (r_id r) (\<lambda>x. x\<lparr>r_status := Escalation_exhausted\<rparr>)),
      emit E (step_escalated r i who ((''exhausted'', JBool True) # extra)),
      emit E (request_resolved r who Escalation_exhausted False [])]"

definition moved_step ::
  "env \<Rightarrow> level \<Rightarrow> procedure_kind \<Rightarrow> step_status \<Rightarrow> string option \<Rightarrow> step_row \<Rightarrow> step_row" where
  "moved_step E office pr st body s =
     s\<lparr>s_status := st, s_office := office, s_procedure := pr, s_body := body, s_motion := None,
       s_deadline := pg_now E + STEP_DEADLINE_MS, s_decided_by := None, s_decided_at := None\<rparr>"

definition escalation_note :: "level \<Rightarrow> level \<Rightarrow> procedure_kind \<Rightarrow> (string \<times> json) list" where
  "escalation_note from to pr =
     [(''from_office'', JStr (level_text from)), (''to_office'', JStr (level_text to)),
      (''reason'', JStr ''motion_lapsed''), (''escalated_to'', JStr (procedure_text pr))]"

definition apply_lapsed ::
  "env \<Rightarrow> request_row \<Rightarrow> nat \<Rightarrow> level \<Rightarrow> string \<Rightarrow> (unit, 'r) dtx" where
  "apply_lapsed E r i office who =
     (if office = Authority
      then exhaust_request E r i who
             [(''reason'', JStr ''motion_lapsed''), (''escalated_to'', JStr ''unilateral'')]
      else
        let newLevel = next_level office;
            nextBody = (case r_bodies r of None \<Rightarrow> None | Some m \<Rightarrow> map_of m newLevel)
        in case nextBody of
            Some b \<Rightarrow>
              if b = [] then
                tx_block
                  [tx_write (set_step (r_id r) i (moved_step E newLevel Unilateral S_pending None)),
                   emit E (step_escalated r i who (escalation_note office newLevel Unilateral))]
              else tx_block
                [tx_write (set_step (r_id r) i (moved_step E newLevel Collective S_motion_proposed (Some b))),
                 emit E (step_escalated r i who
                   (escalation_note office newLevel Collective @ [(''body_id'', JStr b)])),
                 proposeStepMotion E (r_id r) i b (r_topic r)]
          | None \<Rightarrow> tx_block
              [tx_write (set_step (r_id r) i (moved_step E newLevel Unilateral S_pending None)),
               emit E (step_escalated r i who (escalation_note office newLevel Unilateral))])"

definition applyMotionToStep ::
  "env \<Rightarrow> string \<Rightarrow> string \<Rightarrow> nat \<Rightarrow> level \<Rightarrow> motion_outcome \<Rightarrow> string \<Rightarrow> (unit, 'r) dtx" where
  "applyMotionToStep E mid rid i office outcome topic d =
     (let who = motion_ref mid in
      case request_of d rid of
        None \<Rightarrow> (Next (), d)
      | Some req \<Rightarrow>
          if r_status req \<noteq> Open then (Next (), d)
          else let r = on_topic topic req in
            (case outcome of
               Out_carried \<Rightarrow> apply_carried E r i who
             | Out_failed \<Rightarrow> tx_then (tx_write (set_step rid i (decide_row E S_returned who)))
                              (return_request E r i who)
             | Out_vetoed \<Rightarrow> tx_then (tx_write (set_step rid i (decide_row E S_rejected who)))
                              (reject_request E r i who [(''reason'', JStr ''vetoed'')])
             | Out_lapsed \<Rightarrow> apply_lapsed E r i office who) d)"

section \<open>getRequest and listRequests\<close>

definition steps_of :: "db \<Rightarrow> string \<Rightarrow> step_row list" where
  "steps_of d rid = sort_key s_index (filter (\<lambda>s. s_request s = rid) (steps d))"

definition getRequest ::
  "env \<Rightarrow> string option \<Rightarrow> string \<Rightarrow> db \<Rightarrow> (request_row \<times> step_row list) option outcome" where
  "getRequest E pid request_id =
     guarded E pid A_read (rref K_request request_id) (\<lambda>d.
       if \<not> pg_uuid E request_id then (Inl Pg_syntax, d)
       else (Inr (map_option (\<lambda>r. (r, steps_of d request_id)) (request_of d request_id)), d))"

definition listRequests ::
  "env \<Rightarrow> string option \<Rightarrow> string \<Rightarrow> string option \<Rightarrow> db \<Rightarrow>
     (request_row \<times> step_row list) list outcome" where
  "listRequests E pid topic_id status =
     guarded E pid A_read (rref K_topic topic_id) (\<lambda>d.
       if topic_of d topic_id = None then throw NOT_FOUND d
       else (Inr (map (\<lambda>r. (r, steps_of d (r_id r)))
              (sort_key r_created_at
                (filter (\<lambda>r. r_topic r = topic_id \<and>
                    (case status of None \<Rightarrow> True | Some s \<Rightarrow> s = [] \<or> request_status_text (r_status r) = s))
                  (requests d)))), d))"

section \<open>Inside a service relation\<close>

context artifact_service
begin

lemma rel_resolveArtifact: "after (\<lambda>_. R d) (resolveArtifact E ap aid ac d)"
  unfolding resolveArtifact_def Let_def
  by (auto intro!: emit_rules rel_next_version split: option.split)

end

locale request_service = log_service R + task_service R + artifact_service R for R
begin

lemma rel_proposeStepMotion: "after (\<lambda>_. R d) (proposeStepMotion E rid i b t d)"
  unfolding proposeStepMotion_def by (auto intro!: rules simp: set_step_def)

lemma rel_insert_steps: "after (\<lambda>_. R d) (tx_block (map (insert_row step_key steps steps_update) rows) d)"
  by (rule rel_block) (auto intro: rel_insert)

lemma rel_submit_body: "after (\<lambda>_. R d) (submit_body E t s k w who ex rid m route d)"
  unfolding submit_body_def
  by (auto intro!: rules rel_insert_steps rel_proposeStepMotion simp: set_request_def tx_throw_def
      split: option.split list.split)

lemma rel_submit_checked: "R d (snd (submit_checked E t sty s k w who ex d))"
proof -
  let ?d = "d\<lparr>uuid_ctr := Suc (uuid_ctr d)\<rparr>"
  have "R d ?d" by (simp add: rel_untouched)
  then have "R d (snd (transaction (submit_body E t s k w who ex rid m route) ?d))" for rid m route
    by (rule rel_trans) (rule rel_transaction [OF rel_submit_body])
  then show ?thesis
    by (auto simp: submit_checked_def Let_def throw_def split: option.split)
qed

lemma rel_submitRequest: "R d (snd (submitRequest E pid t sty s k w pr who ex d))"
  unfolding submitRequest_def Let_def
  by (rule rel_guarded)
    (auto simp: throw_def intro: rel_submit_checked split: option.split sum.split)

lemma rel_approve_request: "after (\<lambda>_. R d) (approve_request E r i who d)"
  unfolding approve_request_def
  by (auto intro!: rules rel_resolveArtifact rel_emitChain simp: set_request_def)

lemma rel_return_request: "after (\<lambda>_. R d) (return_request E r i who d)"
  unfolding return_request_def
  by (auto intro!: rules rel_resolveArtifact simp: set_request_def)

lemma rel_reject_request: "after (\<lambda>_. R d) (reject_request E r i who extra d)"
  unfolding reject_request_def by (auto intro!: rules simp: set_request_def)

lemma rel_endorse_step: "after (\<lambda>_. R d) (endorse_step E r i who d)"
  unfolding endorse_step_def
  by (auto intro!: rules rel_approve_request simp: advance_step_def set_request_def set_step_def)

lemma rel_decide_body: "after (\<lambda>_. R d) (decide_body E rid i who k d)"
  unfolding decide_body_def
  by (auto intro!: rules rel_endorse_step rel_return_request rel_reject_request
      simp: set_step_def split: sum.split decision_kind.split)

lemma rel_decideStep: "R d (snd (decideStep E pid rid i who k d))"
  unfolding decideStep_def Let_def
  by (auto intro!: rules rel_decide_body split: option.split)

lemma rel_apply_carried: "after (\<lambda>_. R d) (apply_carried E r i who d)"
  unfolding apply_carried_def
  by (auto intro!: rules rel_approve_request rel_proposeStepMotion
      simp: advance_step_def set_request_def set_step_def split: option.split)

lemma rel_exhaust_request: "after (\<lambda>_. R d) (exhaust_request E r i who extra d)"
  unfolding exhaust_request_def
  by (auto intro!: rules simp: set_request_def set_step_def)

lemma rel_apply_lapsed: "after (\<lambda>_. R d) (apply_lapsed E r i l who d)"
  unfolding apply_lapsed_def Let_def
  by (auto intro!: rules rel_exhaust_request rel_proposeStepMotion simp: set_step_def
      split: option.split)

lemma rel_applyMotionToStep: "after (\<lambda>_. R d) (applyMotionToStep E m rid i l out t d)"
  unfolding applyMotionToStep_def Let_def
  by (auto intro!: rules rel_apply_carried rel_return_request rel_reject_request rel_apply_lapsed
      simp: set_step_def split: option.split motion_outcome.split)

end

text \<open>What the components above rely on: a submission, besides writes that leave the routes alone.\<close>

locale submit_service = base_service +
  assumes rel_submits: "R d (snd (submitRequest E pid t sty s k w pr who ex d))"

sublocale request_service \<subseteq> submits: submit_service
  by unfold_locales (rule rel_submitRequest)

interpretation log: request_service log_ext ..

interpretation topic: request_service topic_step ..

end
