(* ===== verification/Bodies.thy ===== *)
theory Bodies
  imports Topics Requests
begin

text \<open>
  Decision bodies and proxies (services/decisionBodies.ts, services/proxies.ts, and
  \<^verbatim>\<open>resolveProjectIdOrThrow\<close> of core/auth.ts): the bodies with quorum, threshold and veto holders,
  their weighted members, and the proxy grants \<open>castVote\<close> checks. Each operation is one SQL
  statement without a transaction, and none writes an event.
\<close>

definition resolveProjectIdOrThrow :: "env \<Rightarrow> string option \<Rightarrow> string option" where
  "resolveProjectIdOrThrow E project_id =
     (if trim_opt project_id \<noteq> [] then project_id
      else if trim_opt (default_project E) \<noteq> [] then default_project E
      else None)"

definition body_of :: "db \<Rightarrow> string \<Rightarrow> body_row option" where
  "body_of d bid = find_row b_id bid (bodies d)"

definition member_of :: "db \<Rightarrow> string \<Rightarrow> string \<Rightarrow> member_row option" where
  "member_of d bid actor = find_row (\<lambda>m. (bm_body m, bm_actor m)) (bid, actor) (members d)"

section \<open>createBody\<close>

text \<open>The checks on the numbers and the veto holders.\<close>

definition body_numbers_ok :: "jsnum \<Rightarrow> jsnum \<Rightarrow> (rat \<times> rat) option" where
  "body_numbers_ok quorum threshold = (case (finite_value quorum, finite_value threshold) of
     (Some q, Some t) \<Rightarrow> if q < 0 \<or> t \<le> 0 \<or> 1 < t then None else Some (q, t)
   | _ \<Rightarrow> None)"

definition veto_holders_ok :: "string list \<Rightarrow> bool" where
  "veto_holders_ok vs = (list_all (\<lambda>v. trim v \<noteq> [] \<and> length v \<le> 256) vs \<and> length vs \<le> 64)"

definition createBody ::
  "env \<Rightarrow> string option \<Rightarrow> string option \<Rightarrow> string \<Rightarrow> jsnum \<Rightarrow> jsnum \<Rightarrow> string list option \<Rightarrow> string \<Rightarrow>
     db \<Rightarrow> body_row outcome" where
  "createBody E pid project_id name quorum threshold veto_holders created_by d0 =
     (case resolveProjectIdOrThrow E project_id of
        None \<Rightarrow> throw BAD_REQUEST d0
      | Some projectId \<Rightarrow>
          guarded E pid A_admin (rref K_project projectId) (\<lambda>d.
            let nm = trim name; createdBy = trim created_by; vs = or_else veto_holders []
            in if nm = [] \<or> createdBy = [] then throw BAD_REQUEST d
               else if 256 < length nm then throw BAD_REQUEST d
               else case body_numbers_ok quorum threshold of
                 None \<Rightarrow> throw BAD_REQUEST d
               | Some (q, t) \<Rightarrow>
                   if \<not> veto_holders_ok vs then throw BAD_REQUEST d
                   else transaction (tx_bind (gen_uuid E) (\<lambda>bid.
                     let row = \<lparr>b_id = bid, b_project = projectId, b_name = nm, b_quorum = q,
                                b_threshold = t, b_veto = map trim vs, b_created_by = createdBy,
                                b_created_at = pg_now E\<rparr>
                     in tx_then (insert_row b_id bodies bodies_update row) (tx_return row))) d) d0)"

section \<open>addBodyMember\<close>

datatype add_member_result = Member_ok | Member_body_not_found

text \<open>\<^verbatim>\<open>INSERT .. ON CONFLICT (body_id, actor_id) DO UPDATE SET vote_weight\<close>\<close>

definition upsert_member :: "env \<Rightarrow> string \<Rightarrow> string \<Rightarrow> rat \<Rightarrow> db \<Rightarrow> db" where
  "upsert_member E bid actor w d = (case member_of d bid actor of
     None \<Rightarrow> d\<lparr>members := members d @
       [\<lparr>bm_body = bid, bm_actor = actor, bm_weight = w, bm_added_at = pg_now E\<rparr>]\<rparr>
   | Some _ \<Rightarrow> d\<lparr>members := update_where (\<lambda>m. bm_body m = bid \<and> bm_actor m = actor)
       (\<lambda>m. m\<lparr>bm_weight := w\<rparr>) (members d)\<rparr>)"

definition addBodyMember ::
  "env \<Rightarrow> string option \<Rightarrow> string \<Rightarrow> string \<Rightarrow> jsnum \<Rightarrow> db \<Rightarrow> add_member_result outcome" where
  "addBodyMember E pid body_id actor_id vote_weight =
     guarded E pid A_admin (rref K_body body_id) (\<lambda>d.
       let bodyId = trim body_id; actorId = trim actor_id
       in if bodyId = [] \<or> actorId = [] then throw BAD_REQUEST d
          else case finite_value vote_weight of
            None \<Rightarrow> throw BAD_REQUEST d
          | Some w \<Rightarrow>
              if w \<le> 0 then throw BAD_REQUEST d
              else if \<not> pg_uuid E bodyId then (Inl Pg_syntax, d)
              else if body_of d bodyId = None then (Inr Member_body_not_found, d)
              else (Inr Member_ok, upsert_member E bodyId actorId w d))"

section \<open>getBody and listBodies\<close>

definition members_of :: "db \<Rightarrow> string \<Rightarrow> member_row list" where
  "members_of d bid = sort_key bm_added_at (filter (\<lambda>m. bm_body m = bid) (members d))"

definition getBody ::
  "env \<Rightarrow> string option \<Rightarrow> string \<Rightarrow> db \<Rightarrow> (body_row \<times> member_row list) option outcome" where
  "getBody E pid body_id =
     guarded E pid A_read (rref K_body body_id) (\<lambda>d.
       if \<not> pg_uuid E body_id then (Inl Pg_syntax, d)
       else (Inr (map_option (\<lambda>b. (b, members_of d body_id)) (body_of d body_id)), d))"

definition listBodies ::
  "env \<Rightarrow> string option \<Rightarrow> string option \<Rightarrow> db \<Rightarrow> (body_row \<times> member_row list) list outcome" where
  "listBodies E pid project_id d0 = (case resolveProjectIdOrThrow E project_id of
     None \<Rightarrow> throw BAD_REQUEST d0
   | Some projectId \<Rightarrow>
       guarded E pid A_read (rref K_project projectId) (\<lambda>d.
         (Inr (map (\<lambda>b. (b, members_of d (b_id b)))
            (sort_key (\<lambda>b. - b_created_at b) (filter (\<lambda>b. b_project b = projectId) (bodies d)))), d)) d0)"

section \<open>Proxies\<close>

datatype grant_proxy_result =
  Proxy_ok | Proxy_body_not_found | Proxy_principal_not_member | Proxy_not_authorized

definition proxy_granted :: "db \<Rightarrow> string \<Rightarrow> string \<Rightarrow> string \<Rightarrow> bool" where
  "proxy_granted d bid who proxy =
     exists_where (\<lambda>x. px_body x = bid \<and> px_principal x = who \<and> px_proxy x = proxy) (proxies d)"

definition grantProxy ::
  "env \<Rightarrow> string option \<Rightarrow> string \<Rightarrow> string \<Rightarrow> string \<Rightarrow> string \<Rightarrow> db \<Rightarrow> grant_proxy_result outcome" where
  "grantProxy E pid body_id a_principal a_proxy granted_by =
     guarded E pid A_write (rref K_body body_id) (\<lambda>d.
       let bodyId = trim body_id; who = trim a_principal; proxy = trim a_proxy; grantedBy = trim granted_by
       in if bodyId = [] \<or> who = [] \<or> proxy = [] \<or> grantedBy = [] then throw BAD_REQUEST d
          else if 256 < length who \<or> 256 < length proxy then throw BAD_REQUEST d
          else if who = proxy then throw BAD_REQUEST d
          else if grantedBy \<noteq> who then (Inr Proxy_not_authorized, d)
          else if \<not> pg_uuid E bodyId then (Inl Pg_syntax, d)
          else if body_of d bodyId = None then (Inr Proxy_body_not_found, d)
          else if member_of d bodyId who = None then (Inr Proxy_principal_not_member, d)
          else (Inr Proxy_ok,
                if proxy_granted d bodyId who proxy then d
                else d\<lparr>proxies := proxies d @
                   [\<lparr>px_body = bodyId, px_principal = who, px_proxy = proxy, px_granted_by = grantedBy,
                     px_granted_at = pg_now E\<rparr>]\<rparr>))"

definition revokeProxy ::
  "env \<Rightarrow> string option \<Rightarrow> string \<Rightarrow> string \<Rightarrow> string \<Rightarrow> db \<Rightarrow> bool outcome" where
  "revokeProxy E pid body_id a_principal a_proxy =
     guarded E pid A_write (rref K_body body_id) (\<lambda>d.
       let bodyId = trim body_id; who = trim a_principal; proxy = trim a_proxy
       in if bodyId = [] \<or> who = [] \<or> proxy = [] then throw BAD_REQUEST d
          else if \<not> pg_uuid E bodyId then (Inl Pg_syntax, d)
          else (Inr (proxy_granted d bodyId who proxy),
                d\<lparr>proxies := delete_where (\<lambda>x. px_body x = bodyId \<and> px_principal x = who \<and>
                                               px_proxy x = proxy) (proxies d)\<rparr>))"

definition listProxies ::
  "env \<Rightarrow> string option \<Rightarrow> string \<Rightarrow> db \<Rightarrow> proxy_row list outcome" where
  "listProxies E pid body_id =
     guarded E pid A_read (rref K_body body_id) (\<lambda>d.
       let bodyId = trim body_id
       in if bodyId = [] then throw BAD_REQUEST d
          else if \<not> pg_uuid E bodyId then (Inl Pg_syntax, d)
          else (Inr (sort_key px_granted_at (filter (\<lambda>x. px_body x = bodyId) (proxies d))), d))"

section \<open>Inside a service relation\<close>

context base_service
begin

lemma rel_createBody: "R d (snd (createBody E pid pr nm q t vs cb d))"
  unfolding createBody_def Let_def
  by (auto intro!: outer_rules split: option.split)

lemma rel_addBodyMember: "R d (snd (addBodyMember E pid bid ac w d))"
  unfolding addBodyMember_def
  by (rule rel_guarded)
    (simp add: Let_def throw_def upsert_member_def rel_outer split: option.split)

lemma rel_grantProxy: "R d (snd (grantProxy E pid bid w p g d))"
  unfolding grantProxy_def
  by (rule rel_guarded)
    (simp add: Let_def throw_def upsert_member_def rel_outer split: option.split)

lemma rel_revokeProxy: "R d (snd (revokeProxy E pid bid w p d))"
  unfolding revokeProxy_def
  by (rule rel_guarded)
    (simp add: Let_def throw_def upsert_member_def rel_outer split: option.split)

end

end
