(* ===== verification/Motions.thy ===== *)
theory Motions
  imports Bodies Requests
begin

text \<open>
  Motions of a decision body (services/motions.ts): proposing, seconding, weighted votes, veto, and
  the tally with its outcome rule. A motion opened for a request step hands its outcome to
  \<open>applyMotionToStep\<close>; another carried motion posts its follow-up task.
\<close>

definition MOTION_DEADLINE_DEFAULT_MINUTES :: int where "MOTION_DEADLINE_DEFAULT_MINUTES = 1440"
definition MOTION_DEADLINE_MIN_MINUTES :: int where "MOTION_DEADLINE_MIN_MINUTES = 5"
definition MOTION_DEADLINE_MAX_MINUTES :: int where "MOTION_DEADLINE_MAX_MINUTES = 43200"

definition motion_of :: "db \<Rightarrow> string \<Rightarrow> motion_row option" where
  "motion_of d mid = find_row m_id mid (motions d)"

definition set_motion :: "string \<Rightarrow> (motion_row \<Rightarrow> motion_row) \<Rightarrow> db \<Rightarrow> db" where
  "set_motion mid f d = d\<lparr>motions := update_where (\<lambda>m. m_id m = mid) f (motions d)\<rparr>"

section \<open>The tally\<close>

definition weight_for :: "vote_choice \<Rightarrow> vote_row list \<Rightarrow> rat" where
  "weight_for c vs = sum_list (map vt_weight (filter (\<lambda>v. vt_choice v = c) vs))"

definition votes_of :: "db \<Rightarrow> string \<Rightarrow> vote_row list" where
  "votes_of d mid = filter (\<lambda>v. vt_motion v = mid) (votes d)"

record vote_agg =
  va_f :: rat
  va_a :: rat
  va_ab :: rat
  va_participating :: rat
  va_base :: rat
  va_quorum_met :: bool
  va_carried :: bool

text \<open>The aggregate query; NUMERIC arithmetic is exact.\<close>

definition aggregateVotes :: "vote_row list \<Rightarrow> rat \<Rightarrow> rat \<Rightarrow> vote_agg" where
  "aggregateVotes vs quorum threshold =
     (let f = weight_for For vs; a = weight_for Against vs; ab = weight_for Abstain vs
      in \<lparr>va_f = f, va_a = a, va_ab = ab, va_participating = f + a + ab, va_base = f + a,
          va_quorum_met = (quorum \<le> f + a + ab),
          va_carried = (0 < f + a \<and> threshold * (f + a) \<le> f)\<rparr>)"

definition decideOutcome :: "vote_agg \<Rightarrow> rat \<Rightarrow> rat \<Rightarrow> motion_outcome \<times> tally" where
  "decideOutcome agg quorum threshold =
     (if \<not> va_quorum_met agg then Out_lapsed else if va_carried agg then Out_carried else Out_failed,
      \<lparr>ta_for = va_f agg, ta_against = va_a agg, ta_abstain = va_ab agg,
       ta_participating = va_participating agg, ta_base = va_base agg, ta_quorum = quorum,
       ta_threshold = threshold, ta_quorum_met = va_quorum_met agg\<rparr>)"

definition computeMotionTally :: "db \<Rightarrow> string \<Rightarrow> rat \<Rightarrow> rat \<Rightarrow> motion_outcome \<times> tally" where
  "computeMotionTally d mid quorum threshold =
     decideOutcome (aggregateVotes (votes_of d mid) quorum threshold) quorum threshold"

section \<open>proposeMotion\<close>

datatype propose_result =
    Pr_proposed string int  \<comment> \<open>motion, deadline\<close>
  | Pr_topic_closed
  | Pr_body_not_found
  | Pr_not_participant

definition motion_deadline :: "jsnum option \<Rightarrow> int option" where
  "motion_deadline minutes = (case minutes of
     None \<Rightarrow> Some MOTION_DEADLINE_DEFAULT_MINUTES
   | Some n \<Rightarrow> (case nat_value n of
         None \<Rightarrow> None
       | Some k \<Rightarrow> if int k < MOTION_DEADLINE_MIN_MINUTES \<or> MOTION_DEADLINE_MAX_MINUTES < int k
                   then None else Some (int k)))"

definition propose_body ::
  "env \<Rightarrow> string \<Rightarrow> string \<Rightarrow> string \<Rightarrow> string \<Rightarrow> int \<Rightarrow> exec_blob option \<Rightarrow>
     (propose_result, propose_result) dtx" where
  "propose_body E topicId bodyId subjectRef proposedBy minutes ex =
     (let deadline = pg_now E + minutes * 60000 in
      tx_bind (gen_uuid E) (\<lambda>mid.
      tx_then (tx_block
        [insert_row m_id motions motions_update
           \<lparr>m_id = mid, m_body = bodyId, m_topic = topicId, m_subject_ref = subjectRef,
            m_status = Proposed, m_proposed_by = proposedBy, m_seconded_by = None,
            m_deadline = deadline, m_tally = None, m_created_at = pg_now E, m_exec = ex\<rparr>,
         emit E (ev topicId proposedBy ''motion.proposed'' ''motion'' mid
           [(''body_id'', JStr bodyId), (''subject_ref'', JStr subjectRef),
            (''deadline'', JStr (iso_text deadline))])])
      (tx_return (Pr_proposed mid deadline))))"

definition proposeMotion ::
  "env \<Rightarrow> string option \<Rightarrow> string \<Rightarrow> string \<Rightarrow> string \<Rightarrow> string \<Rightarrow> jsnum option \<Rightarrow> json option \<Rightarrow>
     db \<Rightarrow> propose_result outcome" where
  "proposeMotion E pid topic_id body_id subject_ref proposed_by deadline_minutes execution_task =
     guarded E pid A_write (rref K_topic topic_id) (\<lambda>d.
       let topicId = trim topic_id; bodyId = trim body_id; subjectRef = trim subject_ref;
           proposedBy = trim proposed_by
       in case validateExecutionTask E execution_task of
            Inl x \<Rightarrow> (Inl x, d)
          | Inr ex \<Rightarrow>
              if topicId = [] \<or> bodyId = [] \<or> subjectRef = [] \<or> proposedBy = [] then throw BAD_REQUEST d
              else if 256 < length subjectRef then throw BAD_REQUEST d
              else case motion_deadline deadline_minutes of
                None \<Rightarrow> throw BAD_REQUEST d
              | Some minutes \<Rightarrow>
                  (case topic_of d topicId of
                     None \<Rightarrow> throw NOT_FOUND d
                   | Some t \<Rightarrow>
                       if t_status t = Closed \<or> t_status t = Closing then (Inr Pr_topic_closed, d)
                       else if \<not> pg_uuid E bodyId then (Inl Pg_syntax, d)
                       else if map_option b_project (body_of d bodyId) \<noteq> Some (t_project t)
                       then (Inr Pr_body_not_found, d)
                       else if participant_of d topicId proposedBy = None
                       then (Inr Pr_not_participant, d)
                       else transaction (propose_body E topicId bodyId subjectRef proposedBy minutes ex) d))"

section \<open>secondMotion\<close>

datatype second_result =
  Sec_seconded | Sec_not_found | Sec_conflict | Sec_topic_closed | Sec_self_second_forbidden
| Sec_not_member

definition second_body :: "env \<Rightarrow> string \<Rightarrow> string \<Rightarrow> (second_result, second_result) dtx" where
  "second_body E motionId actorId d =
     (if \<not> pg_uuid E motionId then (Throw Pg_syntax, d)
      else case motion_of d motionId of
        None \<Rightarrow> (Abort Sec_not_found, d)
      | Some m \<Rightarrow>
          if m_status m \<noteq> Proposed then (Abort Sec_conflict, d)
          else if topic_status_of d (m_topic m) = Some Closed then (Abort Sec_topic_closed, d)
          else if actorId = m_proposed_by m then (Abort Sec_self_second_forbidden, d)
          else if member_of d (m_body m) actorId = None then (Abort Sec_not_member, d)
          else tx_then (tx_block
            [tx_write (set_motion motionId
               (\<lambda>x. x\<lparr>m_status := Balloting, m_seconded_by := Some actorId\<rparr>)),
             emit E (ev (m_topic m) actorId ''motion.seconded'' ''motion'' motionId
               [(''seconded_by'', JStr actorId)])])
            (tx_return Sec_seconded) d)"

definition secondMotion ::
  "env \<Rightarrow> string option \<Rightarrow> string \<Rightarrow> string \<Rightarrow> db \<Rightarrow> second_result outcome" where
  "secondMotion E pid motion_id actor_id =
     guarded E pid A_write (rref K_motion motion_id) (\<lambda>d.
       let motionId = trim motion_id; actorId = trim actor_id
       in if motionId = [] \<or> actorId = [] then throw BAD_REQUEST d
          else transaction (second_body E motionId actorId) d)"

section \<open>castVote\<close>

datatype vote_result =
  Vote_recorded | Vote_not_found | Vote_not_balloting | Vote_balloting_closed | Vote_topic_closed
| Vote_not_member | Vote_proxy_not_granted | Vote_already_voted

definition vote_key :: "vote_row \<Rightarrow> string \<times> string" where
  "vote_key v = (vt_motion v, vt_actor v)"

definition vote_body ::
  "env \<Rightarrow> string \<Rightarrow> string \<Rightarrow> vote_choice \<Rightarrow> string option \<Rightarrow> (vote_result, vote_result) dtx" where
  "vote_body E motionId actorId choice proxyFor d =
     (if \<not> pg_uuid E motionId then (Throw Pg_syntax, d)
      else case motion_of d motionId of
        None \<Rightarrow> (Abort Vote_not_found, d)
      | Some m \<Rightarrow>
          if m_status m \<noteq> Balloting then (Abort Vote_not_balloting, d)
          else if m_deadline m \<le> pg_now E then (Abort Vote_balloting_closed, d)
          else if topic_status_of d (m_topic m) = Some Closed then (Abort Vote_topic_closed, d)
          else (case member_of d (m_body m) actorId of
              None \<Rightarrow> (Abort Vote_not_member, d)
            | Some bm \<Rightarrow>
                if auth_enabled E \<and>
                   (case proxyFor of None \<Rightarrow> False | Some p \<Rightarrow> \<not> proxy_granted d (m_body m) actorId p)
                then (Abort Vote_proxy_not_granted, d)
                else if find_row vote_key (motionId, actorId) (votes d) \<noteq> None
                then (Abort Vote_already_voted, d)
                else tx_then (tx_block
                  [tx_write (\<lambda>x. x\<lparr>votes := votes x @
                     [\<lparr>vt_motion = motionId, vt_actor = actorId, vt_choice = choice,
                       vt_weight = bm_weight bm, vt_proxy = proxyFor, vt_cast_at = pg_now E\<rparr>]\<rparr>),
                   emit E (ev (m_topic m) (or_else proxyFor actorId) ''vote.cast'' ''motion'' motionId
                     [(''principal'', JStr actorId), (''choice'', JStr (choice_text choice)),
                      (''weight'', JNum (bm_weight bm)), (''proxy_for'', json_opt proxyFor)])])
                  (tx_return Vote_recorded) d))"

definition castVote ::
  "env \<Rightarrow> string option \<Rightarrow> string \<Rightarrow> string \<Rightarrow> string \<Rightarrow> string option \<Rightarrow> db \<Rightarrow> vote_result outcome" where
  "castVote E pid motion_id actor_id choice proxy_for =
     guarded E pid A_write (rref K_motion motion_id) (\<lambda>d.
       let motionId = trim motion_id; actorId = trim actor_id; proxyForRaw = trim_opt proxy_for
       in if motionId = [] \<or> actorId = [] then throw BAD_REQUEST d
          else case parse_choice choice of
            None \<Rightarrow> throw BAD_REQUEST d
          | Some c \<Rightarrow>
              if proxyForRaw \<noteq> [] \<and> proxyForRaw = actorId then throw BAD_REQUEST d
              else transaction (vote_body E motionId actorId c
                     (if proxyForRaw = [] then None else Some proxyForRaw)) d)"

section \<open>The step a motion decides\<close>

text \<open>\<^verbatim>\<open>SELECT .. FROM request_steps WHERE motion_id = $1\<close>; the outcome is applied when it is one row.\<close>

definition apply_to_linked_step ::
  "env \<Rightarrow> motion_row \<Rightarrow> motion_outcome \<Rightarrow> (unit, 'r) dtx" where
  "apply_to_linked_step E m outcome d =
     (case filter (\<lambda>s. s_motion s = Some (m_id m)) (steps d) of
        [s] \<Rightarrow> applyMotionToStep E (m_id m) (s_request s) (s_index s) (s_office s) outcome (m_topic m) d
      | _ \<Rightarrow> (Next (), d))"

section \<open>vetoMotion\<close>

datatype veto_result =
  Veto_vetoed | Veto_not_found | Veto_not_balloting | Veto_topic_closed | Veto_not_veto_holder

definition veto_holders_of :: "db \<Rightarrow> string \<Rightarrow> string list" where
  "veto_holders_of d bid = (case body_of d bid of None \<Rightarrow> [] | Some b \<Rightarrow> b_veto b)"

definition veto_body :: "env \<Rightarrow> string \<Rightarrow> string \<Rightarrow> (veto_result, veto_result) dtx" where
  "veto_body E motionId actorId d =
     (if \<not> pg_uuid E motionId then (Throw Pg_syntax, d)
      else case motion_of d motionId of
        None \<Rightarrow> (Abort Veto_not_found, d)
      | Some m \<Rightarrow>
          if m_status m \<noteq> Balloting then (Abort Veto_not_balloting, d)
          else if topic_status_of d (m_topic m) = Some Closed then (Abort Veto_topic_closed, d)
          else if actorId \<notin> set (veto_holders_of d (m_body m)) then (Abort Veto_not_veto_holder, d)
          else tx_then (tx_block
            [tx_write (set_motion motionId (\<lambda>x. x\<lparr>m_status := Vetoed\<rparr>)),
             emit E (ev (m_topic m) actorId ''motion.vetoed'' ''motion'' motionId
               [(''vetoed_by'', JStr actorId)]),
             apply_to_linked_step E m Out_vetoed])
            (tx_return Veto_vetoed) d)"

definition vetoMotion ::
  "env \<Rightarrow> string option \<Rightarrow> string \<Rightarrow> string \<Rightarrow> db \<Rightarrow> veto_result outcome" where
  "vetoMotion E pid motion_id actor_id =
     guarded E pid A_write (rref K_motion motion_id) (\<lambda>d.
       let motionId = trim motion_id; actorId = trim actor_id
       in if motionId = [] \<or> actorId = [] then throw BAD_REQUEST d
          else transaction (veto_body E motionId actorId) d)"

section \<open>tallyMotion\<close>

datatype tally_result =
    Tally_done motion_outcome tally "chain_result option"
  | Tally_not_found
  | Tally_not_balloting
  | Tally_balloting_open
  | Tally_topic_closed

definition tally_json :: "tally \<Rightarrow> (string \<times> json) list" where
  "tally_json t =
     [(''for'', JNum (ta_for t)), (''against'', JNum (ta_against t)), (''abstain'', JNum (ta_abstain t)),
      (''participating'', JNum (ta_participating t)), (''base'', JNum (ta_base t)),
      (''quorum'', JNum (ta_quorum t)), (''threshold'', JNum (ta_threshold t)),
      (''quorum_met'', JBool (ta_quorum_met t))]"

fun outcome_text :: "motion_outcome \<Rightarrow> string" where
  "outcome_text out = motion_status_text (outcome_status out)"

definition is_step_motion :: "motion_row \<Rightarrow> bool" where
  "is_step_motion m = startsWith ''request_step:'' (m_subject_ref m)"

text \<open>The follow-up task of a carried motion, unless the motion decides a request step.\<close>

definition motion_chain ::
  "env \<Rightarrow> motion_row \<Rightarrow> motion_outcome \<Rightarrow> string \<Rightarrow> (chain_result option, 'r) dtx" where
  "motion_chain E m outcome actor =
     (if outcome = Out_carried \<and> \<not> is_step_motion m
      then tx_bind (emitChain E ''motion.tallied'' (m_id m) actor
             (buildChainedTaskParams Src_motion (m_id m) (m_topic m) (m_subject_ref m) (m_exec m) actor))
             (\<lambda>c. tx_return (Some c))
      else tx_return None)"

text \<open>
  The count and its consequences, shared by \<open>tallyMotion\<close> (\<open>marks\<close> is empty) and the sweep of
  expired motions (\<open>marks\<close> names the automatic tally).
\<close>

definition run_tally ::
  "env \<Rightarrow> motion_row \<Rightarrow> string \<Rightarrow> (string \<times> json) list \<Rightarrow>
     (motion_outcome \<times> tally \<times> chain_result option, 'r) dtx" where
  "run_tally E m actor marks d =
     (case body_of d (m_body m) of
        None \<Rightarrow> (Throw Js_type_error, d)
      | Some b \<Rightarrow>
          (case computeMotionTally d (m_id m) (b_quorum b) (b_threshold b) of
             (outcome, tally) \<Rightarrow>
               tx_then (tx_write (set_motion (m_id m)
                          (\<lambda>x. x\<lparr>m_status := outcome_status outcome, m_tally := Some tally\<rparr>)))
               (tx_bind (motion_chain E m outcome actor) (\<lambda>chain.
                tx_then (tx_block
                  [emit E (ev (m_topic m) actor ''motion.tallied'' ''motion'' (m_id m)
                     ([(''outcome'', JStr (outcome_text outcome))] @ marks @ tally_json tally @
                      (case chain of None \<Rightarrow> [] | Some c \<Rightarrow> [(''chain'', chain_json c)]))),
                   apply_to_linked_step E m outcome])
                (tx_return (outcome, tally, chain)))) d))"

definition tally_body :: "env \<Rightarrow> string \<Rightarrow> (tally_result, tally_result) dtx" where
  "tally_body E motionId d =
     (if \<not> pg_uuid E motionId then (Throw Pg_syntax, d)
      else case motion_of d motionId of
        None \<Rightarrow> (Abort Tally_not_found, d)
      | Some m \<Rightarrow>
          if m_status m \<noteq> Balloting then (Abort Tally_not_balloting, d)
          else if pg_now E < m_deadline m then (Abort Tally_balloting_open, d)
          else if topic_status_of d (m_topic m) = Some Closed then (Abort Tally_topic_closed, d)
          else tx_bind (run_tally E m ''system:tally'' [])
                 (\<lambda>r. case r of (outcome, tally, chain) \<Rightarrow> tx_return (Tally_done outcome tally chain)) d)"

definition tallyMotion :: "env \<Rightarrow> string option \<Rightarrow> string \<Rightarrow> db \<Rightarrow> tally_result outcome" where
  "tallyMotion E pid motion_id d =
     (let motionId = trim motion_id in
      if motionId = [] then throw BAD_REQUEST d
      else guarded E pid A_write (rref K_motion motionId) (transaction (tally_body E motionId)) d)"

section \<open>getMotion and listMotions\<close>

definition ballots_of :: "db \<Rightarrow> string \<Rightarrow> vote_row list" where
  "ballots_of d mid = sort_key vt_cast_at (votes_of d mid)"

definition getMotion ::
  "env \<Rightarrow> string option \<Rightarrow> string \<Rightarrow> db \<Rightarrow> (motion_row \<times> vote_row list) option outcome" where
  "getMotion E pid motion_id =
     guarded E pid A_read (rref K_motion motion_id) (\<lambda>d.
       if \<not> pg_uuid E motion_id then (Inl Pg_syntax, d)
       else (Inr (map_option (\<lambda>m. (m, ballots_of d motion_id)) (motion_of d motion_id)), d))"

definition listMotions ::
  "env \<Rightarrow> string option \<Rightarrow> string \<Rightarrow> string option \<Rightarrow> db \<Rightarrow> (motion_row \<times> vote_row list) list outcome" where
  "listMotions E pid topic_id status =
     guarded E pid A_read (rref K_topic topic_id) (\<lambda>d.
       if topic_of d topic_id = None then throw NOT_FOUND d
       else (Inr (map (\<lambda>m. (m, ballots_of d (m_id m)))
              (sort_key m_created_at
                (filter (\<lambda>m. m_topic m = topic_id \<and>
                    (case status of None \<Rightarrow> True | Some s \<Rightarrow> s = [] \<or> motion_status_text (m_status m) = s))
                  (motions d)))), d))"

section \<open>Inside a service relation\<close>

context base_service
begin

lemma rel_vote_body: "after (\<lambda>_. R d) (vote_body E m a c p d)"
  unfolding vote_body_def
  by (auto intro!: outer_rules split: option.split)

lemma rel_castVote: "R d (snd (castVote E pid m a c p d))"
  unfolding castVote_def Let_def
  by (rule rel_guarded)
    (auto intro: rel_transaction rel_vote_body simp: throw_def split: option.split)

end

context request_service
begin

lemma rel_propose_body: "after (\<lambda>_. R d) (propose_body E t b s p mi ex d)"
  unfolding propose_body_def Let_def by (auto intro!: rules)

lemma rel_second_body: "after (\<lambda>_. R d) (second_body E m a d)"
  unfolding second_body_def
  by (auto intro!: rules simp: set_motion_def split: option.split)

lemma rel_apply_to_linked_step: "after (\<lambda>_. R d) (apply_to_linked_step E m out d)"
  unfolding apply_to_linked_step_def
  by (auto intro!: rel_applyMotionToStep split: list.split)

lemma rel_veto_body: "after (\<lambda>_. R d) (veto_body E m a d)"
  unfolding veto_body_def
  by (auto intro!: rules rel_apply_to_linked_step simp: set_motion_def split: option.split)

lemma rel_motion_chain: "after (\<lambda>_. R d) (motion_chain E m out ac d)"
  unfolding motion_chain_def by (auto intro!: rules rel_emitChain)

lemma rel_run_tally: "after (\<lambda>_. R d) (run_tally E m ac pre d)"
  unfolding run_tally_def
  by (auto intro!: rules rel_apply_to_linked_step rel_motion_chain simp: set_motion_def
      split: option.split prod.split)

lemma rel_tally_body: "after (\<lambda>_. R d) (tally_body E m d)"
  unfolding tally_body_def
  by (auto intro!: rules rel_run_tally split: option.split prod.split)

lemma rel_proposeMotion: "R d (snd (proposeMotion E pid t b s p mi ex d))"
  unfolding proposeMotion_def Let_def
  by (rule rel_guarded)
    (auto intro: rel_transaction rel_propose_body simp: throw_def split: option.split sum.split)

lemma rel_secondMotion: "R d (snd (secondMotion E pid m a d))"
  unfolding secondMotion_def Let_def by (auto intro!: rules rel_second_body)

lemma rel_vetoMotion: "R d (snd (vetoMotion E pid m a d))"
  unfolding vetoMotion_def Let_def by (auto intro!: rules rel_veto_body)

lemma rel_tallyMotion: "R d (snd (tallyMotion E pid m d))"
  unfolding tallyMotion_def Let_def by (auto intro!: rules rel_tally_body)

end

section \<open>Properties\<close>

text \<open>
  The outcome rule as a share of the votes: lapsed below the quorum of all weights cast, carried when the
  decisive votes give the threshold share to \<^verbatim>\<open>for\<close>, failed otherwise (also when nobody voted for or against).
\<close>

definition decisive :: "vote_row list \<Rightarrow> vote_row list" where
  "decisive vs = filter (\<lambda>v. vt_choice v \<noteq> Abstain) vs"

definition total_weight :: "vote_row list \<Rightarrow> rat" where
  "total_weight vs = sum_list (map vt_weight vs)"

definition share_outcome :: "vote_row list \<Rightarrow> rat \<Rightarrow> rat \<Rightarrow> motion_outcome" where
  "share_outcome vs quorum threshold =
     (if total_weight vs < quorum then Out_lapsed
      else if 0 < total_weight (decisive vs) \<and> threshold \<le> weight_for For vs / total_weight (decisive vs) then Out_carried
      else Out_failed)"

lemma weights_split: "total_weight vs = weight_for For vs + weight_for Against vs + weight_for Abstain vs"
  by (induction vs) (auto simp: total_weight_def weight_for_def algebra_simps split: vote_choice.splits,
    (metis vote_choice.exhaust)+)

lemma decisive_weight: "total_weight (decisive vs) = weight_for For vs + weight_for Against vs"
  by (induction vs) (auto simp: total_weight_def weight_for_def decisive_def algebra_simps,
    (metis vote_choice.exhaust)+)

text \<open>
  Property C33. The tally computes the outcome rule of the charter: it lapses exactly below the quorum,
  carries exactly when the share of \<^verbatim>\<open>for\<close> among the decisive votes reaches the threshold, and the
  multiplied form the SQL uses agrees with the division, also when nobody cast a decisive vote.
\<close>

theorem tally_share:
  "fst (computeMotionTally d mid quorum threshold) = share_outcome (votes_of d mid) quorum threshold"
proof -
  let ?vs = "votes_of d mid"
  have "threshold * (weight_for For ?vs + weight_for Against ?vs) \<le> weight_for For ?vs \<longleftrightarrow>
      threshold \<le> weight_for For ?vs / (weight_for For ?vs + weight_for Against ?vs)"
    if "0 < weight_for For ?vs + weight_for Against ?vs"
    using that by (simp add: pos_le_divide_eq)
  then show ?thesis
    by (auto simp: computeMotionTally_def decideOutcome_def aggregateVotes_def Let_def share_outcome_def
        decisive_weight weights_split [of ?vs] not_le)
qed

text \<open>One more ballot.\<close>

lemma weight_for_snoc: "weight_for c (vs @ [v]) = weight_for c vs + (if vt_choice v = c then vt_weight v else 0)"
  by (simp add: weight_for_def)

lemma weight_for_nonneg: "(\<forall>v \<in> set vs. 0 \<le> vt_weight v) \<Longrightarrow> 0 \<le> weight_for c vs"
  unfolding weight_for_def by (intro sum_list_nonneg) auto

text \<open>
  The tally is monotone: with weights that are not negative and a threshold in (0, 1], one more
  vote \<^verbatim>\<open>for\<close> never loses a carried motion, and one more vote \<^verbatim>\<open>against\<close> never carries a failed one.
\<close>

theorem tally_monotone:
  assumes "\<forall>v \<in> set vs. 0 \<le> vt_weight v" and "0 \<le> vt_weight b" and "0 < threshold" and "threshold \<le> 1"
  shows "(vt_choice b = For \<and> fst (decideOutcome (aggregateVotes vs quorum threshold) quorum threshold) = Out_carried \<longrightarrow>
      fst (decideOutcome (aggregateVotes (vs @ [b]) quorum threshold) quorum threshold) = Out_carried) \<and>
    (vt_choice b = Against \<and> fst (decideOutcome (aggregateVotes vs quorum threshold) quorum threshold) = Out_failed \<longrightarrow>
      fst (decideOutcome (aggregateVotes (vs @ [b]) quorum threshold) quorum threshold) = Out_failed)"
proof -
  let ?f = "weight_for For vs" and ?a = "weight_for Against vs"
  have nn: "0 \<le> ?f" "0 \<le> ?a" using assms(1) by (simp_all add: weight_for_nonneg)
  have "threshold * (?f + vt_weight b + ?a) \<le> ?f + vt_weight b" if "threshold * (?f + ?a) \<le> ?f"
  proof -
    have "threshold * vt_weight b \<le> 1 * vt_weight b" by (rule mult_right_mono) (use assms in auto)
    then show ?thesis using that by (simp add: algebra_simps)
  qed
  moreover have "\<not> (0 < ?f + (?a + vt_weight b) \<and> threshold * (?f + (?a + vt_weight b)) \<le> ?f)"
    if "\<not> (0 < ?f + ?a \<and> threshold * (?f + ?a) \<le> ?f)"
  proof
    assume new: "0 < ?f + (?a + vt_weight b) \<and> threshold * (?f + (?a + vt_weight b)) \<le> ?f"
    show False
    proof (cases "0 < ?f + ?a")
      case True
      have "0 \<le> threshold * vt_weight b" using assms by simp
      then show False using True that new by (simp add: algebra_simps)
    next
      case False
      then have "?f = 0" using nn by simp
      moreover have "0 < threshold * (?f + (?a + vt_weight b))" using new assms(3) by simp
      ultimately show False using new by simp
    qed
  qed
  ultimately show ?thesis
    using assms(2) nn
    by (auto simp: decideOutcome_def aggregateVotes_def Let_def weight_for_snoc algebra_simps split: if_splits)
qed

text \<open>Three votes of weight 1 for, one against, threshold two thirds.\<close>

definition ballot :: "string \<Rightarrow> vote_choice \<Rightarrow> rat \<Rightarrow> vote_row" where
  "ballot who c w = \<lparr>vt_motion = ''M'', vt_actor = who, vt_choice = c, vt_weight = w, vt_proxy = None, vt_cast_at = 0\<rparr>"

theorem tally_monotone_witness:
  "fst (decideOutcome (aggregateVotes ([ballot ''a'' For 2, ballot ''b'' Against 1] @ [ballot ''c'' For 1]) 1 (2 / 3)) 1 (2 / 3)) = Out_carried"
proof -
  have "fst (decideOutcome (aggregateVotes [ballot ''a'' For 2, ballot ''b'' Against 1] 1 (2 / 3)) 1 (2 / 3)) = Out_carried"
    by (simp add: decideOutcome_def aggregateVotes_def weight_for_def ballot_def)
  then show ?thesis
    using tally_monotone [of "[ballot ''a'' For 2, ballot ''b'' Against 1]" "ballot ''c'' For 1" "2 / 3" 1]
    by (simp add: ballot_def)
qed

text \<open>What a recorded ballot of \<open>ac\<close> has checked, and the one row it adds.\<close>

definition ballot_cast :: "env \<Rightarrow> db \<Rightarrow> string \<Rightarrow> string \<Rightarrow> string \<Rightarrow> db \<Rightarrow> bool" where
  "ballot_cast E d mid ac choice d' \<longleftrightarrow> (\<exists>m bm v.
     motion_of d mid = Some m \<and> m_status m = Balloting \<and> pg_now E < m_deadline m \<and>
     topic_status_of d (m_topic m) \<noteq> Some Closed \<and> member_of d (m_body m) ac = Some bm \<and>
     (\<forall>x \<in> set (votes d). vote_key x \<noteq> (mid, ac)) \<and>
     votes d' = votes d @ [v] \<and> vote_key v = (mid, ac) \<and> parse_choice choice = Some (vt_choice v) \<and>
     vt_weight v = bm_weight bm \<and> vt_proxy v \<noteq> Some ac \<and>
     (auth_enabled E \<longrightarrow> (case vt_proxy v of None \<Rightarrow> True | Some p \<Rightarrow> proxy_granted d (m_body m) ac p)))"

lemma vote_body_cast:
  assumes "parse_choice choice = Some c" and "proxy \<noteq> Some ac" and "d1 = d\<lparr>authz_decisions := l\<rparr>"
  shows "after (\<lambda>_ d'. ballot_cast E d mid ac choice d') (vote_body E mid ac c proxy d1)"
proof -
  have frame: "motion_of d1 x = motion_of d x" "topic_status_of d1 x = topic_status_of d x" "member_of d1 x y = member_of d x y"
    "proxy_granted d1 x y z = proxy_granted d x y z" "votes d1 = votes d" for x y z
    by (simp_all add: assms(3) motion_of_def topic_status_of_def topic_of_def member_of_def proxy_granted_def)
  show ?thesis
    unfolding vote_body_def frame using assms(1,2)
    by (auto simp: after_simps ballot_cast_def frame find_row_None vote_key_def logged_def assms(3) split: option.split
        intro!: after_emit simp del: tx_block.simps)
qed

lemma vote_body_refuses: "aborts (\<lambda>r. r \<noteq> Vote_recorded) (vote_body E mid ac c proxy d)"
  by (auto simp: vote_body_def aborts_simps after_simps split: option.split intro!: after_I)

text \<open>
  One member, one ballot: a vote is recorded only for a member of the body, while the motion is
  balloting, before its deadline, and when the member has no ballot on it yet; exactly one row is added, with
  the weight of the membership, and with authorization on a proxy must have been granted.
\<close>

theorem castVote_spec:
  assumes "castVote E pid mid ac choice proxy d = (Inr Vote_recorded, d')"
  shows "ballot_cast E d (trim mid) (trim ac) choice d'"
proof -
  obtain l c px where "parse_choice choice = Some c" "px \<noteq> Some (trim ac)" and
    run: "transaction (vote_body E (trim mid) (trim ac) c px) (d\<lparr>authz_decisions := l\<rparr>) = (Inr Vote_recorded, d')"
    using assms unfolding castVote_def
    by (auto simp: Let_def throw_def elim!: guarded_Inr split: if_splits option.splits)
      (metis option.distinct(1), metis option.inject)
  with committed_result [OF run vote_body_refuses _ vote_body_cast [where d = d and l = l]] show ?thesis by simp
qed

theorem castVote_spec_witness:
  "map vt_weight (votes (snd (castVote dev_env None ''M'' ''ann'' ''for'' None ballot_db))) = [3]"
proof -
  let ?run = "castVote dev_env None ''M'' ''ann'' ''for'' None ballot_db"
  have "fst ?run = Inr Vote_recorded" by code_simp
  then have run: "?run = (Inr Vote_recorded, snd ?run)" by (metis prod.collapse)
  have tr: "trim ''M'' = ''M''" "trim ''ann'' = ''ann''" by code_simp+
  show ?thesis
    using castVote_spec [OF run]
    by (auto simp: tr ballot_cast_def ballot_db_def motion_of_def member_of_def find_row_Cons empty_db_def)
qed

end
