(* ===== verification/Disputes.thy ===== *)
theory Disputes
  imports Requests
begin

text \<open>
  Disputes (services/disputes.ts): \<open>openDispute\<close> is a sequence of independent commits (the dispute
  row, the resolution request, the link, the event) with compensating deletes; \<open>resolveDispute\<close>
  waits for the resolution request to reach a terminal status.
\<close>

definition dispute_of :: "db \<Rightarrow> string \<Rightarrow> dispute_row option" where
  "dispute_of d did = find_row d_id did (disputes d)"

definition set_dispute :: "string \<Rightarrow> (dispute_row \<Rightarrow> dispute_row) \<Rightarrow> db \<Rightarrow> db" where
  "set_dispute did f d = d\<lparr>disputes := update_where (\<lambda>x. d_id x = did) f (disputes d)\<rparr>"

section \<open>openDispute\<close>

definition drop_dispute :: "string \<Rightarrow> db \<Rightarrow> db" where
  "drop_dispute did d = d\<lparr>disputes := delete_where (\<lambda>x. d_id x = did) (disputes d)\<rparr>"

definition insert_dispute ::
  "env \<Rightarrow> string \<Rightarrow> string \<Rightarrow> string list \<Rightarrow> (dispute_row, dispute_row) dtx" where
  "insert_dispute E topicId subjectRef parties =
     tx_bind (gen_uuid E) (\<lambda>did.
       let row = \<lparr>d_id = did, d_topic = topicId, d_subject_ref = subjectRef, d_parties = parties,
                  d_status = D_open, d_request = None, d_created_at = pg_now E\<rparr>
       in tx_then (insert_row d_id disputes disputes_update row) (tx_return row))"

definition dispute_opened ::
  "string \<Rightarrow> string \<Rightarrow> string \<Rightarrow> string \<Rightarrow> string list \<Rightarrow> string \<Rightarrow> event_input" where
  "dispute_opened topicId who did subjectRef parties rid =
     ev topicId who ''dispute.opened'' ''dispute'' did
       [(''subject_ref'', JStr subjectRef), (''parties'', JArr (map JStr parties)),
        (''procedure'', JStr ''unilateral''), (''resolution_request_id'', JStr rid)]"

text \<open>Steps 2 to 4; a throw of the event transaction is logged and swallowed.\<close>

definition open_resolution ::
  "env \<Rightarrow> string option \<Rightarrow> dispute_row \<Rightarrow> string \<Rightarrow> jsnum \<Rightarrow> string \<Rightarrow> db \<Rightarrow>
     (dispute_row \<times> string) outcome" where
  "open_resolution E pid dis kind weight who d =
     (case submitRequest E pid (d_topic dis) ''dispute'' (d_id dis) kind weight ''unilateral'' who None d of
        (Inl x, d1) \<Rightarrow> (Inl x, d1)
      | (Inr Sub_not_participant, d1) \<Rightarrow> throw NOT_FOUND (drop_dispute (d_id dis) d1)
      | (Inr Sub_topic_closed, d1) \<Rightarrow> throw TOPIC_NOT_ACTIVE (drop_dispute (d_id dis) d1)
      | (Inr Sub_no_route, d1) \<Rightarrow> throw BAD_REQUEST (drop_dispute (d_id dis) d1)
      | (Inr (Submitted rid route), d1) \<Rightarrow>
          let d2 = set_dispute (d_id dis) (\<lambda>x. x\<lparr>d_request := Some rid\<rparr>) d1;
              d3 = snd (transaction (emit E (dispute_opened (d_topic dis) who (d_id dis)
                          (d_subject_ref dis) (d_parties dis) rid)) d2)
          in (Inr (dis\<lparr>d_request := Some rid\<rparr>, rid), d3))"

definition openDispute ::
  "env \<Rightarrow> string option \<Rightarrow> string \<Rightarrow> string \<Rightarrow> string list \<Rightarrow> string \<Rightarrow> string \<Rightarrow> string option \<Rightarrow>
     jsnum option \<Rightarrow> db \<Rightarrow> (dispute_row \<times> string) outcome" where
  "openDispute E pid topic_id subject_ref parties procedure submitted_by kind weight d0 =
     (let topicId = trim topic_id; subjectRef = trim subject_ref; submittedBy = trim submitted_by;
          ki = trim (or_else kind ''dispute_resolution''); w = or_else weight (Fin 1)
      in if topicId = [] \<or> subjectRef = [] \<or> submittedBy = [] then throw BAD_REQUEST d0
         else if length parties < 2 then throw BAD_REQUEST d0
         else if parse_procedure (trim procedure) \<noteq> Some Unilateral then throw BAD_REQUEST d0
         else guarded E pid A_write (rref K_topic topicId) (\<lambda>d.
           case topic_of d topicId of
             None \<Rightarrow> throw NOT_FOUND d
           | Some t \<Rightarrow>
               if t_status t \<noteq> Active then throw TOPIC_NOT_ACTIVE d
               else (case transaction (insert_dispute E topicId subjectRef parties) d of
                   (Inl x, d1) \<Rightarrow> (Inl x, d1)
                 | (Inr dis, d1) \<Rightarrow> open_resolution E pid dis ki w submittedBy d1)) d0)"

section \<open>resolveDispute\<close>

definition TERMINAL_REQUEST_STATUSES :: "request_status list" where
  "TERMINAL_REQUEST_STATUSES = [Approved, Returned, Rejected]"

definition resolve_body :: "env \<Rightarrow> string \<Rightarrow> (dispute_row, dispute_row) dtx" where
  "resolve_body E disputeId d =
     (if \<not> pg_uuid E disputeId then (Throw Pg_syntax, d)
      else case dispute_of d disputeId of
        None \<Rightarrow> (Throw (Hub NOT_FOUND), d)
      | Some dis \<Rightarrow>
          if d_status dis = Resolved then (Throw (Hub ALREADY_RESOLVED), d)
          else (case d_request dis of
            None \<Rightarrow> (Throw (Hub RESOLUTION_PENDING), d)
          | Some rid \<Rightarrow>
              (case request_of d rid of
                 None \<Rightarrow> (Throw (Hub NOT_FOUND), d)
               | Some r \<Rightarrow>
                   if r_status r \<notin> set TERMINAL_REQUEST_STATUSES
                   then (Throw (Hub RESOLUTION_PENDING), d)
                   else tx_then (tx_block
                     [tx_write (set_dispute disputeId (\<lambda>x. x\<lparr>d_status := Resolved\<rparr>)),
                      emit E (ev (d_topic dis)
                        (case d_parties dis of [] \<Rightarrow> ''system:resolve'' | p # _ \<Rightarrow> p)
                        ''dispute.resolved'' ''dispute'' disputeId
                        [(''resolution_request_id'', JStr rid),
                         (''request_status'', JStr (request_status_text (r_status r)))])])
                   (tx_return (dis\<lparr>d_status := Resolved\<rparr>)) d)))"

definition resolveDispute :: "env \<Rightarrow> string option \<Rightarrow> string \<Rightarrow> db \<Rightarrow> dispute_row outcome" where
  "resolveDispute E pid dispute_id d =
     (let disputeId = trim dispute_id in
      if disputeId = [] then throw BAD_REQUEST d
      else guarded E pid A_write (rref K_dispute disputeId) (transaction (resolve_body E disputeId)) d)"

section \<open>getDispute and listDisputes\<close>

definition getDispute ::
  "env \<Rightarrow> string option \<Rightarrow> string \<Rightarrow> db \<Rightarrow>
     (dispute_row \<times> (request_row \<times> step_row list) option) outcome" where
  "getDispute E pid dispute_id d0 =
     (let disputeId = trim dispute_id in
      if disputeId = [] then throw BAD_REQUEST d0
      else guarded E pid A_read (rref K_dispute disputeId) (\<lambda>d.
        if \<not> pg_uuid E disputeId then (Inl Pg_syntax, d)
        else case dispute_of d disputeId of
          None \<Rightarrow> throw NOT_FOUND d
        | Some dis \<Rightarrow>
            (Inr (dis, Option.bind (d_request dis) (\<lambda>rid.
                         map_option (\<lambda>r. (r, steps_of d rid)) (request_of d rid))), d)) d0)"

fun dispute_status_text :: "dispute_status \<Rightarrow> string" where
  "dispute_status_text D_open = ''open''"
| "dispute_status_text Under_resolution = ''under_resolution''"
| "dispute_status_text Resolved = ''resolved''"

text \<open>The limit is at most 200; limits and offsets are natural numbers here.\<close>

definition page :: "nat option \<Rightarrow> nat option \<Rightarrow> 'a list \<Rightarrow> 'a list" where
  "page lmt offset xs = take (min (or_else lmt 50) 200) (drop (or_else offset 0) xs)"

definition listDisputes ::
  "env \<Rightarrow> string option \<Rightarrow> string \<Rightarrow> string option \<Rightarrow> nat option \<Rightarrow> nat option \<Rightarrow> db \<Rightarrow>
     (dispute_row list \<times> nat) outcome" where
  "listDisputes E pid topic_id status lmt offset d0 =
     (let topicId = trim topic_id in
      if topicId = [] then throw BAD_REQUEST d0
      else guarded E pid A_read (rref K_topic topicId) (\<lambda>d.
        let rows = sort_key (\<lambda>x. - d_created_at x) (filter (\<lambda>x. d_topic x = topicId \<and>
              (case status of None \<Rightarrow> True | Some s \<Rightarrow> s = [] \<or> dispute_status_text (d_status x) = s))
              (disputes d))
        in (Inr (page lmt offset rows, length rows), d)) d0)"

section \<open>Inside a service relation\<close>

context submit_service
begin

lemma rel_insert_dispute: "after (\<lambda>_. R d) (insert_dispute E t s p d)"
  unfolding insert_dispute_def Let_def by (auto intro!: outer_rules)

lemma rel_resolve_body: "after (\<lambda>_. R d) (resolve_body E did d)"
  unfolding resolve_body_def
  by (auto intro!: outer_rules simp: set_dispute_def split: option.split)

lemma rel_resolveDispute: "R d (snd (resolveDispute E pid did d))"
  unfolding resolveDispute_def Let_def by (auto intro!: outer_rules rel_resolve_body)

lemma rel_open_resolution: "R d (snd (open_resolution E pid dis k w who d))"
proof -
  obtain r d1 where s: "submitRequest E pid (d_topic dis) ''dispute'' (d_id dis) k w ''unilateral''
      who None d = (r, d1)" by force
  then have e: "R d d1" by (metis snd_conv rel_submits)
  have drop: "R d (drop_dispute (d_id dis) d1)"
    using e by (rule rel_trans) (simp add: drop_dispute_def rel_outer)
  have link: "R d (set_dispute x f d1)" for x f
    using e by (rule rel_trans) (simp add: set_dispute_def rel_outer)
  have "R d (snd (transaction (emit E e1) (set_dispute x f d1)))" for e1 x f
    using link by (rule rel_trans) (rule rel_transaction [OF rel_emit])
  with s e drop show ?thesis
    unfolding open_resolution_def by (auto simp: Let_def split: sum.split submit_result.split)
qed

lemma rel_openDispute: "R d (snd (openDispute E pid t s p pr who k w d))"
proof -
  have "R d' (snd (case transaction (insert_dispute E (trim t) (trim s) p) d' of
      (Inl x, d1) \<Rightarrow> (Inl x, d1)
    | (Inr dis, d1) \<Rightarrow> open_resolution E pid dis ki w' u d1))" for d' ki w' u
  proof -
    have "R d' (snd (transaction (insert_dispute E (trim t) (trim s) p) d'))"
      by (rule rel_transaction [OF rel_insert_dispute])
    then show ?thesis
      using rel_open_resolution by (auto intro: rel_trans split: prod.split sum.split)
  qed
  then show ?thesis
    unfolding openDispute_def Let_def
    by (auto intro!: rel_guarded split: option.split)
qed

end

end
