(* ===== verification/Intake.thy ===== *)
theory Intake
  imports Disputes
begin

text \<open>
  Intake items (services/intake.ts): received, then triaged (linked to a task, a request or a motion,
  or turned into a dispute) or dismissed.
\<close>

definition intake_of :: "db \<Rightarrow> string \<Rightarrow> intake_row option" where
  "intake_of d iid = find_row i_id iid (intake_items d)"

definition VALID_KINDS :: "string list" where
  "VALID_KINDS = [''violation_report'', ''suggestion'', ''request'']"

definition MAX_BODY_LEN :: nat where
  "MAX_BODY_LEN = 16384"

fun intake_status_text :: "intake_status \<Rightarrow> string" where
  "intake_status_text Received = ''received''"
| "intake_status_text Triaged = ''triaged''"
| "intake_status_text Dismissed = ''dismissed''"

section \<open>submitIntake\<close>

definition submit_intake_body ::
  "env \<Rightarrow> string \<Rightarrow> string option \<Rightarrow> string \<Rightarrow> string \<Rightarrow> string \<Rightarrow> (intake_row, intake_row) dtx" where
  "submit_intake_body E projectId topicId kind body who =
     tx_bind (gen_uuid E) (\<lambda>iid.
       let row = \<lparr>i_id = iid, i_project = projectId, i_topic = topicId, i_kind = kind, i_body = body,
                  i_submitted_by = who, i_status = Received, i_routed_to = None,
                  i_created_at = pg_now E\<rparr>
       in tx_then (tx_block
            [insert_row i_id intake_items intake_items_update row,
             (if trim_opt topicId \<noteq> []
              then emit E (ev (trim_opt topicId) who ''intake.received'' ''intake'' iid
                     [(''project_id'', JStr projectId), (''kind'', JStr kind), (''submitted_by'', JStr who)])
              else tx_return ())])
          (tx_return row))"

definition submitIntake ::
  "env \<Rightarrow> string option \<Rightarrow> string \<Rightarrow> string option \<Rightarrow> string \<Rightarrow> string \<Rightarrow> string \<Rightarrow> db \<Rightarrow>
     intake_row outcome" where
  "submitIntake E pid project_id topic_id kind body submitted_by d0 =
     (let projectId = trim project_id; ki = trim kind; bo = trim body; who = trim submitted_by;
          topicId = (case topic_id of None \<Rightarrow> None | Some s \<Rightarrow> if s = [] then None else Some (trim s))
      in if projectId = [] \<or> ki = [] \<or> bo = [] \<or> who = [] then throw BAD_REQUEST d0
         else guarded E pid A_write (rref K_project projectId) (\<lambda>d.
           if ki \<notin> set VALID_KINDS then throw BAD_REQUEST d
           else if MAX_BODY_LEN < length bo then throw BAD_REQUEST d
           else if projectId \<notin> set (projects d) then throw NOT_FOUND d
           else if trim_opt topicId \<noteq> [] \<and> topic_of d (trim_opt topicId) = None
           then throw NOT_FOUND d
           else if trim_opt topicId \<noteq> [] \<and> topic_status_of d (trim_opt topicId) \<noteq> Some Active
           then throw TOPIC_NOT_ACTIVE d
           else transaction (submit_intake_body E projectId topicId ki bo who) d) d0)"

section \<open>triageIntake\<close>

datatype link_kind = L_task | L_request | L_motion

fun link_text :: "link_kind \<Rightarrow> string" where
  "link_text L_task = ''task''"
| "link_text L_request = ''request''"
| "link_text L_motion = ''motion''"

datatype triage_route =
    Link link_kind string
  | To_dispute string "string list" string string "string option" "jsnum option"
    \<comment> \<open>subject_ref, parties, procedure, submitted_by, kind, weight\<close>

record triage_result =
  tg_intake :: string
  tg_routed_to :: string
  tg_dispute :: "(string \<times> string) option"

fun route_text :: "triage_route \<Rightarrow> string" where
  "route_text (Link k r) = link_text k"
| "route_text (To_dispute s p pr w k we) = ''dispute''"

definition already :: "intake_row \<Rightarrow> exn option" where
  "already i = (case i_status i of
     Received \<Rightarrow> None
   | Triaged \<Rightarrow> Some (Hub INTAKE_ALREADY_TRIAGED)
   | Dismissed \<Rightarrow> Some (Hub INTAKE_ALREADY_DISMISSED))"

text \<open>Where the item goes: the link target, or a dispute opened on a connection of its own.\<close>

definition route_target ::
  "env \<Rightarrow> string option \<Rightarrow> string \<Rightarrow> triage_route \<Rightarrow> db \<Rightarrow> (string \<times> (string \<times> string) option) outcome"
  where
  "route_target E pid topicId route d = (case route of
     Link k routed_to \<Rightarrow>
       if trim routed_to = [] then throw BAD_REQUEST d else (Inr (trim routed_to, None), d)
   | To_dispute subject_ref parties procedure who kind weight \<Rightarrow>
       (case openDispute E pid topicId subject_ref parties procedure who kind weight d of
          (Inl x, d') \<Rightarrow> (Inl x, d')
        | (Inr (dis, rid), d') \<Rightarrow> (Inr (d_id dis, Some (d_id dis, rid)), d')))"

definition triage_writes ::
  "env \<Rightarrow> string \<Rightarrow> string \<Rightarrow> string \<Rightarrow> triage_route \<Rightarrow> string \<Rightarrow> (string \<times> string) option \<Rightarrow>
     (triage_result, triage_result) dtx" where
  "triage_writes E intakeId topicId actorId route routedTo dis =
     tx_then (tx_block
       [tx_write (\<lambda>x. x\<lparr>intake_items := update_where (\<lambda>i. i_id i = intakeId)
          (\<lambda>i. i\<lparr>i_status := Triaged, i_topic := Some topicId, i_routed_to := Some routedTo\<rparr>)
          (intake_items x)\<rparr>),
        emit E (ev topicId actorId ''intake.triaged'' ''intake'' intakeId
          ([(''route_kind'', JStr (route_text route)), (''routed_to'', JStr routedTo)] @
           (case dis of None \<Rightarrow> [] | Some (x, _) \<Rightarrow> [(''dispute_id'', JStr x)])))])
     (tx_return \<lparr>tg_intake = intakeId, tg_routed_to = routedTo, tg_dispute = dis\<rparr>)"

text \<open>
  The locked part. The row lock is held while \<open>openDispute\<close> runs, so its commits come before the
  item's own transaction and survive a rollback of it.
\<close>

definition triage_locked ::
  "env \<Rightarrow> string option \<Rightarrow> string \<Rightarrow> string \<Rightarrow> string \<Rightarrow> triage_route \<Rightarrow> db \<Rightarrow> triage_result outcome" where
  "triage_locked E pid intakeId topicId actorId route d =
     (if \<not> pg_uuid E intakeId then (Inl Pg_syntax, d)
      else case intake_of d intakeId of
        None \<Rightarrow> throw NOT_FOUND d
      | Some i \<Rightarrow>
          (case already i of
             Some x \<Rightarrow> (Inl x, d)
           | None \<Rightarrow>
               (case route_target E pid topicId route d of
                  (Inl x, d') \<Rightarrow> (Inl x, d')
                | (Inr (routedTo, dis), d') \<Rightarrow>
                    transaction (triage_writes E intakeId topicId actorId route routedTo dis) d')))"

definition triageIntake ::
  "env \<Rightarrow> string option \<Rightarrow> string \<Rightarrow> string \<Rightarrow> string \<Rightarrow> triage_route \<Rightarrow> db \<Rightarrow> triage_result outcome" where
  "triageIntake E pid intake_id topic_id actor_id route d0 =
     (let intakeId = trim intake_id; topicId = trim topic_id; actorId = trim actor_id
      in if intakeId = [] \<or> topicId = [] \<or> actorId = [] then throw BAD_REQUEST d0
         else guarded E pid A_write (rref K_intake intakeId)
           (guarded E pid A_write (rref K_topic topicId) (\<lambda>d.
             case topic_of d topicId of
               None \<Rightarrow> throw NOT_FOUND d
             | Some t \<Rightarrow>
                 if t_status t \<noteq> Active then throw TOPIC_NOT_ACTIVE d
                 else triage_locked E pid intakeId topicId actorId route d)) d0)"

section \<open>dismissIntake, getIntake, listIntake\<close>

definition dismiss_row :: "string \<Rightarrow> db \<Rightarrow> db" where
  "dismiss_row iid d = d\<lparr>intake_items :=
     update_where (\<lambda>i. i_id i = iid \<and> i_status i = Received) (\<lambda>i. i\<lparr>i_status := Dismissed\<rparr>)
       (intake_items d)\<rparr>"

definition dismissIntake :: "env \<Rightarrow> string option \<Rightarrow> string \<Rightarrow> db \<Rightarrow> intake_row outcome" where
  "dismissIntake E pid intake_id d0 =
     (let intakeId = trim intake_id in
      if intakeId = [] then throw BAD_REQUEST d0
      else guarded E pid A_write (rref K_intake intakeId) (\<lambda>d.
        if \<not> pg_uuid E intakeId then (Inl Pg_syntax, d)
        else case intake_of d intakeId of
          None \<Rightarrow> throw NOT_FOUND d
        | Some i \<Rightarrow>
            (case already i of
               Some x \<Rightarrow> (Inl x, d)
             | None \<Rightarrow> (Inr (i\<lparr>i_status := Dismissed\<rparr>), dismiss_row intakeId d))) d0)"

definition getIntake :: "env \<Rightarrow> string option \<Rightarrow> string \<Rightarrow> db \<Rightarrow> intake_row outcome" where
  "getIntake E pid intake_id d0 =
     (let intakeId = trim intake_id in
      if intakeId = [] then throw BAD_REQUEST d0
      else guarded E pid A_read (rref K_intake intakeId) (\<lambda>d.
        if \<not> pg_uuid E intakeId then (Inl Pg_syntax, d)
        else case intake_of d intakeId of None \<Rightarrow> throw NOT_FOUND d | Some i \<Rightarrow> (Inr i, d)) d0)"

definition listIntake ::
  "env \<Rightarrow> string option \<Rightarrow> string \<Rightarrow> string option \<Rightarrow> string option \<Rightarrow> nat option \<Rightarrow> nat option \<Rightarrow>
     db \<Rightarrow> (intake_row list \<times> nat) outcome" where
  "listIntake E pid project_id kind status lmt offset d0 =
     (let projectId = trim project_id in
      if projectId = [] then throw BAD_REQUEST d0
      else guarded E pid A_read (rref K_project projectId) (\<lambda>d.
        let rows = sort_key (\<lambda>x. - i_created_at x) (filter (\<lambda>x. i_project x = projectId \<and>
              (case kind of None \<Rightarrow> True | Some k \<Rightarrow> k = [] \<or> i_kind x = k) \<and>
              (case status of None \<Rightarrow> True | Some s \<Rightarrow> s = [] \<or> intake_status_text (i_status x) = s))
              (intake_items d))
        in (Inr (page lmt offset rows, length rows), d)) d0)"

section \<open>Inside a service relation\<close>

context submit_service
begin

lemma rel_submit_intake_body: "after (\<lambda>_. R d) (submit_intake_body E p t k b w d)"
  unfolding submit_intake_body_def Let_def by (auto intro!: outer_rules)

lemma rel_submitIntake: "R d (snd (submitIntake E pid p t k b w d))"
  unfolding submitIntake_def Let_def
  by (auto intro!: outer_rules rel_submit_intake_body)

lemma rel_route_target: "R d (snd (route_target E pid t route d))"
  unfolding route_target_def
  using rel_openDispute by (auto split: triage_route.split prod.split sum.split) (metis snd_conv)+

lemma rel_triage_writes: "after (\<lambda>_. R d) (triage_writes E i t a route r dis d)"
  unfolding triage_writes_def by (auto intro!: outer_rules)

lemma rel_triage_locked: "R d (snd (triage_locked E pid i t a route d))"
proof -
  have "R d' (snd (transaction (triage_writes E i t a route r dis) d'))" for d' r dis
    by (rule rel_transaction [OF rel_triage_writes])
  moreover have "R d (snd (route_target E pid t route d))" by (rule rel_route_target)
  ultimately show ?thesis
    unfolding triage_locked_def
    by (auto intro: rel_trans split: option.split prod.split sum.split)
qed

lemma rel_triageIntake: "R d (snd (triageIntake E pid i t a route d))"
  unfolding triageIntake_def Let_def
  by (auto intro!: rel_guarded rel_triage_locked split: option.split)

lemma rel_dismissIntake: "R d (snd (dismissIntake E pid i d))"
  unfolding dismissIntake_def Let_def
  by (auto intro!: rel_guarded simp: dismiss_row_def rel_outer split: option.split)

end

end
