(* ===== verification/Closing.thy ===== *)
theory Closing
  imports Board Motions Intake
begin

text \<open>
  \<open>closeTopic\<close> (services/topics.ts): phase 1 freezes the topic (\<open>closing\<close>), phase 2 drains what is
  in flight (claims, requests, motions, disputes, intake items), one transaction per item, phase 3
  seals it (\<open>closed\<close>). Re-entry on a \<open>closing\<close> topic runs phases 2 and 3 again; a \<open>closed\<close> topic is
  reported as already closed.
\<close>

record lapsed_counts =
  lc_claims :: nat
  lc_requests :: nat
  lc_motions :: nat
  lc_disputes :: nat
  lc_intake :: nat

definition ZERO :: lapsed_counts where
  "ZERO = \<lparr>lc_claims = 0, lc_requests = 0, lc_motions = 0, lc_disputes = 0, lc_intake = 0\<rparr>"

record close_result =
  cl_already :: bool
  cl_lapsed :: lapsed_counts

section \<open>Phase 1: freeze\<close>

text \<open>\<open>True\<close>: go on with phase 2; \<open>False\<close>: already closed.\<close>

definition close_phase1 :: "env \<Rightarrow> string \<Rightarrow> string \<Rightarrow> (bool, bool) dtx" where
  "close_phase1 E topicId actorId d =
     (case topic_status_of d topicId of
        None \<Rightarrow> (Throw (Hub NOT_FOUND), d)
      | Some s \<Rightarrow>
          if s = Closed then (Abort False, d)
          else if s = Active \<or> s = Chartered
          then tx_then (tx_block
                 [tx_write (set_status topicId (\<lambda>_. True) Closing),
                  emit E (ev topicId actorId ''topic.closing'' ''topic'' topicId [])])
               (tx_return True) d
          else (Next True, d))"

section \<open>Phase 2: drain\<close>

definition drain_claim :: "env \<Rightarrow> string \<Rightarrow> string \<Rightarrow> claim_row \<Rightarrow> (bool, bool) dtx" where
  "drain_claim E topicId actorId c d =
     (if \<not> exists_where (\<lambda>x. c_id x = c_id c) (claims d) then (Abort False, d)
      else tx_then (tx_block
        [tx_write (drop_claim c (\<lambda>k. k\<lparr>tk_status := Abandoned\<rparr>) (c_task c)),
         emit E (ev topicId actorId ''claim.force_lapsed'' ''task'' (c_task c)
           [(''task_id'', JStr (c_task c)), (''actor_id'', JStr (c_actor c))])])
        (tx_return True) d)"

definition pending_steps :: "db \<Rightarrow> string \<Rightarrow> step_row list" where
  "pending_steps d rid = filter (\<lambda>s. s_request s = rid \<and> s_status s = S_pending) (steps d)"

text \<open>The two updates: pending steps, then the request, each guarded by its status.\<close>

definition reject_rows :: "string \<Rightarrow> db \<Rightarrow> db" where
  "reject_rows rid d =
     d\<lparr>steps := update_where (\<lambda>s. s_request s = rid \<and> s_status s = S_pending)
                  (\<lambda>s. s\<lparr>s_status := S_rejected\<rparr>) (steps d),
       requests := update_where (\<lambda>r. r_id r = rid \<and> r_status r = Open)
                  (\<lambda>r. r\<lparr>r_status := Rejected\<rparr>) (requests d)\<rparr>"

definition drain_request :: "env \<Rightarrow> string \<Rightarrow> string \<Rightarrow> request_row \<Rightarrow> (bool, bool) dtx" where
  "drain_request E topicId actorId r d =
     (if \<not> exists_where (\<lambda>x. r_id x = r_id r \<and> r_status x = Open) (requests d) then (Abort False, d)
      else tx_then (tx_block
        [tx_write (reject_rows (r_id r)),
         emit E (ev topicId actorId ''request.force_closed'' ''request'' (r_id r)
           [(''request_id'', JStr (r_id r)), (''steps_rejected'', jnat (length (pending_steps d (r_id r))))])])
        (tx_return True) d)"

definition in_flight :: "motion_status \<Rightarrow> bool" where
  "in_flight s = (s \<in> {Proposed, Seconded, Balloting})"

definition drain_motion :: "env \<Rightarrow> string \<Rightarrow> string \<Rightarrow> motion_row \<Rightarrow> (bool, bool) dtx" where
  "drain_motion E topicId actorId m d =
     (if \<not> exists_where (\<lambda>x. m_id x = m_id m \<and> in_flight (m_status x)) (motions d) then (Abort False, d)
      else tx_then (tx_block
        [tx_write (\<lambda>x. x\<lparr>motions := update_where (\<lambda>y. m_id y = m_id m \<and> in_flight (m_status y))
                         (\<lambda>y. y\<lparr>m_status := Lapsed\<rparr>) (motions x)\<rparr>),
         emit E (ev topicId actorId ''motion.force_lapsed'' ''motion'' (m_id m)
           [(''motion_id'', JStr (m_id m)), (''prior_status'', JStr (motion_status_text (m_status m)))])])
        (tx_return True) d)"

definition drain_dispute :: "env \<Rightarrow> string \<Rightarrow> string \<Rightarrow> dispute_row \<Rightarrow> (bool, bool) dtx" where
  "drain_dispute E topicId actorId dis d =
     (if \<not> exists_where (\<lambda>x. d_id x = d_id dis \<and> d_status x = D_open) (disputes d) then (Abort False, d)
      else tx_then (tx_block
        [tx_write (\<lambda>x. x\<lparr>disputes := update_where (\<lambda>y. d_id y = d_id dis \<and> d_status y = D_open)
                         (\<lambda>y. y\<lparr>d_status := Resolved\<rparr>) (disputes x)\<rparr>),
         emit E (ev topicId actorId ''dispute.force_closed'' ''dispute'' (d_id dis)
           [(''dispute_id'', JStr (d_id dis)), (''force_closed'', JBool True)])])
        (tx_return True) d)"

definition drain_intake :: "env \<Rightarrow> string \<Rightarrow> string \<Rightarrow> intake_row \<Rightarrow> (bool, bool) dtx" where
  "drain_intake E topicId actorId i d =
     (if \<not> exists_where (\<lambda>x. i_id x = i_id i \<and> i_status x = Received) (intake_items d) then (Abort False, d)
      else tx_then (tx_block
        [tx_write (dismiss_row (i_id i)),
         emit E (ev topicId actorId ''intake.force_dismissed'' ''intake'' (i_id i)
           [(''intake_id'', JStr (i_id i))])])
        (tx_return True) d)"

text \<open>The scans: what is in flight on the topic when each pass starts.\<close>

definition scan_claims :: "db \<Rightarrow> string \<Rightarrow> claim_row list" where
  "scan_claims d tid = filter (\<lambda>c. c_topic c = tid) (claims d)"

definition scan_requests :: "db \<Rightarrow> string \<Rightarrow> request_row list" where
  "scan_requests d tid = filter (\<lambda>r. r_topic r = tid \<and> r_status r = Open) (requests d)"

definition scan_motions :: "db \<Rightarrow> string \<Rightarrow> motion_row list" where
  "scan_motions d tid = filter (\<lambda>m. m_topic m = tid \<and> in_flight (m_status m)) (motions d)"

definition scan_disputes :: "db \<Rightarrow> string \<Rightarrow> dispute_row list" where
  "scan_disputes d tid = filter (\<lambda>x. d_topic x = tid \<and> d_status x = D_open) (disputes d)"

definition scan_intake :: "db \<Rightarrow> string \<Rightarrow> intake_row list" where
  "scan_intake d tid = filter (\<lambda>i. i_topic i = Some tid \<and> i_status i = Received) (intake_items d)"

definition close_phase2 :: "env \<Rightarrow> string \<Rightarrow> string \<Rightarrow> db \<Rightarrow> lapsed_counts \<times> db" where
  "close_phase2 E tid actor d0 =
     (let (nc, d1) = each_item (drain_claim E tid actor) (scan_claims d0 tid) d0;
          (nr, d2) = each_item (drain_request E tid actor) (scan_requests d1 tid) d1;
          (nm, d3) = each_item (drain_motion E tid actor) (scan_motions d2 tid) d2;
          (nd, d4) = each_item (drain_dispute E tid actor) (scan_disputes d3 tid) d3;
          (ni, d5) = each_item (drain_intake E tid actor) (scan_intake d4 tid) d4
      in (\<lparr>lc_claims = nc, lc_requests = nr, lc_motions = nm, lc_disputes = nd, lc_intake = ni\<rparr>, d5))"

section \<open>Phase 3: seal\<close>

definition close_phase3 :: "env \<Rightarrow> string \<Rightarrow> string \<Rightarrow> (unit, unit) dtx" where
  "close_phase3 E topicId actorId = tx_block
     [emit E (ev topicId actorId ''topic.closed'' ''topic'' topicId []),
      tx_write (set_status topicId (\<lambda>_. True) Closed)]"

definition closeTopic ::
  "env \<Rightarrow> string option \<Rightarrow> string \<Rightarrow> string \<Rightarrow> db \<Rightarrow> close_result outcome" where
  "closeTopic E pid topic_id actor_id =
     guarded E pid A_admin (rref K_topic (trim topic_id)) (\<lambda>d.
       let topicId = trim topic_id; actorId = trim actor_id
       in if topicId = [] \<or> actorId = [] then throw BAD_REQUEST d
          else case transaction (close_phase1 E topicId actorId) d of
            (Inl x, d1) \<Rightarrow> (Inl x, d1)
          | (Inr False, d1) \<Rightarrow> (Inr \<lparr>cl_already = True, cl_lapsed = ZERO\<rparr>, d1)
          | (Inr True, d1) \<Rightarrow>
              (case close_phase2 E topicId actorId d1 of
                 (counts, d2) \<Rightarrow>
                   (case transaction (close_phase3 E topicId actorId) d2 of
                      (Inl x, d3) \<Rightarrow> (Inl x, d3)
                    | (Inr _, d3) \<Rightarrow> (Inr \<lparr>cl_already = False, cl_lapsed = counts\<rparr>, d3))))"

section \<open>The topics and the log\<close>

lemma step_set_closed: "after (\<lambda>_. topic_step d) (tx_write (set_status tid P Closed) d)"
  by (simp add: after_write set_status_step)

lemma step_set_closing:
  "topic_status_of d tid \<in> {Some Active, Some Chartered} \<Longrightarrow>
    after (\<lambda>_. topic_step d) (tx_write (set_status tid P Closing) d)"
  by (auto simp: after_write topic_status_of_def less_eq_topic_status_def intro!: set_status_step)

lemma close_phase1_step: "after (\<lambda>_. topic_step d) (close_phase1 E tid ac d)"
  unfolding close_phase1_def
  by (auto intro!: topic.rules step_set_closing simp: less_eq_topic_status_def
      split: option.split)

lemma close_phase3_step: "after (\<lambda>_. topic_step d) (close_phase3 E tid ac d)"
  unfolding close_phase3_def by (auto intro!: topic.rules step_set_closed)

lemma drain_claim_log: "after (\<lambda>_. log_ext d) (drain_claim E tid ac c d)"
  unfolding drain_claim_def
  by (auto intro!: log.rel_rules log.rel_emit log.rel_write_step log_ext_same simp: drop_claim_def)

text \<open>The five passes in a row.\<close>

lemma close_phase2_run:
  obtains nc d1 nr d2 nm d3 nd d4 ni d5 where
    "each_item (drain_claim E tid ac) (scan_claims d tid) d = (nc, d1)"
    "each_item (drain_request E tid ac) (scan_requests d1 tid) d1 = (nr, d2)"
    "each_item (drain_motion E tid ac) (scan_motions d2 tid) d2 = (nm, d3)"
    "each_item (drain_dispute E tid ac) (scan_disputes d3 tid) d3 = (nd, d4)"
    "each_item (drain_intake E tid ac) (scan_intake d4 tid) d4 = (ni, d5)"
    "close_phase2 E tid ac d =
       (\<lparr>lc_claims = nc, lc_requests = nr, lc_motions = nm, lc_disputes = nd, lc_intake = ni\<rparr>, d5)"
  unfolding close_phase2_def by (force split: prod.split)

context log_service
begin

lemma rel_drain_request: "after (\<lambda>_. R d) (drain_request E tid ac r d)"
  unfolding drain_request_def by (auto intro!: rules simp: reject_rows_def)

lemma rel_drain_motion: "after (\<lambda>_. R d) (drain_motion E tid ac m d)"
  unfolding drain_motion_def by (auto intro!: rules)

end

context base_service
begin

lemma rel_drain_dispute: "after (\<lambda>_. R d) (drain_dispute E tid ac x d)"
  unfolding drain_dispute_def by (auto intro!: outer_rules)

lemma rel_drain_intake: "after (\<lambda>_. R d) (drain_intake E tid ac i d)"
  unfolding drain_intake_def by (auto intro!: outer_rules simp: dismiss_row_def)

text \<open>Phase 2, once its first three passes are known to stay within the relation.\<close>

lemma rel_phase2:
  assumes claims: "R d (snd (each_item (drain_claim E tid ac) (scan_claims d tid) d))"
    and requests: "\<And>r d. after (\<lambda>_. R d) (drain_request E tid ac r d)"
    and motions: "\<And>m d. after (\<lambda>_. R d) (drain_motion E tid ac m d)"
  shows "R d (snd (close_phase2 E tid ac d))"
proof (rule close_phase2_run [of E tid ac d])
  fix nc d1 nr d2 nm d3 nd d4 ni d5
  assume "each_item (drain_claim E tid ac) (scan_claims d tid) d = (nc, d1)"
    and "each_item (drain_request E tid ac) (scan_requests d1 tid) d1 = (nr, d2)"
    "each_item (drain_motion E tid ac) (scan_motions d2 tid) d2 = (nm, d3)"
    "each_item (drain_dispute E tid ac) (scan_disputes d3 tid) d3 = (nd, d4)"
    "each_item (drain_intake E tid ac) (scan_intake d4 tid) d4 = (ni, d5)"
  then have "R d d1" "R d1 d2" "R d2 d3" "R d3 d4" "R d4 d5"
    using claims
    by (auto elim!: rel_each_item_eq [rotated] intro: requests motions rel_drain_dispute rel_drain_intake)
  then have "R d d5" by (blast intro: rel_trans)
  moreover assume "close_phase2 E tid ac d =
       (\<lparr>lc_claims = nc, lc_requests = nr, lc_motions = nm, lc_disputes = nd, lc_intake = ni\<rparr>, d5)"
  ultimately show ?thesis by simp
qed

end

text \<open>The three phases in a row.\<close>

context effect
begin

lemma rel_closeTopic:
  assumes "\<And>d t a. R d (snd (transaction (close_phase1 E t a) d))"
    and "\<And>d t a. R d (snd (close_phase2 E t a d))"
    and "\<And>d t a. R d (snd (transaction (close_phase3 E t a) d))"
  shows "R d (snd (closeTopic E pid tid ac d))"
proof -
  have "R d (snd (case transaction (close_phase1 E t a) d of
      (Inl x, d1) \<Rightarrow> (Inl x, d1)
    | (Inr False, d1) \<Rightarrow> (Inr \<lparr>cl_already = True, cl_lapsed = ZERO\<rparr>, d1)
    | (Inr True, d1) \<Rightarrow> (case close_phase2 E t a d1 of (counts, d2) \<Rightarrow>
        (case transaction (close_phase3 E t a) d2 of
           (Inl x, d3) \<Rightarrow> (Inl x, d3)
         | (Inr _, d3) \<Rightarrow> (Inr \<lparr>cl_already = False, cl_lapsed = counts\<rparr>, d3)))))" for d t a
  proof -
    obtain r d1 where 1: "transaction (close_phase1 E t a) d = (r, d1)" by force
    obtain c d2 where 2: "close_phase2 E t a d1 = (c, d2)" by force
    obtain q d3 where 3: "transaction (close_phase3 E t a) d2 = (q, d3)" by force
    have "R d d1" "R d1 d2" "R d2 d3"
      using assms(1) [of d t a] assms(2) [of d1 t a] assms(3) [of d2 t a] 1 2 3 by simp_all
    then have "R d d1" "R d d3" by (blast intro: rel_trans)+
    with 1 2 3 show ?thesis by (auto split: sum.split bool.split)
  qed
  then show ?thesis
    unfolding closeTopic_def Let_def by (auto intro!: rel_guarded)
qed

end

lemma close_phase2_log: "log_ext d (snd (close_phase2 E tid ac d))"
  by (rule log.rel_phase2) (rule log.rel_each_item [OF drain_claim_log] log.rel_drain_request log.rel_drain_motion)+

lemma closeTopic_step: "topic_step d (snd (closeTopic E pid tid ac d))"
  by (rule topic.rel_closeTopic)
    (auto intro: topic.rel_transaction close_phase1_step close_phase3_step
      log_ext_step close_phase2_log)

section \<open>Properties\<close>

text \<open>
  \<open>appendable E tid d\<close>: an append to the log of \<open>tid\<close> cannot fail: the logs are numbered, the topic is not
  closed, and the identifiers the environment will generate are new.
\<close>

definition fresh_ids :: "env \<Rightarrow> db \<Rightarrow> bool" where
  "fresh_ids E d \<longleftrightarrow> inj (uuid_of E) \<and> (\<forall>e \<in> set (events d). \<forall>n \<ge> uuid_ctr d. e_id e \<noteq> uuid_of E n)"

definition appendable :: "env \<Rightarrow> string \<Rightarrow> db \<Rightarrow> bool" where
  "appendable E tid d \<longleftrightarrow> log_ok d \<and> fresh_ids E d \<and> topic_status_of d tid \<notin> {None, Some Closed}"

lemma emit_appendable:
  assumes ok: "appendable E tid d" and types: "ty \<in> set EVENT_TYPES" "sty \<in> set SUBJECT_TYPES"
  obtains d' where "emit E (ev tid who ty sty subj pl) d = (Next (), d')" "logged d d'" "appendable E tid d'"
proof -
  let ?e = "ev tid who ty sty subj pl"
  obtain t where t: "find_row t_id tid (topics d) = Some t" "t_status t \<noteq> Closed"
    using ok by (auto simp: appendable_def topic_status_of_def topic_of_def)
  have "map e_seq (log_of d tid) = [1..<Suc (t_next_seq t)]"
    using ok t by (auto simp: appendable_def log_ok_def topic_of_def simp del: upt_Suc)
  then have "e_seq e < Suc (t_next_seq t)" if "e \<in> set (log_of d tid)" for e
    using that by (metis atLeastLessThan_iff image_eqI list.set_map set_upt)
  then have seq: "\<not> (e_topic e = tid \<and> e_seq e = Suc (t_next_seq t))" if "e \<in> set (events d)" for e
    using that by (force simp: log_of_def)
  have "\<not> exists_where (\<lambda>e. (e_topic e = tid \<and> e_seq e = Suc (t_next_seq t)) \<or> e_id e = uuid_of E (uuid_ctr d)) (events d)"
    using seq ok by (auto simp: exists_where_def list_ex_iff appendable_def fresh_ids_def)
  moreover define row where "row = \<lparr>e_topic = tid, e_seq = Suc (t_next_seq t), e_id = uuid_of E (uuid_ctr d),
    e_ts = pg_now E, e_actor = who, e_type = ty, e_subject_type = sty, e_subject = subj, e_payload = JObj pl\<rparr>"
  moreover define d' where "d' = d\<lparr>topics := bump_seq tid (topics d), uuid_ctr := Suc (uuid_ctr d), events := events d @ [row]\<rparr>"
  ultimately have d': "emit E ?e d = (Next (), d')"
    using t types by (simp add: emit_def appendEvent_def ev_def Let_def tx_unit_def tx_then_def tx_bind_def tx_return_def)
  have lg: "logged d d'" using after_Next [OF after_emit d', where Q = "\<lambda>_ d'. logged d d'"] by simp
  have "log_ok d'" using log_ext_ok [OF _ logged_ext [OF lg]] ok by (simp add: appendable_def)
  moreover have "fresh_ids E d'"
    using ok by (auto simp: d'_def row_def appendable_def fresh_ids_def inj_eq)
  ultimately have "appendable E tid d'" using ok lg by (simp add: appendable_def)
  with d' lg show thesis by (rule that)
qed

lemma appendable_write:
  assumes "appendable E tid d" and "topics d1 = topics d" "events d1 = events d" "uuid_ctr d1 = uuid_ctr d"
  shows "appendable E tid d1"
  using assms by (simp add: appendable_def fresh_ids_def log_ok_def log_of_def topic_status_of_def topic_of_def)

text \<open>A write with its event commits.\<close>

lemma write_emit_commits:
  fixes r :: 'a
  assumes "appendable E tid (f d)" and "ty \<in> set EVENT_TYPES" "sty \<in> set SUBJECT_TYPES"
  obtains d' where "tx_then (tx_block [tx_write f, emit E (ev tid who ty sty subj pl)]) (tx_return r) d =
      ((Next r, d') :: ('a, 'r, exn) ctl \<times> db)"
    "logged (f d) d'" "appendable E tid d'"
proof -
  obtain d' where "emit E (ev tid who ty sty subj pl) (f d) = ((Next (), d') :: (unit, 'r, exn) ctl \<times> db)"
    "logged (f d) d'" "appendable E tid d'"
    using emit_appendable [OF assms] by blast
  then show thesis by (intro that [of d']) (simp_all add: tx_then_def tx_bind_def tx_write_def tx_return_def)
qed

text \<open>
  One pass. \<open>P\<close> is kept by every item, and an item removes every scanned row with its key; then the
  pass leaves no scanned row.
\<close>

lemma each_item_drain:
  assumes item: "\<And>x d. P d \<Longrightarrow> P (snd (transaction (f x) d)) \<and>
      set (scan (snd (transaction (f x) d))) \<subseteq> {y \<in> set (scan d). key y \<noteq> key x}"
    and "P d"
  shows "P (snd (each_item f xs d)) \<and>
    set (scan (snd (each_item f xs d))) \<subseteq> {y \<in> set (scan d). \<forall>x \<in> set xs. key y \<noteq> key x}"
  using assms(2)
proof (induction xs arbitrary: d)
  case (Cons x xs)
  let ?d = "snd (transaction (f x) d)"
  have "snd (each_item f (x # xs) d) = snd (each_item f xs ?d)" by (simp split: prod.split)
  moreover have "P ?d" "set (scan ?d) \<subseteq> {y \<in> set (scan d). key y \<noteq> key x}" using item [OF Cons.prems] by auto
  ultimately show ?case using Cons.IH [of ?d] by auto
qed simp

lemma each_item_empty:
  assumes "\<And>x d. P d \<Longrightarrow> P (snd (transaction (f x) d)) \<and>
      set (scan (snd (transaction (f x) d))) \<subseteq> {y \<in> set (scan d). key y \<noteq> key x}"
    and "P d"
  shows "P (snd (each_item f (scan d) d)) \<and> scan (snd (each_item f (scan d) d)) = []"
proof -
  let ?d = "snd (each_item f (scan d) d)"
  have all: "P ?d" "set (scan ?d) \<subseteq> {y \<in> set (scan d). \<forall>x \<in> set (scan d). key y \<noteq> key x}"
    using each_item_drain [of P f scan key, OF assms] by blast+
  have "y \<notin> set (scan ?d)" for y using all(2) by (metis (mono_tags, lifting) mem_Collect_eq subsetD)
  then show ?thesis using all(1) by (cases "scan ?d") auto
qed

text \<open>
  A pass over what its scan finds: an item that is gone is skipped, the write and the event of the others
  commit; afterwards the scan finds nothing. \<open>rest\<close> projects the tables the pass leaves alone.
\<close>

lemma drain_pass:
  assumes body: "\<And>x d. f x d = (if gone x d then (Abort False, d)
      else tx_then (tx_block [tx_write (g x), emit E (ev tid who ty sty (subj x) (pl x d))]) (tx_return True) d)"
    and types: "ty \<in> set EVENT_TYPES" "sty \<in> set SUBJECT_TYPES"
    and g: "\<And>x d. topics (g x d) = topics d \<and> events (g x d) = events d \<and> uuid_ctr (g x d) = uuid_ctr d \<and> rest (g x d) = rest d"
    and logs: "\<And>d1 d2. logged d1 d2 \<Longrightarrow> rest d2 = rest d1 \<and> scan d2 = scan d1"
    and hit: "\<And>x d. set (scan (g x d)) \<subseteq> {y \<in> set (scan d). key y \<noteq> key x}"
    and miss: "\<And>x d. gone x d \<Longrightarrow> set (scan d) \<subseteq> {y \<in> set (scan d). key y \<noteq> key x}"
    and run: "each_item f (scan d) d = (n, d')" and ok: "appendable E tid d"
  shows "appendable E tid d' \<and> rest d' = rest d \<and> scan d' = []"
proof -
  have item: "(appendable E tid (snd (transaction (f x) e)) \<and> rest (snd (transaction (f x) e)) = rest d) \<and>
      set (scan (snd (transaction (f x) e))) \<subseteq> {y \<in> set (scan e). key y \<noteq> key x}"
    if e: "appendable E tid e \<and> rest e = rest d" for x e
  proof (cases "gone x e")
    case True
    have "snd (transaction (f x) e) = e" using True by (simp add: body transaction_def rollback_def)
    then show ?thesis using e miss [OF True] by simp
  next
    case False
    have "appendable E tid (g x e)" by (rule appendable_write [of E tid e]) (use e g in simp_all)
    then obtain d1 where d1: "tx_then (tx_block [tx_write (g x), emit E (ev tid who ty sty (subj x) (pl x e))]) (tx_return True) e =
        ((Next True, d1) :: (bool, bool, exn) ctl \<times> db)" "logged (g x e) d1" "appendable E tid d1"
      using types by (rule write_emit_commits)
    then have "snd (transaction (f x) e) = d1" using False by (simp add: body transaction_def del: tx_block.simps)
    then show ?thesis using d1(3) logs [OF d1(2)] g e hit [of x e] by simp
  qed
  have "(appendable E tid (snd (each_item f (scan d) d)) \<and> rest (snd (each_item f (scan d) d)) = rest d) \<and>
      scan (snd (each_item f (scan d) d)) = []"
    by (rule each_item_empty [where P = "\<lambda>e. appendable E tid e \<and> rest e = rest d" and key = key]) (use item ok in auto)
  then show ?thesis by (simp add: run)
qed

lemma closing_types: "set [''claim.force_lapsed'', ''request.force_closed'', ''motion.force_lapsed'',
    ''dispute.force_closed'', ''intake.force_dismissed'', ''topic.closing'', ''topic.closed''] \<subseteq> set EVENT_TYPES"
  "set [''task'', ''request'', ''motion'', ''dispute'', ''intake'', ''topic''] \<subseteq> set SUBJECT_TYPES"
  by code_simp+

lemma status_same: "r\<lparr>r_status := a\<rparr> = r \<longleftrightarrow> a = r_status r" "m\<lparr>m_status := b\<rparr> = m \<longleftrightarrow> b = m_status m"
  "x\<lparr>d_status := c\<rparr> = x \<longleftrightarrow> c = d_status x" "i\<lparr>i_status := e\<rparr> = i \<longleftrightarrow> e = i_status i"
  by (cases r, auto) (cases m, auto, cases x, auto, cases i, auto)

lemmas pass_simps = exists_where_def list_ex_iff in_update_where status_same

lemma claims_pass:
  assumes "each_item (drain_claim E tid who) (scan_claims d tid) d = (n, d')" "appendable E tid d"
  shows "appendable E tid d' \<and> () = () \<and> scan_claims d' tid = []"
  by (rule drain_pass [where key = c_id and f = "drain_claim E tid who" and E = E and tid = tid and who = who
        and gone = "\<lambda>x d. \<not> exists_where (\<lambda>y. c_id y = c_id x) (claims d)"
        and g = "\<lambda>x. drop_claim x (\<lambda>k. k\<lparr>tk_status := Abandoned\<rparr>) (c_task x)"
        and subj = "\<lambda>x. c_task x" and pl = "\<lambda>x d. [(''task_id'', JStr (c_task x)), (''actor_id'', JStr (c_actor x))]"
        and scan = "\<lambda>d. scan_claims d tid" and rest = "\<lambda>_. ()", OF drain_claim_def _ _ _ _ _ _ assms])
    (use closing_types in \<open>auto simp: pass_simps scan_claims_def drop_claim_def\<close>)

lemma requests_pass:
  assumes "each_item (drain_request E tid who) (scan_requests d tid) d = (n, d')" "appendable E tid d"
  shows "appendable E tid d' \<and> claims d' = claims d \<and> scan_requests d' tid = []"
  by (rule drain_pass [where key = r_id and f = "drain_request E tid who" and E = E and tid = tid and who = who
        and gone = "\<lambda>x d. \<not> exists_where (\<lambda>y. r_id y = r_id x \<and> r_status y = Open) (requests d)"
        and g = "\<lambda>x. reject_rows (r_id x)"
        and subj = "\<lambda>x. r_id x" and pl = "\<lambda>x d. [(''request_id'', JStr (r_id x)), (''steps_rejected'', jnat (length (pending_steps d (r_id x))))]"
        and scan = "\<lambda>d. scan_requests d tid" and rest = "claims", OF drain_request_def _ _ _ _ _ _ assms])
    (use closing_types in \<open>auto simp: pass_simps scan_requests_def reject_rows_def\<close>)

lemma motions_pass:
  assumes "each_item (drain_motion E tid who) (scan_motions d tid) d = (n, d')" "appendable E tid d"
  shows "appendable E tid d' \<and> (claims d', requests d') = (claims d, requests d) \<and> scan_motions d' tid = []"
  by (rule drain_pass [where key = m_id and f = "drain_motion E tid who" and E = E and tid = tid and who = who
        and gone = "\<lambda>x d. \<not> exists_where (\<lambda>y. m_id y = m_id x \<and> in_flight (m_status y)) (motions d)"
        and g = "\<lambda>x. \<lambda>d. d\<lparr>motions := update_where (\<lambda>y. m_id y = m_id x \<and> in_flight (m_status y)) (\<lambda>y. y\<lparr>m_status := Lapsed\<rparr>) (motions d)\<rparr>"
        and subj = "\<lambda>x. m_id x" and pl = "\<lambda>x d. [(''motion_id'', JStr (m_id x)), (''prior_status'', JStr (motion_status_text (m_status x)))]"
        and scan = "\<lambda>d. scan_motions d tid" and rest = "\<lambda>d. (claims d, requests d)", OF drain_motion_def _ _ _ _ _ _ assms])
    (use closing_types in \<open>auto simp: pass_simps scan_motions_def in_flight_def\<close>)

lemma disputes_pass:
  assumes "each_item (drain_dispute E tid who) (scan_disputes d tid) d = (n, d')" "appendable E tid d"
  shows "appendable E tid d' \<and> (claims d', requests d', motions d') = (claims d, requests d, motions d) \<and>
    scan_disputes d' tid = []"
  by (rule drain_pass [where key = d_id and f = "drain_dispute E tid who" and E = E and tid = tid and who = who
        and gone = "\<lambda>x d. \<not> exists_where (\<lambda>y. d_id y = d_id x \<and> d_status y = D_open) (disputes d)"
        and g = "\<lambda>x. \<lambda>d. d\<lparr>disputes := update_where (\<lambda>y. d_id y = d_id x \<and> d_status y = D_open) (\<lambda>y. y\<lparr>d_status := Resolved\<rparr>) (disputes d)\<rparr>"
        and subj = "\<lambda>x. d_id x" and pl = "\<lambda>x d. [(''dispute_id'', JStr (d_id x)), (''force_closed'', JBool True)]"
        and scan = "\<lambda>d. scan_disputes d tid" and rest = "\<lambda>d. (claims d, requests d, motions d)", OF drain_dispute_def _ _ _ _ _ _ assms])
    (use closing_types in \<open>auto simp: pass_simps scan_disputes_def\<close>)

lemma intake_pass:
  assumes "each_item (drain_intake E tid who) (scan_intake d tid) d = (n, d')" "appendable E tid d"
  shows "appendable E tid d' \<and> (claims d', requests d', motions d', disputes d') = (claims d, requests d, motions d, disputes d) \<and>
    scan_intake d' tid = []"
  by (rule drain_pass [where key = i_id and f = "drain_intake E tid who" and E = E and tid = tid and who = who
        and gone = "\<lambda>x d. \<not> exists_where (\<lambda>y. i_id y = i_id x \<and> i_status y = Received) (intake_items d)"
        and g = "\<lambda>x. dismiss_row (i_id x)"
        and subj = "\<lambda>x. i_id x" and pl = "\<lambda>x d. [(''intake_id'', JStr (i_id x))]"
        and scan = "\<lambda>d. scan_intake d tid" and rest = "\<lambda>d. (claims d, requests d, motions d, disputes d)", OF drain_intake_def _ _ _ _ _ _ assms])
    (use closing_types in \<open>auto simp: pass_simps scan_intake_def dismiss_row_def\<close>)

text \<open>Nothing is in flight on the topic.\<close>

definition drained :: "string \<Rightarrow> db \<Rightarrow> bool" where
  "drained tid d \<longleftrightarrow> scan_claims d tid = [] \<and> scan_requests d tid = [] \<and> scan_motions d tid = [] \<and>
     scan_disputes d tid = [] \<and> scan_intake d tid = []"

lemma close_phase2_drains:
  assumes "appendable E tid d" and "close_phase2 E tid who d = (cs, d')"
  shows "appendable E tid d' \<and> drained tid d'"
proof -
  obtain nc d1 nr d2 nm d3 nd d4 ni d5 where run:
    "each_item (drain_claim E tid who) (scan_claims d tid) d = (nc, d1)"
    "each_item (drain_request E tid who) (scan_requests d1 tid) d1 = (nr, d2)"
    "each_item (drain_motion E tid who) (scan_motions d2 tid) d2 = (nm, d3)"
    "each_item (drain_dispute E tid who) (scan_disputes d3 tid) d3 = (nd, d4)"
    "each_item (drain_intake E tid who) (scan_intake d4 tid) d4 = (ni, d5)" "d' = d5"
    using assms(2) by (rule_tac close_phase2_run [of E tid who d]) auto
  note 1 = claims_pass [OF run(1) assms(1)]
  note 2 = requests_pass [OF run(2) conjunct1 [OF 1]]
  note 3 = motions_pass [OF run(3) conjunct1 [OF 2]]
  note 4 = disputes_pass [OF run(4) conjunct1 [OF 3]]
  note 5 = intake_pass [OF run(5) conjunct1 [OF 4]]
  show ?thesis
    using 1 2 3 4 5 run(6)
    by (simp add: drained_def scan_claims_def scan_requests_def scan_motions_def scan_disputes_def)
qed

lemma topic_status_set: "topic_status_of (set_status tid P s d) tid =
    map_option (\<lambda>x. if P x then s else x) (topic_status_of d tid)"
  by (cases "topic_of d tid") (simp_all add: topic_status_of_def topic_of_set_status)

lemma appendable_closing:
  assumes "appendable E tid d"
  shows "appendable E tid (set_status tid (\<lambda>_. True) Closing d)"
proof -
  have "fresh_ids E (set_status tid (\<lambda>_. True) Closing d)"
    using assms by (simp add: appendable_def fresh_ids_def set_status_def)
  moreover have "topic_status_of (set_status tid (\<lambda>_. True) Closing d) tid = Some Closing"
    using assms unfolding appendable_def by (cases "topic_status_of d tid") (simp_all add: topic_status_set)
  ultimately show ?thesis using assms by (simp add: appendable_def set_status_log_ok)
qed

lemma close_phase1_commits:
  assumes "appendable E tid d"
  shows "\<exists>d'. transaction (close_phase1 E tid who) d = (Inr True, d') \<and> appendable E tid d'"
proof -
  obtain s where s: "topic_status_of d tid = Some s" "s \<noteq> Closed" using assms by (auto simp: appendable_def)
  show ?thesis
  proof (cases "s = Closing")
    case True
    then show ?thesis using s assms by (simp add: close_phase1_def transaction_def)
  next
    case False
    have types: "''topic.closing'' \<in> set EVENT_TYPES" "''topic'' \<in> set SUBJECT_TYPES" using closing_types by simp_all
    obtain d' where "tx_then (tx_block [tx_write (set_status tid (\<lambda>_. True) Closing),
          emit E (ev tid who ''topic.closing'' ''topic'' tid [])]) (tx_return True) d = ((Next True, d') :: (bool, bool, exn) ctl \<times> db)"
      "appendable E tid d'"
      by (rule write_emit_commits [where f = "set_status tid (\<lambda>_. True) Closing" and d = d, OF appendable_closing [OF assms] types])
    moreover have "s = Active \<or> s = Chartered" using s(2) False by (metis topic_status.exhaust)
    ultimately show ?thesis using s by (intro exI [of _ d']) (simp add: close_phase1_def transaction_def del: tx_block.simps)
  qed
qed

lemma close_phase3_commits:
  assumes "appendable E tid d" and "drained tid d"
  shows "\<exists>d'. transaction (close_phase3 E tid who) d = (Inr (), d') \<and> topic_status_of d' tid = Some Closed \<and> drained tid d'"
proof -
  have "''topic.closed'' \<in> set EVENT_TYPES" "''topic'' \<in> set SUBJECT_TYPES" using closing_types by simp_all
  then obtain d1 where d1: "emit E (ev tid who ''topic.closed'' ''topic'' tid []) d = ((Next (), d1) :: (unit, unit, exn) ctl \<times> db)"
    "logged d d1" "appendable E tid d1"
    using emit_appendable [OF assms(1)] by blast
  let ?d = "set_status tid (\<lambda>_. True) Closed d1"
  have "transaction (close_phase3 E tid who) d = (Inr (), ?d)"
    using d1(1) by (simp add: close_phase3_def transaction_def tx_then_def tx_bind_def tx_write_def tx_return_def)
  moreover have "topic_status_of ?d tid = Some Closed"
    using d1(3) by (auto simp: appendable_def topic_status_set)
  moreover have "drained tid ?d"
    using assms(2) d1(2) by (simp add: drained_def set_status_def scan_claims_def scan_requests_def scan_motions_def
        scan_disputes_def scan_intake_def)
  ultimately show ?thesis by blast
qed

text \<open>
  Property C35. Closing ends: for an authorized caller, on a topic that is not closed and with an
  identifier source that never repeats, \<^verbatim>\<open>closeTopic\<close> always returns, the topic is closed, and no claim,
  open request, motion in flight, open dispute or received intake item of the topic is left, however many
  there were.
\<close>

theorem closeTopic_completes:
  assumes "log_ok d" and "fresh_ids E d" and "topic_status_of d (trim tid) \<notin> {None, Some Closed}"
    and "trim tid \<noteq> []" and "trim ac \<noteq> []"
    and "fst (assertAuthorized E pid A_admin (rref K_topic (trim tid)) d) = None"
  shows "\<exists>cs d'. closeTopic E pid tid ac d = (Inr \<lparr>cl_already = False, cl_lapsed = cs\<rparr>, d') \<and>
    topic_status_of d' (trim tid) = Some Closed \<and> drained (trim tid) d'"
proof -
  obtain d1 where d1: "assertAuthorized E pid A_admin (rref K_topic (trim tid)) d = (None, d1)"
    using assms(6) by (metis prod.collapse)
  then obtain l where l: "d1 = d\<lparr>authz_decisions := l\<rparr>" using authz.gate_frame by blast
  have "appendable E (trim tid) d" using assms(1-3) by (simp add: appendable_def)
  then have "appendable E (trim tid) d1" by (rule appendable_write) (simp_all add: l)
  then obtain d2 where d2: "transaction (close_phase1 E (trim tid) (trim ac)) d1 = (Inr True, d2)" "appendable E (trim tid) d2"
    using close_phase1_commits by blast
  obtain cs d3 where d3: "close_phase2 E (trim tid) (trim ac) d2 = (cs, d3)" by force
  then obtain d4 where "transaction (close_phase3 E (trim tid) (trim ac)) d3 = (Inr (), d4)"
    "topic_status_of d4 (trim tid) = Some Closed" "drained (trim tid) d4"
    using close_phase3_commits close_phase2_drains [OF d2(2) d3] by blast
  moreover from this have "closeTopic E pid tid ac d = (Inr \<lparr>cl_already = False, cl_lapsed = cs\<rparr>, d4)"
    by (simp add: closeTopic_def guarded_def Let_def d1 d2(1) d3 assms(4,5))
  ultimately show ?thesis by blast
qed

theorem closeTopic_completes_witness:
  "claims busy_db \<noteq> [] \<and> drained ''T'' (snd (closeTopic dev_env None ''T'' ''owner'' busy_db))"
proof -
  have "log_ok busy_db"
    by (simp add: busy_db_def board_db_def log_ok_def log_of_def topic_of_def find_row_Cons pkey_def a_topic_def empty_db_def)
  moreover have "inj (uuid_of dev_env)" by (rule injI) (simp add: dev_env_def)
  then have "fresh_ids dev_env busy_db" by (simp add: fresh_ids_def busy_db_def board_db_def empty_db_def)
  moreover have "topic_status_of busy_db (trim ''T'') \<notin> {None, Some Closed}"
    "trim ''T'' \<noteq> []" "trim ''owner'' \<noteq> []" "trim ''T'' = ''T''" "claims busy_db \<noteq> []"
    "fst (assertAuthorized dev_env None A_admin (rref K_topic (trim ''T'')) busy_db) = None" by code_simp+
  ultimately show ?thesis using closeTopic_completes [of busy_db dev_env "''T''" "''owner''" None] by auto
qed

end
