(* ===== verification/Sweep.thy ===== *)
theory Sweep
  imports Closing
begin

text \<open>
  The recovery sweeps (services/coordinationSweep.ts): expired claims, stalled request steps, expired
  motions, topics stuck in \<open>closing\<close>, and the scheduler's cycle that runs the four in a row. Each
  scanned item is handled in a transaction of its own, which re-checks it under its locks.
\<close>

section \<open>Grace\<close>

definition MAX_GRACE_MINUTES :: int where "MAX_GRACE_MINUTES = 1440"

fun clampGrace :: "jsnum option \<Rightarrow> int" where
  "clampGrace (Some (Fin q)) =
     (if q < 0 then 0 else if of_int MAX_GRACE_MINUTES < q then MAX_GRACE_MINUTES else \<lfloor>q\<rfloor>)"
| "clampGrace _ = 0"

text \<open>\<^verbatim>\<open>x < now() - make_interval(mins => $1)\<close>\<close>

definition past_grace :: "env \<Rightarrow> int \<Rightarrow> int \<Rightarrow> bool" where
  "past_grace E grace x = (x < pg_now E - grace * 60000)"

definition sweep_actor :: string where
  "sweep_actor = ''system:sweep''"

definition frozen_topic :: "db \<Rightarrow> string \<Rightarrow> bool" where
  "frozen_topic d tid = (topic_status_of d tid \<in> {Some Closed, Some Closing})"

section \<open>sweepAbandonedClaims\<close>

definition scan_expired_claims :: "env \<Rightarrow> int \<Rightarrow> db \<Rightarrow> claim_row list" where
  "scan_expired_claims E grace d = filter (\<lambda>c. past_grace E grace (c_expires c)) (claims d)"

text \<open>\<^verbatim>\<open>UPDATE tasks SET status = .. WHERE .. AND status IN ('claimed','in_progress')\<close>\<close>

definition leave_claimed :: "task_status \<Rightarrow> task_row \<Rightarrow> task_row" where
  "leave_claimed s k = (if tk_status k \<in> {Claimed, In_progress} then k\<lparr>tk_status := s\<rparr> else k)"

definition recover_claim :: "env \<Rightarrow> claim_row \<Rightarrow> (bool, bool) dtx" where
  "recover_claim E c =
     tx_then (tx_write (drop_claim c (leave_claimed Posted) (c_task c)))
     (tx_bind (revertArtifact (c_artifact c) sweep_actor) (\<lambda>rv. tx_then (tx_block
        [emit E (ev (c_topic c) sweep_actor ''claim.expired'' ''artifact'' (c_artifact c)
           [(''claim_id'', JStr (c_id c)), (''actor_id'', JStr (c_actor c))]),
         emit E (ev (c_topic c) sweep_actor ''task.released'' ''task'' (c_task c)
           [(''reason'', JStr ''claim_expired'')]),
         emit E (ev (c_topic c) sweep_actor ''artifact.versioned'' ''artifact'' (c_artifact c)
           [(''version'', jnat (rv_version rv)), (''note'', JStr ''sweep revert'')]),
         (if rv_from rv \<noteq> rv_state rv
          then emit E (state_changed (c_topic c) sweep_actor (c_artifact c) (rv_from rv) (rv_state rv))
          else tx_return ())])
       (tx_return True)))"

definition sweep_claim :: "env \<Rightarrow> claim_row \<Rightarrow> (bool, bool) dtx" where
  "sweep_claim E c d =
     (if task_of d (c_task c) = None
      then (Next True, d\<lparr>claims := delete_where (\<lambda>x. c_id x = c_id c) (claims d)\<rparr>)
      else if \<not> exists_where (\<lambda>x. c_id x = c_id c) (claims d) then (Abort False, d)
      else if frozen_topic d (c_topic c)
      then (Next True, drop_claim c (leave_claimed Abandoned) (c_task c) d)
      else recover_claim E c d)"

definition sweepAbandonedClaims :: "env \<Rightarrow> jsnum option \<Rightarrow> db \<Rightarrow> nat \<times> db" where
  "sweepAbandonedClaims E grace d =
     each_item (sweep_claim E) (scan_expired_claims E (clampGrace grace) d) d"

section \<open>sweepStalledSteps\<close>

text \<open>The scan joins a step with its request on \<^verbatim>\<open>current_step = step_index\<close>.\<close>

definition stalled :: "env \<Rightarrow> int \<Rightarrow> db \<Rightarrow> step_row \<Rightarrow> bool" where
  "stalled E grace d s =
     (s_status s = S_pending \<and> past_grace E grace (s_deadline s) \<and>
      (case request_of d (s_request s) of
         None \<Rightarrow> False | Some r \<Rightarrow> r_current r = s_index s \<and> r_status r = Open))"

definition scan_stalled_steps :: "env \<Rightarrow> int \<Rightarrow> db \<Rightarrow> (step_row \<times> string) list" where
  "scan_stalled_steps E grace d =
     map (\<lambda>s. (s, case request_of d (s_request s) of None \<Rightarrow> [] | Some r \<Rightarrow> r_topic r))
       (filter (stalled E grace d) (steps d))"

definition climb_step ::
  "env \<Rightarrow> request_row \<Rightarrow> nat \<Rightarrow> level \<Rightarrow> (unit, 'r) dtx" where
  "climb_step E r i office = tx_block
     [tx_write (set_step (r_id r) i (\<lambda>s. fresh_deadline E (s\<lparr>s_office := next_level office\<rparr>))),
      emit E (step_escalated r i sweep_actor
        [(''from_office'', JStr (level_text office)),
         (''to_office'', JStr (level_text (next_level office)))])]"

definition sweep_step :: "env \<Rightarrow> step_row \<times> string \<Rightarrow> (bool, bool) dtx" where
  "sweep_step E x d = (case x of (sc, topic) \<Rightarrow>
     (case request_of d (s_request sc) of
        None \<Rightarrow> (Abort False, d)
      | Some req \<Rightarrow>
          if r_status req \<noteq> Open \<or> r_current req \<noteq> s_index sc then (Abort False, d)
          else (case step_of d (s_request sc) (s_index sc) of
              None \<Rightarrow> (Abort False, d)
            | Some s \<Rightarrow>
                if s_status s \<noteq> S_pending \<or> js_now E \<le> s_deadline s then (Abort False, d)
                else if frozen_topic d topic then (Abort False, d)
                else tx_then
                  (if s_office s \<noteq> Authority
                   then climb_step E (on_topic topic req) (s_index sc) (s_office s)
                   else exhaust_request E (on_topic topic req) (s_index sc) sweep_actor [])
                  (tx_return True) d)))"

definition sweepStalledSteps :: "env \<Rightarrow> jsnum option \<Rightarrow> db \<Rightarrow> nat \<times> db" where
  "sweepStalledSteps E grace d =
     each_item (sweep_step E) (scan_stalled_steps E (clampGrace grace) d) d"

section \<open>sweepExpiredMotions\<close>

definition scan_expired_motions :: "env \<Rightarrow> int \<Rightarrow> db \<Rightarrow> motion_row list" where
  "scan_expired_motions E grace d =
     filter (\<lambda>m. m_status m \<in> {Proposed, Balloting} \<and> past_grace E grace (m_deadline m)) (motions d)"

definition lapse_motion :: "env \<Rightarrow> motion_row \<Rightarrow> (unit, 'r) dtx" where
  "lapse_motion E m = tx_block
     [tx_write (set_motion (m_id m) (\<lambda>x. x\<lparr>m_status := Lapsed, m_tally := None\<rparr>)),
      emit E (ev (m_topic m) sweep_actor ''motion.tallied'' ''motion'' (m_id m)
        [(''outcome'', JStr ''lapsed''), (''reason'', JStr ''not_seconded'')]),
      apply_to_linked_step E m Out_lapsed]"

definition sweep_motion :: "env \<Rightarrow> motion_row \<Rightarrow> (bool, bool) dtx" where
  "sweep_motion E sc d = (case motion_of d (m_id sc) of
     None \<Rightarrow> (Abort False, d)
   | Some m \<Rightarrow>
       if m_status m \<notin> {Proposed, Balloting} \<or> \<not> m_deadline m < pg_now E then (Abort False, d)
       else if frozen_topic d (m_topic sc) then (Abort False, d)
       else tx_then
         (if m_status m = Proposed then lapse_motion E m
          else tx_unit (run_tally E m sweep_actor [(''auto'', JBool True)]))
         (tx_return True) d)"

definition sweepExpiredMotions :: "env \<Rightarrow> jsnum option \<Rightarrow> db \<Rightarrow> nat \<times> db" where
  "sweepExpiredMotions E grace d =
     each_item (sweep_motion E) (scan_expired_motions E (clampGrace grace) d) d"

section \<open>sweepStuckClosingTopics and the cycle\<close>

definition SWEEP_STALE_CLOSING_MINUTES :: int where "SWEEP_STALE_CLOSING_MINUTES = 5"
definition SWEEP_STUCK_CLOSING_MAX_PER_CYCLE :: nat where "SWEEP_STUCK_CLOSING_MAX_PER_CYCLE = 10"

definition closing_events :: "db \<Rightarrow> string \<Rightarrow> int list" where
  "closing_events d tid = map e_ts (filter (\<lambda>e. e_type e = ''topic.closing'') (log_of d tid))"

text \<open>\<^verbatim>\<open>max(ts) < now() - 5 minutes\<close>; with no event the maximum is null and the row is left out.\<close>

definition scan_stuck_closing :: "env \<Rightarrow> db \<Rightarrow> topic_row list" where
  "scan_stuck_closing E d = take SWEEP_STUCK_CLOSING_MAX_PER_CYCLE
     (filter (\<lambda>t. t_status t = Closing \<and> closing_events d (t_id t) \<noteq> [] \<and>
        list_all (past_grace E SWEEP_STALE_CLOSING_MINUTES) (closing_events d (t_id t))) (topics d))"

definition closing_recovery :: string where
  "closing_recovery = ''system:closing-recovery''"

text \<open>The call carries no acting principal.\<close>

fun recover_topics :: "env \<Rightarrow> string list \<Rightarrow> db \<Rightarrow> nat \<times> db" where
  "recover_topics E [] d = (0, d)"
| "recover_topics E (t # ts) d =
     (case closeTopic E None t closing_recovery d of
        (Inl _, d') \<Rightarrow> recover_topics E ts d'
      | (Inr _, d') \<Rightarrow> (case recover_topics E ts d' of (n, d'') \<Rightarrow> (Suc n, d'')))"

definition sweepStuckClosingTopics :: "env \<Rightarrow> db \<Rightarrow> nat \<times> db" where
  "sweepStuckClosingTopics E d = recover_topics E (map t_id (scan_stuck_closing E d)) d"

text \<open>
  One cycle of the scheduler: nothing without the advisory lock; the grace window applies to the
  claims sweep. Each sweep reads the clock anew.
\<close>

definition sweep_cycle :: "env \<Rightarrow> env \<Rightarrow> env \<Rightarrow> env \<Rightarrow> bool \<Rightarrow> jsnum option \<Rightarrow> db \<Rightarrow> db" where
  "sweep_cycle E1 E2 E3 E4 gotLock grace d =
     (if \<not> gotLock then d
      else snd (sweepStuckClosingTopics E4
             (snd (sweepExpiredMotions E3 None
               (snd (sweepStalledSteps E2 None
                 (snd (sweepAbandonedClaims E1 grace d))))))))"

section \<open>Inside a service relation\<close>

context request_service
begin

lemma rel_climb_step: "after (\<lambda>_. R d) (climb_step E r i l d)"
  unfolding climb_step_def by (auto intro!: rules simp: set_step_def)

lemma rel_sweep_step: "after (\<lambda>_. R d) (sweep_step E x d)"
  unfolding sweep_step_def
  by (auto intro!: rules rel_climb_step rel_exhaust_request split: prod.split option.split)

lemma rel_sweepStalledSteps: "R d (snd (sweepStalledSteps E g d))"
  unfolding sweepStalledSteps_def by (rule rel_each_item [OF rel_sweep_step])

lemma rel_lapse_motion: "after (\<lambda>_. R d) (lapse_motion E m d)"
  unfolding lapse_motion_def
  by (auto intro!: rules rel_apply_to_linked_step simp: set_motion_def)

lemma rel_sweep_motion: "after (\<lambda>_. R d) (sweep_motion E m d)"
  unfolding sweep_motion_def
  by (auto intro!: rules rel_lapse_motion rel_run_tally split: option.split)

lemma rel_sweepExpiredMotions: "R d (snd (sweepExpiredMotions E g d))"
  unfolding sweepExpiredMotions_def by (rule rel_each_item [OF rel_sweep_motion])

end

text \<open>The recovery of a claim, once its first write is known to stay within the relation.\<close>

context artifact_service
begin

lemma rel_recover_claim:
  assumes "R d (drop_claim c (leave_claimed Posted) (c_task c) d)"
  shows "after (\<lambda>_. R d) (recover_claim E c d)"
  unfolding recover_claim_def
  by (rule rel_then, rule rel_write_step, rule assms) (auto intro!: emit_rules rel_revertArtifact)

end

text \<open>The cycle, once its parts are known to stay within the relation.\<close>

context effect
begin

lemma rel_recover_topics:
  assumes "\<And>t d. R d (snd (closeTopic E None t closing_recovery d))"
  shows "R d (snd (recover_topics E ts d))"
proof (induction ts arbitrary: d)
  case Nil
  then show ?case by simp
next
  case (Cons t ts)
  from assms [where t = t and d = d] Cons.IH [of "snd (closeTopic E None t closing_recovery d)"] show ?case
    by (auto intro: rel_trans split: prod.split sum.split)
qed

lemma rel_sweep_cycle:
  assumes claims: "\<And>g d. R d (snd (sweepAbandonedClaims E1 g d))"
    and steps: "\<And>g d. R d (snd (sweepStalledSteps E2 g d))"
    and motions: "\<And>g d. R d (snd (sweepExpiredMotions E3 g d))"
    and close: "\<And>t d. R d (snd (closeTopic E4 None t closing_recovery d))"
  shows "R d (sweep_cycle E1 E2 E3 E4 got g d)"
proof -
  define d1 where "d1 = snd (sweepAbandonedClaims E1 g d)"
  define d2 where "d2 = snd (sweepStalledSteps E2 None d1)"
  define d3 where "d3 = snd (sweepExpiredMotions E3 None d2)"
  have "R d d1" "R d1 d2" "R d2 d3"
    unfolding d1_def d2_def d3_def by (rule claims steps motions)+
  moreover have "R d3 (snd (sweepStuckClosingTopics E4 d3))"
    unfolding sweepStuckClosingTopics_def by (rule rel_recover_topics) (rule close)
  ultimately have "R d (snd (sweepStuckClosingTopics E4 d3))" by (blast intro: rel_trans)
  then show ?thesis by (simp add: sweep_cycle_def d1_def d2_def d3_def)
qed

end

lemma sweep_claim_log: "after (\<lambda>_. log_ext d) (sweep_claim E c d)"
  unfolding sweep_claim_def
  by (auto intro!: log.rel_recover_claim log_ext_same simp: drop_claim_def)

lemma sweepAbandonedClaims_log: "log_ext d (snd (sweepAbandonedClaims E g d))"
  unfolding sweepAbandonedClaims_def by (rule log.rel_each_item [OF sweep_claim_log])

lemma sweep_cycle_step: "topic_step d (sweep_cycle E1 E2 E3 E4 got g d)"
  by (rule topic.rel_sweep_cycle)
    (auto intro: log_ext_step sweepAbandonedClaims_log closeTopic_step topic.rel_sweepStalledSteps
      topic.rel_sweepExpiredMotions)

section \<open>Properties\<close>

text \<open>One item of the claims sweep: at most the scanned claim is deleted, at most its artifact changes.\<close>

definition claim_swept :: "claim_row \<Rightarrow> db \<Rightarrow> db \<Rightarrow> bool" where
  "claim_swept c d d' \<longleftrightarrow>
     (claims d' = claims d \<or> claims d' = delete_where (\<lambda>x. c_id x = c_id c) (claims d)) \<and>
     (\<forall>a. a \<noteq> c_artifact c \<longrightarrow> artifact_of d' a = artifact_of d a)"

lemma next_version_frame:
  "after (\<lambda>_ d'. claims d' = claims d \<and> (\<forall>a. a \<noteq> aid \<longrightarrow> artifact_of d' a = artifact_of d a))
    (next_version aid st ct tk vf nt ac d)"
  unfolding next_version_def
  by (auto simp: after_simps artifact_of_bump split: option.split simp del: tx_block.simps)

lemma revert_frame:
  "after (\<lambda>_ d'. claims d' = claims d \<and> (\<forall>a. a \<noteq> aid \<longrightarrow> artifact_of d' a = artifact_of d a)) (revertArtifact aid ac d)"
  unfolding revertArtifact_def Let_def
  by (auto simp: after_simps split: option.split intro: after_mono [OF next_version_frame])

lemma swept_logged: "claim_swept c d d1 \<Longrightarrow> logged d1 d2 \<Longrightarrow> claim_swept c d d2"
  by (simp add: claim_swept_def logged_artifacts)

lemma recover_claim_swept: "after (\<lambda>_ d'. claim_swept c d d') (recover_claim E c d)"
proof -
  have revert: "after (\<lambda>_ d'. claim_swept c d d') (revertArtifact (c_artifact c) who (drop_claim c f k d))" for f k who
    by (rule after_mono [OF revert_frame]) (simp add: claim_swept_def drop_claim_def artifact_of_def)
  show ?thesis
    unfolding recover_claim_def
    by (auto simp: after_then after_bind after_block after_write after_prims after_if intro!: after_mono [OF revert] after_emit
        simp del: tx_block.simps; meson swept_logged)
qed

lemma sweep_claim_swept: "claim_swept c d (snd (transaction (sweep_claim E c) d))"
proof -
  have same: "claim_swept c d (rollback d d')" for d' by (simp add: claim_swept_def rollback_def artifact_of_def)
  have "after (\<lambda>_ d'. claim_swept c d d') (sweep_claim E c d)"
    unfolding sweep_claim_def
    by (auto simp: recover_claim_swept) (auto simp: claim_swept_def drop_claim_def artifact_of_def)
  then show ?thesis
    using same by (auto simp: transaction_def after_def split: prod.splits ctl.splits)
qed

lemma swept_all:
  assumes "each_item (sweep_claim E) cs d = (n, d')"
  shows "set (claims d') \<subseteq> set (claims d) \<and>
    (\<forall>c \<in> set (claims d). c_id c \<notin> c_id ` set cs \<longrightarrow> c \<in> set (claims d')) \<and>
    (\<forall>a. a \<notin> c_artifact ` set cs \<longrightarrow> artifact_of d' a = artifact_of d a)"
  using assms
proof (induction cs arbitrary: d n)
  case (Cons c cs)
  let ?d = "snd (transaction (sweep_claim E c) d)"
  obtain m where rest: "each_item (sweep_claim E) cs ?d = (m, d')"
    using Cons.prems by (auto split: prod.splits)
  have one: "claim_swept c d ?d" by (rule sweep_claim_swept)
  have "set (claims ?d) \<subseteq> set (claims d)" "\<forall>x \<in> set (claims d). c_id x \<noteq> c_id c \<longrightarrow> x \<in> set (claims ?d)"
    using one by (auto simp: claim_swept_def)
  moreover have "artifact_of ?d a = artifact_of d a" if "a \<noteq> c_artifact c" for a
    using one that by (simp add: claim_swept_def)
  ultimately show ?case
    using Cons.IH [OF rest] by (intro conjI ballI allI impI) (blast, simp, simp)
qed simp

text \<open>
  The claims sweep spares live work: it adds no claim, deletes none whose lease has not been
  expired for the grace period, and leaves the artifact under such a claim exactly as it is.
\<close>

theorem sweep_spares_live:
  assumes "pkey c_id (claims d)" and "pkey c_artifact (claims d)" and "sweepAbandonedClaims E grace d = (n, d')"
    and "c \<in> set (claims d)" and "pg_now E - clampGrace grace * 60000 \<le> c_expires c"
  shows "c \<in> set (claims d') \<and> artifact_of d' (c_artifact c) = artifact_of d (c_artifact c) \<and>
    set (claims d') \<subseteq> set (claims d)"
proof -
  let ?old = "scan_expired_claims E (clampGrace grace) d"
  have "c_id c \<noteq> c_id x \<and> c_artifact c \<noteq> c_artifact x" if "x \<in> set ?old" for x
  proof -
    have "x \<in> set (claims d)" "x \<noteq> c" using that assms(5) by (auto simp: scan_expired_claims_def past_grace_def)
    then show ?thesis using assms(1,2,4) pkey_unique by metis
  qed
  then have "c_id c \<notin> c_id ` set ?old" "c_artifact c \<notin> c_artifact ` set ?old" by blast+
  moreover have "each_item (sweep_claim E) ?old d = (n, d')" using assms(3) by (simp add: sweepAbandonedClaims_def)
  ultimately show ?thesis using swept_all [of E ?old d n d'] assms(4) by blast
qed

theorem sweep_spares_live_witness:
  "a_claim ''C'' ''T'' ''K'' ''A'' ''ann'' 2000000 \<in> set (claims (snd (sweepAbandonedClaims dev_env None board_db)))"
proof -
  have "pkey c_id (claims board_db)" "pkey c_artifact (claims board_db)"
    "pg_now dev_env - clampGrace None * 60000 \<le> c_expires (a_claim ''C'' ''T'' ''K'' ''A'' ''ann'' 2000000)" by code_simp+
  moreover have "a_claim ''C'' ''T'' ''K'' ''A'' ''ann'' 2000000 \<in> set (claims board_db)" by (simp add: board_db_def)
  ultimately show ?thesis
    using sweep_spares_live [OF _ _ prod.collapse [symmetric], of board_db] by blast
qed

end
