(* ===== verification/RouteLaw.thy ===== *)
theory RouteLaw
  imports Sweep
begin

text \<open>
  The routes of requests, abstractly. \<open>route_move\<close> is the state machine of requests, steps and
  motions without topics, artifacts, tasks and events: a request is submitted, its current step is
  endorsed, reworked or handed over to a motion, the request is approved, settled or withdrawn, a
  motion is opened or moves on. \<open>route_ok\<close> is its invariant, \<open>route_final\<close> what it never changes.
  The section on refinement shows that every operation of the services is a sequence of such moves.
\<close>

section \<open>The machine\<close>

definition route_same :: "db \<Rightarrow> db \<Rightarrow> bool" where
  "route_same d d' \<longleftrightarrow> requests d' = requests d \<and> steps d' = steps d \<and> motions d' = motions d"

text \<open>\<open>s\<close> is the current step, at index \<open>i\<close>, of the open request \<open>r\<close>.\<close>

definition at_step :: "db \<Rightarrow> request_row \<Rightarrow> nat \<Rightarrow> step_row \<Rightarrow> bool" where
  "at_step d r i s \<longleftrightarrow> request_of d (r_id r) = Some r \<and> r_status r = Open \<and> r_current r = i \<and>
     step_of d (r_id r) i = Some s"

text \<open>\<open>s\<close> may be decided: no motion in flight decides it instead.\<close>

definition decidable :: "db \<Rightarrow> request_row \<Rightarrow> nat \<Rightarrow> step_row \<Rightarrow> bool" where
  "decidable d r i s \<longleftrightarrow> at_step d r i s \<and>
     (\<forall>m \<in> set (motions d). s_motion s = Some (m_id m) \<longrightarrow> \<not> in_flight (m_status m))"

definition keeps_step :: "(step_row \<Rightarrow> step_row) \<Rightarrow> step_row \<Rightarrow> bool" where
  "keeps_step g s \<longleftrightarrow> (\<forall>x. step_key (g x) = step_key x) \<and> s_status (g s) \<in> {S_pending, S_motion_proposed} \<and>
     (s_motion (g s) = None \<or> s_motion (g s) = s_motion s \<and> s_status (g s) = s_status s)"

definition give_motion :: "string \<Rightarrow> step_row \<Rightarrow> step_row" where
  "give_motion mid s = s\<lparr>s_status := S_motion_proposed, s_motion := Some mid\<rparr>"

inductive route_move :: "db \<Rightarrow> db \<Rightarrow> bool" where
  stay: "route_same d d' \<Longrightarrow> route_move d d'"
| submit: "find_row r_id (r_id r) (requests d) = None \<Longrightarrow> r_status r = Open \<Longrightarrow> r_current r = 0 \<Longrightarrow>
    ss \<noteq> [] \<Longrightarrow> map s_index ss = [0..<length ss] \<Longrightarrow>
    \<forall>s \<in> set ss. s_request s = r_id r \<and> s_status s = S_pending \<and> s_motion s = None \<Longrightarrow>
    route_same (d\<lparr>requests := requests d @ [r], steps := steps d @ ss\<rparr>) d' \<Longrightarrow> route_move d d'"
| endorse: "decidable d r i s \<Longrightarrow> step_of d (r_id r) (Suc i) \<noteq> None \<Longrightarrow>
    route_same (advance_step E (r_id r) (Suc i) (set_step (r_id r) i (decide_row E S_endorsed who) d)) d' \<Longrightarrow>
    route_move d d'"
| approve: "decidable d r i s \<Longrightarrow> step_of d (r_id r) (Suc i) = None \<Longrightarrow>
    route_same (set_request (r_id r) (\<lambda>x. x\<lparr>r_status := Approved\<rparr>)
                  (set_step (r_id r) i (decide_row E S_endorsed who) d)) d' \<Longrightarrow> route_move d d'"
| settle: "decidable d r i s \<Longrightarrow> st \<notin> {Open, Approved} \<Longrightarrow>
    route_same (set_request (r_id r) (\<lambda>x. x\<lparr>r_status := st\<rparr>) (set_step (r_id r) i (decide_row E t who) d)) d' \<Longrightarrow>
    route_move d d'"
| rework: "at_step d r i s \<Longrightarrow> keeps_step g s \<Longrightarrow> route_same (set_step (r_id r) i g d) d' \<Longrightarrow> route_move d d'"
| hand_over: "at_step d r i s \<Longrightarrow> find_row m_id (m_id m) (motions d) = None \<Longrightarrow>
    route_same (set_step (r_id r) i (give_motion (m_id m)) (d\<lparr>motions := motions d @ [m]\<rparr>)) d' \<Longrightarrow>
    route_move d d'"
| withdraw: "request_of d rid = Some r \<Longrightarrow> r_status r = Open \<Longrightarrow> route_same (reject_rows rid d) d' \<Longrightarrow>
    route_move d d'"
| open_motion: "find_row m_id (m_id m) (motions d) = None \<Longrightarrow>
    route_same (d\<lparr>motions := motions d @ [m]\<rparr>) d' \<Longrightarrow> route_move d d'"
| progress: "motion_of d mid = Some m \<Longrightarrow> in_flight (m_status m) \<Longrightarrow> \<forall>x. m_id (f x) = m_id x \<Longrightarrow>
    route_same (set_motion mid f d) d' \<Longrightarrow> route_move d d'"

section \<open>The invariant\<close>

definition steps_in :: "step_row list \<Rightarrow> string \<Rightarrow> step_row set" where
  "steps_in ss rid = {s \<in> set ss. s_request s = rid}"

text \<open>Where a step of the request may stand, by its position relative to the current one.\<close>

definition placed :: "request_row \<Rightarrow> step_row \<Rightarrow> bool" where
  "placed r s \<longleftrightarrow>
     (s_index s < r_current r \<longrightarrow> s_status s = S_endorsed) \<and>
     (r_status r = Open \<and> s_index s = r_current r \<longrightarrow> s_status s \<in> {S_pending, S_motion_proposed}) \<and>
     (r_status r = Open \<and> r_current r < s_index s \<longrightarrow> s_status s = S_pending) \<and>
     (r_status r = Approved \<longrightarrow> s_status s = S_endorsed)"

definition request_ok :: "step_row list \<Rightarrow> request_row \<Rightarrow> bool" where
  "request_ok ss r \<longleftrightarrow> (\<exists>n. s_index ` steps_in ss (r_id r) = {0..<n} \<and> r_current r < n) \<and>
     (\<forall>s \<in> steps_in ss (r_id r). placed r s)"

definition step_ok :: "request_row list \<Rightarrow> motion_row list \<Rightarrow> step_row \<Rightarrow> bool" where
  "step_ok rs ms s \<longleftrightarrow> s_request s \<in> r_id ` set rs \<and>
     (\<forall>mid. s_motion s = Some mid \<longrightarrow>
        (\<exists>m \<in> set ms. m_id m = mid \<and> (in_flight (m_status m) \<longrightarrow> s_status s = S_motion_proposed)))"

definition route_ok :: "db \<Rightarrow> bool" where
  "route_ok d \<longleftrightarrow> pkey r_id (requests d) \<and> pkey step_key (steps d) \<and> pkey m_id (motions d) \<and>
     (\<forall>r \<in> set (requests d). request_ok (steps d) r) \<and>
     (\<forall>s \<in> set (steps d). step_ok (requests d) (motions d) s)"

text \<open>What is final: a request that is no longer open, with its steps, and a motion that is decided.\<close>

definition route_final :: "db \<Rightarrow> db \<Rightarrow> bool" where
  "route_final d d' \<longleftrightarrow>
     (\<forall>r \<in> set (requests d). r_status r \<noteq> Open \<longrightarrow>
        r \<in> set (requests d') \<and> steps_in (steps d') (r_id r) = steps_in (steps d) (r_id r)) \<and>
     (\<forall>m \<in> set (motions d). \<not> in_flight (m_status m) \<longrightarrow> m \<in> set (motions d')) \<and>
     r_id ` set (requests d) \<subseteq> r_id ` set (requests d')"

lemma route_final_refl: "route_final d d"
  by (simp add: route_final_def)

lemma route_final_trans: "route_final d d' \<Longrightarrow> route_final d' d'' \<Longrightarrow> route_final d d''"
  unfolding route_final_def by (metis subset_trans)

lemma route_same_ok: "route_same d d' \<Longrightarrow> route_ok d' = route_ok d"
  by (simp add: route_same_def route_ok_def)

lemma route_same_final: "route_same d' d'' \<Longrightarrow> route_final d d'' = route_final d d'"
  by (simp add: route_same_def route_final_def)

lemma route_same_trans: "route_same d d' \<Longrightarrow> route_same d' d'' \<Longrightarrow> route_same d d''"
  by (simp add: route_same_def)

text \<open>Lookups under the invariant.\<close>

lemma step_of_in: "step_of d rid i = Some s \<Longrightarrow> s \<in> steps_in (steps d) rid \<and> s_index s = i"
  by (auto simp: step_of_def steps_in_def step_key_def dest!: find_row_Some)

lemma step_of_None: "step_of d rid i = None \<longleftrightarrow> i \<notin> s_index ` steps_in (steps d) rid"
  by (auto simp: step_of_def steps_in_def step_key_def find_row_None)

lemma step_unique:
  "route_ok d \<Longrightarrow> s \<in> steps_in (steps d) rid \<Longrightarrow> t \<in> steps_in (steps d) rid \<Longrightarrow> s_index s = s_index t \<Longrightarrow> s = t"
  by (auto simp: route_ok_def steps_in_def step_key_def intro: pkey_unique)

lemma steps_in_update:
  "(\<And>s. step_key (g s) = step_key s) \<Longrightarrow>
    steps_in (update_where (\<lambda>s. s_request s = rid) g ss) x =
      (if x = rid then g ` steps_in ss rid else steps_in ss x)"
  by (auto simp: steps_in_def in_update_where step_key_def split: if_splits)

lemma request_of_in: "request_of d rid = Some r \<Longrightarrow> r \<in> set (requests d) \<and> r_id r = rid"
  unfolding request_of_def by (rule find_row_Some)

lemma request_unique:
  "route_ok d \<Longrightarrow> request_of d rid = Some r \<Longrightarrow> x \<in> set (requests d) \<Longrightarrow> r_id x = rid \<Longrightarrow> x = r"
  using request_of_in by (metis pkey_unique route_ok_def)

text \<open>One request with its steps is rewritten, and motions move on: the shape of every other move.\<close>

lemma route_rewrite:
  assumes ok: "route_ok d" and r: "request_of d rid = Some r"
    and rows: "requests d' = update_where (\<lambda>x. r_id x = rid) f (requests d)"
      "steps d' = update_where (\<lambda>s. s_request s = rid) g (steps d)"
    and keys: "\<And>x. r_id (f x) = r_id x" "\<And>s. step_key (g s) = step_key s"
    and ms: "pkey m_id (motions d')"
      "\<And>m. m \<in> set (motions d) \<Longrightarrow> \<exists>m' \<in> set (motions d'). m_id m' = m_id m \<and>
         (in_flight (m_status m') \<longrightarrow> in_flight (m_status m))"
      "\<And>m. m \<in> set (motions d) \<Longrightarrow> \<not> in_flight (m_status m) \<Longrightarrow> m \<in> set (motions d')"
    and current: "r_current (f r) \<in> s_index ` steps_in (steps d) rid"
    and placed: "\<And>s. s \<in> steps_in (steps d) rid \<Longrightarrow> placed r s \<Longrightarrow> placed (f r) (g s)"
    and link: "\<And>s mid. s \<in> steps_in (steps d) rid \<Longrightarrow> s_motion (g s) = Some mid \<Longrightarrow>
      \<exists>m \<in> set (motions d'). m_id m = mid \<and> (in_flight (m_status m) \<longrightarrow> s_status (g s) = S_motion_proposed)"
    and status: "r_status r = Open"
  shows "route_ok d' \<and> route_final d d'"
proof -
  have rin: "r \<in> set (requests d)" "r_id r = rid" using request_of_in [OF r] by auto
  have same: "(if r_id y = rid then f y else y) = (if y = r then f r else y)" if "y \<in> set (requests d)" for y
    using request_unique [OF ok r that] rin by (cases "y = r") auto
  have inreq: "x \<in> set (requests d') \<longleftrightarrow> (\<exists>y \<in> set (requests d). x = (if y = r then f r else y))" for x
    unfolding rows(1) in_update_where by (rule bex_cong [OF refl]) (simp add: same)
  have ids: "r_id ` set (requests d') = r_id ` set (requests d)"
    unfolding rows(1) by (rule image_update_where) (rule keys)
  note sin = steps_in_update [of g rid "steps d", OF keys(2), folded rows(2)]
  have idx: "s_index ` g ` steps_in (steps d) rid = s_index ` steps_in (steps d) rid"
    using keys(2) by (simp add: image_image step_key_def)
  have "request_ok (steps d') x" if x: "x \<in> set (requests d')" for x
  proof -
    obtain y where y: "y \<in> set (requests d)" "x = (if y = r then f r else y)"
      using iffD1 [OF inreq x] by (elim bexE)
    have yok: "request_ok (steps d) y" using ok y(1) by (simp add: route_ok_def)
    show ?thesis
    proof (cases "y = r")
      case True
      then have "x = f r" "r_id x = rid" using y rin keys by auto
      moreover obtain n where "s_index ` steps_in (steps d) rid = {0..<n}"
        using yok True rin by (auto simp: request_ok_def)
      moreover from this have "r_current (f r) < n" using current by simp
      ultimately show ?thesis
        using yok True rin idx placed by (auto simp: request_ok_def sin)
    next
      case False
      then have "x = y" "r_id y \<noteq> rid" using y request_unique [OF ok r] by auto
      then show ?thesis using yok by (simp add: request_ok_def sin)
    qed
  qed
  moreover have "step_ok (requests d') (motions d') s" if s: "s \<in> set (steps d')" for s
  proof -
    obtain t where t: "t \<in> set (steps d)" "s = (if s_request t = rid then g t else t)"
      using s unfolding rows(2) in_update_where by blast
    have tok: "step_ok (requests d) (motions d) t" using ok t(1) by (simp add: route_ok_def)
    have req: "s_request s \<in> r_id ` set (requests d')"
      using tok t keys(2) [of t] ids by (auto simp: step_ok_def step_key_def)
    show ?thesis
    proof (cases "s_request t = rid")
      case True
      then show ?thesis using req t link by (simp add: step_ok_def steps_in_def)
    next
      case False
      then show ?thesis using req t tok ms(2) by (fastforce simp: step_ok_def)
    qed
  qed
  moreover have "pkey r_id (requests d')" "pkey step_key (steps d')"
    using ok keys by (simp_all add: rows route_ok_def pkey_update_where)
  moreover have "x \<in> set (requests d') \<and> steps_in (steps d') (r_id x) = steps_in (steps d) (r_id x)"
    if x: "x \<in> set (requests d)" "r_status x \<noteq> Open" for x
  proof -
    have "x \<noteq> r" using x(2) status by auto
    then have "x \<in> set (requests d')" "r_id x \<noteq> rid"
      using request_unique [OF ok r x(1)] x(1) iffD2 [OF inreq bexI [of _ x]] by auto
    then show ?thesis by (simp add: sin)
  qed
  then have "route_final d d'" using ms(3) ids by (simp add: route_final_def)
  moreover note ms(1)
  ultimately show ?thesis unfolding route_ok_def by blast
qed

section \<open>Every move keeps the invariant\<close>

lemma set_step_rows:
  "update_where (\<lambda>s. s_request s = rid \<and> s_index s = i) g ss =
    update_where (\<lambda>s. s_request s = rid) (\<lambda>s. if s_index s = i then g s else s) ss"
  by (simp add: update_where_def)

lemma advance_rows:
  "steps (advance_step E rid j (set_step rid i g d)) = update_where (\<lambda>s. s_request s = rid)
     (\<lambda>s. if s_index s = i then (if s_index (g s) = j then fresh_deadline E (g s) else g s)
          else if s_index s = j then fresh_deadline E s else s) (steps d)"
  if "\<And>s. step_key (g s) = step_key s"
  using that
  by (auto simp: advance_step_def set_request_def set_step_def update_where_def step_key_def)

lemma decide_row_fields [simp]:
  "step_key (decide_row E t who s) = step_key s" "s_index (decide_row E t who s) = s_index s"
  "s_status (decide_row E t who s) = t" "s_motion (decide_row E t who s) = s_motion s"
  by (simp_all add: decide_row_def step_key_def)

lemma fresh_deadline_fields [simp]:
  "step_key (fresh_deadline E s) = step_key s" "s_index (fresh_deadline E s) = s_index s"
  "s_status (fresh_deadline E s) = s_status s" "s_motion (fresh_deadline E s) = s_motion s"
  by (simp_all add: fresh_deadline_def step_key_def)

lemma give_motion_fields [simp]:
  "step_key (give_motion mid s) = step_key s" "s_index (give_motion mid s) = s_index s"
  "s_status (give_motion mid s) = S_motion_proposed" "s_motion (give_motion mid s) = Some mid"
  by (simp_all add: give_motion_def step_key_def)

lemma at_stepD:
  assumes "at_step d r i s"
  shows "request_of d (r_id r) = Some r" "r_status r = Open" "r_current r = i"
    "s \<in> steps_in (steps d) (r_id r)" "s_index s = i"
  using assms step_of_in by (auto simp: at_step_def)

lemma placed_others:
  "placed r s \<Longrightarrow> s_index s \<noteq> r_current r \<Longrightarrow> r_status r = Open \<Longrightarrow> st \<noteq> Approved \<Longrightarrow>
    placed (r\<lparr>r_status := st\<rparr>) s"
  by (auto simp: placed_def)

lemma motion_linked:
  assumes "route_ok d" and "s \<in> steps_in (steps d) rid" and "s_motion s = Some mid"
  shows "\<exists>m \<in> set (motions d). m_id m = mid \<and> (in_flight (m_status m) \<longrightarrow> s_status s = S_motion_proposed)"
  using assms by (auto simp: route_ok_def steps_in_def step_ok_def)

text \<open>The moves on the current step; \<open>st\<close> is the status of the request after it.\<close>

lemma current_move:
  assumes ok: "route_ok d" and at: "at_step d r i s"
    and key: "\<And>x. step_key (g x) = step_key x"
    and st: "st = Open \<and> s_status (g s) \<in> {S_pending, S_motion_proposed} \<or> st \<notin> {Open, Approved}"
    and ms: "motions d' = motions d @ new" "pkey m_id (motions d @ new)"
    and link: "\<And>mid. s_motion (g s) = Some mid \<Longrightarrow> \<exists>m \<in> set (motions d'). m_id m = mid \<and>
      (in_flight (m_status m) \<longrightarrow> s_status (g s) = S_motion_proposed)"
    and rows: "requests d' = update_where (\<lambda>x. r_id x = r_id r) (\<lambda>x. x\<lparr>r_status := st\<rparr>) (requests d)"
      "steps d' = update_where (\<lambda>s. s_request s = r_id r \<and> s_index s = i) g (steps d)"
  shows "route_ok d' \<and> route_final d d'"
proof (rule route_rewrite [OF ok at_stepD(1) [OF at] rows(1) rows(2) [unfolded set_step_rows]])
  note a = at_stepD [OF at]
  have only: "x = s" if "x \<in> steps_in (steps d) (r_id r)" "s_index x = i" for x
    using step_unique [OF ok that(1) a(4)] that(2) a(5) by simp
  show "step_key (if s_index x = i then g x else x) = step_key x" for x by (simp add: key)
  show "r_current (r\<lparr>r_status := st\<rparr>) \<in> s_index ` steps_in (steps d) (r_id r)"
    using a by (auto intro!: image_eqI [of _ _ s])
  have idx: "s_index (g x) = s_index x" for x using key [of x] by (simp add: step_key_def)
  show "placed (r\<lparr>r_status := st\<rparr>) (if s_index x = i then g x else x)"
    if x: "x \<in> steps_in (steps d) (r_id r)" "placed r x" for x
  proof (cases "s_index x = i")
    case True
    then have "x = s" using only x by blast
    then show ?thesis using st a idx True by (auto simp: placed_def)
  next
    case False
    then show ?thesis using x a st placed_others by (auto simp: placed_def)
  qed
  show "\<exists>m \<in> set (motions d'). m_id m = mid \<and> (in_flight (m_status m) \<longrightarrow>
      s_status (if s_index x = i then g x else x) = S_motion_proposed)"
    if x: "x \<in> steps_in (steps d) (r_id r)" "s_motion (if s_index x = i then g x else x) = Some mid" for x mid
  proof (cases "s_index x = i")
    case True
    then have "x = s" using only x by blast
    then show ?thesis using True x link by simp
  next
    case False
    then show ?thesis using x motion_linked [OF ok x(1), of mid] ms(1) by auto
  qed
qed (use ms at_stepD [OF at] in auto)

lemma open_rows:
  assumes "route_ok d" and "request_of d rid = Some r" and "r_status r = Open"
  shows "update_where (\<lambda>x. r_id x = rid) (\<lambda>x. x\<lparr>r_status := Open\<rparr>) (requests d) = requests d"
    and "update_where (\<lambda>x. r_id x = rid \<and> r_status x = Open) f (requests d) =
      update_where (\<lambda>x. r_id x = rid) f (requests d)"
  using request_unique [OF assms(1,2)] assms(3)
  by (auto simp: update_where_def intro!: map_idI map_cong)

lemma later_steps:
  assumes "route_ok d" and "request_of d (r_id r) = Some r" and "x \<in> steps_in (steps d) (r_id r)"
    and "step_of d (r_id r) (Suc i) = None"
  shows "s_index x \<le> i"
proof -
  have "request_ok (steps d) r" using assms(1,2) request_of_in by (auto simp: route_ok_def)
  then obtain n where n: "s_index ` steps_in (steps d) (r_id r) = {0..<n}" by (auto simp: request_ok_def)
  have "s_index x \<in> {0..<n}" using assms(3) n by blast
  moreover have "Suc i \<notin> {0..<n}" using assms(4) unfolding step_of_None n .
  ultimately show ?thesis by simp
qed

lemma endorse_law:
  assumes ok: "route_ok d" and de: "decidable d r i s" and nx: "step_of d (r_id r) (Suc i) \<noteq> None"
  shows "route_ok (advance_step E (r_id r) (Suc i) (set_step (r_id r) i (decide_row E S_endorsed who) d)) \<and>
    route_final d (advance_step E (r_id r) (Suc i) (set_step (r_id r) i (decide_row E S_endorsed who) d))"
    (is "route_ok ?d \<and> _")
proof (rule route_rewrite [OF ok, where f = "\<lambda>x. x\<lparr>r_current := Suc i\<rparr>"])
  have at: "at_step d r i s" using de by (simp add: decidable_def)
  note a = at_stepD [OF at]
  have only: "x = s" if "x \<in> steps_in (steps d) (r_id r)" "s_index x = i" for x
    using step_unique [OF ok that(1) a(4)] that(2) a(5) by simp
  show "request_of d (r_id r) = Some r" "r_status r = Open" by (rule a)+
  show "requests ?d = update_where (\<lambda>x. r_id x = r_id r) (\<lambda>x. x\<lparr>r_current := Suc i\<rparr>) (requests d)"
    by (simp add: advance_step_def set_request_def set_step_def)
  show "steps ?d = update_where (\<lambda>s. s_request s = r_id r)
     (\<lambda>s. if s_index s = i then decide_row E S_endorsed who s
          else if s_index s = Suc i then fresh_deadline E s else s) (steps d)"
    by (subst advance_rows) (auto simp: update_where_def)
  show "r_current (r\<lparr>r_current := Suc i\<rparr>) \<in> s_index ` steps_in (steps d) (r_id r)"
    using nx step_of_None [of d "r_id r" "Suc i"] by auto
  show "placed (r\<lparr>r_current := Suc i\<rparr>) (if s_index x = i then decide_row E S_endorsed who x
      else if s_index x = Suc i then fresh_deadline E x else x)" if "placed r x" for x
    using that a by (auto simp: placed_def)
  show "\<exists>m \<in> set (motions ?d). m_id m = mid \<and> (in_flight (m_status m) \<longrightarrow>
      s_status (if s_index x = i then decide_row E S_endorsed who x
        else if s_index x = Suc i then fresh_deadline E x else x) = S_motion_proposed)"
    if x: "x \<in> steps_in (steps d) (r_id r)" "s_motion (if s_index x = i then decide_row E S_endorsed who x
      else if s_index x = Suc i then fresh_deadline E x else x) = Some mid" for x mid
  proof -
    have "s_motion x = Some mid" using x(2) by (simp split: if_splits)
    moreover have "s_index x = i \<Longrightarrow> x = s" using only x(1) by blast
    moreover have "motions ?d = motions d" by (simp add: advance_step_def set_request_def set_step_def)
    ultimately show ?thesis
      using motion_linked [OF ok x(1), of mid] de by (auto simp: decidable_def)
  qed
qed (use ok in \<open>auto simp: advance_step_def set_request_def set_step_def route_ok_def\<close>)

lemma approve_law:
  assumes ok: "route_ok d" and de: "decidable d r i s" and nx: "step_of d (r_id r) (Suc i) = None"
  shows "route_ok (set_request (r_id r) (\<lambda>x. x\<lparr>r_status := Approved\<rparr>)
      (set_step (r_id r) i (decide_row E S_endorsed who) d)) \<and>
    route_final d (set_request (r_id r) (\<lambda>x. x\<lparr>r_status := Approved\<rparr>)
      (set_step (r_id r) i (decide_row E S_endorsed who) d))" (is "route_ok ?d \<and> _")
proof (rule route_rewrite [OF ok])
  have at: "at_step d r i s" using de by (simp add: decidable_def)
  note a = at_stepD [OF at]
  have only: "x = s" if "x \<in> steps_in (steps d) (r_id r)" "s_index x = i" for x
    using step_unique [OF ok that(1) a(4)] that(2) a(5) by simp
  show "request_of d (r_id r) = Some r" "r_status r = Open" by (rule a)+
  show "requests ?d = update_where (\<lambda>x. r_id x = r_id r) (\<lambda>x. x\<lparr>r_status := Approved\<rparr>) (requests d)"
    "steps ?d = update_where (\<lambda>s. s_request s = r_id r)
      (\<lambda>s. if s_index s = i then decide_row E S_endorsed who s else s) (steps d)"
    by (simp_all add: set_request_def set_step_def set_step_rows)
  show "r_current (r\<lparr>r_status := Approved\<rparr>) \<in> s_index ` steps_in (steps d) (r_id r)"
    using a by (auto intro!: image_eqI [of _ _ s])
  show "placed (r\<lparr>r_status := Approved\<rparr>) (if s_index x = i then decide_row E S_endorsed who x else x)"
    if "x \<in> steps_in (steps d) (r_id r)" "placed r x" for x
    using that a later_steps [OF ok a(1) that(1) nx] by (auto simp: placed_def)
  show "\<exists>m \<in> set (motions ?d). m_id m = mid \<and> (in_flight (m_status m) \<longrightarrow>
      s_status (if s_index x = i then decide_row E S_endorsed who x else x) = S_motion_proposed)"
    if x: "x \<in> steps_in (steps d) (r_id r)"
      "s_motion (if s_index x = i then decide_row E S_endorsed who x else x) = Some mid" for x mid
  proof -
    have "s_motion x = Some mid" using x(2) by (simp split: if_splits)
    moreover have "s_index x = i \<Longrightarrow> x = s" using only x(1) by blast
    ultimately show ?thesis
      using motion_linked [OF ok x(1), of mid] de by (auto simp: decidable_def set_request_def set_step_def)
  qed
qed (use ok in \<open>auto simp: set_request_def set_step_def route_ok_def\<close>)

lemma withdraw_law:
  assumes ok: "route_ok d" and r: "request_of d rid = Some r" and op: "r_status r = Open"
  shows "route_ok (reject_rows rid d) \<and> route_final d (reject_rows rid d)"
proof (rule route_rewrite [OF ok r, where f = "\<lambda>x. x\<lparr>r_status := Rejected\<rparr>"])
  show "requests (reject_rows rid d) = update_where (\<lambda>x. r_id x = rid) (\<lambda>x. x\<lparr>r_status := Rejected\<rparr>) (requests d)"
    by (simp add: reject_rows_def open_rows [OF ok r op])
  show "steps (reject_rows rid d) = update_where (\<lambda>s. s_request s = rid)
      (\<lambda>s. if s_status s = S_pending then s\<lparr>s_status := S_rejected\<rparr> else s) (steps d)"
    by (simp add: reject_rows_def update_where_def)
  have "request_ok (steps d) r" "r_id r = rid" using ok request_of_in [OF r] by (auto simp: route_ok_def)
  then show "r_current (r\<lparr>r_status := Rejected\<rparr>) \<in> s_index ` steps_in (steps d) rid"
    by (auto simp: request_ok_def)
  show "placed (r\<lparr>r_status := Rejected\<rparr>) (if s_status x = S_pending then x\<lparr>s_status := S_rejected\<rparr> else x)"
    if "placed r x" for x using that by (auto simp: placed_def)
  show "\<exists>m \<in> set (motions (reject_rows rid d)). m_id m = mid \<and> (in_flight (m_status m) \<longrightarrow>
      s_status (if s_status x = S_pending then x\<lparr>s_status := S_rejected\<rparr> else x) = S_motion_proposed)"
    if x: "x \<in> steps_in (steps d) rid"
      "s_motion (if s_status x = S_pending then x\<lparr>s_status := S_rejected\<rparr> else x) = Some mid" for x mid
  proof -
    have "s_motion x = Some mid" using x(2) by (simp split: if_splits)
    then show ?thesis using motion_linked [OF ok x(1), of mid] by (auto simp: reject_rows_def)
  qed
qed (use ok op in \<open>auto simp: reject_rows_def route_ok_def step_key_def\<close>)

lemma motions_law:
  assumes ok: "route_ok d" and same: "requests d' = requests d" "steps d' = steps d"
    and key: "pkey m_id (motions d')"
    and ms: "\<And>m. m \<in> set (motions d) \<Longrightarrow> \<exists>m' \<in> set (motions d'). m_id m' = m_id m \<and>
         (in_flight (m_status m') \<longrightarrow> in_flight (m_status m))"
      "\<And>m. m \<in> set (motions d) \<Longrightarrow> \<not> in_flight (m_status m) \<Longrightarrow> m \<in> set (motions d')"
  shows "route_ok d' \<and> route_final d d'"
proof -
  have "step_ok (requests d) (motions d') s" if s: "step_ok (requests d) (motions d) s" for s
    using s ms(1) by (fastforce simp: step_ok_def)
  then show ?thesis using ok same key ms(2) by (simp add: route_ok_def route_final_def)
qed

lemma progress_law:
  assumes ok: "route_ok d" and m: "motion_of d mid = Some m" and fl: "in_flight (m_status m)"
    and key: "\<And>x. m_id (f x) = m_id x"
  shows "route_ok (set_motion mid f d) \<and> route_final d (set_motion mid f d)"
proof (rule motions_law [OF ok])
  have mem: "m \<in> set (motions d)" "m_id m = mid" using m by (auto simp: motion_of_def dest: find_row_Some)
  have only: "x = m" if "x \<in> set (motions d)" "m_id x = mid" for x
    using ok that mem by (metis pkey_unique route_ok_def)
  show "pkey m_id (motions (set_motion mid f d))"
    using ok key by (simp add: set_motion_def pkey_update_where route_ok_def)
  show "\<exists>m' \<in> set (motions (set_motion mid f d)). m_id m' = m_id x \<and>
      (in_flight (m_status m') \<longrightarrow> in_flight (m_status x))" if x: "x \<in> set (motions d)" for x
  proof (rule bexI)
    show "(if m_id x = mid then f x else x) \<in> set (motions (set_motion mid f d))"
      using x by (auto simp: set_motion_def set_update_where)
  qed (use only [OF x] key fl in auto)
  show "x \<in> set (motions (set_motion mid f d))" if x: "x \<in> set (motions d)" "\<not> in_flight (m_status x)" for x
  proof -
    have "m_id x \<noteq> mid" using only x fl by auto
    then show ?thesis using x by (auto simp: set_motion_def in_update_where intro!: bexI [of _ x])
  qed
qed (simp_all add: set_motion_def)

lemma submit_law:
  assumes ok: "route_ok d" and fresh: "find_row r_id (r_id r) (requests d) = None"
    and r: "r_status r = Open" "r_current r = 0" and ne: "ss \<noteq> []" and idx: "map s_index ss = [0..<length ss]"
    and ss: "\<forall>s \<in> set ss. s_request s = r_id r \<and> s_status s = S_pending \<and> s_motion s = None"
  shows "route_ok (d\<lparr>requests := requests d @ [r], steps := steps d @ ss\<rparr>) \<and>
    route_final d (d\<lparr>requests := requests d @ [r], steps := steps d @ ss\<rparr>)"
proof -
  have none: "s_request s \<noteq> r_id r" if "s \<in> set (steps d)" for s
  proof -
    have "s_request s \<in> r_id ` set (requests d)" using ok that by (simp add: route_ok_def step_ok_def)
    then show ?thesis using fresh unfolding find_row_None by (metis imageE)
  qed
  have ids: "r_id x \<noteq> r_id r" if "x \<in> set (requests d)" for x using fresh that by (auto simp: find_row_None)
  have new: "steps_in (steps d @ ss) (r_id r) = set ss" using none ss by (auto simp: steps_in_def)
  have old: "steps_in (steps d @ ss) (r_id x) = steps_in (steps d) (r_id x)" if "x \<in> set (requests d)" for x
    using ids [OF that] ss by (auto simp: steps_in_def)
  have img: "s_index ` set ss = {0..<length ss}" using idx by (metis atLeastLessThan_upt list.set_map)
  have "distinct (map s_index ss)" using idx by simp
  then have "pkey step_key ss"
    using ss by (auto simp: pkey_def step_key_def distinct_map inj_on_def)
  then have keys: "pkey step_key (steps d @ ss)"
    using ok none ss by (auto simp: pkey_def route_ok_def step_key_def)
  have "request_ok (steps d @ ss) r"
    using new img ne r ss by (auto simp: request_ok_def placed_def)
  moreover have "request_ok (steps d @ ss) x" if "x \<in> set (requests d)" for x
    using ok that old by (simp add: route_ok_def request_ok_def)
  moreover have "step_ok (requests d @ [r]) (motions d) s" if "s \<in> set (steps d @ ss)" for s
    using that ok ss by (auto simp: route_ok_def step_ok_def)
  ultimately show ?thesis
    using ok keys fresh old by (auto simp: route_ok_def route_final_def pkey_snoc)
qed

lemma route_move_ok: "route_move d d' \<Longrightarrow> route_ok d \<Longrightarrow> route_ok d' \<and> route_final d d'"
proof (induction rule: route_move.induct)
  case (stay d d')
  then show ?case by (simp add: route_same_ok route_same_final route_final_refl)
next
  case (submit r d ss d')
  then show ?case using submit_law [of d r ss] by (simp add: route_same_ok route_same_final)
next
  case (endorse d r i s E who d')
  then show ?case using endorse_law [of d r i s E who] by (simp add: route_same_ok route_same_final)
next
  case (approve d r i s E who d')
  then show ?case using approve_law [of d r i s E who] by (simp add: route_same_ok route_same_final)
next
  case (settle d r i s st E t who d')
  let ?d = "set_request (r_id r) (\<lambda>x. x\<lparr>r_status := st\<rparr>) (set_step (r_id r) i (decide_row E t who) d)"
  have at: "at_step d r i s" using settle.hyps(1) by (simp add: decidable_def)
  have "route_ok ?d \<and> route_final d ?d"
  proof (rule current_move [OF settle.prems at, where g = "decide_row E t who" and st = st and new = "[]"])
    show "\<exists>m \<in> set (motions ?d). m_id m = mid \<and> (in_flight (m_status m) \<longrightarrow>
        s_status (decide_row E t who s) = S_motion_proposed)" if "s_motion (decide_row E t who s) = Some mid" for mid
      using that settle.hyps(1) motion_linked [OF settle.prems at_stepD(4) [OF at], of mid]
      by (auto simp: decidable_def set_request_def set_step_def)
  qed (use settle.hyps settle.prems in \<open>auto simp: set_request_def set_step_def route_ok_def\<close>)
  then show ?case using settle.hyps by (simp add: route_same_ok route_same_final)
next
  case (rework d r i s g d')
  have key: "step_key (g x) = step_key x" for x using rework.hyps(2) by (simp add: keeps_step_def)
  have "route_ok (set_step (r_id r) i g d) \<and> route_final d (set_step (r_id r) i g d)"
  proof (rule current_move [OF rework.prems rework.hyps(1) key, where st = Open and new = "[]"])
    show "\<exists>m \<in> set (motions (set_step (r_id r) i g d)). m_id m = mid \<and> (in_flight (m_status m) \<longrightarrow>
        s_status (g s) = S_motion_proposed)" if "s_motion (g s) = Some mid" for mid
      using that rework.hyps(2) motion_linked [OF rework.prems at_stepD(4) [OF rework.hyps(1)], of mid]
      by (auto simp: keeps_step_def set_step_def)
    show "requests (set_step (r_id r) i g d) =
        update_where (\<lambda>x. r_id x = r_id r) (\<lambda>x. x\<lparr>r_status := Open\<rparr>) (requests d)"
      using open_rows(1) [OF rework.prems at_stepD(1,2) [OF rework.hyps(1)]] by (simp add: set_step_def)
  qed (use rework in \<open>simp_all add: set_step_def route_ok_def keeps_step_def\<close>)
  then show ?case using rework.hyps by (simp add: route_same_ok route_same_final)
next
  case (hand_over d r i s m d')
  let ?d = "set_step (r_id r) i (give_motion (m_id m)) (d\<lparr>motions := motions d @ [m]\<rparr>)"
  have "requests ?d = update_where (\<lambda>x. r_id x = r_id r) (\<lambda>x. x\<lparr>r_status := Open\<rparr>) (requests d)"
    using open_rows(1) [OF hand_over.prems at_stepD(1,2) [OF hand_over.hyps(1)]] by (simp add: set_step_def)
  then have "route_ok ?d \<and> route_final d ?d"
    by (intro current_move [OF hand_over.prems hand_over.hyps(1), where g = "give_motion (m_id m)"
          and st = Open and new = "[m]"])
      (use hand_over in \<open>simp_all add: set_step_def route_ok_def pkey_snoc\<close>)
  then show ?case using hand_over.hyps by (simp add: route_same_ok route_same_final)
next
  case (withdraw d rid r d')
  then show ?case using withdraw_law [of d rid r] by (simp add: route_same_ok route_same_final)
next
  case (open_motion m d d')
  have "route_ok (d\<lparr>motions := motions d @ [m]\<rparr>) \<and> route_final d (d\<lparr>motions := motions d @ [m]\<rparr>)"
    by (rule motions_law [OF open_motion.prems])
      (use open_motion in \<open>auto simp: pkey_snoc route_ok_def\<close>)
  then show ?case using open_motion.hyps by (simp add: route_same_ok route_same_final)
next
  case (progress d mid m f d')
  then show ?case using progress_law [of d mid m f] by (simp add: route_same_ok route_same_final)
qed

end
