(* ===== verification/Routing.thy ===== *)
theory Routing
  imports RouteLaw
begin

text \<open>
  The operations of the services refine the machine of \<open>RouteLaw\<close>: from a state that satisfies
  \<open>route_ok\<close>, what an operation does to requests, steps and motions is a sequence of moves.
  \<open>routed\<close> is that statement as a relation on databases; the locales of the services prove it for
  every operation that leaves the routes alone, the lemmas below for the others.
\<close>

abbreviation route_moves :: "db \<Rightarrow> db \<Rightarrow> bool" where
  "route_moves \<equiv> route_move\<^sup>*\<^sup>*"

definition routed :: "db \<Rightarrow> db \<Rightarrow> bool" where
  "routed d d' \<longleftrightarrow> (route_ok d \<longrightarrow> route_moves d d')"

lemma route_moves_ok: "route_moves d d' \<Longrightarrow> route_ok d \<Longrightarrow> route_ok d' \<and> route_final d d'"
proof (induction rule: rtranclp_induct)
  case base
  then show ?case by (simp add: route_final_refl)
next
  case (step d' d'')
  then show ?case using route_move_ok route_final_trans by blast
qed

lemma routed_refl [simp]: "routed d d"
  by (simp add: routed_def)

lemma routed_trans: "routed d d' \<Longrightarrow> routed d' d'' \<Longrightarrow> routed d d''"
  unfolding routed_def using route_moves_ok by (metis rtranclp_trans)

lemma routed_ok: "routed d d' \<Longrightarrow> route_ok d \<Longrightarrow> route_ok d' \<and> route_final d d'"
  unfolding routed_def using route_moves_ok by blast

lemma routed_same: "route_same d d' \<Longrightarrow> routed d d'"
  by (simp add: routed_def stay r_into_rtranclp)

lemma routed_move: "(route_ok d \<Longrightarrow> route_move d d') \<Longrightarrow> routed d d'"
  by (simp add: routed_def r_into_rtranclp)

lemma logged_same: "logged d d' \<Longrightarrow> route_same d d'"
  by (simp add: route_same_def)

section \<open>Operations that leave the routes alone\<close>

interpretation same: base_service route_same
  by unfold_locales (simp_all add: route_same_def)

interpretation same: board_service route_same
  by unfold_locales
    (auto simp: route_same_def task_created_def artifact_versioned_def claim_regranted_def
      claim_released_def task_finished_def set_task_status_def drop_expired_def drop_claim_def
      complete_rows_def)

interpretation route: base_service routed
proof
  show "routed d d''" if "routed d d'" "routed d' d''" for d d' d'' using that by (rule routed_trans)
qed (rule routed_same, simp add: route_same_def)+

interpretation route: board_service routed
  by unfold_locales
    (auto intro!: routed_same intro: same.rel_task_created same.rel_artifact_versioned
      same.rel_claim_regranted same.rel_claim_released same.rel_task_finished)

lemma routed_from_same: "after (\<lambda>_. route_same d) res \<Longrightarrow> after (\<lambda>_. routed d) res"
  by (erule after_mono) (rule routed_same)

text \<open>An operation whose net effect on the routes is that of \<open>d'\<close>.\<close>

lemma routed_net: "routed d d' \<Longrightarrow> after (\<lambda>_. route_same d') res \<Longrightarrow> after (\<lambda>_. routed d) res"
  by (rule route.rel_from) (auto intro: routed_from_same)

section \<open>Lookups\<close>

lemma at_step_exists:
  assumes ok: "route_ok d" and r: "request_of d rid = Some r" and op: "r_status r = Open"
  shows "\<exists>s. at_step d r (r_current r) s"
proof -
  have "r_id r = rid" "request_ok (steps d) r" using ok request_of_in [OF r] by (auto simp: route_ok_def)
  then have "step_of d (r_id r) (r_current r) \<noteq> None"
    using step_of_None [of d "r_id r" "r_current r"] by (auto simp: request_ok_def)
  then show ?thesis using r op \<open>r_id r = rid\<close> by (auto simp: at_step_def)
qed

lemma proposed_current:
  assumes ok: "route_ok d" and s: "s \<in> set (steps d)" "s_status s = S_motion_proposed"
    and r: "request_of d (s_request s) = Some r" "r_status r = Open"
  shows "at_step d r (s_index s) s"
proof -
  have rid: "r \<in> set (requests d)" "r_id r = s_request s" using request_of_in [OF r(1)] by auto
  have "s \<in> steps_in (steps d) (r_id r)" using s rid by (simp add: steps_in_def)
  then have "placed r s" using ok rid(1) by (auto simp: route_ok_def request_ok_def)
  then have "s_index s = r_current r"
    using s(2) r(2) by (auto simp: placed_def dest: linorder_neqE_nat)
  moreover have "pkey step_key (steps d)" using ok by (simp add: route_ok_def)
  then have "step_of d (s_request s) (s_index s) = Some s"
    using find_row_pkey [of step_key "steps d" s] s(1) by (simp add: step_of_def step_key_def)
  ultimately show ?thesis using r rid by (simp add: at_step_def)
qed

lemma pending_decidable:
  assumes "route_ok d" and "at_step d r i s" and "s_status s = S_pending"
  shows "decidable d r i s"
proof -
  have "\<not> in_flight (m_status m)" if m: "m \<in> set (motions d)" "s_motion s = Some (m_id m)" for m
  proof -
    obtain x where x: "x \<in> set (motions d)" "m_id x = m_id m" "\<not> in_flight (m_status x)"
      using motion_linked [OF assms(1) at_stepD(4) [OF assms(2)] m(2)] assms(3) by auto
    have "pkey m_id (motions d)" using assms(1) by (simp add: route_ok_def)
    then have "x = m" using x(1) m(1) x(2) by (rule pkey_unique)
    then show ?thesis using x by simp
  qed
  with assms(2) show ?thesis by (simp add: decidable_def)
qed

lemma step_of_set_step:
  "(\<And>s. step_key (g s) = step_key s) \<Longrightarrow> step_of (set_step rid i g d) x j =
     map_option (\<lambda>s. if s_request s = rid \<and> s_index s = i then g s else s) (step_of d x j)"
  by (simp add: step_of_def set_step_def find_row_update_where)

section \<open>Net effects\<close>

lemmas same_rules = same.rel_bind same.rel_then same.rel_block_Cons same.rel_block_Nil same.rel_return
  same.rel_emit same.rel_emitChain same.rel_resolveArtifact

lemma same_approved:
  "after (\<lambda>_. route_same (set_request (r_id r) (\<lambda>x. x\<lparr>r_status := Approved\<rparr>) d)) (approve_request E r i who d)"
  unfolding approve_request_def after_then [of _ "tx_write _"] after_write by (rule same_rules)+

lemma same_returned:
  "after (\<lambda>_. route_same (set_request (r_id r) (\<lambda>x. x\<lparr>r_status := Returned\<rparr>) d)) (return_request E r i who d)"
  unfolding return_request_def after_then [of _ "tx_write _"] after_write by (rule same_rules)+

lemma same_rejected:
  "after (\<lambda>_. route_same (set_request (r_id r) (\<lambda>x. x\<lparr>r_status := Rejected\<rparr>) d)) (reject_request E r i who extra d)"
  unfolding reject_request_def after_block(2) [of _ "tx_write _"] after_write by (rule same_rules)+

lemma same_exhausted:
  "after (\<lambda>_. route_same (set_request (r_id r) (\<lambda>x. x\<lparr>r_status := Escalation_exhausted\<rparr>)
     (set_step (r_id r) i (decide_row E S_escalated who) d))) (exhaust_request E r i who extra d)"
  unfolding exhaust_request_def after_block(2) [of _ "tx_write _"] after_write by (rule same_rules)+

lemma proposal_routed:
  assumes r: "request_of d rid = Some r" "r_status r = Open" "r_current r = i"
  shows "after (\<lambda>_. routed d) (proposeStepMotion E rid i b t d)"
proof -
  have "routed d d'" if fresh: "find_row m_id mid (motions d) = None"
    and d': "route_same (set_step rid i (give_motion mid) (d\<lparr>motions := motions d @ [step_motion E mid rid i b t]\<rparr>)) d'"
    for d' mid
  proof (rule routed_move)
    assume "route_ok d"
    then obtain s where "at_step d r i s" using at_step_exists [OF _ r(1,2)] r(3) by blast
    then show "route_move d d'"
      using fresh d' request_of_in [OF r(1)]
      by (intro hand_over [of d r i s "step_motion E mid rid i b t"]) (auto simp: step_motion_def)
  qed
  note move = this
  show ?thesis
    unfolding proposeStepMotion_def
    by (auto simp: after_simps intro!: after_emit move)
      (auto simp: step_motion_def route_same_def set_step_def give_motion_def [abs_def])
qed

section \<open>submitRequest\<close>

lemma after_insert_rows:
  "Q () (steps_update (\<lambda>tbl. tbl @ rows) d) \<Longrightarrow> after Q (tx_block (map (insert_row step_key steps steps_update) rows) d)"
proof (induction rows arbitrary: d)
  case Nil
  then show ?case by (cases d) (simp add: after_simps)
next
  case (Cons x rows)
  show ?case
    unfolding list.map after_block after_insert_row
    by (intro impI Cons.IH) (use Cons.prems in \<open>simp add: comp_def\<close>)
qed

lemma step_bodies_length: "step_bodies m route = Some bs \<Longrightarrow> length bs = length route"
  by (induction route arbitrary: bs) (auto split: if_splits option.splits)

lemma route_steps_fields:
  assumes "length bs = length route"
  shows "length (route_steps E rid m route bs) = length route"
    and "map s_index (route_steps E rid m route bs) = [0..<length route]"
    and "\<forall>s \<in> set (route_steps E rid m route bs). s_request s = rid \<and> s_status s = S_pending \<and> s_motion s = None"
proof -
  have "map s_index (route_steps E rid m route bs) = map fst (zip [0..<length route] (zip route bs))"
    by (auto simp: route_steps_def new_step_def)
  then show "map s_index (route_steps E rid m route bs) = [0..<length route]" using assms by simp
qed (use assms in \<open>auto simp: route_steps_def new_step_def\<close>)

lemma new_request_id [simp]: "r_id (new_request E rid t sb k w who ex sh) = rid"
  by (simp add: new_request_def)

lemma fresh_request_update:
  "find_row r_id rid rs = None \<Longrightarrow> r_id r = rid \<Longrightarrow> update_where (\<lambda>x. r_id x = rid) f (rs @ [r]) = rs @ [f r]"
  by (auto simp: update_where_def find_row_None intro!: map_idI)

text \<open>The inserted rows, with the bodies noted on the request or not, are one \<open>submit\<close> move.\<close>

lemma submitted_routed:
  assumes fresh: "find_row r_id rid (requests d) = None" and ne: "route \<noteq> []" and bs: "length bs = length route"
    and d': "requests d' = requests d @ [(new_request E rid t sb k w who ex sh)\<lparr>r_bodies := nb\<rparr>]"
      "steps d' = steps d @ route_steps E rid m route bs" "motions d' = motions d"
  shows "routed d d'"
proof (rule routed_move)
  let ?r = "(new_request E rid t sb k w who ex sh)\<lparr>r_bodies := nb\<rparr>"
  let ?ss = "route_steps E rid m route bs"
  note f = route_steps_fields [OF bs, of E rid m]
  show "route_move d d'"
    by (rule submit [of ?r d ?ss]) (use fresh ne f d' in \<open>auto simp: new_request_def route_same_def\<close>)
qed

text \<open>The block after the insertion of the request row; \<open>tail\<close> is the motion of a collective step 0.\<close>

lemma submit_block_routed:
  assumes fresh: "find_row r_id rid (requests d) = None" and ne: "route \<noteq> []" and bs: "length bs = length route"
    and tail: "tail = proposeStepMotion E rid 0 b t \<or> tail = tx_return ()"
  shows "after (\<lambda>_. routed d) (tx_block
      [tx_block (map (insert_row step_key steps steps_update) (route_steps E rid m route bs)),
       (if mk then tx_write (set_request rid (\<lambda>r. r\<lparr>r_bodies := Some nb\<rparr>)) else tx_return ()),
       emit E e, tail]
      (requests_update (\<lambda>tbl. tbl @ [new_request E rid t sb k w who ex sh]) d))"
proof -
  let ?r = "new_request E rid t sb k w who ex sh"
  have fin: "after (\<lambda>_. routed d) (tail d3)"
    if d3: "requests d3 = requests d @ [?r\<lparr>r_bodies := nb'\<rparr>]"
      "steps d3 = steps d @ route_steps E rid m route bs" "motions d3 = motions d" for d3 nb'
  proof (rule route.rel_from)
    show "routed d d3" by (rule submitted_routed [OF fresh ne bs d3])
    have "request_of d3 rid = Some (?r\<lparr>r_bodies := nb'\<rparr>)"
      using fresh by (simp add: request_of_def d3 find_row_append find_row_Cons new_request_def)
    then show "after (\<lambda>_. routed d3) (tail d3)"
      using tail by (auto intro!: proposal_routed route.rel_return simp: new_request_def)
  qed
  show ?thesis
  proof (cases mk)
    case True
    show ?thesis
      unfolding after_block
      by (rule after_insert_rows)
        (auto simp: True after_write after_prims intro!: after_emit fin [of _ "Some nb"]
          simp: set_request_def fresh_request_update [OF fresh new_request_id] simp del: update_where_append)
  next
    case False
    show ?thesis
      unfolding after_block
      by (rule after_insert_rows)
        (auto simp: False after_write after_prims intro!: after_emit fin [of _ None] simp: new_request_def)
  qed
qed

lemma submit_body_routed:
  assumes "route \<noteq> []"
  shows "after (\<lambda>_. routed d) (submit_body E t sb k w who ex rid m route d)"
proof (cases "find_row r_id rid (requests d) = None")
  case False
  then show ?thesis unfolding submit_body_def after_then after_insert_row new_request_id by blast
next
  case fresh: True
  show ?thesis
  proof (cases "step_bodies m route")
    case None
    then show ?thesis by (simp add: submit_body_def after_then after_insert_row after_prims)
  next
    case (Some bs)
    define tail :: "(unit, submit_result) dtx" where "tail = (case bs of
        Some b # _ \<Rightarrow> (if rr_procedure m = Collective then proposeStepMotion E rid 0 b t else tx_return ())
      | _ \<Rightarrow> tx_return ())"
    have "\<exists>b. tail = proposeStepMotion E rid 0 b t \<or> tail = tx_return ()"
      by (auto simp: tail_def split: list.split option.split)
    then obtain b where b: "tail = proposeStepMotion E rid 0 b t \<or> tail = tx_return ()" ..
    note block = submit_block_routed [OF fresh assms step_bodies_length [OF Some] b [unfolded tail_def]]
    show ?thesis
      unfolding submit_body_def Some option.case after_then after_insert_row after_if(1) after_prims
      by (cases "bodies_distinct m route bs")
        (simp_all only: not_True_eq_False not_False_eq_True if_True if_False after_prims block simp_thms)
  qed
qed

lemma deriveRoute_routed: "after (\<lambda>_. routed d) (submit_body E t sb k w who ex rid m (deriveRoute l rl sh) d)"
  by (rule submit_body_routed) (rule deriveRoute_ne)

lemma submitRequest_routed: "routed d (snd (submitRequest E pid t sty s k w pr who ex d))"
proof -
  have "routed d (snd (submit_checked E t sty s k w who ex d))" for d t sty s k w who ex
  proof -
    let ?d = "d\<lparr>uuid_ctr := Suc (uuid_ctr d)\<rparr>"
    have "routed d ?d" by (rule route.rel_outer) simp
    then have "routed d (snd (transaction (submit_body E t s k w who ex rid m (deriveRoute l rl sh)) ?d))"
      for rid m l rl sh
      by (rule routed_trans) (rule route.rel_transaction [OF deriveRoute_routed])
    then show ?thesis by (auto simp: submit_checked_def Let_def throw_def split: option.split)
  qed
  then show ?thesis
    unfolding submitRequest_def Let_def
    by (intro route.rel_guarded) (auto simp: throw_def split: option.split sum.split)
qed

interpretation route: submit_service routed
  by unfold_locales (rule submitRequest_routed)

section \<open>decideStep\<close>

lemma decide_checks_step:
  assumes "decide_checks d rid i a = Inr (r, s)"
  shows "at_step d r i s" and "s_status s = S_pending" and "r_id r = rid"
  using assms request_of_in [of d rid]
  by (auto simp: decide_checks_def at_step_def split: option.splits if_splits)

lemma endorsed_routed:
  assumes de: "decidable d r i s"
  shows "after (\<lambda>_. routed d) (endorse_step E r i who (set_step (r_id r) i (decide_row E S_endorsed who) d))"
proof (cases "step_of d (r_id r) (Suc i) = None")
  case True
  have "routed d (set_request (r_id r) (\<lambda>x. x\<lparr>r_status := Approved\<rparr>)
      (set_step (r_id r) i (decide_row E S_endorsed who) d))"
    by (rule routed_move) (rule approve [OF de True], simp add: route_same_def)
  then show ?thesis
    using True unfolding endorse_step_def
    by (auto simp: step_of_set_step after_bind after_prims intro!: routed_net intro: after_mono [OF same_approved])
next
  case False
  have "routed d (advance_step E (r_id r) (Suc i) (set_step (r_id r) i (decide_row E S_endorsed who) d))"
    by (rule routed_move) (rule endorse [OF de False], simp add: route_same_def)
  then show ?thesis
    using False unfolding endorse_step_def
    by (auto simp: step_of_set_step after_then after_block after_write after_prims
        intro!: after_emit intro: routed_trans [OF _ route.rel_logged])
qed

lemma settled_routed:
  assumes "decidable d r i s" and "st \<notin> {Open, Approved}"
  shows "routed d (set_request (r_id r) (\<lambda>x. x\<lparr>r_status := st\<rparr>) (set_step (r_id r) i (decide_row E t who) d))"
  by (rule routed_move) (rule settle [OF assms], simp add: route_same_def)

lemma decide_body_routed: "after (\<lambda>_. routed d) (decide_body E rid i who k d)"
proof (cases "route_ok d")
  case ok: True
  have "after (\<lambda>_. routed d) ((case k of
       Endorse \<Rightarrow> endorse_step E r i who
     | Return \<Rightarrow> tx_then (return_request E r i who) (tx_return Dec_returned)
     | Reject \<Rightarrow> tx_then (reject_request E r i who []) (tx_return Dec_rejected))
     (set_step (r_id r) i (decide_row E (decided_status k) who) d))"
    if "at_step d r i s" "s_status s = S_pending" for r s
  proof -
    note de = pending_decidable [OF ok that]
    note settled = settled_routed [OF de]
    show ?thesis
      using endorsed_routed [OF de] settled [of Returned] settled [of Rejected]
      by (cases k) (auto simp: after_then after_prims intro!: routed_net [OF _ same_returned]
          routed_net [OF _ same_rejected])
  qed
  then show ?thesis
    unfolding decide_body_def
    using decide_checks_step by (fastforce simp: after_then after_write split: sum.split)
qed (auto simp: routed_def intro: after_mono [OF after_UNIV])

lemma decideStep_routed: "routed d (snd (decideStep E pid rid i who k d))"
  unfolding decideStep_def Let_def
  by (auto intro!: route.rel_rules route.rel_guarded decide_body_routed split: option.split)

section \<open>The outcome of a motion\<close>

text \<open>\<open>s\<close> waits for a motion that has just been decided.\<close>

definition awaits :: "db \<Rightarrow> string \<Rightarrow> step_row \<Rightarrow> bool" where
  "awaits d mid s \<longleftrightarrow> s \<in> set (steps d) \<and> s_motion s = Some mid \<and> s_status s = S_motion_proposed \<and>
     (\<forall>m \<in> set (motions d). m_id m = mid \<longrightarrow> \<not> in_flight (m_status m))"

lemma awaits_decidable:
  assumes "route_ok d" and "awaits d mid s" and "request_of d (s_request s) = Some r" and "r_status r = Open"
  shows "decidable d r (s_index s) s" and "r_id r = s_request s"
  using assms proposed_current [of d s r] request_of_in [of d "s_request s" r]
  by (auto simp: awaits_def decidable_def)

lemma on_topic_id [simp]: "r_id (on_topic t r) = r_id r"
  by (simp add: on_topic_def)

lemma carried_routed:
  assumes de: "decidable d r i s" and id: "r_id r' = r_id r"
  shows "after (\<lambda>_. routed d) (apply_carried E r' i who d)"
proof (cases "step_of d (r_id r) (Suc i)")
  case None
  have "routed d (set_request (r_id r') (\<lambda>x. x\<lparr>r_status := Approved\<rparr>)
      (set_step (r_id r) i (decide_row E S_endorsed who) d))"
    unfolding id by (rule routed_move) (rule approve [OF de None], simp add: route_same_def)
  note net = routed_net [OF this same_approved]
  show ?thesis
    using None net unfolding apply_carried_def
    by (simp add: id after_then after_write after_unit step_of_set_step)
next
  case (Some n)
  let ?d = "advance_step E (r_id r) (Suc i) (set_step (r_id r) i (decide_row E S_endorsed who) d)"
  have "step_of d (r_id r) (Suc i) \<noteq> None" using Some by simp
  then have move: "routed d ?d"
    by (intro routed_move endorse [OF de]) (simp_all add: route_same_def)
  have req: "request_of d (r_id r) = Some r" "r_status r = Open"
    using de by (auto simp: decidable_def at_step_def)
  have "request_of d2 (r_id r) = Some (r\<lparr>r_current := Suc i\<rparr>)" if "logged ?d d2" for d2
    using that req by (simp add: request_of_def advance_step_def set_request_def set_step_def find_row_update_where)
  then have propose: "after (\<lambda>_. routed d2) (proposeStepMotion E (r_id r) (Suc i) b t d2)" if "logged ?d d2" for d2 b t
    using that req by (intro proposal_routed [where r = "r\<lparr>r_current := Suc i\<rparr>"]) auto
  have "after (\<lambda>_. routed d) (proposeStepMotion E (r_id r) (Suc i) b t d2)" if "logged ?d d2" for d2 b t
    using route.rel_from [OF routed_trans [OF move route.rel_logged [OF that]] propose [OF that]] .
  moreover have "routed d d2" if "logged ?d d2" for d2
    using routed_trans [OF move route.rel_logged [OF that]] .
  ultimately show ?thesis
    using Some unfolding apply_carried_def
    by (auto simp: id after_then after_block after_write after_prims step_of_set_step
        intro!: after_emit split: option.split)
qed

lemma exhausted_routed:
  assumes de: "decidable d r i s" and id: "r_id r' = r_id r"
  shows "after (\<lambda>_. routed d) (exhaust_request E r' i who extra d)"
  using routed_net [OF settled_routed [OF de] same_exhausted [of r', unfolded id]] by simp

lemma lapsed_routed:
  assumes de: "decidable d r i s" and id: "r_id r' = r_id r"
  shows "after (\<lambda>_. routed d) (apply_lapsed E r' i l who d)"
proof -
  have at: "at_step d r i s" using de by (simp add: decidable_def)
  note settled = exhausted_routed [OF de id]
  have moved: "routed d (set_step (r_id r) i (moved_step E nl pr st b) d)"
    if "st \<in> {S_pending, S_motion_proposed}" for nl pr st b
    by (rule routed_move, rule rework [OF at])
      (use that in \<open>auto simp: keeps_step_def moved_step_def step_key_def route_same_def\<close>)
  have unilateral: "after (\<lambda>_. routed d) (tx_block
      [tx_write (set_step (r_id r) i (moved_step E nl pr S_pending b)), emit E e] d)" for nl pr b e
    using routed_trans [OF moved [of S_pending nl pr b] route.rel_logged]
    by (auto simp: after_block after_write after_prims intro!: after_emit simp del: tx_block.simps)
  have "after (\<lambda>_. routed d) (proposeStepMotion E (r_id r) i b t d2)"
    if lg: "logged (set_step (r_id r) i (moved_step E nl pr S_motion_proposed b') d) d2" for nl pr b b' t d2
  proof (rule route.rel_from)
    show "routed d d2" using routed_trans [OF moved route.rel_logged [OF lg]] by simp
    show "after (\<lambda>_. routed d2) (proposeStepMotion E (r_id r) i b t d2)"
      using lg at by (intro proposal_routed [where r = r]) (auto simp: at_step_def request_of_def set_step_def)
  qed
  then have collective: "after (\<lambda>_. routed d) (tx_block
      [tx_write (set_step (r_id r) i (moved_step E nl pr S_motion_proposed b')), emit E e,
       proposeStepMotion E (r_id r) i b t] d)" for nl pr b b' t e
    by (auto simp: after_block after_write after_prims intro!: after_emit simp del: tx_block.simps)
  show ?thesis
    unfolding apply_lapsed_def Let_def id
    using settled unilateral collective by (auto simp del: tx_block.simps split: option.split)
qed

lemma applied_routed:
  assumes "awaits d mid s"
  shows "after (\<lambda>_. routed d) (applyMotionToStep E mid' (s_request s) (s_index s) l out t d)"
proof (cases "route_ok d")
  case ok: True
  show ?thesis
  proof (cases "request_of d (s_request s)")
    case None
    then show ?thesis by (simp add: applyMotionToStep_def)
  next
    case (Some r)
    show ?thesis
    proof (cases "r_status r = Open")
      case False
      with Some show ?thesis by (simp add: applyMotionToStep_def)
    next
      case True
      note de = awaits_decidable [OF ok assms Some True]
      note net = settled_routed [OF de(1)]
      show ?thesis
        using Some True carried_routed [OF de(1) on_topic_id] lapsed_routed [OF de(1) on_topic_id]
          routed_net [OF net [of Returned] same_returned [of "on_topic t r", unfolded on_topic_id]]
          routed_net [OF net [of Rejected] same_rejected [of "on_topic t r", unfolded on_topic_id]]
        by (cases out) (simp_all add: applyMotionToStep_def Let_def after_then after_write de(2))
    qed
  qed
qed (auto simp: routed_def intro: after_mono [OF after_UNIV])

lemma linked_routed:
  assumes "\<And>s. s \<in> set (steps d) \<Longrightarrow> s_motion s = Some (m_id m) \<Longrightarrow> awaits d (m_id m) s"
  shows "after (\<lambda>_. routed d) (apply_to_linked_step E m out d)"
proof -
  have "awaits d (m_id m) s" if "filter (\<lambda>s. s_motion s = Some (m_id m)) (steps d) = [s]" for s
  proof -
    have "s \<in> set (filter (\<lambda>s. s_motion s = Some (m_id m)) (steps d))" using that by simp
    then show ?thesis using assms by simp
  qed
  then show ?thesis
    unfolding apply_to_linked_step_def by (auto intro: applied_routed split: list.split)
qed

text \<open>A motion in flight gets its final status, and later in the transaction its outcome is applied.\<close>

lemma decided_routed:
  assumes m: "motion_of d (m_id m) = Some m'" "in_flight (m_status m')"
    and f: "\<And>x. m_id (f x) = m_id x" "\<And>x. \<not> in_flight (m_status (f x))"
    and later: "route_same (set_motion (m_id m) f d) d2"
  shows "after (\<lambda>_. routed d) (apply_to_linked_step E m out d2)"
proof (cases "route_ok d")
  case ok: True
  have "routed d (set_motion (m_id m) f d)"
    by (rule routed_move) (rule progress [OF m], use f in \<open>auto simp: route_same_def\<close>)
  then have to: "routed d d2" by (rule routed_trans) (rule routed_same [OF later])
  have "awaits d2 (m_id m) s" if s: "s \<in> set (steps d2)" "s_motion s = Some (m_id m)" for s
  proof -
    have st: "s \<in> steps_in (steps d) (s_request s)" using s later by (simp add: route_same_def set_motion_def steps_in_def)
    obtain x where x: "x \<in> set (motions d)" "m_id x = m_id m"
      "in_flight (m_status x) \<longrightarrow> s_status s = S_motion_proposed"
      using motion_linked [OF ok st s(2)] by blast
    have "m' \<in> set (motions d)" "m_id m' = m_id m" using m(1) by (auto simp: motion_of_def dest: find_row_Some)
    then have "x = m'" using ok x by (metis pkey_unique route_ok_def)
    then have "s_status s = S_motion_proposed" using x m(2) by simp
    then show ?thesis
      using s later f by (auto simp: awaits_def route_same_def set_motion_def in_update_where split: if_splits) (metis f(2))
  qed
  then show ?thesis by (intro route.rel_from [OF to] linked_routed) auto
qed (auto simp: routed_def intro: after_mono [OF after_UNIV])

section \<open>Motions\<close>

lemma motion_of_id: "motion_of d mid = Some m \<Longrightarrow> m_id m = mid"
  by (auto simp: motion_of_def dest: find_row_key)

lemma progress_routed:
  assumes "motion_of d mid = Some m" and "in_flight (m_status m)" and "\<And>x. m_id (f x) = m_id x"
  shows "routed d (set_motion mid f d)"
  by (rule routed_move) (rule progress [OF assms(1,2)], use assms(3) in \<open>auto simp: route_same_def\<close>)

lemma opened_routed:
  assumes "find_row m_id (m_id m) (motions d) = None"
    and "logged (motions_update (\<lambda>tbl. tbl @ [m]) (d\<lparr>uuid_ctr := u\<rparr>)) d'"
  shows "routed d d'"
  by (rule routed_move, rule open_motion [OF assms(1)]) (use assms(2) in \<open>auto simp: route_same_def\<close>)

lemma propose_body_routed: "after (\<lambda>_. routed d) (propose_body E t b sr p mi ex d)"
  unfolding propose_body_def Let_def
  by (auto simp: after_simps intro!: after_emit elim: opened_routed [rotated] simp del: tx_block.simps)

lemma seconded_routed:
  assumes "motion_of d mid = Some m" and "m_status m = Proposed"
    and "logged (set_motion mid (\<lambda>x. x\<lparr>m_status := st, m_seconded_by := who\<rparr>) d) d'"
  shows "routed d d'"
  using progress_routed [OF assms(1), of "\<lambda>x. x\<lparr>m_status := st, m_seconded_by := who\<rparr>"] assms(2)
    routed_trans route.rel_logged [OF assms(3)]
  by (simp add: in_flight_def)

lemma second_body_routed: "after (\<lambda>_. routed d) (second_body E mid a d)"
  unfolding second_body_def
  by (auto simp: after_simps intro!: after_emit intro: seconded_routed simp del: tx_block.simps split: option.split)

lemma veto_body_routed: "after (\<lambda>_. routed d) (veto_body E mid a d)"
proof -
  have "after (\<lambda>_. routed d) (apply_to_linked_step E m Out_vetoed d')"
    if m: "motion_of d mid = Some m" "m_status m = Balloting"
      and lg: "logged (set_motion mid (\<lambda>x. x\<lparr>m_status := Vetoed\<rparr>) d) d'" for m d'
    using m motion_of_id [OF m(1)] logged_same [OF lg]
    by (intro decided_routed [where f = "\<lambda>x. x\<lparr>m_status := Vetoed\<rparr>" and m' = m]) (auto simp: in_flight_def)
  then show ?thesis
    unfolding veto_body_def
    by (auto simp: after_simps intro!: after_emit simp del: tx_block.simps split: option.split)
qed

lemma same_motion_chain: "after (\<lambda>_. route_same d) (motion_chain E m out ac d)"
  unfolding motion_chain_def by (auto intro!: same_rules)

lemma outcome_final: "\<not> in_flight (outcome_status out)"
  by (cases out) (simp_all add: in_flight_def)

lemma run_tally_routed:
  assumes mo: "motion_of d mid = Some m" and fl: "in_flight (m_status m)"
  shows "after (\<lambda>_. routed d) (run_tally E m ac pre d)"
proof -
  have "motion_of d (m_id m) = Some m" using mo motion_of_id [OF mo] by simp
  note assms = this fl
  have step: "after (\<lambda>_. routed d) (apply_to_linked_step E m out d3)"
    if "route_same (set_motion (m_id m) (\<lambda>x. x\<lparr>m_status := outcome_status out, m_tally := Some ta\<rparr>) d) d3" for out ta d3
    using assms that outcome_final
    by (intro decided_routed [where f = "\<lambda>x. x\<lparr>m_status := outcome_status out, m_tally := Some ta\<rparr>" and m' = m]) auto
  have "after (\<lambda>_. routed d) (tx_then (tx_write (set_motion (m_id m)
        (\<lambda>x. x\<lparr>m_status := outcome_status out, m_tally := Some ta\<rparr>)))
      (tx_bind (motion_chain E m out ac) (\<lambda>chain.
        tx_then (tx_block [emit E (e chain), apply_to_linked_step E m out]) (tx_return (out, ta, chain)))) d)" for out ta e
    unfolding after_then after_bind after_write after_block
    by (rule after_mono [OF same_motion_chain])
      (auto simp: after_prims intro!: after_emit step intro: route_same_trans logged_same)
  then show ?thesis
    unfolding run_tally_def by (auto simp del: tx_block.simps split: option.split prod.split)
qed

lemma tally_body_routed: "after (\<lambda>_. routed d) (tally_body E mid d)"
  unfolding tally_body_def
  using motion_of_id run_tally_routed
  by (auto simp: after_bind in_flight_def after_prims intro!: after_mono [OF run_tally_routed] split: option.split prod.split)

lemma proposeMotion_routed: "routed d (snd (proposeMotion E pid t b s p mi ex d))"
  unfolding proposeMotion_def Let_def
  by (rule route.rel_guarded)
    (auto intro: route.rel_transaction propose_body_routed simp: throw_def split: option.split sum.split)

lemma secondMotion_routed: "routed d (snd (secondMotion E pid m a d))"
  unfolding secondMotion_def Let_def by (auto intro!: route.rel_rules route.rel_guarded second_body_routed)

lemma vetoMotion_routed: "routed d (snd (vetoMotion E pid m a d))"
  unfolding vetoMotion_def Let_def by (auto intro!: route.rel_rules route.rel_guarded veto_body_routed)

lemma tallyMotion_routed: "routed d (snd (tallyMotion E pid m d))"
  unfolding tallyMotion_def Let_def by (auto intro!: route.rel_rules route.rel_guarded tally_body_routed)

section \<open>Drains and sweeps\<close>

lemma drain_request_routed: "after (\<lambda>_. routed d) (drain_request E tid ac r d)"
proof (cases "route_ok d")
  case ok: True
  have "routed d (reject_rows (r_id r) d)" if "exists_where (\<lambda>x. r_id x = r_id r \<and> r_status x = Open) (requests d)"
  proof -
    from that obtain x where x: "x \<in> set (requests d)" "r_id x = r_id r" "r_status x = Open"
      by (auto simp: exists_where_def list_ex_iff)
    have "pkey r_id (requests d)" using ok by (simp add: route_ok_def)
    then have "request_of d (r_id r) = Some x"
      using x find_row_pkey [of r_id "requests d" x] by (simp add: request_of_def)
    then show ?thesis using x(3) by (intro routed_move withdraw) (auto simp: route_same_def)
  qed
  then show ?thesis
    unfolding drain_request_def
    by (auto simp: after_simps simp del: tx_block.simps intro!: after_emit intro: routed_trans route.rel_logged)
qed (auto simp: routed_def intro: after_mono [OF after_UNIV])

lemma drain_motion_routed: "after (\<lambda>_. routed d) (drain_motion E tid ac m d)"
proof (cases "route_ok d")
  case ok: True
  let ?d = "d\<lparr>motions := update_where (\<lambda>y. m_id y = m_id m \<and> in_flight (m_status y))
    (\<lambda>y. y\<lparr>m_status := Lapsed\<rparr>) (motions d)\<rparr>"
  have "routed d ?d" if "exists_where (\<lambda>x. m_id x = m_id m \<and> in_flight (m_status x)) (motions d)"
  proof -
    from that obtain x where x: "x \<in> set (motions d)" "m_id x = m_id m" "in_flight (m_status x)"
      by (auto simp: exists_where_def list_ex_iff)
    have key: "pkey m_id (motions d)" using ok by (simp add: route_ok_def)
    then have "motion_of d (m_id m) = Some x"
      using x find_row_pkey [of m_id "motions d" x] by (simp add: motion_of_def)
    then have "routed d (set_motion (m_id m) (\<lambda>y. y\<lparr>m_status := Lapsed\<rparr>) d)"
      using x(3) by (rule progress_routed) simp
    moreover have "in_flight (m_status y)" if "y \<in> set (motions d)" "m_id y = m_id m" for y
      using key that x by (metis pkey_unique)
    then have "?d = set_motion (m_id m) (\<lambda>y. y\<lparr>m_status := Lapsed\<rparr>) d"
      by (simp add: set_motion_def update_where_def cong: map_cong)
    ultimately show ?thesis by simp
  qed
  then show ?thesis
    unfolding drain_motion_def
    by (auto simp: after_simps simp del: tx_block.simps intro!: after_emit intro: routed_trans route.rel_logged)
qed (auto simp: routed_def intro: after_mono [OF after_UNIV])

lemma climb_routed:
  assumes at: "at_step d r i s" and s: "s_status s = S_pending" and id: "r_id r' = r_id r"
  shows "after (\<lambda>_. routed d) (climb_step E r' i l d)"
proof -
  have "routed d (set_step (r_id r) i (\<lambda>s. fresh_deadline E (s\<lparr>s_office := nl\<rparr>)) d)" for nl
    by (rule routed_move, rule rework [OF at])
      (use s in \<open>auto simp: keeps_step_def route_same_def step_key_def fresh_deadline_def\<close>)
  then show ?thesis
    unfolding climb_step_def id
    by (auto simp: after_simps simp del: tx_block.simps intro!: after_emit intro: routed_trans route.rel_logged)
qed

lemma sweep_step_routed: "after (\<lambda>_. routed d) (sweep_step E x d)"
proof (cases "route_ok d")
  case ok: True
  have "at_step d r i s \<and> decidable d r i s"
    if r: "request_of d rid = Some r" "r_status r = Open" "r_current r = i"
      and s: "step_of d rid i = Some s" "s_status s = S_pending" for r rid i s
    using r s request_of_in [OF r(1)] pending_decidable [OF ok _ s(2)] by (auto simp: at_step_def)
  then show ?thesis
    unfolding sweep_step_def
    by (auto simp: after_then after_prims split: prod.split option.split simp del: tx_block.simps
        intro!: climb_routed exhausted_routed)
qed (auto simp: routed_def intro: after_mono [OF after_UNIV])

lemma lapse_motion_routed:
  assumes m: "motion_of d mid = Some m" "m_status m = Proposed"
  shows "after (\<lambda>_. routed d) (lapse_motion E m d)"
proof -
  have "after (\<lambda>_. routed d) (apply_to_linked_step E m Out_lapsed d')"
    if lg: "logged (set_motion (m_id m) (\<lambda>x. x\<lparr>m_status := Lapsed, m_tally := None\<rparr>) d) d'" for d'
    using m motion_of_id [OF m(1)] logged_same [OF lg]
    by (intro decided_routed [where f = "\<lambda>x. x\<lparr>m_status := Lapsed, m_tally := None\<rparr>" and m' = m])
      (auto simp: in_flight_def)
  then show ?thesis
    unfolding lapse_motion_def by (auto simp: after_simps intro!: after_emit simp del: tx_block.simps)
qed

lemma sweep_motion_routed: "after (\<lambda>_. routed d) (sweep_motion E sc d)"
  unfolding sweep_motion_def
  by (auto simp: after_then after_unit after_prims in_flight_def simp del: tx_block.simps split: option.split
      intro: lapse_motion_routed run_tally_routed)

lemma sweepStalledSteps_routed: "routed d (snd (sweepStalledSteps E g d))"
  unfolding sweepStalledSteps_def by (rule route.rel_each_item [OF sweep_step_routed])

lemma sweepExpiredMotions_routed: "routed d (snd (sweepExpiredMotions E g d))"
  unfolding sweepExpiredMotions_def by (rule route.rel_each_item [OF sweep_motion_routed])

section \<open>Properties\<close>

text \<open>
  \<open>step_decision d rid i ac k res d'\<close>: what a decision \<open>k\<close> of \<open>ac\<close> on step \<open>i\<close> has checked in \<open>d\<close>,
  and what it leaves in \<open>d'\<close>.
\<close>

definition may_decide :: "db \<Rightarrow> string \<Rightarrow> nat \<Rightarrow> string \<Rightarrow> bool" where
  "may_decide d rid i ac \<longleftrightarrow> (\<exists>r s p. request_of d rid = Some r \<and> step_of d rid i = Some s \<and>
     r_status r = Open \<and> r_current r = i \<and> s_status s = S_pending \<and> s_procedure s = Unilateral \<and>
     participant_of d (r_topic r) ac = Some p \<and> p_level p = s_office s \<and> ac \<noteq> r_submitted_by r \<and>
     (r_shape r = Counter_sign \<longrightarrow>
        (\<forall>x \<in> set (steps d). s_request x = rid \<and> s_index x < i \<longrightarrow> s_decided_by x \<noteq> Some ac)))"

definition step_decision :: "db \<Rightarrow> string \<Rightarrow> nat \<Rightarrow> string \<Rightarrow> decision_kind \<Rightarrow> decide_result \<Rightarrow> db \<Rightarrow> bool" where
  "step_decision d rid i ac k res d' \<longleftrightarrow> may_decide d rid i ac \<and> motions d' = motions d \<and>
     (\<exists>r' s'. request_of d' rid = Some r' \<and> step_of d' rid i = Some s' \<and>
        s_status s' = decided_status k \<and> s_decided_by s' = Some ac \<and>
        (case res of
           Step_endorsed j \<Rightarrow> k = Endorse \<and> j = Suc i \<and> step_of d rid j \<noteq> None \<and> r_status r' = Open \<and> r_current r' = j
         | Dec_approved c \<Rightarrow> k = Endorse \<and> step_of d rid (Suc i) = None \<and> r_status r' = Approved
         | Dec_returned \<Rightarrow> k = Return \<and> r_status r' = Returned
         | Dec_rejected \<Rightarrow> k = Reject \<and> r_status r' = Rejected
         | _ \<Rightarrow> False))"

lemma request_frame [simp]:
  "request_of (d\<lparr>authz_decisions := l\<rparr>) x = request_of d x"
  "step_of (d\<lparr>authz_decisions := l\<rparr>) x i = step_of d x i"
  "participant_of (d\<lparr>authz_decisions := l\<rparr>) x a = participant_of d x a"
  by (simp_all add: request_of_def step_of_def participant_of_def)

lemma may_decide_frame [simp]: "may_decide (d\<lparr>authz_decisions := l\<rparr>) rid i ac = may_decide d rid i ac"
  by (simp add: may_decide_def)

lemma decide_checks_pass:
  assumes "decide_checks d rid i ac = Inr (r, s)"
  shows "may_decide d rid i ac" and "request_of d rid = Some r" and "step_of d rid i = Some s"
  using assms
  by (auto simp: decide_checks_def may_decide_def exists_where_def list_ex_iff split: option.splits if_splits)
    (metis procedure_kind.exhaust)+

lemma request_of_set: "(\<And>r. r_id (f r) = r_id r) \<Longrightarrow> request_of (set_request rid f d) x =
    map_option (\<lambda>r. if r_id r = rid then f r else r) (request_of d x)"
  by (simp add: request_of_def set_request_def find_row_update_where)

lemma set_frames [simp]: "request_of (set_step rid i g d) x = request_of d x"
  "step_of (set_request rid f d) x j = step_of d x j" "motions (set_step rid i g d) = motions d"
  "motions (set_request rid f d) = motions d"
  by (simp_all add: request_of_def step_of_def set_step_def set_request_def)

lemma route_same_reads: "route_same d d' \<Longrightarrow> request_of d' x = request_of d x"
  "route_same d d' \<Longrightarrow> step_of d' x i = step_of d x i" "route_same d d' \<Longrightarrow> motions d' = motions d"
  by (simp_all add: route_same_def request_of_def step_of_def)

lemma step_of_set_other:
  assumes "\<And>s. step_key (g s) = step_key s" and "j \<noteq> i"
  shows "step_of (set_step rid i g d) rid j = step_of d rid j"
proof -
  have "s_index x = j" if "step_of d rid j = Some x" for x
    using that by (auto simp: step_of_def step_key_def dest: find_row_key)
  then show ?thesis using assms by (cases "step_of d rid j") (auto simp: step_of_set_step)
qed

lemma decide_body_decision: "after (\<lambda>res d'. step_decision d rid i ac k res d') (decide_body E rid i ac k d)"
proof (cases "decide_checks d rid i ac")
  case (Inl x)
  then show ?thesis by (simp add: decide_body_def after_if)
next
  case (Inr c)
  obtain r s where c: "c = (r, s)" by (cases c)
  note may = decide_checks_pass [OF Inr [unfolded c]]
  let ?d1 = "set_step rid i (decide_row E (decided_status k) ac) d"
  have id: "r_id r = rid" "r_status r = Open" using may request_of_in by (auto simp: may_decide_def)
  have s1: "step_of ?d1 rid j = (if j = i then Some (decide_row E (decided_status k) ac s) else step_of d rid j)" for j
  proof -
    have "step_key (decide_row E st ac x) = step_key x" for st x by (simp add: step_key_def decide_row_def)
    moreover have "s_request x = rid \<and> s_index x = j" if "step_of d rid j = Some x" for x
      using that by (auto simp: step_of_def step_key_def dest: find_row_key)
    ultimately show ?thesis using may(3) by (cases "step_of d rid j") (auto simp: step_of_set_step)
  qed
  have done': "step_decision d rid i ac k res d'"
    if "route_same (set_request rid (\<lambda>x. x\<lparr>r_status := st\<rparr>) ?d1) d'"
      "(k, st, res) = (Return, Returned, Dec_returned) \<or> (k, st, res) = (Reject, Rejected, Dec_rejected) \<or>
       (\<exists>c. (k, st, res) = (Endorse, Approved, Dec_approved c)) \<and> step_of d rid (Suc i) = None" for st res d'
    using that may id by (auto simp: step_decision_def route_same_reads request_of_set s1 decide_row_def)
  show ?thesis
  proof (cases k)
    case Return
    then show ?thesis
      using Inr c same_returned [of r ?d1 E i ac] done'
      by (auto simp: decide_body_def after_simps id after_if elim!: after_mono)
  next
    case Reject
    then show ?thesis
      using Inr c same_rejected [of r ?d1 E i ac "[]"] done'
      by (auto simp: decide_body_def after_simps id after_if elim!: after_mono)
  next
    case Endorse
    show ?thesis
    proof (cases "step_of d rid (Suc i) = None")
      case True
      then show ?thesis
        using Inr c Endorse same_approved [of r ?d1 E i ac] done' s1
        by (auto simp: decide_body_def endorse_step_def after_simps id after_if elim!: after_mono)
    next
      case False
      let ?d2 = "advance_step E rid (Suc i) ?d1"
      have "step_key (fresh_deadline E x) = step_key x" for x by (simp add: step_key_def fresh_deadline_def)
      then have "step_of ?d2 rid i = Some (decide_row E (decided_status k) ac s)"
        using s1 [of i] by (simp add: advance_step_def step_of_set_other)
      moreover have "request_of ?d2 rid = Some (r\<lparr>r_current := Suc i\<rparr>)" "motions ?d2 = motions d"
        using may(2) id by (simp_all add: advance_step_def request_of_set)
      ultimately have "step_decision d rid i ac k (Step_endorsed (Suc i)) d'" if "route_same ?d2 d'" for d'
        using that may(1) id Endorse False by (simp add: step_decision_def route_same_reads) (simp add: decide_row_def)
      then show ?thesis
        using Inr c Endorse False s1
        by (auto simp: decide_body_def endorse_step_def after_simps id after_if logged_same intro!: after_emit
            simp del: tx_block.simps)
    qed
  qed
qed

fun refusal :: "decide_result \<Rightarrow> bool" where
  "refusal (Step_endorsed j) = False"
| "refusal (Dec_approved c) = False"
| "refusal Dec_returned = False"
| "refusal Dec_rejected = False"
| "refusal _ = True"

lemma decide_checks_refusal: "decide_checks d rid i ac = Inl res \<Longrightarrow> refusal res"
  by (auto simp: decide_checks_def split: option.splits if_splits)

lemma aborts_emitChain [aborts_simps]: "aborts A (emitChain E t i w p d)"
  unfolding emitChain_def defer_chain_def post_chain_def create_task_def Let_def
  by (auto simp: aborts_simps after_simps split: option.split intro!: after_I)

lemma aborts_resolveArtifact [aborts_simps]: "aborts A (resolveArtifact E ap aid ac d)"
  unfolding resolveArtifact_def Let_def
  by (auto simp: aborts_simps after_simps split: option.split intro!: after_I)

lemma decide_body_refuses: "aborts refusal (decide_body E rid i ac k d)"
  by (auto simp: decide_body_def endorse_step_def approve_request_def return_request_def reject_request_def aborts_simps
      after_simps decide_checks_refusal split: sum.split decision_kind.split intro!: after_I)

lemma step_decision_answers: "step_decision d rid i ac k res d' \<Longrightarrow> \<not> refusal res"
  by (cases res) (auto simp: step_decision_def)

lemma step_decision_frame: "step_decision (d\<lparr>authz_decisions := l\<rparr>) rid i ac k res d' = step_decision d rid i ac k res d'"
  by (cases res) (simp_all add: step_decision_def)

text \<open>
  Property C24. Who decides a step: a decision goes through only for the current step of an open request,
  while it is pending and unilateral, and only by a participant who holds exactly the office of the step,
  is not the submitter, and decided no earlier step of a counter-signed request. The step then carries
  the decision and the decider; the request moves to the next step, is approved when there is none, is
  returned or rejected.
\<close>

theorem decideStep_spec:
  assumes "decideStep E pid rid idx ac de d = (Inr res, d')" and "\<not> refusal res"
  shows "\<exists>i k. nat_value idx = Some i \<and> parse_decision (trim de) = Some k \<and>
    step_decision d (trim rid) i (trim ac) k res d'"
proof -
  obtain l i k where args: "nat_value idx = Some i" "parse_decision (trim de) = Some k" and
    run: "transaction (decide_body E (trim rid) i (trim ac) k) (d\<lparr>authz_decisions := l\<rparr>) = (Inr res, d')"
    using assms(1) unfolding decideStep_def
    by (auto simp: Let_def throw_def elim!: guarded_Inr split: if_splits option.splits)
  have "step_decision (d\<lparr>authz_decisions := l\<rparr>) (trim rid) i (trim ac) k res d'"
    by (rule committed_result [OF run decide_body_refuses assms(2) decide_body_decision])
  then show ?thesis using args by (auto simp: step_decision_frame)
qed

theorem decideStep_spec_witness:
  "map_option r_status (request_of (snd (decideStep dev_env None ''R'' (Fin 0) ''lea'' ''return'' desk_db)) ''R'') = Some Returned"
proof -
  let ?run = "decideStep dev_env None ''R'' (Fin 0) ''lea'' ''return'' desk_db"
  have "fst ?run = Inr Dec_returned" by code_simp
  then have run: "?run = (Inr Dec_returned, snd ?run)" by (metis prod.collapse)
  moreover have "trim ''R'' = ''R''" by code_simp
  ultimately show ?thesis using decideStep_spec [OF run] by (auto simp: step_decision_def)
qed

text \<open>A refused decision changes no request, no step and no event.\<close>

lemma decideStep_refused:
  assumes "decideStep E pid rid idx ac de d = (Inr res, d')" and "refusal res"
  shows "requests d' = requests d \<and> steps d' = steps d \<and> motions d' = motions d \<and> events d' = events d"
proof -
  obtain l i k where
    run: "transaction (decide_body E (trim rid) i (trim ac) k) (d\<lparr>authz_decisions := l\<rparr>) = (Inr res, d')"
    using assms(1) unfolding decideStep_def
    by (auto simp: Let_def throw_def elim!: guarded_Inr split: if_splits option.splits)
  have "after (\<lambda>res _. \<not> refusal res) (decide_body E (trim rid) i (trim ac) k (d\<lparr>authz_decisions := l\<rparr>))"
    by (rule after_mono [OF decide_body_decision]) (rule step_decision_answers)
  from refused_result [OF run this assms(2) decide_body_refuses] show ?thesis by (auto simp: rollback_def)
qed

section \<open>Motions stay as they were decided\<close>

definition motions_kept :: "db \<Rightarrow> db \<Rightarrow> bool" where
  "motions_kept d d' \<longleftrightarrow> (\<forall>x m. motion_of d x = Some m \<longrightarrow> motion_of d' x = Some m)"

lemma motions_kept_same: "motions d' = motions d \<Longrightarrow> motions_kept d d'"
  by (simp add: motions_kept_def motion_of_def)

lemma motions_kept_trans: "motions_kept d d' \<Longrightarrow> motions_kept d' d'' \<Longrightarrow> motions_kept d d''"
  by (simp add: motions_kept_def)

lemma kept_from_same: "motions d1 = motions d \<Longrightarrow> after (\<lambda>_. route_same d1) res \<Longrightarrow> after (\<lambda>_. motions_kept d) res"
  by (erule after_mono) (auto intro: motions_kept_same simp: route_same_def)

lemma kept_proposal: "motions d1 = motions d \<Longrightarrow> after (\<lambda>_. motions_kept d) (proposeStepMotion E rid i b t d1)"
  unfolding proposeStepMotion_def
  by (auto simp: after_simps intro!: after_emit)
    (auto simp: motions_kept_def motion_of_def logged_def set_step_def find_row_append)

lemma logged_motions: "logged d d' \<Longrightarrow> motions d' = motions d"
  by (auto simp: logged_def)

lemma kept_carried: "after (\<lambda>_. motions_kept d) (apply_carried E r i who d)"
  unfolding apply_carried_def after_then after_write
  by (auto simp: after_simps logged_motions advance_step_def split: option.split intro!: after_emit kept_proposal motions_kept_same
      kept_from_same [OF _ same_approved])

lemma kept_lapsed: "after (\<lambda>_. motions_kept d) (apply_lapsed E r i l who d)"
  unfolding apply_lapsed_def Let_def
  by (auto simp: after_simps logged_motions split: option.split intro!: after_emit kept_proposal motions_kept_same
      kept_from_same [OF _ same_exhausted])

lemma kept_applied: "after (\<lambda>_. motions_kept d) (applyMotionToStep E m rid i l out t d)"
  unfolding applyMotionToStep_def Let_def
  by (auto simp: after_simps split: option.split motion_outcome.split intro!: kept_carried kept_lapsed motions_kept_same
      kept_from_same [OF _ same_returned] kept_from_same [OF _ same_rejected])

lemma kept_linked: "after (\<lambda>_. motions_kept d) (apply_to_linked_step E m out d)"
  unfolding apply_to_linked_step_def
  by (auto intro: kept_applied motions_kept_same split: list.split)

lemma aborts_proposeStepMotion [aborts_simps]: "aborts A (proposeStepMotion E rid i b t d)"
  unfolding proposeStepMotion_def by (auto simp: aborts_simps after_simps intro!: after_I)

lemma aborts_applyMotionToStep [aborts_simps]: "aborts A (applyMotionToStep E m rid i l out t d)"
  unfolding applyMotionToStep_def apply_carried_def apply_lapsed_def exhaust_request_def approve_request_def
    return_request_def reject_request_def Let_def tx_unit_def
  by (auto simp: aborts_simps split: option.split motion_outcome.split intro!: after_I)

lemma aborts_linked_step [aborts_simps]: "aborts A (apply_to_linked_step E m out d)"
  unfolding apply_to_linked_step_def by (auto simp: aborts_simps split: list.split)

lemma aborts_run_tally [aborts_simps]: "aborts A (run_tally E m actor marks d)"
  unfolding run_tally_def motion_chain_def
  by (auto simp: aborts_simps split: option.split prod.split intro!: after_I)

lemma motion_of_set: "motion_of (set_motion mid f d) mid = map_option (\<lambda>m. if m_id m = mid then f m else m) (motion_of d mid)"
  if "\<And>m. m_id (f m) = m_id m"
  using that by (simp add: motion_of_def set_motion_def find_row_update_where)

lemma same_chain: "after (\<lambda>_. route_same d) (motion_chain E m out actor d)"
  unfolding motion_chain_def
  by (auto intro!: same.rel_bind same.rel_emitChain same.rel_return)

lemma run_tally_result:
  assumes "motion_of d mid = Some m"
  shows "after (\<lambda>(out, tal, chain) d'. \<exists>b. body_of d (m_body m) = Some b \<and>
      (out, tal) = computeMotionTally d mid (b_quorum b) (b_threshold b) \<and>
      motion_of d' mid = Some (m\<lparr>m_status := outcome_status out, m_tally := Some tal\<rparr>))
    (run_tally E m actor marks d)"
proof -
  note id = motion_of_id [OF assms]
  let ?m' = "\<lambda>out tal. m\<lparr>m_status := outcome_status out, m_tally := Some tal\<rparr>"
  let ?d1 = "\<lambda>out tal. set_motion mid (\<lambda>x. x\<lparr>m_status := outcome_status out, m_tally := Some tal\<rparr>) d"
  have set1: "motion_of (?d1 out tal) mid = Some (?m' out tal)" for out tal
    using assms id by (simp add: motion_of_set)
  have fin: "after (\<lambda>_ d'. motion_of d' mid = Some (?m' out tal)) (apply_to_linked_step E m out d3)"
    if "route_same (?d1 out tal) d2" "logged d2 d3" for out tal d2 d3
  proof -
    have "motion_of d3 mid = Some (?m' out tal)"
      using that set1 [where out = out and tal = tal] by (simp add: motion_of_def route_same_def logged_motions)
    then show ?thesis by (intro after_mono [OF kept_linked]) (auto simp: motions_kept_def)
  qed
  show ?thesis
    unfolding run_tally_def
    by (auto simp: after_simps id split: option.split prod.split
        intro!: after_mono [OF same_chain] after_emit intro: after_mono [OF fin] simp del: tx_block.simps)
qed

text \<open>
  Property C25. A tally runs only on a balloting motion whose deadline has passed, in a topic that is not
  closed; its outcome and figures are those of the ballots under the body's quorum and threshold, and the
  motion carries both from then on, whatever the outcome does to the request step that waits for it.
\<close>

theorem tallyMotion_spec:
  assumes "tallyMotion E pid mid d = (Inr (Tally_done out tal chain), d')"
  shows "\<exists>m b. motion_of d (trim mid) = Some m \<and> m_status m = Balloting \<and> m_deadline m \<le> pg_now E \<and>
    topic_status_of d (m_topic m) \<noteq> Some Closed \<and> body_of d (m_body m) = Some b \<and>
    (out, tal) = computeMotionTally d (trim mid) (b_quorum b) (b_threshold b) \<and>
    motion_of d' (trim mid) = Some (m\<lparr>m_status := outcome_status out, m_tally := Some tal\<rparr>)"
proof -
  define Q where "Q = (\<lambda>r d'. \<exists>out tal chain m b. r = Tally_done out tal chain \<and>
    motion_of d (trim mid) = Some m \<and> m_status m = Balloting \<and> m_deadline m \<le> pg_now E \<and>
    topic_status_of d (m_topic m) \<noteq> Some Closed \<and> body_of d (m_body m) = Some b \<and>
    (out, tal) = computeMotionTally d (trim mid) (b_quorum b) (b_threshold b) \<and>
    motion_of d' (trim mid) = Some (m\<lparr>m_status := outcome_status out, m_tally := Some tal\<rparr>))"
  have run: "guarded E pid A_write (rref K_motion (trim mid)) (transaction (tally_body E (trim mid))) d =
      (Inr (Tally_done out tal chain), d')"
    using assms by (auto simp: tallyMotion_def Let_def throw_def split: if_splits)
  have early: "aborts (\<lambda>r. \<nexists>o' t c. r = Tally_done o' t c) (tally_body E (trim mid) (d\<lparr>authz_decisions := l\<rparr>))" for l
    by (auto simp: tally_body_def aborts_simps split: option.split intro!: after_I)
  have "after Q (tally_body E (trim mid) (d\<lparr>authz_decisions := l\<rparr>))" for l
  proof -
    let ?d = "d\<lparr>authz_decisions := l\<rparr>"
    have frame: "motion_of ?d x = motion_of d x" "topic_status_of ?d x = topic_status_of d x" "body_of ?d x = body_of d x"
      "computeMotionTally ?d x q t = computeMotionTally d x q t" for x q t
      by (simp_all add: motion_of_def topic_status_of_def topic_of_def body_of_def computeMotionTally_def votes_of_def)
    show ?thesis
      unfolding tally_body_def Q_def
      by (auto simp: after_simps frame split: option.split prod.split
          intro!: after_mono [OF run_tally_result [of ?d "trim mid"]])
  qed
  from guarded_committed [where Q = Q, OF run early _ this] show ?thesis by (auto simp: Q_def)
qed

text \<open>The motion of \<open>ballot_db\<close> after its deadline.\<close>

theorem tallyMotion_spec_witness:
  "map_option m_status (motion_of (snd (tallyMotion (dev_env\<lparr>pg_now := 3000000\<rparr>) None ''M''
     (ballot_db\<lparr>votes := [ballot ''ann'' For 3]\<rparr>))) ''M'') = Some Carried"
proof -
  let ?run = "tallyMotion (dev_env\<lparr>pg_now := 3000000\<rparr>) None ''M'' (ballot_db\<lparr>votes := [ballot ''ann'' For 3]\<rparr>)"
  have "case fst ?run of Inr (Tally_done out tal chain) \<Rightarrow> out = Out_carried | _ \<Rightarrow> False" by code_simp
  then obtain tal chain where "fst ?run = Inr (Tally_done Out_carried tal chain)"
    by (auto split: sum.splits tally_result.splits)
  then have run: "?run = (Inr (Tally_done Out_carried tal chain), snd ?run)" by (metis prod.collapse)
  have "trim ''M'' = ''M''" by code_simp
  with tallyMotion_spec [OF run] show ?thesis by auto
qed

end
