(* ===== verification/BoardLaw.thy ===== *)
theory BoardLaw
  imports Sweep "HOL-Library.Sublist"
begin

text \<open>
  The law of the board: what the tables \<^verbatim>\<open>tasks\<close>, \<^verbatim>\<open>artifacts\<close>, \<^verbatim>\<open>artifact_versions\<close> and
  \<^verbatim>\<open>claims\<close> satisfy together, kept by every operation of the services, the drain passes of
  \<open>closeTopic\<close> and the sweeps.

  \<^item> \<open>outputs_ok\<close>: a task has exactly one output artifact, in the task's topic.
  \<^item> \<open>claims_ok\<close>: an artifact has at most one claim row; a claim names an artifact, its task and its
    topic; a task is \<open>claimed\<close> exactly while a claim on it exists.
  \<^item> \<open>history_ok\<close>: the versions of an artifact are 1, 2, .. up to its current version, and the last
    one carries its current content.

  \<open>board_grows\<close> is the part that only moves forward: rows of tasks, artifacts and versions are never
  deleted or renamed, the version history is append-only, a completed task stays completed.
\<close>

section \<open>The invariant\<close>

definition outputs_ok :: "task_row list \<Rightarrow> artifact_row list \<Rightarrow> bool" where
  "outputs_ok ks as \<longleftrightarrow> pkey tk_id ks \<and> pkey af_id as \<and>
     map (\<lambda>k. (tk_id k, tk_topic k)) ks = map (\<lambda>a. (af_task a, af_topic a)) as"

definition claim_fits :: "artifact_row list \<Rightarrow> claim_row \<Rightarrow> bool" where
  "claim_fits as c \<longleftrightarrow>
     (c_artifact c, c_task c, c_topic c) \<in> (\<lambda>a. (af_id a, af_task a, af_topic a)) ` set as"

definition claims_ok :: "task_row list \<Rightarrow> artifact_row list \<Rightarrow> claim_row list \<Rightarrow> bool" where
  "claims_ok ks as cs \<longleftrightarrow> pkey c_id cs \<and> pkey c_artifact cs \<and> (\<forall>c \<in> set cs. claim_fits as c) \<and>
     (\<forall>k \<in> set ks. tk_status k = Claimed \<longleftrightarrow> (\<exists>c \<in> set cs. c_task c = tk_id k))"

definition versions_of :: "version_row list \<Rightarrow> string \<Rightarrow> version_row list" where
  "versions_of vs aid = filter (\<lambda>v. v_artifact v = aid) vs"

definition history_of_ok :: "version_row list \<Rightarrow> artifact_row \<Rightarrow> bool" where
  "history_of_ok vs a \<longleftrightarrow> map v_version (versions_of vs (af_id a)) = [1..<Suc (af_version a)] \<and>
     1 \<le> af_version a \<and> v_content (last (versions_of vs (af_id a))) = af_content a"

definition history_ok :: "artifact_row list \<Rightarrow> version_row list \<Rightarrow> bool" where
  "history_ok as vs \<longleftrightarrow>
     (\<forall>v \<in> set vs. v_artifact v \<in> af_id ` set as) \<and> (\<forall>a \<in> set as. history_of_ok vs a)"

definition board_ok :: "db \<Rightarrow> bool" where
  "board_ok d \<longleftrightarrow> outputs_ok (tasks d) (artifacts d) \<and>
     claims_ok (tasks d) (artifacts d) (claims d) \<and> history_ok (artifacts d) (versions d)"

definition task_fixed :: "task_row \<Rightarrow> task_row" where
  "task_fixed k = k\<lparr>tk_status := Posted\<rparr>"

definition artifact_fixed :: "artifact_row \<Rightarrow> string \<times> string \<times> string \<times> string \<times> string" where
  "artifact_fixed a = (af_id a, af_topic a, af_task a, af_slot a, af_kind a)"

definition completed_tasks :: "task_row list \<Rightarrow> string set" where
  "completed_tasks ks = tk_id ` set (filter (\<lambda>k. tk_status k = Completed) ks)"

definition board_grows :: "db \<Rightarrow> db \<Rightarrow> bool" where
  "board_grows d d' \<longleftrightarrow> prefix (versions d) (versions d') \<and>
     prefix (map task_fixed (tasks d)) (map task_fixed (tasks d')) \<and>
     prefix (map artifact_fixed (artifacts d)) (map artifact_fixed (artifacts d')) \<and>
     completed_tasks (tasks d) \<subseteq> completed_tasks (tasks d')"

definition board_step :: "db \<Rightarrow> db \<Rightarrow> bool" where
  "board_step d d' \<longleftrightarrow> (board_ok d \<longrightarrow> board_ok d' \<and> board_grows d d')"

lemma claim_fitsD:
  "claim_fits as c \<Longrightarrow> \<exists>a \<in> set as. af_id a = c_artifact c \<and> af_task a = c_task c \<and> af_topic a = c_topic c"
  by (auto simp: claim_fits_def)

lemma claim_fits_update:
  "(\<And>x. af_id (f x) = af_id x \<and> af_task (f x) = af_task x \<and> af_topic (f x) = af_topic x) \<Longrightarrow>
    claim_fits (update_where P f as) c = claim_fits as c"
  unfolding claim_fits_def by (subst image_update_where) simp_all

lemma board_grows_refl: "board_grows d d"
  by (simp add: board_grows_def)

lemma board_grows_trans: "board_grows d d' \<Longrightarrow> board_grows d' d'' \<Longrightarrow> board_grows d d''"
  unfolding board_grows_def by (meson prefix_order.trans subset_trans)

lemma board_same_step:
  "tasks d' = tasks d \<Longrightarrow> artifacts d' = artifacts d \<Longrightarrow> versions d' = versions d \<Longrightarrow>
    claims d' = claims d \<Longrightarrow> board_step d d'"
  by (simp add: board_step_def board_ok_def board_grows_def)

interpretation board: log_service board_step
proof
  show "board_step d d''" if "board_step d d'" "board_step d' d''" for d d' d''
    using that unfolding board_step_def by (blast intro: board_grows_trans)
  show "board_step d (d\<lparr>fencing_seq := f, uuid_ctr := u, authz_decisions := l\<rparr>)" for d f u l
    by (rule board_same_step) simp_all
  show "board_step d d'" if "logged d d'" for d d'
    using that by (intro board_same_step) simp_all
  show "board_step d d'" if "outer d d'" for d d'
    using that by (intro board_same_step) simp_all
  show "board_step d d'" if "untouched d d'" for d d'
    using that by (intro board_same_step) simp_all
qed

section \<open>Lookups under the law\<close>

lemma outputs_pairs:
  "outputs_ok ks as \<Longrightarrow> (\<lambda>k. (tk_id k, tk_topic k)) ` set ks = (\<lambda>a. (af_task a, af_topic a)) ` set as"
  unfolding outputs_ok_def by (metis list.set_map)

lemma outputs_task:
  assumes "outputs_ok ks as" and "a \<in> set as"
  obtains k where "k \<in> set ks" and "tk_id k = af_task a" and "tk_topic k = af_topic a"
proof -
  have "(af_task a, af_topic a) \<in> (\<lambda>k. (tk_id k, tk_topic k)) ` set ks"
    using assms outputs_pairs by fastforce
  then show thesis using that by auto
qed

lemma outputs_artifact:
  assumes "outputs_ok ks as" and "k \<in> set ks"
  obtains a where "a \<in> set as" and "af_task a = tk_id k" and "af_topic a = tk_topic k"
proof -
  have "(tk_id k, tk_topic k) \<in> (\<lambda>a. (af_task a, af_topic a)) ` set as"
    using assms outputs_pairs by fastforce
  then show thesis using that by auto
qed

lemma outputs_pkey_task: "outputs_ok ks as \<Longrightarrow> pkey af_task as"
proof -
  assume ok: "outputs_ok ks as"
  then have "map fst (map (\<lambda>k. (tk_id k, tk_topic k)) ks) = map fst (map (\<lambda>a. (af_task a, af_topic a)) as)"
    by (simp only: outputs_ok_def)
  then have "map tk_id ks = map af_task as" by (simp add: comp_def)
  with ok show ?thesis by (simp add: outputs_ok_def pkey_def)
qed

text \<open>The claim on a task is the claim on its artifact.\<close>

lemma claim_of_task:
  assumes "outputs_ok ks as" and "claims_ok ks as cs" and "a \<in> set as" and "c \<in> set cs"
  shows "c_artifact c = af_id a \<longleftrightarrow> c_task c = af_task a"
proof -
  obtain b where "b \<in> set as" "af_id b = c_artifact c" "af_task b = c_task c"
    using assms(2,4) claim_fitsD by (metis claims_ok_def)
  then show ?thesis
    using assms(1,3) outputs_pkey_task [OF assms(1)] by (metis outputs_ok_def pkey_unique)
qed

lemma completed_unclaimed:
  "claims_ok ks as cs \<Longrightarrow> k \<in> set ks \<Longrightarrow> tk_status k = Completed \<Longrightarrow> c \<in> set cs \<Longrightarrow> c_task c \<noteq> tk_id k"
  by (auto simp: claims_ok_def)

section \<open>The statements\<close>

lemma map_tail: "map f xs = map g ys \<Longrightarrow> f x = g y \<Longrightarrow> map f (xs @ [x]) = map g (ys @ [y])"
  by simp

text \<open>A new task with its artifact and first version.\<close>

lemma history_snoc_other:
  "v_artifact v \<noteq> af_id a \<Longrightarrow> history_of_ok (vs @ [v]) a = history_of_ok vs a"
  by (simp add: history_of_ok_def versions_of_def)

lemma board_ok_new_task:
  assumes ok: "board_ok d"
    and fresh: "find_row tk_id (tk_id k) (tasks d) = None" "find_row af_id (af_id a) (artifacts d) = None"
    and link: "af_task a = tk_id k" "af_topic a = tk_topic k" "tk_status k = Posted"
    and first: "v_artifact v = af_id a" "v_version v = 1" "af_version a = 1" "v_content v = af_content a"
    and new: "tasks d' = tasks d @ [k]" "artifacts d' = artifacts d @ [a]"
      "versions d' = versions d @ [v]" "claims d' = claims d"
  shows "board_ok d' \<and> board_grows d d'"
proof -
  have out: "outputs_ok (tasks d') (artifacts d')"
    using ok fresh link by (auto simp: board_ok_def outputs_ok_def new pkey_snoc)
  have no_claim: "\<not> (\<exists>c \<in> set (claims d). c_task c = tk_id k)"
  proof
    assume "\<exists>c \<in> set (claims d). c_task c = tk_id k"
    then obtain b where "b \<in> set (artifacts d)" "af_task b = tk_id k"
      using ok claim_fitsD by (metis board_ok_def claims_ok_def)
    then obtain k' where "k' \<in> set (tasks d)" "tk_id k' = tk_id k"
      using ok outputs_task by (metis board_ok_def)
    with fresh(1) show False by (auto simp: find_row_None)
  qed
  have claims: "claims_ok (tasks d') (artifacts d') (claims d')"
    using ok no_claim link(3) by (auto simp: board_ok_def claims_ok_def new claim_fits_def)
  have none: "versions_of (versions d) (af_id a) = []"
    using ok fresh(2) by (auto simp: board_ok_def history_ok_def versions_of_def filter_empty_conv find_row_None)
  have "\<forall>b \<in> set (artifacts d). af_id b \<noteq> af_id a" using fresh(2) by (auto simp: find_row_None)
  then have "history_ok (artifacts d') (versions d')"
    using ok none first
    by (auto simp: board_ok_def history_ok_def new history_snoc_other)
      (simp add: history_of_ok_def versions_of_def)
  then show ?thesis
    using out claims by (auto simp: board_ok_def board_grows_def new completed_tasks_def)
qed

interpretation board: task_service board_step
proof
  show "board_step d d'" if "task_created k a v d d'" for k a v d d'
    using that board_ok_new_task [of d k a v d'] by (simp add: task_created_def board_step_def)
qed

text \<open>A new version.\<close>

lemma history_next:
  assumes "history_ok as vs" and "pkey af_id as" and "b \<in> set as" and "v_artifact v = af_id b"
    and "v_version v = Suc (af_version b)" and "v_content v = ct"
    and "\<And>x. af_id (f x) = af_id x" and "\<And>x. af_version (f x) = Suc (af_version x)"
    and "\<And>x. af_content (f x) = ct"
  shows "history_ok (update_where (\<lambda>x. af_id x = af_id b) f as) (vs @ [v])"
proof -
  have "history_of_ok (vs @ [v]) (if af_id x = af_id b then f x else x)" if x: "x \<in> set as" for x
  proof (cases "af_id x = af_id b")
    case True
    with x assms have "x = b" by (metis pkey_unique)
    with assms show ?thesis by (auto simp: history_ok_def history_of_ok_def versions_of_def)
  next
    case False
    with x assms show ?thesis by (simp add: history_ok_def history_snoc_other)
  qed
  then have "\<forall>x \<in> set (update_where (\<lambda>x. af_id x = af_id b) f as). history_of_ok (vs @ [v]) x"
    unfolding set_update_where by blast
  moreover have "af_id ` set (update_where (\<lambda>x. af_id x = af_id b) f as) = af_id ` set as"
    by (rule image_update_where) (rule assms(7))
  ultimately show ?thesis
    using assms(1,3,4) by (simp add: history_ok_def)
qed

lemma next_version_law:
  assumes "artifact_versioned b st tk v d d'"
  shows "board_step d d'"
proof -
  let ?f = "bump_artifact (af_id b) st (v_content v) tk"
  let ?as = "update_where (\<lambda>x. af_id x = af_id b) ?f (artifacts d)"
  have b: "b \<in> set (artifacts d)" "v_artifact v = af_id b" "v_version v = Suc (af_version b)"
    and d': "d' = versions_update (\<lambda>tbl. tbl @ [v]) (d\<lparr>artifacts := ?as\<rparr>)"
    using assms by (simp_all add: artifact_versioned_def)
  have keep: "af_id (?f x) = af_id x" "af_task (?f x) = af_task x" "af_topic (?f x) = af_topic x"
    "af_slot (?f x) = af_slot x" "af_kind (?f x) = af_kind x" for x
    by (simp_all add: bump_artifact_def)
  have "board_ok d \<Longrightarrow> history_ok ?as (versions d @ [v])"
    using history_next [of "artifacts d" "versions d" b v "v_content v" ?f] b keep
    by (simp add: board_ok_def outputs_ok_def bump_artifact_def)
  moreover have "board_ok d \<Longrightarrow> outputs_ok (tasks d) ?as"
    using keep by (simp add: board_ok_def outputs_ok_def pkey_update_where map_update_where)
  moreover have "claim_fits ?as c = claim_fits (artifacts d) c" for c
    using keep by (simp add: claim_fits_update)
  then have "board_ok d \<Longrightarrow> claims_ok (tasks d) ?as (claims d)"
    by (simp add: board_ok_def claims_ok_def)
  moreover have "map artifact_fixed ?as = map artifact_fixed (artifacts d)"
    using keep by (simp add: map_update_where artifact_fixed_def)
  ultimately show ?thesis
    by (simp add: d' board_step_def board_ok_def board_grows_def)
qed

interpretation board: request_service board_step
  by unfold_locales (rule next_version_law)

text \<open>The claims on one artifact are replaced, and the status of its task with them.\<close>

lemma fits_task:
  assumes "outputs_ok ks as" and "claim_fits as c" and "a \<in> set as"
  shows "c_task c = af_task a \<longleftrightarrow> c_artifact c = af_id a"
proof -
  obtain b where "b \<in> set as" "af_id b = c_artifact c" "af_task b = c_task c"
    using assms(2) claim_fitsD by blast
  then show ?thesis
    using assms(1,3) outputs_pkey_task [OF assms(1)] by (metis outputs_ok_def pkey_unique)
qed

lemma claims_ok_replace:
  assumes out: "outputs_ok ks as" and ok: "claims_ok ks as cs" and a: "a \<in> set as"
    and keys: "pkey c_id cs'" "pkey c_artifact cs'" and fits: "\<forall>c \<in> set cs'. claim_fits as c"
    and others: "\<And>c. c_artifact c \<noteq> af_id a \<Longrightarrow> c \<in> set cs' \<longleftrightarrow> c \<in> set cs"
    and id: "\<And>k. tk_id (f k) = tk_id k"
    and status: "\<And>k. k \<in> set ks \<Longrightarrow> tk_id k = af_task a \<Longrightarrow>
      tk_status (f k) = Claimed \<longleftrightarrow> (\<exists>c \<in> set cs'. c_artifact c = af_id a)"
  shows "claims_ok (update_where (\<lambda>k. tk_id k = af_task a) f ks) as cs'"
proof -
  have fits0: "\<forall>c \<in> set cs. claim_fits as c" using ok by (simp add: claims_ok_def)
  have "tk_status k = Claimed \<longleftrightarrow> (\<exists>c \<in> set cs'. c_task c = tk_id k)"
    if k: "k \<in> set (update_where (\<lambda>k. tk_id k = af_task a) f ks)" for k
  proof -
    obtain k0 where k0: "k0 \<in> set ks" "k = (if tk_id k0 = af_task a then f k0 else k0)"
      using k by (auto simp: in_update_where)
    show ?thesis
    proof (cases "tk_id k0 = af_task a")
      case True
      have "(\<exists>c \<in> set cs'. c_artifact c = af_id a) \<longleftrightarrow> (\<exists>c \<in> set cs'. c_task c = af_task a)"
        using fits fits_task [OF out _ a] by blast
      with True k0 status id show ?thesis by simp
    next
      case False
      have "(\<exists>c \<in> set cs. c_task c = tk_id k0) \<longleftrightarrow> (\<exists>c \<in> set cs'. c_task c = tk_id k0)"
        using False fits fits0 fits_task [OF out _ a] others by metis
      with False k0 ok show ?thesis by (simp add: claims_ok_def)
    qed
  qed
  with keys fits show ?thesis by (simp add: claims_ok_def)
qed

lemma tasks_update_law:
  assumes "outputs_ok ks as" and "\<And>k. task_fixed (f k) = task_fixed k"
  shows "outputs_ok (update_where P f ks) as"
    and "map task_fixed (update_where P f ks) = map task_fixed ks"
proof -
  have "tk_id (f k) = tk_id k" "tk_topic (f k) = tk_topic k" for k
    using assms(2) [of k] by (cases k, cases "f k", simp add: task_fixed_def)+
  with assms(1) show "outputs_ok (update_where P f ks) as"
    by (simp add: outputs_ok_def pkey_update_where map_update_where)
  show "map task_fixed (update_where P f ks) = map task_fixed ks"
    by (rule map_update_where) (rule assms(2))
qed

lemma completed_update:
  assumes "\<And>k. k \<in> set ks \<Longrightarrow> P k \<Longrightarrow> tk_status k = Completed \<Longrightarrow> tk_status (f k) = Completed"
    and "\<And>k. tk_id (f k) = tk_id k"
  shows "completed_tasks ks \<subseteq> completed_tasks (update_where P f ks)"
proof
  fix x assume "x \<in> completed_tasks ks"
  then obtain k where k: "k \<in> set ks" "tk_status k = Completed" "x = tk_id k"
    by (auto simp: completed_tasks_def)
  then have "(if P k then f k else k) \<in> set (update_where P f ks)" by (auto simp: in_update_where)
  moreover have "tk_status (if P k then f k else k) = Completed" "tk_id (if P k then f k else k) = x"
    using assms k by auto
  ultimately show "x \<in> completed_tasks (update_where P f ks)"
    by (force simp: completed_tasks_def)
qed

lemma board_replace:
  assumes ok: "board_ok d" and a: "a \<in> set (artifacts d)"
    and keys: "pkey c_id cs'" "pkey c_artifact cs'" "\<forall>c \<in> set cs'. claim_fits (artifacts d) c"
    and others: "\<And>c. c_artifact c \<noteq> af_id a \<Longrightarrow> c \<in> set cs' \<longleftrightarrow> c \<in> set (claims d)"
    and fixed: "\<And>k. task_fixed (f k) = task_fixed k"
    and status: "\<And>k. k \<in> set (tasks d) \<Longrightarrow> tk_id k = af_task a \<Longrightarrow>
      tk_status (f k) = Claimed \<longleftrightarrow> (\<exists>c \<in> set cs'. c_artifact c = af_id a)"
    and final: "\<And>k. k \<in> set (tasks d) \<Longrightarrow> tk_id k = af_task a \<Longrightarrow> tk_status k = Completed \<Longrightarrow>
      tk_status (f k) = Completed"
  shows "board_ok (d\<lparr>claims := cs', tasks := update_where (\<lambda>k. tk_id k = af_task a) f (tasks d)\<rparr>)"
    and "board_grows d (d\<lparr>claims := cs', tasks := update_where (\<lambda>k. tk_id k = af_task a) f (tasks d)\<rparr>)"
proof -
  have id: "tk_id (f k) = tk_id k" for k
    using fixed [of k] by (cases k, cases "f k", simp add: task_fixed_def)
  have out: "outputs_ok (tasks d) (artifacts d)" using ok by (simp add: board_ok_def)
  note law = tasks_update_law [of "tasks d" "artifacts d" f, OF out fixed]
  have "claims_ok (update_where (\<lambda>k. tk_id k = af_task a) f (tasks d)) (artifacts d) cs'"
    using ok by (intro claims_ok_replace [OF out _ a keys others id status]) (auto simp: board_ok_def)
  with ok law show "board_ok (d\<lparr>claims := cs', tasks := update_where (\<lambda>k. tk_id k = af_task a) f (tasks d)\<rparr>)"
    by (simp add: board_ok_def)
  show "board_grows d (d\<lparr>claims := cs', tasks := update_where (\<lambda>k. tk_id k = af_task a) f (tasks d)\<rparr>)"
    using law completed_update [of "tasks d" "\<lambda>k. tk_id k = af_task a" f] final id
    by (simp add: board_grows_def)
qed

text \<open>A claim is removed: release, drain, sweep.\<close>

lemma claimed_artifact:
  assumes "board_ok d" and "c \<in> set (claims d)"
  obtains a where "a \<in> set (artifacts d)" and "af_id a = c_artifact c" and "af_task a = c_task c"
    and "af_topic a = c_topic c"
  using assms claim_fitsD by (metis board_ok_def claims_ok_def)

lemma drop_claim_law:
  assumes ok: "board_ok d" and c: "c \<in> set (claims d)"
    and fixed: "\<And>k. task_fixed (f k) = task_fixed k" and status: "\<And>k. tk_status (f k) \<noteq> Claimed"
  shows "board_ok (drop_claim c f (c_task c) d) \<and> board_grows d (drop_claim c f (c_task c) d)"
proof -
  obtain a where a: "a \<in> set (artifacts d)" "af_id a = c_artifact c" "af_task a = c_task c"
    by (rule claimed_artifact [OF ok c])
  let ?cs = "delete_where (\<lambda>x. c_id x = c_id c) (claims d)"
  have claims: "claims_ok (tasks d) (artifacts d) (claims d)" using ok by (simp add: board_ok_def)
  have same: "x = c" if "x \<in> set (claims d)" "c_id x = c_id c \<or> c_artifact x = c_artifact c" for x
    using claims that c by (metis claims_ok_def pkey_unique)
  have keys: "pkey c_id ?cs" "pkey c_artifact ?cs" "\<forall>x \<in> set ?cs. claim_fits (artifacts d) x"
    using claims by (auto simp: claims_ok_def pkey_delete_where)
  have others: "x \<in> set ?cs \<longleftrightarrow> x \<in> set (claims d)" if "c_artifact x \<noteq> af_id a" for x
    using same that a by auto
  have gone: "\<not> (\<exists>x \<in> set ?cs. c_artifact x = af_id a)"
    using same a(2) by (metis in_delete_where)
  have "tk_status k \<noteq> Completed" if "k \<in> set (tasks d)" "tk_id k = af_task a" for k
    using completed_unclaimed [OF claims that(1) _ c] that a by auto
  then show ?thesis
    using board_replace [OF ok a(1) keys others fixed] status gone a(3)
    by (simp add: drop_claim_def)
qed

text \<open>A claim is granted where no live claim stands; expired claims on the artifact go first.\<close>

lemma regrant_law:
  assumes ok: "board_ok d" and k: "k \<in> set (tasks d)" "tk_status k \<noteq> Completed"
    and a: "a \<in> set (artifacts d)" "af_task a = tk_id k"
    and free: "\<And>x. x \<in> set cs \<Longrightarrow> c_artifact x \<noteq> af_id a"
    and cs: "cs = delete_where (\<lambda>c. c_artifact c = af_id a \<and> P c) (claims d)"
    and c: "c_artifact c = af_id a" "c_task c = tk_id k" "c_topic c = tk_topic k"
    and fresh: "\<And>x. x \<in> set cs \<Longrightarrow> c_id x \<noteq> c_id c"
  shows "board_ok (set_task_status (tk_id k) Claimed (d\<lparr>claims := cs @ [c]\<rparr>)) \<and>
    board_grows d (set_task_status (tk_id k) Claimed (d\<lparr>claims := cs @ [c]\<rparr>))"
proof -
  have claims: "claims_ok (tasks d) (artifacts d) (claims d)"
    and out: "outputs_ok (tasks d) (artifacts d)" using ok by (simp_all add: board_ok_def)
  obtain k' where k': "k' \<in> set (tasks d)" "tk_id k' = af_task a" "tk_topic k' = af_topic a"
    by (rule outputs_task [OF out a(1)])
  have "pkey tk_id (tasks d)" using out by (simp add: outputs_ok_def)
  then have "k' = k" using k'(1) k(1) by (rule pkey_unique) (simp add: k'(2) a(2))
  with k'(3) have topic: "af_topic a = tk_topic k" by simp
  have keys: "pkey c_id (cs @ [c])" "pkey c_artifact (cs @ [c])"
  proof -
    have "pkey c_id cs" "pkey c_artifact cs"
      using claims unfolding cs by (auto simp: claims_ok_def pkey_delete_where)
    then show "pkey c_id (cs @ [c])" "pkey c_artifact (cs @ [c])"
      using free fresh c(1) by (auto simp: pkey_snoc find_row_None)
  qed
  have fits: "\<forall>x \<in> set (cs @ [c]). claim_fits (artifacts d) x"
    using claims cs c a topic by (auto simp: claims_ok_def claim_fits_def image_iff)
  have others: "x \<in> set (cs @ [c]) \<longleftrightarrow> x \<in> set (claims d)" if "c_artifact x \<noteq> af_id a" for x
    using that cs c(1) by auto
  have "tk_status x \<noteq> Completed" if "x \<in> set (tasks d)" "tk_id x = af_task a" for x
    using that k a(2) out by (metis outputs_ok_def pkey_unique)
  then show ?thesis
    using board_replace [where f = "\<lambda>x. x\<lparr>tk_status := Claimed\<rparr>" and a = a, OF ok a(1) keys fits others] a(2) c(1)
    by (simp add: set_task_status_def task_fixed_def)
qed

text \<open>A completion.\<close>

lemma state_only_law:
  assumes "\<And>x. artifact_fixed (f x) = artifact_fixed x"
    and "\<And>x. af_version (f x) = af_version x" and "\<And>x. af_content (f x) = af_content x"
  shows "outputs_ok ks (update_where P f as) = outputs_ok ks as"
    and "claim_fits (update_where P f as) c = claim_fits as c"
    and "history_ok as vs \<Longrightarrow> history_ok (update_where P f as) vs"
    and "map artifact_fixed (update_where P f as) = map artifact_fixed as"
proof -
  have keep: "af_id (f x) = af_id x" "af_task (f x) = af_task x" "af_topic (f x) = af_topic x" for x
    using assms(1) [of x] by (simp_all add: artifact_fixed_def)
  show "outputs_ok ks (update_where P f as) = outputs_ok ks as"
    using keep by (simp add: outputs_ok_def pkey_update_where map_update_where)
  show "claim_fits (update_where P f as) c = claim_fits as c"
    using keep by (simp add: claim_fits_update)
  have "history_of_ok vs (f x) = history_of_ok vs x" for x
    using keep assms by (simp add: history_of_ok_def)
  then show "history_ok as vs \<Longrightarrow> history_ok (update_where P f as) vs"
    using image_update_where [of af_id f P as] keep
    by (auto simp: history_ok_def in_update_where)
  show "map artifact_fixed (update_where P f as) = map artifact_fixed as"
    by (rule map_update_where) (rule assms(1))
qed

lemma complete_rows_law:
  assumes ok: "board_ok d" and a: "a \<in> set (artifacts d)" "af_task a = kid"
  shows "board_ok (complete_rows (af_id a) kid d) \<and> board_grows d (complete_rows (af_id a) kid d)"
proof -
  let ?g = "\<lambda>a. a\<lparr>af_state := For_review\<rparr>"
  let ?as = "update_where (\<lambda>x. af_id x = af_id a \<and> af_state x \<in> {Draft, Working, Baselined}) ?g (artifacts d)"
  let ?d = "d\<lparr>artifacts := ?as\<rparr>"
  let ?cs = "delete_where (\<lambda>c. c_artifact c = af_id a) (claims d)"
  have keep: "artifact_fixed (?g x) = artifact_fixed x" "af_version (?g x) = af_version x"
    "af_content (?g x) = af_content x" for x by (simp_all add: artifact_fixed_def)
  note law = state_only_law [of ?g, OF keep]
  have ok': "board_ok ?d" using ok law by (auto simp: board_ok_def claims_ok_def)
  have grows: "board_grows d ?d" using law by (simp add: board_grows_def)
  obtain b where b: "b \<in> set ?as" "af_id b = af_id a" "af_task b = af_task a"
  proof
    show "(if af_state a \<in> {Draft, Working, Baselined} then ?g a else a) \<in> set ?as"
      using a(1) by (auto simp: in_update_where intro!: bexI [of _ a])
  qed auto
  have keys: "pkey c_id ?cs" "pkey c_artifact ?cs" "\<forall>x \<in> set ?cs. claim_fits (artifacts ?d) x"
    using ok' by (auto simp: board_ok_def claims_ok_def pkey_delete_where)
  have others: "x \<in> set ?cs \<longleftrightarrow> x \<in> set (claims ?d)" if "c_artifact x \<noteq> af_id b" for x
    using that b by auto
  have "board_ok (?d\<lparr>claims := ?cs, tasks := update_where (\<lambda>k. tk_id k = kid)
        (\<lambda>k. k\<lparr>tk_status := Completed\<rparr>) (tasks d)\<rparr>) \<and>
      board_grows ?d (?d\<lparr>claims := ?cs, tasks := update_where (\<lambda>k. tk_id k = kid)
        (\<lambda>k. k\<lparr>tk_status := Completed\<rparr>) (tasks d)\<rparr>)"
    using board_replace [where f = "\<lambda>k. k\<lparr>tk_status := Completed\<rparr>" and a = b, OF ok' _ keys others] b a(2)
    by (simp add: task_fixed_def)
  with grows show ?thesis
    by (auto simp: complete_rows_def intro: board_grows_trans)
qed

section \<open>Claims\<close>

lemma live_claim_None:
  "live_claim E d aid = None \<Longrightarrow> c \<in> set (claims d) \<Longrightarrow> c_artifact c = aid \<Longrightarrow> c_expires c \<le> pg_now E"
  by (auto simp: live_claim_def find_None_iff not_less)

lemma regranted_law:
  assumes "claim_regranted E k a c d d'"
  shows "board_step d d'"
  unfolding board_step_def
proof
  assume ok: "board_ok d"
  let ?cs = "delete_where (\<lambda>c. c_artifact c = af_id a \<and> c_expires c \<le> pg_now E) (claims d)"
  have k: "k \<in> set (tasks d)" "tk_status k \<noteq> Completed"
    and a: "a \<in> set (artifacts d)" "af_task a = tk_id k"
    and c: "c_artifact c = af_id a" "c_task c = tk_id k" "c_topic c = tk_topic k"
    and free: "live_claim E (drop_expired E (af_id a) d) (af_id a) = None"
    and fresh: "\<not> exists_where (\<lambda>x. c_artifact x = c_artifact c \<or> c_id x = c_id c) ?cs"
    and d': "d' = set_task_status (tk_id k) Claimed (d\<lparr>claims := ?cs @ [c]\<rparr>)"
  proof -
    have "task_of d (tk_id k) = Some k" "artifact_of_task d (tk_id k) = Some a"
      using assms by (simp_all add: claim_regranted_def)
    then show "k \<in> set (tasks d)" "a \<in> set (artifacts d)" "af_task a = tk_id k"
      by (auto simp: task_of_def artifact_of_task_def dest: find_row_Some)
  qed (use assms in \<open>auto simp: claim_regranted_def drop_expired_def comp_def\<close>)
  have "c_artifact x \<noteq> af_id a" if x: "x \<in> set ?cs" for x
  proof
    assume e: "c_artifact x = af_id a"
    have "c_expires x \<le> pg_now E"
      using live_claim_None [OF free _ e] x by (simp add: drop_expired_def)
    with x e show False by simp
  qed
  moreover have "c_id x \<noteq> c_id c" if "x \<in> set ?cs" for x
    using that fresh by (auto simp: exists_where_def list_ex_iff)
  ultimately show "board_ok d' \<and> board_grows d d'"
    unfolding d' by (intro regrant_law [OF ok k a _ refl c]) auto
qed

lemma live_claim_in: "live_claim E d aid = Some c \<Longrightarrow> c \<in> set (claims d) \<and> c_artifact c = aid"
  by (auto simp: live_claim_def find_Some_iff)

lemma released_law:
  assumes "claim_released E kid d d'"
  shows "board_step d d'"
  unfolding board_step_def
proof
  assume ok: "board_ok d"
  obtain a c where a: "artifact_of_task d kid = Some a" and c: "live_claim E d (af_id a) = Some c"
    and d': "d' = drop_claim c (\<lambda>x. x\<lparr>tk_status := Posted\<rparr>) kid d"
    using assms by (auto simp: claim_released_def)
  have "a \<in> set (artifacts d)" "af_task a = kid"
    using a by (auto simp: artifact_of_task_def dest: find_row_Some)
  then have "c_task c = kid"
    using claim_of_task live_claim_in [OF c] ok by (metis board_ok_def)
  then show "board_ok d' \<and> board_grows d d'"
    using drop_claim_law [OF ok, of c "\<lambda>x. x\<lparr>tk_status := Posted\<rparr>"] live_claim_in [OF c]
    by (simp add: d' task_fixed_def)
qed

interpretation board: board_service board_step
proof
  show "board_step d d'" if "claim_regranted E k a c d d'" for E k a c d d'
    using that by (rule regranted_law)
  show "board_step d d'" if "claim_released E kid d d'" for E kid d d'
    using that by (rule released_law)
  show "board_step d d'" if fin: "task_finished kid d d'" for kid d d'
  proof -
    obtain a where "artifact_of_task d kid = Some a" and d': "d' = complete_rows (af_id a) kid d"
      using fin unfolding task_finished_def by blast
    then have "a \<in> set (artifacts d)" "af_task a = kid"
      by (auto simp: artifact_of_task_def dest: find_row_Some)
    then show ?thesis unfolding board_step_def d' by (intro impI complete_rows_law)
  qed
qed

text \<open>
  A scanned claim is handled in a later transaction. \<open>current_claim\<close>: a row with its id, if there
  still is one, is the claim that was scanned. It holds of every claim of a table that satisfies the
  law, and deletions keep it.
\<close>

definition current_claim :: "claim_row \<Rightarrow> db \<Rightarrow> bool" where
  "current_claim c d \<longleftrightarrow> (\<forall>x \<in> set (claims d). c_id x = c_id c \<longrightarrow> x = c)"

lemma current_here: "board_ok d \<Longrightarrow> c \<in> set (claims d) \<Longrightarrow> current_claim c d"
  unfolding current_claim_def board_ok_def claims_ok_def by (metis pkey_unique)

lemma dropped_step:
  assumes "current_claim c d" and "exists_where (\<lambda>x. c_id x = c_id c) (claims d)"
    and "\<And>k. task_fixed (f k) = task_fixed k" and "\<And>k. tk_status (f k) \<noteq> Claimed"
  shows "board_step d (drop_claim c f (c_task c) d)"
proof -
  have "c \<in> set (claims d)"
    using assms(1,2) by (auto simp: current_claim_def exists_where_def list_ex_iff)
  with assms(3,4) show ?thesis by (simp add: board_step_def drop_claim_law)
qed

lemma leave_claimed_fixed: "task_fixed (leave_claimed s k) = task_fixed k"
  by (simp add: leave_claimed_def task_fixed_def)

lemma leave_claimed_left: "s \<noteq> Claimed \<Longrightarrow> tk_status (leave_claimed s k) \<noteq> Claimed"
  by (simp add: leave_claimed_def)

lemma drain_claim_board:
  "current_claim c d \<Longrightarrow> after (\<lambda>_. board_step d) (drain_claim E tid ac c d)"
  unfolding drain_claim_def
  by (auto intro!: board.rel_rules board.rel_emit board.rel_write_step dropped_step simp: task_fixed_def)

lemma sweep_claim_board:
  assumes "current_claim c d"
  shows "after (\<lambda>_. board_step d) (sweep_claim E c d)"
proof (cases "exists_where (\<lambda>x. c_id x = c_id c) (claims d)")
  case True
  note drop = dropped_step [OF assms True, of "leave_claimed s" for s]
  have gone: "board_step d (d\<lparr>claims := delete_where (\<lambda>x. c_id x = c_id c) (claims d)\<rparr>)"
    if none: "task_of d (c_task c) = None"
  proof -
    have "\<not> board_ok d"
    proof
      assume ok: "board_ok d"
      have "c \<in> set (claims d)" using True assms by (auto simp: current_claim_def exists_where_def list_ex_iff)
      then obtain a where "a \<in> set (artifacts d)" "af_task a = c_task c"
        using claimed_artifact [OF ok] by metis
      then obtain k where "k \<in> set (tasks d)" "tk_id k = c_task c"
        using ok outputs_task by (metis board_ok_def)
      with none show False by (auto simp: task_of_def find_row_None)
    qed
    then show ?thesis by (simp add: board_step_def)
  qed
  show ?thesis
    unfolding sweep_claim_def
    using True gone drop leave_claimed_fixed leave_claimed_left
    by (auto intro!: board.rel_recover_claim)
next
  case False
  then have "delete_where (\<lambda>x. c_id x = c_id c) (claims d) = claims d"
    by (auto simp: exists_where_def list_ex_iff delete_where_def filter_id_conv)
  with False show ?thesis by (simp add: sweep_claim_def)
qed

text \<open>A scan pass only removes claims, so what it scanned stays current.\<close>

definition claims_shrink :: "db \<Rightarrow> db \<Rightarrow> bool" where
  "claims_shrink d d' \<longleftrightarrow> set (claims d') \<subseteq> set (claims d)"

interpretation shrink: request_service claims_shrink
  by unfold_locales
    (auto simp: claims_shrink_def task_created_def artifact_versioned_def)

lemma current_shrink: "claims_shrink d d' \<Longrightarrow> current_claim c d \<Longrightarrow> current_claim c d'"
  unfolding claims_shrink_def current_claim_def by blast

lemma drop_claim_shrink: "claims_shrink d (drop_claim c f kid d)"
  by (auto simp: claims_shrink_def drop_claim_def)

lemma drain_claim_shrink: "claims_shrink d (snd (transaction (drain_claim E tid ac c) d))"
  unfolding drain_claim_def
  by (auto intro!: shrink.rel_rules shrink.rel_emit shrink.rel_write_step drop_claim_shrink)

lemma sweep_claim_shrink: "claims_shrink d (snd (transaction (sweep_claim E c) d))"
proof (rule shrink.rel_transaction)
  have "claims_shrink d (d\<lparr>claims := delete_where P (claims d)\<rparr>)" for P
    by (auto simp: claims_shrink_def)
  then show "after (\<lambda>_. claims_shrink d) (sweep_claim E c d)"
    unfolding sweep_claim_def
    by (auto intro!: shrink.rel_recover_claim drop_claim_shrink)
qed

lemma drain_claims_board:
  "board_step d (snd (each_item (drain_claim E tid ac) (scan_claims d tid) d))"
proof (cases "board_ok d")
  case True
  show ?thesis
  proof (rule board.rel_each_item_when [where Q = current_claim])
    show "current_claim c d" if "c \<in> set (scan_claims d tid)" for c
      using that True by (auto simp: scan_claims_def intro: current_here)
  qed (auto intro: drain_claim_board current_shrink drain_claim_shrink)
qed (simp add: board_step_def)

lemma sweepAbandonedClaims_board: "board_step d (snd (sweepAbandonedClaims E g d))"
proof (cases "board_ok d")
  case True
  show ?thesis
    unfolding sweepAbandonedClaims_def
  proof (rule board.rel_each_item_when [where Q = current_claim])
    show "current_claim c d" if "c \<in> set (scan_expired_claims E (clampGrace g) d)" for c
      using that True by (auto simp: scan_expired_claims_def intro: current_here)
  qed (auto intro: sweep_claim_board current_shrink sweep_claim_shrink)
qed (simp add: board_step_def)

section \<open>Topics: charter, join, level, close\<close>

lemma status_board: "board_step d (set_status tid P s d)"
  by (rule board_same_step) (simp_all add: set_status_def)

lemma close_phase1_board: "after (\<lambda>_. board_step d) (close_phase1 E tid ac d)"
  unfolding close_phase1_def
  by (auto intro!: board.rel_rules board.rel_emit board.rel_write_step status_board split: option.split)

lemma close_phase3_board: "after (\<lambda>_. board_step d) (close_phase3 E tid ac d)"
  unfolding close_phase3_def
  by (auto intro!: board.rel_rules board.rel_emit board.rel_write_step status_board)

lemma closeTopic_board: "board_step d (snd (closeTopic E pid tid ac d))"
  by (rule board.rel_closeTopic)
    (auto intro: board.rel_transaction close_phase1_board close_phase3_board board.rel_phase2
      drain_claims_board board.rel_drain_request board.rel_drain_motion)

lemma sweep_cycle_board: "board_step d (sweep_cycle E1 E2 E3 E4 got g d)"
  by (rule board.rel_sweep_cycle)
    (rule sweepAbandonedClaims_board closeTopic_board board.rel_sweepStalledSteps
      board.rel_sweepExpiredMotions)+

lemma charterTopic_board: "board_step d (snd (charterTopic E pid pr nm ch cb d))"
  by (rule board.rel_charterTopic) (simp add: board_same_step)

lemma joinTopic_board: "board_step d (snd (joinTopic E pid tid aid ty nm lvl ss d))"
  by (rule board.rel_joinTopic) (rule status_board)

end
