(* ===== verification/Grants.thy ===== *)
theory Grants
  imports Bodies
begin

text \<open>
  The grants substrate (services/grants.ts): shape and existence checks, idempotent creation on the
  unique active edge, revocation, listing. \<open>authorize\<close> reads the rows these operations write.
\<close>

fun scope_type_text :: "scope_type \<Rightarrow> string" where
  "scope_type_text S_global = ''global''"
| "scope_type_text S_project = ''project''"
| "scope_type_text S_topic = ''topic''"
| "scope_type_text S_task = ''task''"
| "scope_type_text S_group = ''group''"

definition SCOPE_TYPES :: "scope_type list" where
  "SCOPE_TYPES = [S_global, S_project, S_topic, S_task, S_group]"

definition parse_scope_type :: "string \<Rightarrow> scope_type option" where
  "parse_scope_type s = find (\<lambda>t. scope_type_text t = s) SCOPE_TYPES"

fun capability_text :: "capability \<Rightarrow> string" where
  "capability_text C_read = ''read''"
| "capability_text C_write = ''write''"
| "capability_text C_admin = ''admin''"
| "capability_text C_delegate = ''delegate''"

definition CAPABILITIES :: "capability list" where
  "CAPABILITIES = [C_read, C_write, C_admin, C_delegate]"

definition parse_capability :: "string \<Rightarrow> capability option" where
  "parse_capability s = find (\<lambda>c. capability_text c = s) CAPABILITIES"

section \<open>normalizeScope\<close>

definition normalizeScope :: "string \<Rightarrow> string option \<Rightarrow> exn + (scope_type \<times> string option)" where
  "normalizeScope scopeType scopeId = (case parse_scope_type scopeType of
     None \<Rightarrow> bad
   | Some S_global \<Rightarrow> if trim_opt scopeId \<noteq> [] then bad else Inr (S_global, None)
   | Some t \<Rightarrow> if trim_opt scopeId = [] then bad else Inr (t, Some (trim_opt scopeId)))"

section \<open>createGrant\<close>

definition principal_of :: "env \<Rightarrow> string \<Rightarrow> db \<Rightarrow> principal_row option" where
  "principal_of E pid d = (if is_uuid E pid then find_row pr_id pid (principals d) else None)"

definition grant_edge :: "grant_row \<Rightarrow> string \<times> scope_type \<times> string option \<times> capability" where
  "grant_edge g = (g_grantee g, g_scope_type g, g_scope_id g, g_capability g)"

definition active_edge ::
  "string \<times> scope_type \<times> string option \<times> capability \<Rightarrow> db \<Rightarrow> grant_row option" where
  "active_edge e d = find (\<lambda>g. grant_edge g = e \<and> g_revoked_at g = None) (grants d)"

text \<open>
  One round of the loop: \<^verbatim>\<open>INSERT .. ON CONFLICT DO NOTHING RETURNING\<close>, else the active row.
\<close>

definition grant_round ::
  "env \<Rightarrow> string \<times> scope_type \<times> string option \<times> capability \<Rightarrow> string \<Rightarrow> db \<Rightarrow>
     (exn + grant_row option) \<times> db" where
  "grant_round E e by_whom d = (case active_edge e d of
     Some g \<Rightarrow> (Inr (Some g), d)
   | None \<Rightarrow> (case e of (grantee, sty, sid, cap) \<Rightarrow>
       let g = \<lparr>g_id = uuid_of E (uuid_ctr d), g_grantee = grantee, g_scope_type = sty,
                g_scope_id = sid, g_capability = cap, g_granted_by = by_whom, g_granted_at = pg_now E,
                g_revoked_at = None\<rparr>;
           d1 = d\<lparr>uuid_ctr := Suc (uuid_ctr d)\<rparr>
       in if find_row g_id (g_id g) (grants d) \<noteq> None then (Inl Pg_unique, d1)
          else (Inr (Some g), d1\<lparr>grants := grants d @ [g]\<rparr>)))"

fun grant_loop ::
  "nat \<Rightarrow> env \<Rightarrow> string \<times> scope_type \<times> string option \<times> capability \<Rightarrow> string \<Rightarrow> db \<Rightarrow> grant_row outcome"
  where
  "grant_loop 0 E e by_whom d = throw CONFLICT d"
| "grant_loop (Suc n) E e by_whom d = (case grant_round E e by_whom d of
     (Inl x, d') \<Rightarrow> (Inl x, d')
   | (Inr (Some g), d') \<Rightarrow> (Inr g, d')
   | (Inr None, d') \<Rightarrow> grant_loop n E e by_whom d')"

definition createGrant ::
  "env \<Rightarrow> string \<Rightarrow> string \<Rightarrow> string option \<Rightarrow> string \<Rightarrow> string \<Rightarrow> db \<Rightarrow> grant_row outcome" where
  "createGrant E grantee scope_type scope_id capability granted_by d =
     (case parse_capability capability of
        None \<Rightarrow> throw BAD_REQUEST d
      | Some cap \<Rightarrow>
          (case normalizeScope scope_type scope_id of
             Inl x \<Rightarrow> (Inl x, d)
           | Inr (sty, sid) \<Rightarrow>
               if \<not> is_uuid E grantee \<or> \<not> is_uuid E granted_by then throw BAD_REQUEST d
               else if principal_of E grantee d = None \<or> principal_of E granted_by d = None
               then throw NOT_FOUND d
               else grant_loop 3 E (grantee, sty, sid, cap) granted_by d))"

section \<open>getGrant, revokeGrant, listGrants\<close>

definition getGrant :: "env \<Rightarrow> string \<Rightarrow> db \<Rightarrow> grant_row option" where
  "getGrant E gid d = (if is_uuid E gid then find_row g_id gid (grants d) else None)"

definition revokeGrant :: "env \<Rightarrow> string \<Rightarrow> db \<Rightarrow> db" where
  "revokeGrant E gid d =
     (if \<not> is_uuid E gid then d
      else d\<lparr>grants := update_where (\<lambda>g. g_id g = gid \<and> g_revoked_at g = None)
               (\<lambda>g. g\<lparr>g_revoked_at := Some (pg_now E)\<rparr>) (grants d)\<rparr>)"

record grant_filter =
  gf_grantee :: "string option"
  gf_scope_type :: "scope_type option"
  gf_scope_id :: "string option"
  gf_granted_by :: "string option"
  gf_include_revoked :: bool

definition wanted :: "string option \<Rightarrow> string \<Rightarrow> bool" where
  "wanted f x = (case f of None \<Rightarrow> True | Some y \<Rightarrow> y = [] \<or> x = y)"

definition grant_matches :: "grant_filter \<Rightarrow> grant_row \<Rightarrow> bool" where
  "grant_matches f g =
     (wanted (gf_grantee f) (g_grantee g) \<and> wanted (gf_granted_by f) (g_granted_by g) \<and>
      (case gf_scope_type f of
         None \<Rightarrow> True
       | Some t \<Rightarrow> g_scope_type g = t \<and>
           (t \<noteq> S_global \<or> gf_scope_id f \<noteq> None \<longrightarrow> g_scope_id g = gf_scope_id f)) \<and>
      (gf_include_revoked f \<or> g_revoked_at g = None))"

text \<open>\<^verbatim>\<open>ORDER BY granted_at DESC, grant_id\<close>\<close>

definition listGrants :: "grant_filter \<Rightarrow> db \<Rightarrow> grant_row list" where
  "listGrants f d =
     sort_key (\<lambda>g. (- g_granted_at g, g_id g)) (filter (grant_matches f) (grants d))"

section \<open>The edges\<close>

text \<open>
  The invariant of the partial unique index (one active row per edge), with the primary key.
\<close>

definition edges_ok :: "db \<Rightarrow> bool" where
  "edges_ok d \<longleftrightarrow> pkey g_id (grants d) \<and>
     distinct (map grant_edge (filter (\<lambda>g. g_revoked_at g = None) (grants d)))"

lemma active_edge_Some: "active_edge e d = Some g \<Longrightarrow> g \<in> set (grants d) \<and> grant_edge g = e \<and> g_revoked_at g = None"
  by (auto simp: active_edge_def find_Some_iff)

lemma active_edge_None:
  "active_edge e d = None \<longleftrightarrow> (\<forall>g \<in> set (grants d). grant_edge g = e \<longrightarrow> g_revoked_at g \<noteq> None)"
  by (auto simp: active_edge_def find_None_iff)

lemma grant_round_cases:
  obtains (old) g where "active_edge e d = Some g" and "grant_round E e who d = (Inr (Some g), d)"
  | (clash) "grant_round E e who d = (Inl Pg_unique, d\<lparr>uuid_ctr := Suc (uuid_ctr d)\<rparr>)"
  | (new) g where "active_edge e d = None" and "find_row g_id (g_id g) (grants d) = None"
      and "grant_edge g = e" and "g_revoked_at g = None" and "g_granted_by g = who"
      and "grant_round E e who d =
             (Inr (Some g), d\<lparr>uuid_ctr := Suc (uuid_ctr d), grants := grants d @ [g]\<rparr>)"
proof (cases "active_edge e d")
  case (Some g)
  then show thesis using old by (simp add: grant_round_def)
next
  case None
  obtain grantee sty sid cap where e: "e = (grantee, sty, sid, cap)" by (cases e)
  let ?g = "\<lparr>g_id = uuid_of E (uuid_ctr d), g_grantee = grantee, g_scope_type = sty, g_scope_id = sid,
             g_capability = cap, g_granted_by = who, g_granted_at = pg_now E, g_revoked_at = None\<rparr>"
  show thesis
  proof (cases "find_row g_id (g_id ?g) (grants d) = None")
    case True
    with None e show thesis
      by (intro new [of ?g]) (simp_all add: grant_round_def grant_edge_def Let_def)
  next
    case False
    with None e show thesis by (intro clash) (simp add: grant_round_def Let_def)
  qed
qed

lemma grant_loop_eq:
  "grant_loop (Suc n) E e who d = (case grant_round E e who d of
     (Inl x, d') \<Rightarrow> (Inl x, d') | (Inr (Some g), d') \<Rightarrow> (Inr g, d') | (Inr None, d') \<Rightarrow> throw CONFLICT d')"
  by (cases rule: grant_round_cases [of e d E who]) simp_all

lemma edges_ok_round: "edges_ok d \<Longrightarrow> edges_ok (snd (grant_round E e who d))"
proof (cases rule: grant_round_cases [of e d E who])
  case (new g)
  assume "edges_ok d"
  moreover have "e \<notin> grant_edge ` set (filter (\<lambda>g. g_revoked_at g = None) (grants d))"
    using new(1) by (auto simp: active_edge_None)
  ultimately show ?thesis using new by (simp add: edges_ok_def pkey_snoc)
qed (auto simp: edges_ok_def)

lemma createGrant_cases:
  obtains x where "createGrant E gr sty sid cap who d = (Inl x, d)"
  | e where "createGrant E gr sty sid cap who d = grant_loop 3 E e who d" and "fst e = gr"
proof -
  show thesis
  proof (cases "\<exists>x. createGrant E gr sty sid cap who d = (Inl x, d)")
    case True
    then show thesis using that(1) by blast
  next
    case False
    then have "\<exists>e. createGrant E gr sty sid cap who d = grant_loop 3 E e who d \<and> fst e = gr"
      by (auto simp: createGrant_def throw_def split: option.splits sum.splits prod.splits if_splits)
    then show thesis using that(2) by blast
  qed
qed

lemma snd_grant_loop: "snd (grant_loop 3 E e who d) = snd (grant_round E e who d)"
proof -
  have "(3::nat) = Suc 2" by simp
  then show ?thesis
    by (cases rule: grant_round_cases [of e d E who]) (simp_all only: grant_loop_eq, simp_all)
qed

lemma createGrant_edges_ok: "edges_ok d \<Longrightarrow> edges_ok (snd (createGrant E gr sty sid cap who d))"
  by (cases rule: createGrant_cases [of E gr sty sid cap who d])
    (auto simp: snd_grant_loop edges_ok_round)

lemma active_update_where:
  assumes "\<And>g. Q g \<Longrightarrow> \<not> A (f g)" and "\<And>g. Q g \<Longrightarrow> A g"
  shows "filter A (update_where Q f xs) = filter (\<lambda>g. \<not> Q g) (filter A xs)"
  using assms by (induction xs) (auto simp: update_where_def)

lemma revokeGrant_edges_ok: "edges_ok d \<Longrightarrow> edges_ok (revokeGrant E gid d)"
proof -
  assume ok: "edges_ok d"
  let ?P = "\<lambda>g. g_id g = gid \<and> g_revoked_at g = None"
  let ?f = "\<lambda>g. g\<lparr>g_revoked_at := Some (pg_now E)\<rparr>"
  have "filter (\<lambda>g. g_revoked_at g = None) (update_where ?P ?f (grants d)) =
      filter (\<lambda>g. \<not> ?P g) (filter (\<lambda>g. g_revoked_at g = None) (grants d))"
    by (rule active_update_where) auto
  with ok show ?thesis
    by (auto simp: revokeGrant_def edges_ok_def pkey_update_where distinct_map_filter
        simp del: filter_filter)
qed

section \<open>Properties\<close>

text \<open>Who is allowed what, as the decision of \<^verbatim>\<open>authorize\<close> for every principal, action and resource.\<close>

lemma authorize_grants:
  assumes "\<And>p. loadActiveGrants p d' = loadActiveGrants p d"
    and "d' = d\<lparr>uuid_ctr := u, grants := gs\<rparr>"
  shows "fst (authorize E pid act rf d') = fst (authorize E pid act rf d)"
  using assms(1)
  by (simp add: assms(2) authorize_def evaluate_def loadPrincipalLite_def resolveResourceScope_def topic_scope_def
      task_scope_def Let_def cong: if_cong option.case_cong res_kind.case_cong)

lemma revoke_new:
  assumes "find_row g_id (g_id g) gs = None"
  shows "update_where (\<lambda>x. g_id x = g_id g \<and> g_revoked_at x = None) f (gs @ [g]) =
    gs @ [if g_revoked_at g = None then f g else g]"
  using assms by (auto simp: update_where_def find_row_None intro!: map_idI)

text \<open>
  Property C28. Granting and revoking: creating a grant on an edge that has no active grant makes exactly one
  more grant active for its grantee, and revoking it gives back exactly the decisions of before, for every
  principal, action and resource.
\<close>

theorem grant_roundtrip:
  assumes "createGrant E gr sty sid cap who d = (Inr g, d')" and "active_edge (grant_edge g) d = None"
    and "is_uuid E (g_id g)"
  shows "loadActiveGrants gr d' = loadActiveGrants gr d @ [g] \<and> g_granted_by g = who \<and>
    (\<forall>pid act rf. fst (authorize E pid act rf (revokeGrant E (g_id g) d')) = fst (authorize E pid act rf d))"
proof -
  obtain e where e: "grant_loop 3 E e who d = (Inr g, d')" "fst e = gr"
    using assms(1) by (cases rule: createGrant_cases [of E gr sty sid cap who d]) auto
  have three: "(3::nat) = Suc 2" by simp
  have new: "find_row g_id (g_id g) (grants d) = None \<and> g_granted_by g = who \<and> g_revoked_at g = None \<and> g_grantee g = gr \<and>
    d' = d\<lparr>uuid_ctr := Suc (uuid_ctr d), grants := grants d @ [g]\<rparr>"
  proof (cases rule: grant_round_cases [of e d E who])
    case (old h)
    then have "h = g" using e(1) unfolding three grant_loop_eq by simp
    then show ?thesis using old(1) assms(2) active_edge_Some [OF old(1)] by simp
  next
    case clash
    then show ?thesis using e(1) unfolding three grant_loop_eq by simp
  next
    case (new h)
    then have "h = g" "d' = d\<lparr>uuid_ctr := Suc (uuid_ctr d), grants := grants d @ [h]\<rparr>"
      using e(1) unfolding three grant_loop_eq by auto
    moreover have "g_grantee h = gr" using new(3) e(2) by (simp add: grant_edge_def prod_eq_iff)
    ultimately show ?thesis using new(2,4,5) by simp
  qed
  let ?r = "g\<lparr>g_revoked_at := Some (pg_now E)\<rparr>"
  have undone: "revokeGrant E (g_id g) d' = d\<lparr>uuid_ctr := Suc (uuid_ctr d), grants := grants d @ [?r]\<rparr>"
    using assms(3) new by (simp add: revokeGrant_def revoke_new del: update_where_append)
  have "loadActiveGrants p (revokeGrant E (g_id g) d') = loadActiveGrants p d" for p
    unfolding undone by (simp add: loadActiveGrants_def)
  then have "fst (authorize E pid act rf (revokeGrant E (g_id g) d')) = fst (authorize E pid act rf d)" for pid act rf
    using undone by (rule authorize_grants)
  moreover have "loadActiveGrants gr d' = loadActiveGrants gr d @ [g]"
    using new by (simp add: loadActiveGrants_def)
  ultimately show ?thesis using new by blast
qed

theorem grant_roundtrip_witness:
  "map g_grantee (loadActiveGrants ''mia'' (snd (createGrant auth_env ''mia'' ''project'' (Some ''p'') ''write'' ''root'' members_db))) = [''mia''] \<and>
   fst (authorize auth_env (Some ''mia'') A_write (rref K_project ''p'')
     (snd (createGrant auth_env ''mia'' ''project'' (Some ''p'') ''write'' ''root'' members_db))) = Allow GRANT (Some ''u'') \<and>
   fst (authorize auth_env (Some ''mia'') A_write (rref K_project ''p'') (revokeGrant auth_env ''u''
     (snd (createGrant auth_env ''mia'' ''project'' (Some ''p'') ''write'' ''root'' members_db)))) = Deny NO_COVERING_GRANT"
proof -
  let ?run = "createGrant auth_env ''mia'' ''project'' (Some ''p'') ''write'' ''root'' members_db"
  let ?g = "\<lparr>g_id = ''u'', g_grantee = ''mia'', g_scope_type = S_project, g_scope_id = Some ''p'', g_capability = C_write,
     g_granted_by = ''root'', g_granted_at = 1000000, g_revoked_at = None\<rparr>"
  have "fst ?run = Inr ?g" by code_simp
  then have run: "?run = (Inr ?g, snd ?run)" by (metis prod.collapse)
  have "active_edge (grant_edge ?g) members_db = None" "is_uuid auth_env (g_id ?g)"
    "fst (authorize auth_env (Some ''mia'') A_write (rref K_project ''p'') members_db) = Deny NO_COVERING_GRANT"
    "fst (authorize auth_env (Some ''mia'') A_write (rref K_project ''p'') (snd ?run)) = Allow GRANT (Some ''u'')"
    "loadActiveGrants ''mia'' members_db = []"
    by code_simp+
  with grant_roundtrip [OF run] show ?thesis by simp
qed

end
