(* ===== verification/System.thy ===== *)
theory System
  imports Routing BoardLaw Grants
begin

text \<open>
  The services together: \<open>step\<close> is one commit of the system, \<open>reachable\<close> what any interleaving of
  calls can lead to. An operation that commits in one transaction is one step. An operation that commits
  in several (joining, opening a dispute, closing a topic, the sweeps), or whose checks come before its
  transaction, appears as a whole and in its parts, so calls of other clients may come in between. The
  parts may occur in any order here, more than the code does; an invariant of \<open>step\<close> is one of the code.
\<close>

section \<open>Steps\<close>

inductive step :: "db \<Rightarrow> db \<Rightarrow> bool" where
  chartered: "step d (snd (charterTopic E pid pr nm ch cb d))"
| joined: "step d (snd (joinTopic E pid tid aid ty nm lvl ss d))"
| joins: "step d (snd (transaction (join_writes E tid aid aty nm l) d))"
| level_granted: "step d (snd (grantLevel E pid tid aid lvl gb d))"
| posted: "step d (snd (postTask E pid tid ti topo dep ra sl ki cb d))"
| posts: "step d (snd (transaction (post_body E kid aid p) d))"
| claimed: "step d (snd (claimTask E pid kid ac ttl d))"
| released: "step d (snd (releaseTask E pid kid ac d))"
| completed: "step d (snd (completeTask E pid kid ac d))"
| written: "step d (snd (writeArtifact E pid aid cid f ct ac d))"
| baselined: "step d (snd (baselineArtifact E pid aid cid f ac d))"
| body_created: "step d (snd (createBody E pid pj nm q th vs cb d))"
| member_added: "step d (snd (addBodyMember E pid bid ac vw d))"
| proxy_granted: "step d (snd (grantProxy E pid bid w p gb d))"
| proxy_revoked: "step d (snd (revokeProxy E pid bid w p d))"
| submitted: "step d (snd (submitRequest E pid tid sty sub k wt pro who ex d))"
| submits: "route \<noteq> [] \<Longrightarrow> step d (snd (transaction (submit_body E tid sub k w' who ex' rid m route) d))"
| decided: "step d (snd (decideStep E pid rid si ac dec d))"
| motion_proposed: "step d (snd (proposeMotion E pid tid bid sr p mi ex d))"
| proposes: "step d (snd (transaction (propose_body E tid bid sr p mins ex') d))"
| motion_seconded: "step d (snd (secondMotion E pid mid ac d))"
| vote_cast: "step d (snd (castVote E pid mid ac ch pf d))"
| motion_vetoed: "step d (snd (vetoMotion E pid mid ac d))"
| motion_tallied: "step d (snd (tallyMotion E pid mid d))"
| dispute_opened: "step d (snd (openDispute E pid tid sr ps pro who ki wo d))"
| dispute_inserted: "step d (snd (transaction (insert_dispute E tid sr ps) d))"
| dispute_dropped: "step d (drop_dispute did d)"
| dispute_linked: "step d (set_dispute did (\<lambda>x. x\<lparr>d_request := Some rid\<rparr>) d)"
| dispute_resolved: "step d (snd (resolveDispute E pid did d))"
| appended: "step d (snd (transaction (emit E evt) d))"
| intake_submitted: "step d (snd (submitIntake E pid pj ot ki bo who d))"
| intake_triaged: "step d (snd (triageIntake E pid iid tid ac rt d))"
| triages: "step d (snd (transaction (triage_writes E iid tid ac rt to dis) d))"
| intake_dismissed: "step d (snd (dismissIntake E pid iid d))"
| closed: "step d (snd (closeTopic E pid tid ac d))"
| freezes: "step d (snd (transaction (close_phase1 E tid ac) d))"
| drains_claim: "current_claim c d \<Longrightarrow> step d (snd (transaction (drain_claim E tid ac c) d))"
| drains_request: "step d (snd (transaction (drain_request E tid ac r) d))"
| drains_motion: "step d (snd (transaction (drain_motion E tid ac mo) d))"
| drains_dispute: "step d (snd (transaction (drain_dispute E tid ac ds) d))"
| drains_intake: "step d (snd (transaction (drain_intake E tid ac i) d))"
| seals: "step d (snd (transaction (close_phase3 E tid ac) d))"
| sweeps_claim: "current_claim c d \<Longrightarrow> step d (snd (transaction (sweep_claim E c) d))"
| sweeps_step: "step d (snd (transaction (sweep_step E sx) d))"
| sweeps_motion: "step d (snd (transaction (sweep_motion E mo) d))"
| claims_swept: "step d (snd (sweepAbandonedClaims E g d))"
| cycled: "step d (sweep_cycle E E2 E3 E4 got g d)"
| grant_created: "step d (snd (createGrant E gr sty sid cap by_whom d))"
| grant_revoked: "step d (revokeGrant E gid d)"
| read: "step d (d\<lparr>authz_decisions := zs\<rparr>)"
| configured: "step d (d\<lparr>matrix := mx, matrix_levels := ml, projects := pjs, doc_projects := dps,
    lesson_projects := lps, principals := prs\<rparr>)"

text \<open>Nothing has happened yet: the tables the services own are empty, the others arbitrary.\<close>

definition initial :: "db \<Rightarrow> bool" where
  "initial d \<longleftrightarrow> topics d = [] \<and> actors d = [] \<and> participants d = [] \<and> events d = [] \<and> tasks d = [] \<and>
     artifacts d = [] \<and> versions d = [] \<and> claims d = [] \<and> requests d = [] \<and> steps d = [] \<and> bodies d = [] \<and>
     members d = [] \<and> motions d = [] \<and> votes d = [] \<and> proxies d = [] \<and> intake_items d = [] \<and> disputes d = [] \<and>
     grants d = []"

inductive reachable :: "db \<Rightarrow> bool" where
  start: "initial d \<Longrightarrow> reachable d"
| further: "reachable d \<Longrightarrow> step d d' \<Longrightarrow> reachable d'"

text \<open>A relation between the database at two times.\<close>

abbreviation later :: "db \<Rightarrow> db \<Rightarrow> bool" where
  "later \<equiv> step\<^sup>*\<^sup>*"

section \<open>The contract of the whole system\<close>

text \<open>
  A relation that every statement of the services satisfies is satisfied by every step. The laws
  are those of the board, and one for each way the services touch topics, claims under a scan, and the
  routes of requests.
\<close>

locale system_service = submit_service R + board_service R for R +
  assumes rel_chartered: "find_row t_id (t_id row) (topics d) = None \<Longrightarrow> t_next_seq row = 0 \<Longrightarrow>
      R d (topics_update (\<lambda>tbl. tbl @ [row]) d)"
    and rel_forward: "(\<And>t. topic_of d tid = Some t \<Longrightarrow> P (t_status t) \<Longrightarrow> t_status t \<le> s) \<Longrightarrow>
      R d (set_status tid P s d)"
    and rel_submitted: "route \<noteq> [] \<Longrightarrow> R d (snd (transaction (submit_body E tid sub k w who ex rid m route) d))"
    and rel_decided: "R d (snd (decideStep E pid rid si ac dec d))"
    and rel_proposed: "R d (snd (proposeMotion E pid tid bid sr p mi exj d))"
    and rel_proposes: "R d (snd (transaction (propose_body E tid bid sr p mins ex) d))"
    and rel_seconded: "R d (snd (secondMotion E pid mid ac d))"
    and rel_vetoed: "R d (snd (vetoMotion E pid mid ac d))"
    and rel_tallied: "R d (snd (tallyMotion E pid mid d))"
    and rel_drained_claim: "current_claim c d \<Longrightarrow> R d (snd (transaction (drain_claim E tid ac c) d))"
    and rel_drained_claims: "R d (snd (each_item (drain_claim E tid ac) (scan_claims d tid) d))"
    and rel_drained_request: "after (\<lambda>_. R d) (drain_request E tid ac r d)"
    and rel_drained_motion: "after (\<lambda>_. R d) (drain_motion E tid ac mo d)"
    and rel_swept_claim: "current_claim c d \<Longrightarrow> R d (snd (transaction (sweep_claim E c) d))"
    and rel_swept_claims: "R d (snd (sweepAbandonedClaims E g d))"
    and rel_swept_step: "after (\<lambda>_. R d) (sweep_step E sx d)"
    and rel_swept_motion: "after (\<lambda>_. R d) (sweep_motion E mo d)"
begin

lemma rel_activate: "R d (set_status t (\<lambda>s. s = Chartered) Active d)"
  by (rule rel_forward) (simp add: less_eq_topic_status_def)

lemma rel_phase1: "after (\<lambda>_. R d) (close_phase1 E tid ac d)"
proof -
  have "R d (set_status tid P Closing d)" if "topic_status_of d tid \<in> {Some Active, Some Chartered}" for P
    using that by (intro rel_forward) (auto simp: topic_status_of_def less_eq_topic_status_def)
  then show ?thesis
    unfolding close_phase1_def
    by (auto intro!: emit_rules rel_write_step simp: less_eq_topic_status_def split: option.split)
qed

lemma rel_phase3: "after (\<lambda>_. R d) (close_phase3 E tid ac d)"
  unfolding close_phase3_def by (auto intro!: emit_rules rel_write_step rel_forward)

lemma rel_close: "R d (snd (closeTopic E pid tid ac d))"
  by (rule rel_closeTopic)
    (auto intro: rel_transaction rel_phase1 rel_phase3 rel_phase2 rel_drained_claims rel_drained_request
      rel_drained_motion)

lemma rel_stalled: "R d (snd (sweepStalledSteps E g d))"
  unfolding sweepStalledSteps_def by (rule rel_each_item [OF rel_swept_step])

lemma rel_expired: "R d (snd (sweepExpiredMotions E g d))"
  unfolding sweepExpiredMotions_def by (rule rel_each_item [OF rel_swept_motion])

lemma rel_cycle: "R d (sweep_cycle E1 E2 E3 E4 got g d)"
  by (rule rel_sweep_cycle) (rule rel_swept_claims rel_stalled rel_expired rel_close)+

lemma rel_createGrant: "R d (snd (createGrant E gr sty sid cap w d))"
proof -
  have "R d (snd (grant_round E e w d))" for e
    by (cases rule: grant_round_cases [of e d E w]) (auto intro: rel_outer)
  then show ?thesis
    by (cases rule: createGrant_cases [of E gr sty sid cap w d]) (auto simp: snd_grant_loop)
qed

lemma rel_step: "step d d' \<Longrightarrow> R d d'"
proof (induction rule: step.induct)
  case (chartered E pid pr nm ch cb d)
  then show ?case by (rule rel_charterTopic) (rule rel_chartered)
next
  case (joined E pid tid aid ty nm lvl ss d)
  then show ?case by (rule rel_joinTopic) (rule rel_activate)
next
  case (joins E tid aid aty nm l d)
  then show ?case by (rule rel_transaction) (rule rel_join_writes [OF rel_activate])
next
  case (dispute_dropped did d)
  then show ?case by (intro rel_outer) (simp add: drop_dispute_def)
next
  case (dispute_linked did rid d)
  then show ?case by (intro rel_outer) (simp add: set_dispute_def)
next
  case (grant_revoked E gid d)
  then show ?case by (intro rel_outer) (simp add: revokeGrant_def)
next
  case (configured d mx ml pjs dps lps prs)
  then show ?case by (intro rel_outer) simp
qed (rule rel_grantLevel rel_postTask rel_claimTask rel_releaseTask rel_completeTask rel_writeArtifact
      rel_baselineArtifact rel_createBody rel_addBodyMember rel_grantProxy rel_revokeProxy rel_submits
      rel_decided rel_proposed rel_proposes rel_seconded rel_castVote rel_vetoed rel_tallied rel_openDispute
      rel_resolveDispute rel_submitIntake rel_triageIntake rel_dismissIntake rel_close rel_swept_claims
      rel_cycle rel_createGrant rel_log
    | (rule rel_submitted rel_drained_claim rel_swept_claim, assumption)
    | (rule rel_transaction,
       rule rel_post_body rel_insert_dispute rel_emit rel_triage_writes rel_phase1 rel_drained_request
         rel_drained_motion rel_drain_dispute rel_drain_intake rel_phase3 rel_swept_step rel_swept_motion))+

lemma rel_later: "later d d' \<Longrightarrow> R d d'"
  by (induction rule: rtranclp_induct) (auto intro: rel_trans rel_step)

end

text \<open>The three relations of the development: topics and logs, the board, the routes.\<close>

lemma close_drain_log: "topic_step d (snd (each_item (drain_claim E tid ac) (scan_claims d tid) d))"
  by (rule log_ext_step) (rule log.rel_each_item [OF drain_claim_log])

interpretation topic: system_service topic_step
proof
  show "topic_step d (topics_update (\<lambda>tbl. tbl @ [row]) d)"
    if "find_row t_id (t_id row) (topics d) = None" "t_next_seq row = 0" for row d
    using that by (rule charter_step)
  show "topic_step d (set_status tid P s d)"
    if "\<And>t. topic_of d tid = Some t \<Longrightarrow> P (t_status t) \<Longrightarrow> t_status t \<le> s" for d tid P s
    using that by (rule set_status_step)
  show "topic_step d (snd (transaction (drain_claim E tid ac c) d))" for c d E tid ac
    by (rule log_ext_step) (rule log.rel_transaction [OF drain_claim_log])
  show "topic_step d (snd (transaction (sweep_claim E c) d))" for c d E
    by (rule log_ext_step) (rule log.rel_transaction [OF sweep_claim_log])
  show "topic_step d (snd (sweepAbandonedClaims E g d))" for E g d
    by (rule log_ext_step) (rule sweepAbandonedClaims_log)
qed (rule topic.rel_decideStep topic.rel_proposeMotion topic.rel_secondMotion topic.rel_vetoMotion
      topic.rel_tallyMotion topic.rel_drain_request topic.rel_drain_motion topic.rel_sweep_step
      topic.rel_sweep_motion close_drain_log topic.rel_transaction topic.rel_submit_body topic.rel_propose_body)+

interpretation board: system_service board_step
proof
  show "board_step d (topics_update (\<lambda>tbl. tbl @ [row]) d)" for row d
    by (rule board_same_step) simp_all
  show "board_step d (snd (transaction (drain_claim E tid ac c) d))" if "current_claim c d" for c d E tid ac
    using that by (intro board.rel_transaction drain_claim_board)
  show "board_step d (snd (transaction (sweep_claim E c) d))" if "current_claim c d" for c d E
    using that by (intro board.rel_transaction sweep_claim_board)
qed (rule status_board drain_claims_board sweepAbandonedClaims_board board.rel_decideStep
      board.rel_proposeMotion board.rel_secondMotion board.rel_vetoMotion board.rel_tallyMotion
      board.rel_drain_request board.rel_drain_motion board.rel_sweep_step board.rel_sweep_motion
      board.rel_transaction board.rel_submit_body board.rel_propose_body)+

lemma same_drop_claim: "route_same d (drop_claim c f kid d)"
  by (simp add: route_same_def drop_claim_def)

lemma same_drain_claim: "after (\<lambda>_. route_same d) (drain_claim E tid ac c d)"
  unfolding drain_claim_def
  by (auto intro!: same.rel_rules same.rel_emit same.rel_write_step same_drop_claim)

lemma same_sweep_claim: "after (\<lambda>_. route_same d) (sweep_claim E c d)"
  unfolding sweep_claim_def
  by (auto intro!: same.rel_recover_claim same_drop_claim simp: route_same_def drop_claim_def)

interpretation route: system_service routed
proof
  show "routed d (topics_update (\<lambda>tbl. tbl @ [row]) d)" for row d
    by (rule routed_same) (simp add: route_same_def)
  show "routed d (set_status tid P s d)" for tid P s d
    by (rule routed_same) (simp add: route_same_def set_status_def)
  show "routed d (snd (transaction (submit_body E tid sub k w who ex rid m route) d))" if "route \<noteq> []"
    for route E tid sub k w who ex rid m d
    by (rule route.rel_transaction) (rule submit_body_routed [OF that])
  show "routed d (snd (sweepAbandonedClaims E g d))" for E g d
    unfolding sweepAbandonedClaims_def
    by (rule route.rel_each_item) (rule routed_from_same [OF same_sweep_claim])
  show "routed d (snd (each_item (drain_claim E tid ac) (scan_claims d tid) d))" for E tid ac d
    by (rule route.rel_each_item) (rule routed_from_same [OF same_drain_claim])
qed (rule decideStep_routed proposeMotion_routed secondMotion_routed vetoMotion_routed tallyMotion_routed
      drain_request_routed drain_motion_routed sweep_step_routed sweep_motion_routed route.rel_transaction
      propose_body_routed routed_from_same same_drain_claim same_sweep_claim)+

section \<open>Reachable states\<close>

lemma initial_ok: "initial d \<Longrightarrow> log_ok d \<and> board_ok d \<and> route_ok d"
  by (simp add: initial_def log_ok_def log_of_def topic_of_def board_ok_def outputs_ok_def claims_ok_def
      history_ok_def route_ok_def)

lemma reachable_ok: "reachable d \<Longrightarrow> log_ok d \<and> board_ok d \<and> route_ok d"
proof (induction rule: reachable.induct)
  case (start d)
  then show ?case by (rule initial_ok)
next
  case (further d d')
  then show ?case
    using topic.rel_step [OF further.hyps(2)] board.rel_step [OF further.hyps(2)]
      routed_ok [OF route.rel_step [OF further.hyps(2)]]
    by (simp add: topic_step_def board_step_def)
qed

lemma reachable_later: "later d d' \<Longrightarrow> reachable d \<Longrightarrow> reachable d'"
  by (induction rule: rtranclp_induct) (auto intro: further)

lemma later_evolves: "later d d' \<Longrightarrow> evolves d d'"
  using topic.rel_later by (simp add: topic_step_def)

lemma later_grows: "later d d' \<Longrightarrow> reachable d \<Longrightarrow> board_grows d d'"
  using board.rel_later reachable_ok by (simp add: board_step_def)

lemma later_final: "later d d' \<Longrightarrow> reachable d \<Longrightarrow> route_final d d'"
  using routed_ok [OF route.rel_later] reachable_ok by blast

section \<open>A run\<close>

text \<open>
  The states the witnesses use: \<open>ann\<close> charters and joins a topic, \<open>bob\<close> joins, a task is posted and
  claimed; a matrix row is configured, \<open>bob\<close> submits a request for the artifact, \<open>ann\<close> endorses it.
\<close>

definition run_task :: db where
  "run_task = snd (postTask dev_env None ''u'' ''t'' ''parallel'' None None ''s'' ''k'' ''ann''
     (snd (joinTopic dev_env None ''u'' ''bob'' ''ai'' ''Bob'' ''execution'' None
     (snd (joinTopic dev_env None ''u'' ''ann'' ''human'' ''Ann'' ''authority'' None
     (snd (charterTopic dev_env None ''p'' ''n'' ''c'' ''ann'' empty_db)))))))"

definition run_claimed :: db where
  "run_claimed = snd (claimTask dev_env None ''uuuuu'' ''bob'' None run_task)"

definition run_submitted :: db where
  "run_submitted = snd (submitRequest dev_env None ''u'' ''artifact'' ''u:uuuuu:s'' ''k'' (Fin 1) ''unilateral''
     ''bob'' None (run_task\<lparr>matrix := [\<lparr>mx_id = ''m'', mx_project = ''p'', mx_topic = None, mx_kind = ''k'',
       mx_min = 0, mx_max = 10, mx_level = Authority, mx_shape = Escalate_to_authority,
       mx_procedure = Unilateral, mx_body = None\<rparr>], matrix_levels := [], projects := [], doc_projects := [],
       lesson_projects := [], principals := []\<rparr>))"

definition run_decided :: db where
  "run_decided = snd (decideStep dev_env None ''uuuuuuuu'' (Fin 0) ''ann'' ''endorse'' run_submitted)"

lemma reachable_run:
  "reachable run_task" "reachable run_claimed" "reachable run_submitted" "reachable run_decided"
proof -
  have "reachable empty_db" by (rule start) (simp add: initial_def empty_db_def)
  then show task: "reachable run_task"
    unfolding run_task_def by (intro further [OF _ posted] further [OF _ joined] further [OF _ chartered])
  then show "reachable run_claimed" unfolding run_claimed_def by (rule further [OF _ claimed])
  show sub: "reachable run_submitted"
    unfolding run_submitted_def by (rule further [OF further [OF task configured] submitted])
  then show "reachable run_decided" unfolding run_decided_def by (rule further [OF _ decided])
qed

lemma run_log: "map e_seq (log_of run_claimed ''u'') = [1, 2, 3, 4, 5, 6, 7]" "topic_of run_claimed ''u'' \<noteq> None"
  by code_simp+

lemma run_board:
  "map tk_id (tasks run_claimed) = [''uuuuu'']" "map tk_status (tasks run_claimed) = [Claimed]"
  "map af_id (artifacts run_claimed) = [''u:uuuuu:s'']" "map c_actor (claims run_claimed) = [''bob'']"
  by code_simp+

lemma run_requests:
  "map (\<lambda>r. (r_id r, r_status r)) (requests run_submitted) = [(''uuuuuuuu'', Open)]"
  "map (\<lambda>r. (r_id r, r_status r)) (requests run_decided) = [(''uuuuuuuu'', Approved)]"
  "map (\<lambda>s. (s_index s, s_status s, s_decided_by s)) (steps run_decided) = [(0, S_endorsed, Some ''ann'')]"
  by code_simp+

section \<open>Properties\<close>

text \<open>
  Property C13. In every reachable state the events of a topic are numbered 1, 2, .. up to the topic's
  counter, in the order of the log, without a gap or a duplicate.
\<close>

theorem log_gap_free:
  assumes "reachable d" and "topic_of d tid = Some t"
  shows "map e_seq (log_of d tid) = [1..<Suc (t_next_seq t)]"
  using reachable_ok [OF assms(1)] assms(2) by (simp add: log_ok_seq del: upt_Suc)

theorem log_gap_free_witness: "\<exists>n. [1, 2, 3, 4, 5, 6, 7] = [1..<Suc n]"
proof -
  obtain t where "topic_of run_claimed ''u'' = Some t" using run_log(2) by auto
  then show ?thesis using log_gap_free [OF reachable_run(2), of "''u''" t] run_log(1) by metis
qed

text \<open>
  Whatever happens later, a topic's status only moves forward (chartered, active, closing,
  closed), its project and creator stay, and its log only grows at the end.
\<close>

theorem topic_forward:
  assumes "later d d'" and "topic_of d tid = Some t"
  shows "\<exists>t'. topic_of d' tid = Some t' \<and> t_status t \<le> t_status t' \<and> t_project t' = t_project t \<and>
    t_created_by t' = t_created_by t \<and> prefix (log_of d tid) (log_of d' tid)"
  using later_evolves [OF assms(1)] assms(2) unfolding evolves_def topic_grows_def prefix_def by blast

lemma later_claimed: "later run_task run_claimed"
  unfolding run_claimed_def by (rule r_into_rtranclp) (rule claimed)

theorem topic_forward_witness: "prefix (log_of run_task ''u'') (log_of run_claimed ''u'')"
proof -
  have "topic_of run_task ''u'' \<noteq> None" by code_simp
  then obtain t where "topic_of run_task ''u'' = Some t" by auto
  then show ?thesis using topic_forward [OF later_claimed] by blast
qed

text \<open>
  Property C14. A closed topic stays closed and its log never changes again, whatever operation or
  sweep runs later.
\<close>

theorem closed_sealed:
  assumes "later d d'" and "topic_status_of d tid = Some Closed"
  shows "topic_status_of d' tid = Some Closed \<and> log_of d' tid = log_of d tid"
  using evolves_sealed [OF later_evolves [OF assms(1)] assms(2)] .

theorem closed_sealed_witness:
  "log_of (snd (closeTopic dev_env None ''T'' ''ann'' (empty_db\<lparr>topics := [a_topic ''T'' Closed 1],
      events := [an_event ''T'' 1]\<rparr>))) ''T'' = [an_event ''T'' 1]"
proof -
  let ?d = "empty_db\<lparr>topics := [a_topic ''T'' Closed 1], events := [an_event ''T'' 1]\<rparr>"
  have "later ?d (snd (closeTopic dev_env None ''T'' ''ann'' ?d))"
    by (rule r_into_rtranclp) (rule closed)
  from closed_sealed [OF this, of "''T''"] show ?thesis
    by (simp add: topic_status_of_def topic_of_def find_row_Cons log_of_def a_topic_def an_event_def)
qed

text \<open>
  Property C12. In every reachable state an artifact has at most one claim, a claim names its
  artifact's task and topic, and a task has the status \<^verbatim>\<open>claimed\<close> exactly while a claim on it exists.
\<close>

theorem claim_exclusive:
  assumes "reachable d"
  shows "distinct (map c_artifact (claims d)) \<and>
    (\<forall>c \<in> set (claims d). \<exists>a \<in> set (artifacts d). af_id a = c_artifact c \<and> af_task a = c_task c \<and>
      af_topic a = c_topic c) \<and>
    (\<forall>k \<in> set (tasks d). tk_status k = Claimed \<longleftrightarrow> (\<exists>c \<in> set (claims d). c_task c = tk_id k))"
  using reachable_ok [OF assms] claim_fitsD unfolding board_ok_def claims_ok_def pkey_def by blast

theorem claim_exclusive_witness: "\<exists>c \<in> set (claims run_claimed). c_task c = ''uuuuu''"
proof -
  obtain k where "k \<in> set (tasks run_claimed)" "tk_id k = ''uuuuu''" "tk_status k = Claimed"
    using run_board(1,2) by (auto simp: map_eq_Cons_conv)
  then show ?thesis using claim_exclusive [OF reachable_run(2)] by metis
qed

text \<open>
  In every reachable state a task has exactly one artifact, in the topic of the task.
\<close>

theorem one_output:
  assumes "reachable d" and "k \<in> set (tasks d)"
  shows "(\<exists>!a. a \<in> set (artifacts d) \<and> af_task a = tk_id k) \<and>
    (\<forall>a \<in> set (artifacts d). af_task a = tk_id k \<longrightarrow> af_topic a = tk_topic k)"
proof -
  have out: "outputs_ok (tasks d) (artifacts d)" using reachable_ok [OF assms(1)] by (simp add: board_ok_def)
  obtain a where a: "a \<in> set (artifacts d)" "af_task a = tk_id k" "af_topic a = tk_topic k"
    by (rule outputs_artifact [OF out assms(2)])
  have "b = a" if "b \<in> set (artifacts d)" "af_task b = tk_id k" for b
    using outputs_pkey_task [OF out] that a by (metis pkey_unique)
  with a show ?thesis by metis
qed

theorem one_output_witness: "\<exists>!a. a \<in> set (artifacts run_claimed) \<and> af_task a = ''uuuuu''"
proof -
  obtain k where "k \<in> set (tasks run_claimed)" "tk_id k = ''uuuuu''"
    using run_board(1) by (auto simp: map_eq_Cons_conv)
  then show ?thesis using one_output [OF reachable_run(2)] by metis
qed

text \<open>
  Property C18. In every reachable state the versions of an artifact are numbered 1, 2, .. up to its
  current version, there is at least one, and the last one carries the current content.
\<close>

theorem version_history:
  assumes "reachable d" and "a \<in> set (artifacts d)"
  shows "map v_version (versions_of (versions d) (af_id a)) = [1..<Suc (af_version a)] \<and> 1 \<le> af_version a \<and>
    v_content (last (versions_of (versions d) (af_id a))) = af_content a"
  using reachable_ok [OF assms(1)] assms(2) by (simp add: board_ok_def history_ok_def history_of_ok_def del: upt_Suc)

theorem version_history_witness: "\<exists>a \<in> set (artifacts run_claimed). 1 \<le> af_version a"
proof -
  obtain a where "a \<in> set (artifacts run_claimed)" using run_board(3) by (cases "artifacts run_claimed") auto
  then show ?thesis using version_history [OF reachable_run(2)] by blast
qed

text \<open>
  From a reachable state on, nothing of the history is lost: versions are only appended,
  tasks and artifacts are never removed, renamed or moved to another topic, and a completed task stays
  completed.
\<close>

theorem history_append_only:
  assumes "reachable d" and "later d d'"
  shows "prefix (versions d) (versions d') \<and>
    prefix (map task_fixed (tasks d)) (map task_fixed (tasks d')) \<and>
    prefix (map artifact_fixed (artifacts d)) (map artifact_fixed (artifacts d')) \<and>
    completed_tasks (tasks d) \<subseteq> completed_tasks (tasks d')"
  using later_grows [OF assms(2,1)] by (simp add: board_grows_def)

theorem history_append_only_witness: "prefix (versions run_task) (versions run_claimed)"
  using history_append_only [OF reachable_run(1) later_claimed] by blast

text \<open>
  Property C16. A reachable approved request has at least one step, and every one of its steps is endorsed.
\<close>

theorem approved_endorsed:
  assumes "reachable d" and "r \<in> set (requests d)" and "r_status r = Approved"
  shows "steps_in (steps d) (r_id r) \<noteq> {} \<and> (\<forall>s \<in> steps_in (steps d) (r_id r). s_status s = S_endorsed)"
proof -
  have "request_ok (steps d) r" using reachable_ok [OF assms(1)] assms(2) by (simp add: route_ok_def)
  then show ?thesis using assms(3) by (auto simp: request_ok_def placed_def)
qed

theorem approved_endorsed_witness: "steps_in (steps run_decided) ''uuuuuuuu'' \<noteq> {}"
proof -
  obtain r where "r \<in> set (requests run_decided)" "r_id r = ''uuuuuuuu''" "r_status r = Approved"
    using run_requests(2) by (auto simp: map_eq_Cons_conv)
  then show ?thesis using approved_endorsed [OF reachable_run(4)] by metis
qed

text \<open>
  Property C17. A reachable open request waits on exactly one step: the steps before the current one
  are endorsed, the current one exists and is pending or waits for its motion, the later ones are
  pending.
\<close>

theorem open_request_waits:
  assumes "reachable d" and "r \<in> set (requests d)" and "r_status r = Open"
  shows "(\<exists>!s. s \<in> steps_in (steps d) (r_id r) \<and> s_index s = r_current r) \<and>
    (\<forall>s \<in> steps_in (steps d) (r_id r). s_status s \<in>
      (if s_index s < r_current r then {S_endorsed}
       else if s_index s = r_current r then {S_pending, S_motion_proposed} else {S_pending}))"
proof -
  have ok: "route_ok d" "request_ok (steps d) r" using reachable_ok [OF assms(1)] assms(2) by (simp_all add: route_ok_def)
  then obtain s where "s \<in> steps_in (steps d) (r_id r)" "s_index s = r_current r"
    by (auto simp: request_ok_def) (metis atLeastLessThan_iff imageE le0)
  moreover have "t = s" if "t \<in> steps_in (steps d) (r_id r)" "s_index t = r_current r" for t
    using step_unique [OF ok(1) that(1) calculation(1)] that(2) calculation(2) by simp
  ultimately show ?thesis
    using ok(2) assms(3) by (auto simp: request_ok_def placed_def)
qed

theorem open_request_waits_witness:
  "\<exists>r \<in> set (requests run_submitted). \<exists>!s. s \<in> steps_in (steps run_submitted) (r_id r) \<and> s_index s = r_current r"
proof -
  obtain r where "r \<in> set (requests run_submitted)" "r_status r = Open"
    using run_requests(1) by (auto simp: map_eq_Cons_conv)
  then show ?thesis using open_request_waits [OF reachable_run(3)] by blast
qed

text \<open>
  Property C15. Decisions are final: once a request has left the status \<^verbatim>\<open>open\<close>, neither the request nor
  any of its steps ever changes, and once a motion is carried, failed, lapsed or vetoed, it never changes.
\<close>

theorem decisions_final:
  assumes "reachable d" and "later d d'"
  shows "(\<forall>r \<in> set (requests d). r_status r \<noteq> Open \<longrightarrow>
      r \<in> set (requests d') \<and> steps_in (steps d') (r_id r) = steps_in (steps d) (r_id r)) \<and>
    (\<forall>m \<in> set (motions d). m_status m \<in> {Carried, Failed, Lapsed, Vetoed} \<longrightarrow> m \<in> set (motions d'))"
  using later_final [OF assms(2,1)] by (auto simp: route_final_def in_flight_def)

theorem decisions_final_witness:
  "\<exists>r \<in> set (requests run_decided). r \<in> set (requests (snd (decideStep dev_env None ''uuuuuuuu'' (Fin 0)
     ''ann'' ''reject'' run_decided)))"
proof -
  have "\<exists>r \<in> set (requests run_decided). r_status r \<noteq> Open" using run_requests(2) by (auto simp: map_eq_Cons_conv)
  moreover have "later run_decided (snd (decideStep dev_env None ''uuuuuuuu'' (Fin 0) ''ann'' ''reject'' run_decided))"
    by (rule r_into_rtranclp) (rule decided)
  ultimately show ?thesis using decisions_final [OF reachable_run(4)] by blast
qed

text \<open>
  Property C11. Every step of the system, from a reachable state, refines the machine of requests, steps
  and motions: what it does to the three tables is a sequence of the machine's moves (submit, endorse,
  approve, settle, rework, hand over, withdraw, open a motion, progress).
\<close>

theorem step_refines:
  assumes "reachable d" and "step d d'"
  shows "route_moves d d'"
  using route.rel_step [OF assms(2)] reachable_ok [OF assms(1)] by (simp add: routed_def)

theorem step_refines_witness: "route_moves run_submitted run_decided"
  using step_refines [OF reachable_run(3)] unfolding run_decided_def by (blast intro: decided)

end
