(* ===== verification/Leases.thy ===== *)
theory Leases
  imports Board
begin

text \<open>
  Artifact leases (services/artifactLeases.ts): time-bounded claims on named artifacts with an
  in-process attempt limiter (20 in a sliding minute per agent and project), at most 10 active
  leases per agent, a bounded retry of the insert race, and renewal capped at 240 minutes ahead.

  The state is the table \<^verbatim>\<open>artifact_leases\<close>, the process-local \<^verbatim>\<open>attemptLog\<close> (an insertion-ordered
  map) and the database the authorization check reads.
\<close>

record lease_row =
  le_id :: string
  le_project :: string
  le_agent :: string
  le_type :: string
  le_artifact :: string
  le_task :: string
  le_ttl :: int
  le_expires :: int

type_synonym attempt_key = "string \<times> string"

record lstate =
  core :: db
  leases :: "lease_row list"
  attempts :: "(attempt_key \<times> int list) list"

type_synonym 'r loutcome = "(exn + 'r) \<times> lstate"

definition lguarded ::
  "env \<Rightarrow> string option \<Rightarrow> action \<Rightarrow> string \<Rightarrow> (lstate \<Rightarrow> 'r loutcome) \<Rightarrow> lstate \<Rightarrow> 'r loutcome" where
  "lguarded E pid act project rest s =
     (case assertAuthorized E pid act (rref K_project project) (core s) of
        (Some x, d) \<Rightarrow> (Inl x, s\<lparr>core := d\<rparr>)
      | (None, d) \<Rightarrow> rest (s\<lparr>core := d\<rparr>))"

section \<open>The attempt limiter\<close>

definition MAX_CLAIM_ATTEMPTS_PER_MINUTE :: nat where "MAX_CLAIM_ATTEMPTS_PER_MINUTE = 20"
definition ATTEMPT_WINDOW_MS :: int where "ATTEMPT_WINDOW_MS = 60000"

text \<open>\<^verbatim>\<open>Map.get(k) ?? []\<close> and \<^verbatim>\<open>Map.set\<close>: an existing key keeps its place.\<close>

definition log_get :: "(attempt_key \<times> int list) list \<Rightarrow> attempt_key \<Rightarrow> int list" where
  "log_get m k = (case map_of m k of None \<Rightarrow> [] | Some ts \<Rightarrow> ts)"

definition log_set ::
  "(attempt_key \<times> int list) list \<Rightarrow> attempt_key \<Rightarrow> int list \<Rightarrow> (attempt_key \<times> int list) list" where
  "log_set m k ts = (if k \<in> fst ` set m then map (\<lambda>e. if fst e = k then (k, ts) else e) m
                     else m @ [(k, ts)])"

definition pruneAttemptLog ::
  "int \<Rightarrow> (attempt_key \<times> int list) list \<Rightarrow> (attempt_key \<times> int list) list" where
  "pruneAttemptLog cutoff m =
     filter (\<lambda>e. snd e \<noteq> []) (map (\<lambda>e. (fst e, filter (\<lambda>t. cutoff < t) (snd e))) m)"

definition ceil_div :: "int \<Rightarrow> int \<Rightarrow> int" where
  "ceil_div a b = - ((- a) div b)"

definition recordAndCheckAttemptRate ::
  "int \<Rightarrow> attempt_key \<Rightarrow> (attempt_key \<times> int list) list \<Rightarrow>
     (bool \<times> int) \<times> (attempt_key \<times> int list) list" where
  "recordAndCheckAttemptRate now key m =
     (let cutoff = now - ATTEMPT_WINDOW_MS;
          recent = filter (\<lambda>t. cutoff < t) (log_get m key)
      in if MAX_CLAIM_ATTEMPTS_PER_MINUTE \<le> length recent
         then ((False, ceil_div (max 0 (hd recent + ATTEMPT_WINDOW_MS - now)) 1000), log_set m key recent)
         else let m' = log_set m key (recent @ [now])
              in ((True, 0), if 10000 < length m' then pruneAttemptLog cutoff m' else m'))"

section \<open>Input validation\<close>

definition VALID_ARTIFACT_TYPES :: "string list" where
  "VALID_ARTIFACT_TYPES = [''lesson'', ''document'', ''report-section'', ''custom'']"

text \<open>\<^verbatim>\<open>/^[a-z0-9][a-z0-9\-_]*(?:\/[a-z0-9][a-z0-9\-_]*)*$/\<close>: segments separated by slashes.\<close>

definition segment_char :: "char \<Rightarrow> bool" where
  "segment_char c = (is_lower c \<or> is_digit c \<or> c = CHR ''-'' \<or> c = CHR ''_'')"

fun segments_ok :: "bool \<Rightarrow> string \<Rightarrow> bool" where
  "segments_ok start [] = (\<not> start)"
| "segments_ok start (c # cs) =
     (if start then (is_lower c \<or> is_digit c) \<and> segments_ok False cs
      else if c = CHR ''/'' then segments_ok True cs
      else segment_char c \<and> segments_ok False cs)"

definition artifact_id_ok :: "string \<Rightarrow> bool" where
  "artifact_id_ok s = segments_ok True s"

record claim_params =
  cp_project :: string
  cp_agent :: string
  cp_type :: string
  cp_artifact :: string
  cp_task :: string
  cp_ttl :: "jsnum option"

definition validateClaimInput :: "claim_params \<Rightarrow> exn option" where
  "validateClaimInput p =
     (if cp_project p = [] \<or> cp_agent p = [] \<or> cp_type p = [] \<or> cp_artifact p = [] \<or> cp_task p = []
      then Some Plain_error
      else if cp_type p \<notin> set VALID_ARTIFACT_TYPES \<or> \<not> artifact_id_ok (cp_artifact p)
      then Some (Hub BAD_REQUEST)
      else None)"

section \<open>claimArtifact\<close>

definition MAX_ACTIVE_LEASES_PER_AGENT :: nat where "MAX_ACTIVE_LEASES_PER_AGENT = 10"
definition MAX_INTERNAL_RACE_RETRIES :: nat where "MAX_INTERNAL_RACE_RETRIES = 1"

datatype limit_reason = Max_active_leases | Race_exhausted | Attempt_rate

datatype lease_claim =
    L_claimed string int               \<comment> \<open>lease, expires\<close>
  | L_conflict string string int int   \<comment> \<open>incumbent, its task, expires, seconds remaining\<close>
  | L_rate_limited limit_reason int

datatype once_result = Done lease_claim | Retry

definition lease_key :: "lease_row \<Rightarrow> string \<times> string \<times> string" where
  "lease_key l = (le_project l, le_type l, le_artifact l)"

definition param_key :: "claim_params \<Rightarrow> string \<times> string \<times> string" where
  "param_key p = (cp_project p, cp_type p, cp_artifact p)"

definition live_lease :: "env \<Rightarrow> (string \<times> string \<times> string) \<Rightarrow> lease_row list \<Rightarrow> lease_row option" where
  "live_lease E k ls = find (\<lambda>l. lease_key l = k \<and> pg_now E < le_expires l) ls"

definition active_count :: "env \<Rightarrow> string \<Rightarrow> string \<Rightarrow> lease_row list \<Rightarrow> nat" where
  "active_count E project agent ls =
     length (filter (\<lambda>l. le_project l = project \<and> le_agent l = agent \<and> pg_now E < le_expires l) ls)"

definition seconds_remaining :: "env \<Rightarrow> int \<Rightarrow> int" where
  "seconds_remaining E expires = max 0 ((expires - js_now E) div 1000)"

definition conflict_with :: "env \<Rightarrow> lease_row \<Rightarrow> lease_claim" where
  "conflict_with E l =
     L_conflict (le_agent l) (le_task l) (le_expires l) (seconds_remaining E (le_expires l))"

definition fetchConflictResultOrRetry :: "env \<Rightarrow> claim_params \<Rightarrow> lease_row list \<Rightarrow> once_result" where
  "fetchConflictResultOrRetry E p ls = (case live_lease E (param_key p) ls of
     None \<Rightarrow> Retry | Some l \<Rightarrow> Done (conflict_with E l))"

definition new_lease :: "env \<Rightarrow> claim_params \<Rightarrow> string \<Rightarrow> lease_row" where
  "new_lease E p lid =
     \<lparr>le_id = lid, le_project = cp_project p, le_agent = cp_agent p, le_type = cp_type p,
      le_artifact = cp_artifact p, le_task = cp_task p, le_ttl = clampTtl (cp_ttl p),
      le_expires = js_now E + clampTtl (cp_ttl p) * 60000\<rparr>"

definition drop_expired_leases :: "env \<Rightarrow> claim_params \<Rightarrow> lease_row list \<Rightarrow> lease_row list" where
  "drop_expired_leases E p = delete_where (\<lambda>l. lease_key l = param_key p \<and> le_expires l \<le> pg_now E)"

text \<open>One attempt. Every early return rolls the clean-up back.\<close>

definition claimArtifactOnce :: "env \<Rightarrow> claim_params \<Rightarrow> lstate \<Rightarrow> once_result \<times> lstate" where
  "claimArtifactOnce E p s =
     (let cleaned = drop_expired_leases E p (leases s)
      in if MAX_ACTIVE_LEASES_PER_AGENT \<le> active_count E (cp_project p) (cp_agent p) cleaned
         then (Done (L_rate_limited Max_active_leases 60), s)
         else case live_lease E (param_key p) cleaned of
           Some l \<Rightarrow> (Done (conflict_with E l), s)
         | None \<Rightarrow>
             let lid = uuid_of E (uuid_ctr (core s));
                 row = new_lease E p lid;
                 s1 = s\<lparr>core := core s\<lparr>uuid_ctr := Suc (uuid_ctr (core s))\<rparr>\<rparr>
             in if exists_where (\<lambda>l. le_id l = lid \<or> lease_key l = param_key p) cleaned
                then (fetchConflictResultOrRetry E p (leases s), s1)
                else (Done (L_claimed lid (le_expires row)), s1\<lparr>leases := cleaned @ [row]\<rparr>))"

text \<open>\<open>n\<close> is the number of attempts left after this one.\<close>

fun claim_attempts ::
  "(lstate \<Rightarrow> once_result \<times> lstate) \<Rightarrow> nat \<Rightarrow> lstate \<Rightarrow> lease_claim \<times> lstate" where
  "claim_attempts once n s = (case once s of
     (Done r, s') \<Rightarrow> (r, s')
   | (Retry, s') \<Rightarrow> (case n of 0 \<Rightarrow> (L_rate_limited Race_exhausted 1, s')
                            | Suc m \<Rightarrow> claim_attempts once m s'))"

declare claim_attempts.simps [simp del]

definition claimWithRetry :: "env \<Rightarrow> claim_params \<Rightarrow> lstate \<Rightarrow> lease_claim \<times> lstate" where
  "claimWithRetry E p = claim_attempts (claimArtifactOnce E p) MAX_INTERNAL_RACE_RETRIES"

definition claimArtifact ::
  "env \<Rightarrow> string option \<Rightarrow> claim_params \<Rightarrow> lstate \<Rightarrow> lease_claim loutcome" where
  "claimArtifact E pid p = lguarded E pid A_write (cp_project p) (\<lambda>s.
     case validateClaimInput p of
       Some x \<Rightarrow> (Inl x, s)
     | None \<Rightarrow>
         (case recordAndCheckAttemptRate (js_now E) (cp_project p, cp_agent p) (attempts s) of
            ((False, wait), m) \<Rightarrow> (Inr (L_rate_limited Attempt_rate wait), s\<lparr>attempts := m\<rparr>)
          | ((True, _), m) \<Rightarrow>
              (case claimWithRetry E p (s\<lparr>attempts := m\<rparr>) of (r, s') \<Rightarrow> (Inr r, s'))))"

section \<open>Release and renewal\<close>

definition lease_of :: "lease_row list \<Rightarrow> string \<Rightarrow> string \<Rightarrow> lease_row option" where
  "lease_of ls lid project = find (\<lambda>l. le_id l = lid \<and> le_project l = project) ls"

datatype lease_release = LR_released | LR_not_found | LR_not_owner

definition releaseArtifact ::
  "env \<Rightarrow> string option \<Rightarrow> string \<Rightarrow> string \<Rightarrow> string \<Rightarrow> lstate \<Rightarrow> lease_release loutcome" where
  "releaseArtifact E pid project agent lid = lguarded E pid A_write project (\<lambda>s.
     if \<not> pg_uuid E lid then (Inl Pg_syntax, s)
     else case lease_of (leases s) lid project of
       None \<Rightarrow> (Inr LR_not_found, s)
     | Some l \<Rightarrow>
         if le_agent l \<noteq> agent then (Inr LR_not_owner, s)
         else (Inr LR_released, s\<lparr>leases := delete_where (\<lambda>x. le_id x = lid) (leases s)\<rparr>))"

datatype lease_renew =
    RN_renewed int int      \<comment> \<open>expires, effective extension in minutes\<close>
  | RN_cap_reached int int
  | RN_not_found | RN_not_owner | RN_expired

definition MIN_EXTEND_MINUTES :: rat where "MIN_EXTEND_MINUTES = 1"
definition MAX_EXTEND_MINUTES :: rat where "MAX_EXTEND_MINUTES = 120"

text \<open>
  The new expiry: the old one plus the extension, capped at 240 minutes from now; a fraction of a
  millisecond is cut off.
\<close>

definition renew_cap :: "env \<Rightarrow> int" where
  "renew_cap E = js_now E + MAX_TTL_MINUTES * 60000"

definition renew_target :: "env \<Rightarrow> int \<Rightarrow> rat \<Rightarrow> rat" where
  "renew_target E expires minutes = min (of_int expires + minutes * 60000) (of_int (renew_cap E))"

definition renew_result :: "env \<Rightarrow> int \<Rightarrow> rat \<Rightarrow> lease_renew" where
  "renew_result E expires minutes =
     (let target = renew_target E expires minutes;
          effective = max 0 \<lfloor>(target - of_int expires) / 60000\<rfloor>
      in if of_int (renew_cap E) < of_int expires + minutes * 60000
         then RN_cap_reached \<lfloor>target\<rfloor> effective else RN_renewed \<lfloor>target\<rfloor> effective)"

text \<open>
  The extension is a finite number; \<^verbatim>\<open>NaN\<close> would pass both comparisons of the range check and end
  as an invalid date, which the driver cannot bind.
\<close>

definition renewArtifact ::
  "env \<Rightarrow> string option \<Rightarrow> string \<Rightarrow> string \<Rightarrow> string \<Rightarrow> jsnum \<Rightarrow> lstate \<Rightarrow> lease_renew loutcome" where
  "renewArtifact E pid project agent lid minutes = lguarded E pid A_write project (\<lambda>s.
     if js_less minutes (Fin MIN_EXTEND_MINUTES) \<or> js_less (Fin MAX_EXTEND_MINUTES) minutes
     then (Inl (Hub BAD_REQUEST), s)
     else if \<not> pg_uuid E lid then (Inl Pg_syntax, s)
     else case lease_of (leases s) lid project of
       None \<Rightarrow> (Inr RN_not_found, s)
     | Some l \<Rightarrow>
         if le_agent l \<noteq> agent then (Inr RN_not_owner, s)
         else if le_expires l \<le> js_now E then (Inr RN_expired, s)
         else (case finite_value minutes of
             None \<Rightarrow> (Inl Pg_syntax, s)
           | Some q \<Rightarrow> (Inr (renew_result E (le_expires l) q),
               s\<lparr>leases := update_where (\<lambda>x. le_id x = lid)
                  (\<lambda>x. x\<lparr>le_expires := \<lfloor>renew_target E (le_expires l) q\<rfloor>\<rparr>) (leases s)\<rparr>)))"

definition forceReleaseArtifact ::
  "env \<Rightarrow> string option \<Rightarrow> string \<Rightarrow> string \<Rightarrow> lstate \<Rightarrow> bool loutcome" where
  "forceReleaseArtifact E pid project lid = lguarded E pid A_admin project (\<lambda>s.
     if \<not> pg_uuid E lid then (Inl Pg_syntax, s)
     else (Inr (lease_of (leases s) lid project \<noteq> None),
           s\<lparr>leases := delete_where (\<lambda>x. le_id x = lid \<and> le_project x = project) (leases s)\<rparr>))"

section \<open>Reads and the sweep\<close>

definition listActiveClaims ::
  "env \<Rightarrow> string option \<Rightarrow> string \<Rightarrow> string option \<Rightarrow> lstate \<Rightarrow> (lease_row \<times> int) list loutcome" where
  "listActiveClaims E pid project ty = lguarded E pid A_read project (\<lambda>s.
     if (case ty of None \<Rightarrow> False | Some t \<Rightarrow> t \<notin> set VALID_ARTIFACT_TYPES) then (Inl (Hub BAD_REQUEST), s)
     else (Inr (map (\<lambda>l. (l, seconds_remaining E (le_expires l)))
            (sort_key le_expires (filter (\<lambda>l. le_project l = project \<and> pg_now E < le_expires l \<and>
               (case ty of None \<Rightarrow> True | Some t \<Rightarrow> le_type l = t)) (leases s)))), s))"

definition checkArtifactAvailability ::
  "env \<Rightarrow> string option \<Rightarrow> string \<Rightarrow> string \<Rightarrow> string \<Rightarrow> lstate \<Rightarrow> (lease_row \<times> int) option loutcome" where
  "checkArtifactAvailability E pid project ty aid = lguarded E pid A_read project (\<lambda>s.
     if ty \<notin> set VALID_ARTIFACT_TYPES \<or> \<not> artifact_id_ok aid then (Inl (Hub BAD_REQUEST), s)
     else (Inr (map_option (\<lambda>l. (l, seconds_remaining E (le_expires l)))
            (live_lease E (project, ty, aid) (leases s))), s))"

fun clampLeaseGrace :: "jsnum option \<Rightarrow> int" where
  "clampLeaseGrace (Some (Fin q)) = (if q < 0 then 0 else if 1440 < q then 1440 else \<lfloor>q\<rfloor>)"
| "clampLeaseGrace _ = 60"

definition sweepExpiredLeases :: "env \<Rightarrow> jsnum option \<Rightarrow> lstate \<Rightarrow> nat \<times> lstate" where
  "sweepExpiredLeases E grace s =
     (let old = (\<lambda>l. le_expires l < pg_now E - clampLeaseGrace grace * 60000)
      in (length (filter old (leases s)), s\<lparr>leases := delete_where old (leases s)\<rparr>))"

section \<open>The limiter over a run\<close>

text \<open>The calls a run of the limiter lets through, from a state of the map.\<close>

fun allowed_calls ::
  "(int \<times> attempt_key) list \<Rightarrow> (attempt_key \<times> int list) list \<Rightarrow> (int \<times> attempt_key) list" where
  "allowed_calls [] m = []"
| "allowed_calls (c # cs) m =
     (case recordAndCheckAttemptRate (fst c) (snd c) m of
        ((ok, _), m') \<Rightarrow> if ok then c # allowed_calls cs m' else allowed_calls cs m')"

definition times_of :: "attempt_key \<Rightarrow> (int \<times> attempt_key) list \<Rightarrow> int list" where
  "times_of k cs = map fst (filter (\<lambda>c. snd c = k) cs)"

lemma keys_replace: "map fst (map (\<lambda>e. if fst e = k then (k, ts) else e) m) = map fst m"
  by (induction m) auto

lemma keys_log_set: "distinct (map fst m) \<Longrightarrow> distinct (map fst (log_set m k ts))"
  by (simp add: log_set_def keys_replace image_set [symmetric] del: map_map image_set)

lemma map_of_replace:
  "map_of (map (\<lambda>e. if fst e = k then (k, ts) else e) m) x =
     (if x = k \<and> k \<in> fst ` set m then Some ts else map_of m x)"
proof (induction m)
  case Nil
  then show ?case by simp
next
  case (Cons e m)
  then show ?case by (cases e; cases "x = k"; cases "fst e = k") simp_all
qed

lemma log_get_set [simp]: "log_get (log_set m k ts) x = (if x = k then ts else log_get m x)"
proof (cases "k \<in> fst ` set m")
  case True
  then show ?thesis by (simp add: log_get_def log_set_def map_of_replace)
next
  case False
  then have "map_of m k = None" by (simp add: map_of_eq_None_iff)
  with False show ?thesis
    by (cases "map_of m x") (auto simp: log_get_def log_set_def map_add_def)
qed

lemma keys_prune: "distinct (map fst m) \<Longrightarrow> distinct (map fst (pruneAttemptLog c m))"
  unfolding pruneAttemptLog_def by (rule distinct_map_filter) (simp add: comp_def)

lemma log_get_prune:
  "distinct (map fst m) \<Longrightarrow> log_get (pruneAttemptLog c m) k = filter (\<lambda>t. c < t) (log_get m k)"
proof (induction m)
  case Nil
  then show ?case by (simp add: log_get_def pruneAttemptLog_def)
next
  case (Cons e m)
  have absent: "k \<notin> fst ` set m \<Longrightarrow> log_get (pruneAttemptLog c m) k = []"
    by (auto simp: log_get_def pruneAttemptLog_def split: option.split dest!: map_of_SomeD)
  show ?case
  proof (cases "fst e = k")
    case True
    then have new: "k \<notin> fst ` set m" using Cons.prems by auto
    have "log_get (pruneAttemptLog c (e # m)) k =
        (if filter (\<lambda>t. c < t) (snd e) = [] then log_get (pruneAttemptLog c m) k
         else filter (\<lambda>t. c < t) (snd e))"
      using True by (simp add: log_get_def pruneAttemptLog_def)
    with True absent [OF new] show ?thesis by (cases e) (simp add: log_get_def)
  next
    case False
    then show ?thesis using Cons by (cases e) (simp add: log_get_def pruneAttemptLog_def)
  qed
qed

text \<open>
  What the map remembers: for every key, the calls let through in the window that a call at \<open>now\<close>
  or later looks at.
\<close>

definition remembers ::
  "(attempt_key \<times> int list) list \<Rightarrow> int \<Rightarrow> (int \<times> attempt_key) list \<Rightarrow> bool" where
  "remembers m now past \<longleftrightarrow> distinct (map fst m) \<and>
     (\<forall>k c. now - ATTEMPT_WINDOW_MS \<le> c \<longrightarrow>
        filter (\<lambda>t. c < t) (log_get m k) = filter (\<lambda>t. c < t) (times_of k past))"

lemma remembers_step:
  assumes "remembers m now past" and "now \<le> t"
    and call: "recordAndCheckAttemptRate t k m = ((ok, w), m')"
  shows "remembers m' t (if ok then past @ [(t, k)] else past)"
    and "ok \<longleftrightarrow> length (filter (\<lambda>x. t - ATTEMPT_WINDOW_MS < x) (times_of k past)) < 20"
proof -
  let ?c = "t - ATTEMPT_WINDOW_MS"
  let ?r = "filter (\<lambda>x. ?c < x) (log_get m k)"
  have d: "distinct (map fst m)" using assms(1) by (simp add: remembers_def)
  have keep: "filter (\<lambda>x. c < x) (log_get m x) = filter (\<lambda>y. c < y) (times_of x past)"
    if "?c \<le> c" for c x
  proof -
    have "now - ATTEMPT_WINDOW_MS \<le> c" using assms(2) that by simp
    with assms(1) show ?thesis unfolding remembers_def by blast
  qed
  have shrink: "filter (\<lambda>x. ?c < x \<and> c < x) ys = filter (\<lambda>x. c < x) ys" if "?c \<le> c" for c ys
    using that by (auto intro: filter_cong)
  show ok: "ok \<longleftrightarrow> length (filter (\<lambda>x. ?c < x) (times_of k past)) < 20"
    using call keep [of ?c k]
    by (auto simp: recordAndCheckAttemptRate_def Let_def MAX_CLAIM_ATTEMPTS_PER_MINUTE_def
        split: if_splits)
  show "remembers m' t (if ok then past @ [(t, k)] else past)"
  proof (cases ok)
    case False
    with call have m': "m' = log_set m k ?r"
      by (auto simp: recordAndCheckAttemptRate_def Let_def split: if_splits)
    with False d keep shrink show ?thesis by (simp add: remembers_def keys_log_set)
  next
    case True
    let ?m = "log_set m k (?r @ [t])"
    from True call have m': "m' = (if 10000 < length ?m then pruneAttemptLog ?c ?m else ?m)"
      by (auto simp: recordAndCheckAttemptRate_def Let_def split: if_splits)
    have dm: "distinct (map fst ?m)" using d by (rule keys_log_set)
    have "filter (\<lambda>x. c < x) (log_get ?m x) = filter (\<lambda>y. c < y) (times_of x (past @ [(t, k)]))"
      if "?c \<le> c" for c x using keep that shrink by (simp add: times_of_def)
    with True dm m' show ?thesis
      by (auto simp: remembers_def log_get_prune keys_prune shrink)
  qed
qed

text \<open>No window of a minute holds more than 20 calls of one key.\<close>

definition window_ok :: "(int \<times> attempt_key) list \<Rightarrow> bool" where
  "window_ok cs \<longleftrightarrow> (\<forall>k w. length (filter (\<lambda>t. w < t \<and> t \<le> w + ATTEMPT_WINDOW_MS) (times_of k cs)) \<le> 20)"

lemma window_ok_snoc:
  assumes ok: "window_ok past" and late: "\<forall>c \<in> set past. fst c \<le> t"
    and room: "length (filter (\<lambda>x. t - ATTEMPT_WINDOW_MS < x) (times_of k past)) < 20"
  shows "window_ok (past @ [(t, k)])"
  unfolding window_ok_def
proof (intro allI)
  fix x w
  let ?in = "\<lambda>t. w < t \<and> t \<le> w + ATTEMPT_WINDOW_MS"
  have le: "length (filter ?in (times_of x past)) \<le> 20" using ok unfolding window_ok_def by blast
  show "length (filter ?in (times_of x (past @ [(t, k)]))) \<le> 20"
  proof (cases "x = k \<and> ?in t")
    case True
    have "length (filter ?in (times_of k past)) \<le>
        length (filter (\<lambda>x. t - ATTEMPT_WINDOW_MS < x) (times_of k past))"
    proof -
      have "filter ?in (times_of k past) =
          filter ?in (filter (\<lambda>x. t - ATTEMPT_WINDOW_MS < x) (times_of k past))"
        using True by (auto intro!: filter_cong)
      then show ?thesis by (metis length_filter_le)
    qed
    with True room show ?thesis by (simp add: times_of_def)
  next
    case False
    with le show ?thesis by (auto simp: times_of_def)
  qed
qed

lemma allowed_calls_window:
  assumes "remembers m now past" and "window_ok past" and "sorted (now # map fst cs)"
    and "\<forall>c \<in> set past. fst c \<le> now"
  shows "window_ok (past @ allowed_calls cs m)"
  using assms
proof (induction cs arbitrary: m now past)
  case Nil
  then show ?case by simp
next
  case (Cons c cs)
  obtain t k where c: "c = (t, k)" by (cases c)
  obtain ok w m' where call: "recordAndCheckAttemptRate t k m = ((ok, w), m')"
    by (metis surj_pair)
  have t: "now \<le> t" and srt: "sorted (t # map fst cs)" using Cons.prems(3) c by auto
  note step = remembers_step [OF Cons.prems(1) t call]
  have late: "\<forall>c \<in> set past. fst c \<le> t" using Cons.prems(4) t by force
  show ?case
  proof (cases ok)
    case True
    then have "window_ok (past @ [(t, k)])"
      using step(2) by (intro window_ok_snoc [OF Cons.prems(2) late]) simp
    with Cons.IH [OF _ _ srt, of m' "past @ [(t, k)]"] step(1) True late c call show ?thesis by simp
  next
    case False
    with Cons.IH [OF _ Cons.prems(2) srt late] step(1) c call show ?thesis by simp
  qed
qed

section \<open>The lease table\<close>

definition leases_ok :: "lstate \<Rightarrow> bool" where
  "leases_ok s \<longleftrightarrow> pkey le_id (leases s) \<and> pkey lease_key (leases s)"

lemma claimArtifactOnce_cases:
  obtains (refused) r where "claimArtifactOnce E p s = (Done r, s)"
      and "\<And>i x. r \<noteq> L_claimed i x" and "r \<noteq> L_rate_limited Race_exhausted 1"
  | (clash) r where
      "claimArtifactOnce E p s = (r, s\<lparr>core := core s\<lparr>uuid_ctr := Suc (uuid_ctr (core s))\<rparr>\<rparr>)"
      and "exists_where (\<lambda>l. le_id l = uuid_of E (uuid_ctr (core s)) \<or> lease_key l = param_key p)
             (drop_expired_leases E p (leases s))"
      and "live_lease E (param_key p) (drop_expired_leases E p (leases s)) = None"
      and "r = fetchConflictResultOrRetry E p (leases s)"
  | (granted) row where "row = new_lease E p (uuid_of E (uuid_ctr (core s)))"
      and "claimArtifactOnce E p s = (Done (L_claimed (le_id row) (le_expires row)),
             s\<lparr>core := core s\<lparr>uuid_ctr := Suc (uuid_ctr (core s))\<rparr>,
               leases := drop_expired_leases E p (leases s) @ [row]\<rparr>)"
      and "\<not> exists_where (\<lambda>l. le_id l = le_id row \<or> lease_key l = param_key p)
             (drop_expired_leases E p (leases s))"
      and "active_count E (cp_project p) (cp_agent p) (drop_expired_leases E p (leases s)) < 10"
      and "live_lease E (param_key p) (drop_expired_leases E p (leases s)) = None"
proof -
  let ?cl = "drop_expired_leases E p (leases s)"
  let ?row = "new_lease E p (uuid_of E (uuid_ctr (core s)))"
  have id: "le_id ?row = uuid_of E (uuid_ctr (core s))" by (simp add: new_lease_def)
  show thesis
  proof (cases "10 \<le> active_count E (cp_project p) (cp_agent p) ?cl")
    case True
    then show thesis
      by (intro refused [of "L_rate_limited Max_active_leases 60"])
        (simp_all add: claimArtifactOnce_def MAX_ACTIVE_LEASES_PER_AGENT_def)
  next
    case few: False
    show thesis
    proof (cases "live_lease E (param_key p) ?cl")
      case (Some l)
      with few show thesis
        by (intro refused [of "conflict_with E l"])
          (simp_all add: claimArtifactOnce_def MAX_ACTIVE_LEASES_PER_AGENT_def conflict_with_def)
    next
      case None
      show thesis
      proof (cases "exists_where (\<lambda>l. le_id l = uuid_of E (uuid_ctr (core s)) \<or> lease_key l = param_key p) ?cl")
        case True
        with few None show thesis
          by (intro clash [of "fetchConflictResultOrRetry E p (leases s)"])
            (simp_all add: claimArtifactOnce_def MAX_ACTIVE_LEASES_PER_AGENT_def Let_def)
      next
        case False
        with few None id show thesis
          by (intro granted [of ?row])
            (simp_all add: claimArtifactOnce_def MAX_ACTIVE_LEASES_PER_AGENT_def Let_def)
      qed
    qed
  qed
qed

lemma new_lease_key [simp]: "lease_key (new_lease E p i) = param_key p"
  by (simp add: new_lease_def lease_key_def param_key_def)

lemma exists_where_iff: "exists_where P xs \<longleftrightarrow> (\<exists>x \<in> set xs. P x)"
  by (simp add: exists_where_def list_ex_iff)

lemma claimArtifactOnce_ok: "leases_ok s \<Longrightarrow> leases_ok (snd (claimArtifactOnce E p s))"
proof (cases rule: claimArtifactOnce_cases [of E p s])
  case (granted row)
  assume ok: "leases_ok s"
  let ?cl = "drop_expired_leases E p (leases s)"
  have "pkey le_id ?cl" "pkey lease_key ?cl"
    using ok by (simp_all add: leases_ok_def drop_expired_leases_def pkey_delete_where)
  moreover have "find_row le_id (le_id row) ?cl = None" "find_row lease_key (lease_key row) ?cl = None"
    using granted(1,3) by (auto simp: find_row_None exists_where_iff)
  ultimately show ?thesis using granted(2) by (simp add: leases_ok_def pkey_snoc)
qed (simp_all add: leases_ok_def)

lemma claim_attempts_ok:
  assumes "\<And>s. leases_ok s \<Longrightarrow> leases_ok (snd (once s))"
  shows "leases_ok s \<Longrightarrow> leases_ok (snd (claim_attempts once n s))"
proof (induction n arbitrary: s)
  case 0
  then show ?case using assms [of s]
    by (subst claim_attempts.simps) (auto split: prod.split once_result.split)
next
  case (Suc n)
  then show ?case using assms [of s]
    by (subst claim_attempts.simps) (auto split: prod.split once_result.split)
qed

lemma live_lease_key: "live_lease E k ls = Some l \<Longrightarrow> l \<in> set ls \<and> lease_key l = k \<and> pg_now E < le_expires l"
  by (auto simp: live_lease_def find_Some_iff)

lemma live_lease_none: "live_lease E k ls = None \<longleftrightarrow> (\<forall>l \<in> set ls. lease_key l = k \<longrightarrow> le_expires l \<le> pg_now E)"
  by (auto simp: live_lease_def find_None_iff not_less)

text \<open>With a fresh id the insert cannot clash: the clean-up and the check leave no row of the key.\<close>

lemma claimArtifactOnce_done:
  assumes "\<forall>l \<in> set (leases s). le_id l \<noteq> uuid_of E (uuid_ctr (core s))"
  shows "fst (claimArtifactOnce E p s) \<noteq> Retry"
proof (cases rule: claimArtifactOnce_cases [of E p s])
  case (clash r)
  then obtain l where l: "l \<in> set (drop_expired_leases E p (leases s))"
      "le_id l = uuid_of E (uuid_ctr (core s)) \<or> lease_key l = param_key p"
    unfolding exists_where_iff by blast
  then have old: "l \<in> set (leases s)" "lease_key l = param_key p \<longrightarrow> pg_now E < le_expires l"
    by (auto simp: drop_expired_leases_def)
  have "lease_key l = param_key p" using l(2) old(1) assms by blast
  moreover from this have "le_expires l \<le> pg_now E" using clash(3) l(1) by (simp add: live_lease_none)
  ultimately show ?thesis using old(2) by simp
qed simp_all

section \<open>Properties\<close>

text \<open>
  The attempt limiter is a true sliding window: over any run of calls with a clock that does not
  go back, it lets at most 20 calls of one agent and project through in any minute, whatever other agents do
  and whenever the map is pruned.
\<close>

theorem attempt_rate:
  assumes "sorted (map fst cs)"
  shows "length (filter (\<lambda>t. w < t \<and> t \<le> w + ATTEMPT_WINDOW_MS) (times_of k (allowed_calls cs []))) \<le> 20"
proof (cases cs)
  case (Cons c cs')
  have "window_ok ([] @ allowed_calls cs [])"
    by (rule allowed_calls_window [of _ "fst c"])
      (use assms Cons in \<open>auto simp: remembers_def log_get_def times_of_def window_ok_def\<close>)
  then show ?thesis unfolding window_ok_def append_Nil by blast
qed (simp add: times_of_def)

theorem attempt_rate_witness:
  "length (filter (\<lambda>t. 0 < t \<and> t \<le> 0 + ATTEMPT_WINDOW_MS)
     (times_of (''p'', ''ann'') (allowed_calls (replicate 25 (1, (''p'', ''ann''))) []))) \<le> 20"
  by (rule attempt_rate) simp

text \<open>What a granted lease excludes: no live lease stood on the artifact, the new row is its only one.\<close>

definition lease_stands :: "env \<Rightarrow> claim_params \<Rightarrow> lstate \<Rightarrow> string \<Rightarrow> int \<Rightarrow> lstate \<Rightarrow> bool" where
  "lease_stands E p s lid x s' \<longleftrightarrow>
     live_lease E (param_key p) (leases s) = None \<and>
     filter (\<lambda>l. lease_key l = param_key p) (leases s') = [new_lease E p lid] \<and>
     x = js_now E + clampTtl (cp_ttl p) * 60000 \<and>
     active_count E (cp_project p) (cp_agent p) (leases s') \<le> 10 \<and>
     (leases_ok s \<longrightarrow> leases_ok s')"

lemma live_lease_drop: "live_lease E (param_key p) (drop_expired_leases E p ls) = None \<longleftrightarrow>
    live_lease E (param_key p) ls = None"
  unfolding live_lease_none drop_expired_leases_def Ball_def in_delete_where by blast

lemma claimArtifactOnce_stands:
  assumes "claimArtifactOnce E p s = (Done (L_claimed lid x), s')"
  shows "lease_stands E p s lid x s'"
proof (cases rule: claimArtifactOnce_cases [of E p s])
  case (granted row)
  have eq: "lid = le_id row" "x = le_expires row" "leases s' = drop_expired_leases E p (leases s) @ [row]"
    using assms granted(2) by auto
  have "filter (\<lambda>l. lease_key l = param_key p) (drop_expired_leases E p (leases s)) = []"
    using granted(3) by (auto simp: exists_where_iff filter_empty_conv)
  moreover have "leases_ok s \<longrightarrow> leases_ok s'" using claimArtifactOnce_ok [of s E p] assms by simp
  ultimately show ?thesis
    using granted(1,4,5) unfolding lease_stands_def eq live_lease_drop
    by (simp add: new_lease_def active_count_def) (simp add: lease_key_def param_key_def)
next
  case (clash r)
  then show ?thesis using assms
    by (auto simp: fetchConflictResultOrRetry_def conflict_with_def split: option.splits)
qed (use assms in auto)

lemma claimArtifactOnce_retry:
  assumes "claimArtifactOnce E p s = (Retry, s')"
  shows "leases s' = leases s"
  by (cases rule: claimArtifactOnce_cases [of E p s]) (use assms in auto)

lemma lease_stands_core: "leases s1 = leases s \<Longrightarrow> lease_stands E p s1 lid x s' \<Longrightarrow> lease_stands E p s lid x s'"
  by (simp add: lease_stands_def leases_ok_def)

lemma claimWithRetry_stands:
  assumes "claimWithRetry E p s = (L_claimed lid x, s')"
  shows "lease_stands E p s lid x s'"
proof -
  have "claim_attempts (claimArtifactOnce E p) n s1 = (L_claimed lid x, s') \<Longrightarrow> leases s1 = leases s \<Longrightarrow> lease_stands E p s lid x s'" for n s1
  proof (induction n arbitrary: s1)
    case 0
    then show ?case
      by (subst (asm) claim_attempts.simps)
        (auto split: prod.splits once_result.splits intro: lease_stands_core claimArtifactOnce_stands)
  next
    case (Suc n)
    then show ?case
      by (subst (asm) claim_attempts.simps)
        (auto split: prod.splits once_result.splits intro: lease_stands_core claimArtifactOnce_stands
          dest: claimArtifactOnce_retry)
  qed
  then show ?thesis using assms unfolding claimWithRetry_def by blast
qed

text \<open>
  Property C36. A lease excludes: it is granted only when no live lease stands on the artifact, afterwards its
  row is the only one for the artifact, it expires the clamped number of minutes (1 to 240) from now, the agent
  has at most 10 live leases in the project, and the table keeps its unique index.
\<close>

theorem claimArtifact_exclusive:
  assumes "claimArtifact E pid p s = (Inr (L_claimed lid x), s')"
  shows "lease_stands E p s lid x s' \<and> x \<le> js_now E + 240 * 60000"
proof -
  obtain d' m where "claimWithRetry E p (s\<lparr>core := d', attempts := m\<rparr>) = (L_claimed lid x, s')"
    using assms unfolding claimArtifact_def lguarded_def
    by (auto split: prod.splits option.splits bool.splits)
  then have "lease_stands E p s lid x s'"
    by (rule lease_stands_core [OF _ claimWithRetry_stands, rotated]) simp
  then show ?thesis using clampTtl_bounds [of "cp_ttl p"] by (simp add: lease_stands_def MAX_TTL_MINUTES_def)
qed

text \<open>An expired lease of \<open>ann\<close>.\<close>

definition lease_db :: lstate where
  "lease_db = \<lparr>core = empty_db, leases = [\<lparr>le_id = ''L'', le_project = ''p'', le_agent = ''ann'', le_type = ''custom'',
     le_artifact = ''a'', le_task = ''t'', le_ttl = 30, le_expires = 900000\<rparr>], attempts = []\<rparr>"

definition lease_call :: claim_params where
  "lease_call = \<lparr>cp_project = ''p'', cp_agent = ''bob'', cp_type = ''custom'', cp_artifact = ''a'', cp_task = ''t'', cp_ttl = None\<rparr>"

theorem claimArtifact_exclusive_witness:
  "map le_agent (filter (\<lambda>l. lease_key l = param_key lease_call) (leases (snd (claimArtifact dev_env None lease_call lease_db)))) = [''bob'']"
proof -
  let ?run = "claimArtifact dev_env None lease_call lease_db"
  have "fst ?run = Inr (L_claimed ''u'' 2800000)" by code_simp
  then have run: "?run = (Inr (L_claimed ''u'' 2800000), snd ?run)" by (metis prod.collapse)
  from claimArtifact_exclusive [OF run] show ?thesis
    by (simp add: lease_stands_def new_lease_def) (simp add: lease_call_def)
qed

text \<open>
  A renewal never shortens a lease that was within the cap, never reaches further than 240
  minutes from now, and reports an extension that is never negative and never more than asked for.
\<close>

theorem renew_bounds:
  assumes "le_expires l \<le> renew_cap E" and "1 \<le> minutes"
  shows "of_int (le_expires l) \<le> renew_target E (le_expires l) minutes \<and>
    \<lfloor>renew_target E (le_expires l) minutes\<rfloor> \<le> js_now E + 240 * 60000 \<and>
    (\<exists>eff. renew_result E (le_expires l) minutes \<in> {RN_renewed \<lfloor>renew_target E (le_expires l) minutes\<rfloor> eff,
        RN_cap_reached \<lfloor>renew_target E (le_expires l) minutes\<rfloor> eff} \<and> 0 \<le> eff \<and> of_int eff \<le> minutes)"
proof -
  let ?t = "renew_target E (le_expires l) minutes"
  let ?eff = "max 0 \<lfloor>(?t - of_int (le_expires l)) / 60000\<rfloor>"
  have t: "of_int (le_expires l) \<le> ?t" "?t \<le> of_int (renew_cap E)" "?t \<le> of_int (le_expires l) + minutes * 60000"
    using assms by (simp_all add: renew_target_def)
  have "\<lfloor>?t\<rfloor> \<le> renew_cap E" using t(2) by linarith
  moreover have "of_int \<lfloor>(?t - of_int (le_expires l)) / 60000\<rfloor> \<le> minutes"
  proof -
    have "(?t - of_int (le_expires l)) / 60000 \<le> minutes" using t(3) by (simp add: field_simps)
    then show ?thesis using of_int_floor_le order.trans by blast
  qed
  then have "of_int ?eff \<le> minutes" using assms(2) by (simp add: max_def)
  ultimately show ?thesis
    using t(1) by (auto simp: renew_cap_def MAX_TTL_MINUTES_def renew_result_def Let_def intro!: exI [of _ ?eff])
qed

definition old_lease :: lease_row where
  "old_lease = \<lparr>le_id = ''L'', le_project = ''p'', le_agent = ''ann'', le_type = ''custom'',
     le_artifact = ''a'', le_task = ''t'', le_ttl = 30, le_expires = 900000\<rparr>"

theorem renew_bounds_witness:
  "\<lfloor>renew_target dev_env (le_expires old_lease) 30\<rfloor> \<le> js_now dev_env + 240 * 60000"
proof -
  have "le_expires old_lease \<le> renew_cap dev_env" by code_simp
  then show ?thesis using renew_bounds [of old_lease dev_env 30] by simp
qed

end
