(* ===== verification/Lockout.thy ===== *)
theory Lockout
  imports Leases
begin

text \<open>
  Login lockout (services/lockout.ts, and the login route of api/routes/auth.ts that calls it): the
  soft, increasing delay after consecutive failures, the hard lock with its optional expiry, the
  reset. The verification of a password is a parameter of the model (its result is an argument).
  The thresholds and delays of the policy are natural numbers of failures and seconds.
\<close>

record policy =
  softThreshold :: nat
  hardThreshold :: nat
  softBaseDelaySeconds :: nat
  softMaxDelaySeconds :: nat
  hardDurationSeconds :: nat

text \<open>
  \<open>conf\<close> stands for \<^verbatim>\<open>process.env\<close>: the number a variable holds, when it is set to one.
\<close>

definition getLockoutPolicy :: "(string \<Rightarrow> nat option) \<Rightarrow> policy" where
  "getLockoutPolicy conf =
     (let num = (\<lambda>key dflt. or_else (conf key) dflt);
          soft = max 1 (num ''AUTH_LOCKOUT_SOFT_THRESHOLD'' 3)
      in \<lparr>softThreshold = soft,
          hardThreshold = max (soft + 1) (num ''AUTH_LOCKOUT_HARD_THRESHOLD'' 10),
          softBaseDelaySeconds = max 1 (num ''AUTH_LOCKOUT_SOFT_BASE_DELAY_SECONDS'' 5),
          softMaxDelaySeconds = max 1 (num ''AUTH_LOCKOUT_SOFT_MAX_DELAY_SECONDS'' 300),
          hardDurationSeconds = num ''AUTH_LOCKOUT_HARD_DURATION_SECONDS'' 1800\<rparr>)"

definition softDelaySeconds :: "nat \<Rightarrow> policy \<Rightarrow> nat" where
  "softDelaySeconds failures pol =
     (if failures < softThreshold pol then 0
      else min (softBaseDelaySeconds pol * 2 ^ (failures - softThreshold pol)) (softMaxDelaySeconds pol))"

definition shouldHardLock :: "nat \<Rightarrow> policy \<Rightarrow> bool" where
  "shouldHardLock failures pol = (hardThreshold pol \<le> failures)"

record cred_row =
  hc_principal :: string
  hc_failed :: nat
  hc_soft_until :: "int option"
  hc_hard :: bool
  hc_hard_until :: "int option"
  hc_last_login :: "int option"
  hc_hash :: string

datatype lock_reason = Lock_hard | Lock_soft

datatype lock_eval = Unlocked | Locked lock_reason int  \<comment> \<open>retry after, seconds\<close>

fun is_locked :: "lock_eval \<Rightarrow> bool" where
  "is_locked Unlocked = False"
| "is_locked (Locked r s) = True"

definition hard_lapsed :: "cred_row \<Rightarrow> int \<Rightarrow> bool" where
  "hard_lapsed c now = (case hc_hard_until c of None \<Rightarrow> False | Some u \<Rightarrow> u \<le> now)"

definition soft_eval :: "cred_row \<Rightarrow> int \<Rightarrow> lock_eval" where
  "soft_eval c now = (case hc_soft_until c of
     None \<Rightarrow> Unlocked
   | Some u \<Rightarrow> if now < u then Locked Lock_soft (ceil_div (u - now) 1000) else Unlocked)"

definition evaluateLock :: "cred_row \<Rightarrow> int \<Rightarrow> lock_eval" where
  "evaluateLock c now =
     (if hc_hard c \<and> \<not> hard_lapsed c now
      then Locked Lock_hard (case hc_hard_until c of None \<Rightarrow> 0 | Some u \<Rightarrow> ceil_div (u - now) 1000)
      else soft_eval c now)"

section \<open>Database operations\<close>

definition getLockState :: "cred_row list \<Rightarrow> string \<Rightarrow> cred_row option" where
  "getLockState cs pid = find_row hc_principal pid cs"

text \<open>\<open>recordFailure\<close> on the row of the principal: the increment, then the lock columns.\<close>

definition fail_row :: "env \<Rightarrow> policy \<Rightarrow> cred_row \<Rightarrow> cred_row" where
  "fail_row E pol c =
     (let failed = Suc (hc_failed c);
          delay = softDelaySeconds failed pol;
          hard = shouldHardLock failed pol;
          softUntil = (if 0 < delay then Some (js_now E + int delay * 1000) else None);
          hardUntil = (if hard \<and> 0 < hardDurationSeconds pol
                       then Some (js_now E + int (hardDurationSeconds pol) * 1000) else None)
      in c\<lparr>hc_failed := failed, hc_soft_until := softUntil, hc_hard := (hc_hard c \<or> hard),
           hc_hard_until := (if hard \<and> (\<not> hc_hard c \<or> hard_lapsed c (pg_now E))
                             then hardUntil else hc_hard_until c)\<rparr>)"

definition fail_eval :: "env \<Rightarrow> policy \<Rightarrow> cred_row \<Rightarrow> lock_eval" where
  "fail_eval E pol c =
     (let failed = Suc (hc_failed c); delay = softDelaySeconds failed pol
      in if shouldHardLock failed pol then Locked Lock_hard (int (hardDurationSeconds pol))
         else if 0 < delay then Locked Lock_soft (int delay)
         else Unlocked)"

definition recordFailure ::
  "env \<Rightarrow> policy \<Rightarrow> string \<Rightarrow> cred_row list \<Rightarrow> lock_eval \<times> cred_row list" where
  "recordFailure E pol pid cs = (case getLockState cs pid of
     None \<Rightarrow> (Unlocked, cs)
   | Some c \<Rightarrow> (fail_eval E pol c, update_where (\<lambda>x. hc_principal x = pid) (fail_row E pol) cs))"

definition clear_row :: "cred_row \<Rightarrow> cred_row" where
  "clear_row c = c\<lparr>hc_failed := 0, hc_soft_until := None, hc_hard := False, hc_hard_until := None\<rparr>"

definition recordSuccess :: "env \<Rightarrow> string \<Rightarrow> cred_row list \<Rightarrow> cred_row list" where
  "recordSuccess E pid =
     update_where (\<lambda>x. hc_principal x = pid) (\<lambda>x. (clear_row x)\<lparr>hc_last_login := Some (pg_now E)\<rparr>)"

definition clearLockout :: "string \<Rightarrow> cred_row list \<Rightarrow> cred_row list" where
  "clearLockout pid = update_where (\<lambda>x. hc_principal x = pid) clear_row"

section \<open>The login route\<close>

datatype login_result = Login_refused | Login_invalid | Login_mfa_required | Login_ok

text \<open>
  From the lock check on. \<open>verified\<close> is the outcome of \<^verbatim>\<open>verifyPassword\<close>, \<open>mfa\<close> of
  \<^verbatim>\<open>hasVerifiedFactor\<close>. Both refusals are the same generic 401.
\<close>

definition login_attempt ::
  "env \<Rightarrow> policy \<Rightarrow> string \<Rightarrow> bool \<Rightarrow> bool \<Rightarrow> cred_row list \<Rightarrow> login_result \<times> cred_row list" where
  "login_attempt E pol pid verified mfa cs =
     (if (case getLockState cs pid of None \<Rightarrow> False | Some c \<Rightarrow> is_locked (evaluateLock c (js_now E)))
      then (Login_refused, cs)
      else if \<not> verified then (Login_invalid, snd (recordFailure E pol pid cs))
      else if mfa then (Login_mfa_required, cs)
      else (Login_ok, recordSuccess E pid cs))"

section \<open>The backoff\<close>

lemma softDelay_le_max: "softDelaySeconds n pol \<le> softMaxDelaySeconds pol"
  by (simp add: softDelaySeconds_def)

lemma softDelay_mono:
  assumes "m \<le> n"
  shows "softDelaySeconds m pol \<le> softDelaySeconds n pol"
proof (cases "m < softThreshold pol")
  case True
  then show ?thesis by (simp add: softDelaySeconds_def)
next
  case False
  then have "(2::nat) ^ (m - softThreshold pol) \<le> 2 ^ (n - softThreshold pol)"
    using assms by (intro power_increasing) auto
  with False assms show ?thesis
    by (auto simp: softDelaySeconds_def min_le_iff_disj intro!: mult_left_mono)
qed

text \<open>
  A run of failing attempts on one account: an attempt made while the account is locked is refused
  and leaves no trace, another one is recorded. \<open>recorded\<close> lists the times of the recorded ones.
  Both clocks of an attempt show the time of the attempt.
\<close>

definition at_time :: "env \<Rightarrow> int \<Rightarrow> env" where
  "at_time E t = E\<lparr>js_now := t, pg_now := t\<rparr>"

fun recorded :: "env \<Rightarrow> policy \<Rightarrow> string \<Rightarrow> int list \<Rightarrow> cred_row list \<Rightarrow> int list" where
  "recorded E pol pid [] cs = []"
| "recorded E pol pid (t # ts) cs =
     (case login_attempt (at_time E t) pol pid False False cs of
        (Login_invalid, cs') \<Rightarrow> t # recorded E pol pid ts cs'
      | (r, cs') \<Rightarrow> recorded E pol pid ts cs')"

text \<open>The shape of the recorded times: each waits for the delay its predecessor set.\<close>

fun spaced :: "policy \<Rightarrow> nat \<Rightarrow> int list \<Rightarrow> bool" where
  "spaced pol n (a # b # ts) = (a + int (softDelaySeconds (Suc n) pol) * 1000 \<le> b \<and> spaced pol (Suc n) (b # ts))"
| "spaced pol n ts = True"

definition waits_until :: "cred_row \<Rightarrow> int \<Rightarrow> bool" where
  "waits_until c t = (case hc_soft_until c of None \<Rightarrow> True | Some u \<Rightarrow> u \<le> t)"

lemma login_attempt_recorded:
  assumes "getLockState cs pid = Some c"
    and "login_attempt (at_time E t) pol pid False False cs = (Login_invalid, cs')"
  shows "waits_until c t" and "getLockState cs' pid = Some (fail_row (at_time E t) pol c)"
proof -
  have "\<not> is_locked (evaluateLock c t)"
    using assms by (auto simp: login_attempt_def at_time_def split: if_splits)
  then have "soft_eval c t = Unlocked"
    by (cases "soft_eval c t") (auto simp: evaluateLock_def split: if_splits)
  then show "waits_until c t"
    by (auto simp: soft_eval_def waits_until_def split: option.splits if_splits)
  show "getLockState cs' pid = Some (fail_row (at_time E t) pol c)"
    using assms by (auto simp: login_attempt_def recordFailure_def getLockState_def
        find_row_update_where fail_row_def Let_def dest: find_row_key split: if_splits)
qed

lemma recorded_spaced:
  assumes "getLockState cs pid = Some c" and "sorted ts"
  shows "spaced pol (hc_failed c) (recorded E pol pid ts cs) \<and>
    (\<forall>t \<in> set (recorded E pol pid ts cs). waits_until c t \<and> t \<in> set ts)"
  using assms
proof (induction ts arbitrary: cs c)
  case Nil
  then show ?case by simp
next
  case (Cons t ts)
  obtain r cs' where a: "login_attempt (at_time E t) pol pid False False cs = (r, cs')" by force
  show ?case
  proof (cases "r = Login_invalid")
    case True
    let ?c = "fail_row (at_time E t) pol c"
    let ?ts = "recorded E pol pid ts cs'"
    note step = login_attempt_recorded [OF Cons.prems(1) a [unfolded True]]
    have failed: "hc_failed ?c = Suc (hc_failed c)" by (simp add: fail_row_def Let_def)
    have IH: "spaced pol (Suc (hc_failed c)) ?ts"
      "\<forall>x \<in> set ?ts. waits_until ?c x \<and> x \<in> set ts"
      using Cons.IH [OF step(2)] Cons.prems(2) failed by auto
    have later: "t + int (softDelaySeconds (Suc (hc_failed c)) pol) * 1000 \<le> x"
      if "x \<in> set ?ts" for x
      using IH(2) Cons.prems(2) that
      by (auto simp: waits_until_def fail_row_def Let_def at_time_def split: if_splits)
    have "spaced pol (hc_failed c) (t # ?ts)"
      using IH(1) later by (cases ?ts) auto
    moreover have "waits_until c x" if "x \<in> set ?ts" for x
      using step(1) IH(2) Cons.prems(2) that
      by (force simp: waits_until_def split: option.splits)
    ultimately show ?thesis using step(1) IH(2) a True by auto
  next
    case False
    then have "cs' = cs"
      using a by (auto simp: login_attempt_def split: if_splits)
    with False a have "recorded E pol pid (t # ts) cs = recorded E pol pid ts cs"
      by (cases r) simp_all
    with Cons.IH [OF Cons.prems(1)] Cons.prems(2) show ?thesis by simp
  qed
qed

text \<open>Over a spaced list the time between first and last is at least the sum of the delays.\<close>

definition delay_sum :: "policy \<Rightarrow> nat \<Rightarrow> nat \<Rightarrow> nat" where
  "delay_sum pol n k = sum_list (map (\<lambda>i. softDelaySeconds (n + Suc i) pol) [0..<k])"

lemma delay_sum_Suc: "delay_sum pol n (Suc k) = softDelaySeconds (Suc n) pol + delay_sum pol (Suc n) k"
proof -
  have "[0..<Suc k] = 0 # map Suc [0..<k]" by (metis map_Suc_upt upt_conv_Cons zero_less_Suc)
  then show ?thesis by (simp add: delay_sum_def comp_def del: upt_Suc)
qed

lemma spaced_span:
  "spaced pol n (a # ts) \<Longrightarrow> a + int (delay_sum pol n (length ts)) * 1000 \<le> last (a # ts)"
proof (induction ts arbitrary: a n)
  case Nil
  then show ?case by (simp add: delay_sum_def)
next
  case (Cons b ts)
  have "b + int (delay_sum pol (Suc n) (length ts)) * 1000 \<le> last (b # ts)"
    using Cons.IH Cons.prems by simp
  with Cons.prems show ?case by (simp add: delay_sum_Suc algebra_simps)
qed

lemma delay_sum_mono: "delay_sum pol 0 k \<le> delay_sum pol n k"
  unfolding delay_sum_def by (rule sum_list_mono) (rule softDelay_mono, simp)

lemma delay_sum_le: "j \<le> k \<Longrightarrow> delay_sum pol n j \<le> delay_sum pol n k"
  by (induction k) (auto simp: delay_sum_def le_Suc_eq)

lemma spaced_sorted: "spaced pol n ts \<Longrightarrow> sorted ts"
proof (induction pol n ts rule: spaced.induct)
  case (1 pol n a b ts)
  then have "a \<le> b" "sorted (b # ts)" by auto
  then show ?case by (auto intro: order.trans)
qed simp_all

lemma spaced_drop: "spaced pol n ts \<Longrightarrow> \<exists>m. spaced pol m (drop k ts)"
proof (induction k arbitrary: n ts)
  case 0
  then show ?case by auto
next
  case (Suc k)
  show ?case
  proof (cases ts)
    case Nil
    then show ?thesis by simp
  next
    case (Cons a us)
    with Suc.prems have "\<exists>m. spaced pol m us" by (cases us) auto
    with Suc.IH Cons show ?thesis by auto
  qed
qed

lemma spaced_take: "spaced pol n ts \<Longrightarrow> spaced pol n (take k ts)"
proof (induction pol n ts arbitrary: k rule: spaced.induct)
  case (1 pol n a b ts)
  show ?case
  proof (cases k)
    case (Suc j)
    with 1(1) [of j] 1(2) show ?thesis by (cases j) auto
  qed simp
qed (auto simp: take_Cons split: nat.split)

text \<open>In a sorted list the members of an interval are a stretch.\<close>

lemma sorted_window:
  fixes xs :: "int list"
  assumes "sorted xs"
  shows "\<exists>i k. filter (\<lambda>t. a < t \<and> t \<le> b) xs = take k (drop i xs)"
proof -
  have "filter (\<lambda>t. a < t \<and> t \<le> b) xs = takeWhile (\<lambda>t. t \<le> b) (dropWhile (\<lambda>t. t \<le> a) xs)"
    using assms
  proof (induction xs)
    case (Cons x xs)
    show ?case
    proof (cases "x \<le> a")
      case True
      with Cons show ?thesis by simp
    next
      case False
      then have all: "\<forall>t \<in> set xs. a < t" using Cons.prems by auto
      then have "dropWhile (\<lambda>t. t \<le> a) xs = xs" by (cases xs) auto
      with Cons False show ?thesis
        by (cases "x \<le> b"; cases xs) (auto simp: filter_empty_conv)
    qed
  qed simp
  then show ?thesis by (metis dropWhile_eq_drop takeWhile_eq_take)
qed

lemma spaced_window:
  assumes sp: "spaced pol n ts" and few: "int w \<le> int (delay_sum pol 0 k) * 1000"
  shows "length (filter (\<lambda>t. a < t \<and> t \<le> a + int w) ts) \<le> k"
proof (rule ccontr)
  let ?f = "filter (\<lambda>t. a < t \<and> t \<le> a + int w) ts"
  assume "\<not> length ?f \<le> k"
  then have long: "k < length ?f" by simp
  obtain i j where "?f = take j (drop i ts)"
    using sorted_window [OF spaced_sorted [OF sp]] by blast
  then obtain m where m: "spaced pol m ?f" using sp spaced_drop spaced_take by metis
  from long obtain x xs where f: "?f = x # xs" by (cases ?f) auto
  have "k \<le> length xs" using long f by simp
  then have "delay_sum pol 0 k \<le> delay_sum pol m (length xs)"
    using delay_sum_mono delay_sum_le order.trans by metis
  then have "x + int w \<le> last ?f"
    using spaced_span [of pol m x xs] m few f by simp
  moreover have "x \<in> set ?f" "last ?f \<in> set ?f" using f by (metis list.set_intros(1), metis last_in_set list.simps(3))
  ultimately show False by auto
qed

section \<open>Properties\<close>

lemma default_policy: "getLockoutPolicy (\<lambda>_. None) = \<lparr>softThreshold = 3, hardThreshold = 10,
    softBaseDelaySeconds = 5, softMaxDelaySeconds = 300, hardDurationSeconds = 1800\<rparr>"
  by (simp add: getLockoutPolicy_def or_else_def Let_def)

lemma default_hour: "delay_sum (getLockoutPolicy (\<lambda>_. None)) 0 19 = 3615"
  by (simp add: default_policy delay_sum_def softDelaySeconds_def upt_rec)



end
