(* ===== verification/Filing.thy ===== *)
theory Filing
  imports Routing
begin

text \<open>
  What filing leaves behind: \<open>submitRequest\<close> adds one request with the steps of its route,
  \<open>openDispute\<close> a dispute with its resolution request or nothing (one exception is stated),
  \<open>triageIntake\<close> moves an item out of \<^verbatim>\<open>received\<close> once.
\<close>

section \<open>Submissions\<close>

text \<open>The part of a step the route fixes: request, index, office, and who decided it.\<close>

definition step_slot :: "step_row \<Rightarrow> string \<times> nat \<times> level \<times> string option" where
  "step_slot s = (s_request s, s_index s, s_office s, s_decided_by s)"

definition route_slots :: "string \<Rightarrow> level list \<Rightarrow> (string \<times> nat \<times> level \<times> string option) list" where
  "route_slots rid route = map (\<lambda>i. (rid, i, route ! i, None)) [0..<length route]"

lemma route_steps_slots:
  assumes "length bs = length route"
  shows "map step_slot (route_steps E rid m route bs) = route_slots rid route"
  by (rule nth_equalityI) (use assms in \<open>simp_all add: route_slots_def route_steps_def step_slot_def new_step_def\<close>)

text \<open>\<open>opened\<close>: the rows of a new request are there.\<close>

definition opened :: "db \<Rightarrow> string \<Rightarrow> string \<Rightarrow> string \<Rightarrow> string \<Rightarrow> level list \<Rightarrow> db \<Rightarrow> bool" where
  "opened d rid tid who subj route d' \<longleftrightarrow>
     (\<exists>r. requests d' = requests d @ [r] \<and> r_id r = rid \<and> r_topic r = tid \<and> r_submitted_by r = who \<and> r_subject r = subj \<and>
        r_status r = Open \<and> r_current r = 0) \<and>
     map step_slot (steps d') = map step_slot (steps d) @ route_slots rid route \<and>
     disputes d' = disputes d \<and> intake_items d' = intake_items d"

lemma opened_logged: "opened d rid tid who subj route d1 \<Longrightarrow> logged d1 d2 \<Longrightarrow> opened d rid tid who subj route d2"
  by (auto simp: opened_def logged_def)

lemma opened_proposal: "opened d rid tid who subj route d1 \<Longrightarrow> after (\<lambda>_. opened d rid tid who subj route) (proposeStepMotion E rid 0 b tid d1)"
  unfolding proposeStepMotion_def
  by (auto simp: after_simps intro!: after_emit)
    (auto simp: opened_def logged_def set_step_def step_slot_def map_update_where)

lemma submit_block_opened:
  assumes fresh: "find_row r_id rid (requests d) = None" and bs: "length bs = length route" and d1: "d1 = d\<lparr>uuid_ctr := u\<rparr>"
    and tail': "\<And>d2. opened d rid tid who subj route d2 \<Longrightarrow> after (\<lambda>_. opened d rid tid who subj route) (tail' d2)"
  shows "after (\<lambda>_. opened d rid tid who subj route) (tx_block
      [tx_block (map (insert_row step_key steps steps_update) (route_steps E rid m route bs)),
       (if mk then tx_write (set_request rid (\<lambda>r. r\<lparr>r_bodies := Some nb\<rparr>)) else tx_return ()),
       emit E e, tail']
      (requests_update (\<lambda>tbl. tbl @ [new_request E rid tid subj kind w who ex sh]) d1))"
proof -
  let ?r = "new_request E rid tid subj kind w who ex sh"
  have rows: "opened d rid tid who subj route d2"
    if "requests d2 = requests d @ [?r\<lparr>r_bodies := nb'\<rparr>]" "steps d2 = steps d @ route_steps E rid m route bs"
      "disputes d2 = disputes d" "intake_items d2 = intake_items d" for d2 nb'
    using that route_steps_slots [OF bs] by (auto simp: opened_def new_request_def)
  have fin: "after (\<lambda>_. opened d rid tid who subj route) (tail' d3)" if "logged d2 d3" "opened d rid tid who subj route d2" for d2 d3
    by (rule tail') (rule opened_logged [OF that(2,1)])
  have same: "?r\<lparr>r_bodies := None\<rparr> = ?r" by (simp add: new_request_def)
  show ?thesis
  proof (cases mk)
    case True
    show ?thesis
      unfolding after_block
      by (rule after_insert_rows)
        (auto simp: True after_write after_prims d1 set_request_def fresh_request_update [OF fresh new_request_id]
          intro!: after_emit fin [OF _ rows [of _ "Some nb"]] simp del: update_where_append)
  next
    case False
    show ?thesis
      unfolding after_block
      by (rule after_insert_rows)
        (auto simp: False after_write after_prims d1 same intro!: after_emit fin [OF _ rows [of _ None]])
  qed
qed

lemma submit_body_opened:
  assumes d1: "d1 = d\<lparr>uuid_ctr := u\<rparr>"
  shows "after (\<lambda>res d'. res = Submitted rid route \<and> opened d rid tid who subj route d')
    (submit_body E tid subj kind w who ex rid m route d1)"
proof (cases "find_row r_id rid (requests d)")
  case (Some x)
  then show ?thesis using d1 by (simp add: submit_body_def after_then after_insert_row)
next
  case fresh: None
  show ?thesis
  proof (cases "step_bodies m route")
    case None
    then show ?thesis by (simp add: submit_body_def after_then after_insert_row after_prims)
  next
    case (Some bs)
    define tail' :: "(unit, submit_result) dtx" where "tail' = (case bs of
        Some b # _ \<Rightarrow> (if rr_procedure m = Collective then proposeStepMotion E rid 0 b tid else tx_return ())
      | _ \<Rightarrow> tx_return ())"
    have "after (\<lambda>_. opened d rid tid who subj route) (tail' d2)" if "opened d rid tid who subj route d2" for d2
      using that by (auto simp: tail'_def after_prims intro: opened_proposal split: list.split option.split)
    note block = submit_block_opened [OF fresh step_bodies_length [OF Some] d1 this]
    show ?thesis
      unfolding submit_body_def Some option.case after_then after_insert_row after_if(1) after_prims tail'_def [symmetric]
      by (cases "bodies_distinct m route bs") (simp_all add: block after_prims del: tx_block.simps)
  qed
qed

lemma aborts_insert_steps [aborts_simps]: "aborts A (tx_block (map (insert_row step_key steps steps_update) rows) d)"
  by (induction rows arbitrary: d) (auto simp: aborts_simps intro!: after_I)

lemma aborts_submit_body [aborts_simps]: "aborts A (submit_body E tid subj kind w who ex rid m route d)"
  unfolding submit_body_def
  by (auto simp: aborts_simps intro!: after_I split: option.split list.split)

lemma submitRequest_done:
  assumes "submitRequest E pid tid sty subj kind w proc who ex d = (Inr (Submitted rid route), d')"
  shows "opened d rid (trim tid) (trim who) (trim subj) route d' \<and>
    (\<exists>t p m n. topic_of d (trim tid) = Some t \<and> t_status t \<notin> {Closed, Closing} \<and>
       participant_of d (trim tid) (trim who) = Some p \<and> nat_value w = Some n \<and>
       resolveMatrixRow d (t_project t) (trim tid) (trim kind) (int n) = Some m \<and>
       route = deriveRoute (p_level p) (rr_level m) (rr_shape m))"
proof -
  have matrix: "resolveMatrixRow (d\<lparr>authz_decisions := l\<rparr>) a b c e = resolveMatrixRow d a b c e" for l a b c e
    by (simp add: resolveMatrixRow_def ranked_rows_def bodies_of_row_def cong: list.case_cong)
  have topic: "topic_of (d\<lparr>authz_decisions := l\<rparr>) x = topic_of d x" for l x by (simp add: topic_of_def)
  obtain l n ex' where n: "nat_value w = Some n" and
    run: "submit_checked E (trim tid) (trim sty) (trim subj) (trim kind) (int n) (trim who) ex' (d\<lparr>authz_decisions := l\<rparr>) =
      (Inr (Submitted rid route), d')"
    using assms unfolding submitRequest_def
    by (auto simp: Let_def throw_def elim!: guarded_Inr split: if_splits option.splits sum.splits)
  from run obtain t p m where checks: "topic_of d (trim tid) = Some t" "t_status t \<notin> {Closed, Closing}"
    "participant_of d (trim tid) (trim who) = Some p"
    "resolveMatrixRow d (t_project t) (trim tid) (trim kind) (int n) = Some m"
    and tx: "transaction (submit_body E (trim tid) (trim subj) (trim kind) (int n) (trim who) ex' (uuid_of E (uuid_ctr d)) m
        (deriveRoute (p_level p) (rr_level m) (rr_shape m)))
      (d\<lparr>authz_decisions := l, uuid_ctr := Suc (uuid_ctr d)\<rparr>) = (Inr (Submitted rid route), d')"
    unfolding submit_checked_def by (auto simp: Let_def throw_def matrix topic split: if_splits option.splits)
  have "Submitted rid route = Submitted (uuid_of E (uuid_ctr d)) (deriveRoute (p_level p) (rr_level m) (rr_shape m)) \<and>
      opened (d\<lparr>authz_decisions := l\<rparr>) (uuid_of E (uuid_ctr d)) (trim tid) (trim who) (trim subj)
        (deriveRoute (p_level p) (rr_level m) (rr_shape m)) d'"
    by (rule committed_result [OF tx aborts_submit_body [where A = "\<lambda>_. False"] _ submit_body_opened]) simp_all
  then show ?thesis using checks n by (auto simp: opened_def)
qed

text \<open>
  Property C26. A submitted request: the topic is open, the submitter participates, the matrix has a row for
  the kind and weight, and the route is the one \<^verbatim>\<open>deriveRoute\<close> gives for the submitter's level. Exactly one
  request is added, open and at step 0, and exactly one undecided step per level of the route, in its order.
\<close>

theorem submitRequest_spec:
  assumes "submitRequest E pid tid sty subj kind w proc who ex d = (Inr (Submitted rid route), d')"
  shows "opened d rid (trim tid) (trim who) (trim subj) route d' \<and>
    (\<exists>t p m n. topic_of d (trim tid) = Some t \<and> t_status t \<notin> {Closed, Closing} \<and>
       participant_of d (trim tid) (trim who) = Some p \<and> nat_value w = Some n \<and>
       resolveMatrixRow d (t_project t) (trim tid) (trim kind) (int n) = Some m \<and>
       route = deriveRoute (p_level p) (rr_level m) (rr_shape m))"
  using assms by (rule submitRequest_done)

text \<open>A topic with a matrix row that sends requests of \<open>sue\<close> to the coordinator.\<close>

definition matrix_db :: db where
  "matrix_db = desk_db\<lparr>requests := [], steps := [], matrix := [
     \<lparr>mx_id = ''m'', mx_project = ''p'', mx_topic = None, mx_kind = ''k'', mx_min = 0, mx_max = 10,
      mx_level = Authority, mx_shape = Counter_sign, mx_procedure = Unilateral, mx_body = None\<rparr>]\<rparr>"

theorem submitRequest_spec_witness:
  "map step_slot (steps (snd (submitRequest dev_env None ''T'' ''artifact'' ''A'' ''k'' (Fin 1) ''unilateral'' ''sue'' None matrix_db))) =
     [(''u'', 0, Coordination, None), (''u'', 1, Authority, None)]"
proof -
  let ?run = "submitRequest dev_env None ''T'' ''artifact'' ''A'' ''k'' (Fin 1) ''unilateral'' ''sue'' None matrix_db"
  have "fst ?run = Inr (Submitted ''u'' [Coordination, Authority])" by code_simp
  then have run: "?run = (Inr (Submitted ''u'' [Coordination, Authority]), snd ?run)" by (metis prod.collapse)
  moreover have "steps matrix_db = []" by (simp add: matrix_db_def)
  ultimately show ?thesis using submitRequest_spec [OF run] by (simp add: opened_def route_slots_def upt_rec)
qed

section \<open>Disputes\<close>

text \<open>A submission that is refused, or throws, leaves requests, disputes and intake items as they were.\<close>

lemma submitRequest_frame:
  assumes "submitRequest E pid tid sty subj kind w proc who ex d = (res, d')"
  shows "(disputes d', intake_items d') = (disputes d, intake_items d) \<and>
    ((\<nexists>rid route. res = Inr (Submitted rid route)) \<longrightarrow> requests d' = requests d)"
proof -
  define P :: "submit_result outcome \<Rightarrow> bool" where "P = (\<lambda>(res, d'). (disputes d', intake_items d') = (disputes d, intake_items d) \<and>
    ((\<nexists>rid route. res = Inr (Submitted rid route)) \<longrightarrow> requests d' = requests d))"
  have tx: "P (transaction (submit_body E t s k w who ex rid m route) (d\<lparr>authz_decisions := l, uuid_ctr := u\<rparr>))"
    for t s k w who ex rid m route l u
  proof -
    let ?m = "submit_body E t s k w who ex rid m route (d\<lparr>authz_decisions := l, uuid_ctr := u\<rparr>)"
    have "after (\<lambda>res d'. res = Submitted rid route \<and> opened (d\<lparr>authz_decisions := l\<rparr>) rid t who s route d') ?m"
      by (rule submit_body_opened) simp
    moreover have "aborts (\<lambda>_. False) ?m" by (rule aborts_submit_body)
    ultimately show ?thesis
      by (auto simp: P_def transaction_def rollback_def opened_def after_def aborts_def split: prod.splits ctl.splits)
  qed
  have refuse: "P (Inl x, d\<lparr>authz_decisions := l\<rparr>)" "P (Inr Sub_topic_closed, d\<lparr>authz_decisions := l\<rparr>)"
    "P (Inr Sub_not_participant, d\<lparr>authz_decisions := l\<rparr>)" "P (Inr Sub_no_route, d\<lparr>authz_decisions := l\<rparr>)" for x l
    by (simp_all add: P_def)
  have checked: "P (submit_checked E t st s k w who ex (d\<lparr>authz_decisions := l\<rparr>))" for t st s k w who ex l
    by (auto simp: submit_checked_def throw_def Let_def intro!: tx refuse split: option.split)
  have "P (submitRequest E pid tid sty subj kind w proc who ex d)"
    unfolding submitRequest_def Let_def
    by (rule guarded_result) (auto simp: throw_def intro!: refuse checked split: option.split sum.split)
  then show ?thesis using assms by (simp add: P_def)
qed

text \<open>
  The state an opened dispute leaves: the dispute is open and linked to a new open request about it. A refusal
  leaves requests alone and no dispute row behind, except when the submission itself throws: then the row,
  without a request, stays.
\<close>

definition dispute_filed :: "db \<Rightarrow> string \<Rightarrow> string list \<Rightarrow> dispute_row \<Rightarrow> string \<Rightarrow> db \<Rightarrow> bool" where
  "dispute_filed d tid parties dis rid d' \<longleftrightarrow>
     topic_status_of d tid = Some Active \<and> 2 \<le> length parties \<and>
     disputes d' = disputes d @ [dis] \<and> d_status dis = D_open \<and> d_topic dis = tid \<and> d_request dis = Some rid \<and>
     intake_items d' = intake_items d \<and>
     (\<exists>r. requests d' = requests d @ [r] \<and> r_id r = rid \<and> r_status r = Open \<and> r_subject r = trim (d_id dis))"

definition dispute_refused :: "db \<Rightarrow> db \<Rightarrow> bool" where
  "dispute_refused d d' \<longleftrightarrow> requests d' = requests d \<and> intake_items d' = intake_items d \<and>
     (disputes d' = disputes d \<or> (\<exists>dis. disputes d' = disputes d @ [dis] \<and> d_request dis = None))"

lemma insert_dispute_result:
  "after (\<lambda>dis d'. d_request dis = None \<and> d_status dis = D_open \<and> d_topic dis = tid \<and> find_row d_id (d_id dis) (disputes d) = None \<and>
      (\<exists>u. d' = d\<lparr>uuid_ctr := u, disputes := disputes d @ [dis]\<rparr>))
    (insert_dispute E tid subj parties d)"
  unfolding insert_dispute_def Let_def
  by (cases d) (auto simp: after_simps intro!: exI [of _ "Suc (uuid_ctr d)"])

lemma aborts_insert_dispute [aborts_simps]: "aborts A (insert_dispute E tid subj parties d)"
  unfolding insert_dispute_def Let_def by (auto simp: aborts_simps intro!: after_I)

lemma emit_frame:
  assumes "transaction (emit E e) d = (res, d')"
  shows "(disputes d', intake_items d', requests d') = (disputes d, intake_items d, requests d)"
proof -
  let ?m = "emit E e d :: (unit, unit, exn) ctl \<times> db"
  have "no_abort ?m" by (rule no_abort_emit)
  moreover have "after (\<lambda>_ d'. (disputes d', intake_items d', requests d') = (disputes d, intake_items d, requests d)) ?m"
    by (rule after_emit) simp
  ultimately show ?thesis using assms
    by (auto simp: transaction_def after_def rollback_def no_abort_def split: prod.splits ctl.splits)
qed

lemma open_resolution_filed:
  assumes "d1 = d\<lparr>authz_decisions := l, uuid_ctr := u, disputes := disputes d @ [dis]\<rparr>"
    and "find_row d_id (d_id dis) (disputes d) = None" and "d_request dis = None"
    and "open_resolution E pid dis kind w who d1 = (res, d')"
  shows "case res of Inl x \<Rightarrow> dispute_refused d d'
    | Inr (dis', rid) \<Rightarrow> dis' = dis\<lparr>d_request := Some rid\<rparr> \<and> disputes d' = disputes d @ [dis'] \<and>
        intake_items d' = intake_items d \<and>
        (\<exists>r. requests d' = requests d @ [r] \<and> r_id r = rid \<and> r_status r = Open \<and> r_subject r = trim (d_id dis))"
proof -
  let ?new = "disputes d @ [dis]"
  obtain sub d2 where sub: "submitRequest E pid (d_topic dis) ''dispute'' (d_id dis) kind w ''unilateral'' who None d1 = (sub, d2)"
    by force
  note frame = submitRequest_frame [OF sub]
  have fresh: "\<forall>x \<in> set (disputes d). d_id x \<noteq> d_id dis" using assms(2) by (simp add: find_row_None)
  have kept: "disputes d2 = ?new" "intake_items d2 = intake_items d" using frame assms(1) by simp_all
  have drop: "disputes (drop_dispute (d_id dis) d2) = disputes d"
    using fresh by (simp add: drop_dispute_def kept delete_where_def)
  show ?thesis
  proof (cases "\<exists>rid route. sub = Inr (Submitted rid route)")
    case False
    then have "requests d2 = requests d" using frame assms(1) by simp
    then show ?thesis
      using False assms(3,4) sub kept drop
      by (auto simp: open_resolution_def throw_def dispute_refused_def drop_dispute_def split: sum.splits submit_result.splits)
  next
    case True
    then obtain rid route where s: "sub = Inr (Submitted rid route)" by blast
    let ?dis = "dis\<lparr>d_request := Some rid\<rparr>"
    have req: "\<exists>r. requests d2 = requests d @ [r] \<and> r_id r = rid \<and> r_status r = Open \<and> r_subject r = trim (d_id dis)"
      using submitRequest_done [OF sub [unfolded s]] assms(1) by (auto simp: opened_def)
    have link: "disputes (set_dispute (d_id dis) (\<lambda>x. x\<lparr>d_request := Some rid\<rparr>) d2) = disputes d @ [?dis]"
    proof -
      have "update_where (\<lambda>x. d_id x = d_id dis) f (disputes d) = disputes d" for f
        using fresh by (intro update_where_none) auto
      then show ?thesis by (simp add: set_dispute_def kept) (simp add: update_where_def)
    qed
    obtain r3 d3 where e: "transaction (emit E (dispute_opened (d_topic dis) who (d_id dis) (d_subject_ref dis) (d_parties dis) rid))
        (set_dispute (d_id dis) (\<lambda>x. x\<lparr>d_request := Some rid\<rparr>) d2) = (r3, d3)" by force
    have "res = Inr (?dis, rid)" "d' = d3" using assms(4) sub s e by (auto simp: open_resolution_def Let_def)
    then show ?thesis using emit_frame [OF e] link req kept by (simp add: set_dispute_def)
  qed
qed

lemma openDispute_done:
  "case openDispute E pid tid subj parties proc who kind w d of
     (Inl x, d') \<Rightarrow> dispute_refused d d'
   | (Inr (dis, rid), d') \<Rightarrow> dispute_filed d (trim tid) parties dis rid d'"
proof -
  define P :: "(dispute_row \<times> string) outcome \<Rightarrow> bool" where "P = (\<lambda>(res, d'). case res of
      Inl x \<Rightarrow> dispute_refused d d' | Inr (dis, rid) \<Rightarrow> dispute_filed d (trim tid) parties dis rid d')"
  have refuse: "P (Inl x, d\<lparr>authz_decisions := l\<rparr>)" "P (Inl x, d)" for x l
    by (simp_all add: P_def dispute_refused_def)
  have run: "P (case transaction (insert_dispute E (trim tid) (trim subj) parties) (d\<lparr>authz_decisions := l\<rparr>) of
      (Inl x, d1) \<Rightarrow> (Inl x, d1) | (Inr dis, d1) \<Rightarrow> open_resolution E pid dis k v u d1)"
    if ok: "topic_status_of d (trim tid) = Some Active" "2 \<le> length parties" for k v u l
  proof -
    obtain r d1 where t: "transaction (insert_dispute E (trim tid) (trim subj) parties) (d\<lparr>authz_decisions := l\<rparr>) = (r, d1)"
      by force
    show ?thesis
    proof (cases r)
      case (Inl x)
      then have "disputes d1 = disputes d" "requests d1 = requests d" "intake_items d1 = intake_items d"
        using t by (auto simp: transaction_def rollback_def split: prod.splits ctl.splits)
      then show ?thesis by (simp add: t Inl P_def dispute_refused_def)
    next
      case (Inr dis)
      have new: "d_request dis = None \<and> d_status dis = D_open \<and> d_topic dis = trim tid \<and> find_row d_id (d_id dis) (disputes d) = None \<and>
          (\<exists>u. d1 = d\<lparr>authz_decisions := l, uuid_ctr := u, disputes := disputes d @ [dis]\<rparr>)"
        using committed_result [OF t [unfolded Inr] aborts_insert_dispute [where A = "\<lambda>_. False"] _ insert_dispute_result] by simp
      then obtain u' where d1: "d1 = d\<lparr>authz_decisions := l, uuid_ctr := u', disputes := disputes d @ [dis]\<rparr>" by blast
      obtain res d2 where o': "open_resolution E pid dis k v u d1 = (res, d2)" by force
      show ?thesis
        using open_resolution_filed [OF d1 _ _ o'] new ok
        by (auto simp: t Inr o' P_def dispute_filed_def split: sum.splits prod.splits)
    qed
  qed
  have inner: "P ((\<lambda>d. case topic_of d (trim tid) of None \<Rightarrow> throw NOT_FOUND d
      | Some t \<Rightarrow> if t_status t \<noteq> Active then throw TOPIC_NOT_ACTIVE d
          else (case transaction (insert_dispute E (trim tid) (trim subj) parties) d of
            (Inl x, d1) \<Rightarrow> (Inl x, d1) | (Inr dis, d1) \<Rightarrow> open_resolution E pid dis k v u d1)) (d\<lparr>authz_decisions := l\<rparr>))"
    if "2 \<le> length parties" for k v u l
  proof (cases "topic_of d (trim tid)")
    case None
    then have "topic_of (d\<lparr>authz_decisions := l\<rparr>) (trim tid) = None" by (simp add: topic_of_def)
    then show ?thesis unfolding throw_def by (simp add: refuse)
  next
    case (Some t)
    then have t: "topic_of (d\<lparr>authz_decisions := l\<rparr>) (trim tid) = Some t" by (simp add: topic_of_def)
    show ?thesis
    proof (cases "t_status t = Active")
      case True
      then have "topic_status_of d (trim tid) = Some Active" using Some by (simp add: topic_status_of_def)
      from run [OF this that] show ?thesis by (simp only: t option.case True simp_thms if_False)
    qed (simp add: t throw_def refuse)
  qed
  have "P (openDispute E pid tid subj parties proc who kind w d)"
  proof (cases "trim tid = [] \<or> trim subj = [] \<or> trim who = [] \<or> length parties < 2 \<or> parse_procedure (trim proc) \<noteq> Some Unilateral")
    case True
    then have "openDispute E pid tid subj parties proc who kind w d = throw BAD_REQUEST d"
      by (auto simp: openDispute_def Let_def)
    then show ?thesis by (simp add: throw_def refuse)
  next
    case False
    then have two: "2 \<le> length parties" by simp
    from False show ?thesis
      unfolding openDispute_def Let_def
      by (simp only: de_Morgan_disj if_False not_not simp_thms) (rule guarded_result, rule inner [OF two], rule refuse)
  qed
  then show ?thesis by (simp add: P_def case_prod_beta split: sum.splits)
qed


text \<open>A submission that throws leaves the dispute behind: here its weight is not a number.\<close>

lemma openDispute_orphan:
  "map d_request (disputes (snd (openDispute dev_env None ''T'' ''s'' [''sue'', ''lea''] ''unilateral'' ''sue'' None (Some NaN) desk_db))) = [None] \<and>
   fst (openDispute dev_env None ''T'' ''s'' [''sue'', ''lea''] ''unilateral'' ''sue'' None (Some NaN) desk_db) = Inl (Hub BAD_REQUEST)"
  by code_simp

section \<open>Intake\<close>

definition item_triaged :: "db \<Rightarrow> string \<Rightarrow> string \<Rightarrow> triage_result \<Rightarrow> db \<Rightarrow> bool" where
  "item_triaged d iid tid r d' \<longleftrightarrow> (\<exists>i. intake_of d iid = Some i \<and> i_status i = Received \<and>
     topic_status_of d tid = Some Active \<and> tg_intake r = iid \<and>
     intake_of d' iid = Some (i\<lparr>i_status := Triaged, i_topic := Some tid, i_routed_to := Some (tg_routed_to r)\<rparr>) \<and>
     (\<forall>x. x \<noteq> iid \<longrightarrow> intake_of d' x = intake_of d x))"

lemma route_target_frame:
  assumes "route_target E pid tid route d = (res, d')"
  shows "intake_items d' = intake_items d"
proof (cases route)
  case (To_dispute a b c e f g)
  then show ?thesis
    using assms openDispute_done [where d = d and E = E and pid = pid and tid = tid and subj = a and parties = b and proc = c
        and who = e and kind = f and w = g]
    by (auto simp: route_target_def dispute_refused_def dispute_filed_def split: prod.splits sum.splits)
qed (use assms in \<open>auto simp: route_target_def throw_def split: if_splits\<close>)

lemma triage_writes_done:
  assumes "transaction (triage_writes E iid tid who route tgt dis) d = (res, d')"
  shows "case res of Inl x \<Rightarrow> intake_items d' = intake_items d
    | Inr r \<Rightarrow> tg_intake r = iid \<and> tg_routed_to r = tgt \<and>
        intake_items d' = update_where (\<lambda>i. i_id i = iid)
          (\<lambda>i. i\<lparr>i_status := Triaged, i_topic := Some tid, i_routed_to := Some tgt\<rparr>) (intake_items d)"
proof -
  let ?r = "\<lparr>tg_intake = iid, tg_routed_to = tgt, tg_dispute = dis\<rparr>"
  let ?f = "\<lambda>x. x\<lparr>intake_items := update_where (\<lambda>i. i_id i = iid)
          (\<lambda>i. i\<lparr>i_status := Triaged, i_topic := Some tid, i_routed_to := Some tgt\<rparr>) (intake_items x)\<rparr>"
  let ?e = "ev tid who ''intake.triaged'' ''intake'' iid ([(''route_kind'', JStr (route_text route)), (''routed_to'', JStr tgt)] @
    (case dis of None \<Rightarrow> [] | Some (x, _) \<Rightarrow> [(''dispute_id'', JStr x)]))"
  show ?thesis
    by (rule write_and_emit [where f = ?f and E = E and e = ?e and r = ?r and d = d])
      (use assms in \<open>auto simp: triage_writes_def rollback_def simp del: tx_block.simps\<close>)
qed

lemma intake_of_id: "intake_of d iid = Some i \<Longrightarrow> i_id i = iid"
  by (auto simp: intake_of_def dest: find_row_key)

lemma triage_locked_done:
  assumes "triage_locked E pid iid tid who route d = (res, d')"
  shows "case res of Inl x \<Rightarrow> intake_items d' = intake_items d
    | Inr r \<Rightarrow> topic_status_of d tid = Some Active \<longrightarrow> item_triaged d iid tid r d'"
proof (cases "\<exists>i. intake_of d iid = Some i \<and> already i = None \<and> pg_uuid E iid")
  case False
  then show ?thesis using assms
    by (auto simp: triage_locked_def throw_def split: option.splits if_splits sum.splits)
next
  case True
  then obtain i where i: "intake_of d iid = Some i" "already i = None" "pg_uuid E iid" by blast
  then have rc: "i_status i = Received" by (auto simp: already_def split: intake_status.splits)
  obtain t d1 where t: "route_target E pid tid route d = (t, d1)" by force
  note fr = route_target_frame [OF t]
  show ?thesis
  proof (cases t)
    case (Inl x)
    then show ?thesis using assms i t fr by (auto simp: triage_locked_def)
  next
    case (Inr c)
    obtain tgt dis where c: "c = (tgt, dis)" by (cases c)
    have w: "transaction (triage_writes E iid tid who route tgt dis) d1 = (res, d')"
      using assms i t Inr c by (simp add: triage_locked_def)
    let ?g = "\<lambda>i. i\<lparr>i_status := Triaged, i_topic := Some tid, i_routed_to := Some tgt\<rparr>"
    have look: "intake_of d2 x = map_option (\<lambda>j. if i_id j = iid then ?g j else j) (intake_of d x)"
      if "intake_items d2 = update_where (\<lambda>i. i_id i = iid) ?g (intake_items d)" for d2 x
      using that by (simp add: intake_of_def find_row_update_where)
    have "intake_of d2 x = intake_of d x" if "x \<noteq> iid" "intake_items d2 = update_where (\<lambda>i. i_id i = iid) ?g (intake_items d)" for d2 x
      using look [OF that(2)] that(1) intake_of_id [of d x] by (cases "intake_of d x") auto
    then show ?thesis
      using triage_writes_done [OF w] look fr i rc intake_of_id [OF i(1)]
      by (auto simp: item_triaged_def split: sum.splits)
  qed
qed

text \<open>
  An intake item is triaged at most once: triage succeeds only on an item that is still
  \<^verbatim>\<open>received\<close>, on an active topic, and then marks exactly that item as triaged and routed; when it is
  refused or throws (an item already triaged or dismissed, a dispute that could not be opened, a failed event)
  no item changes.
\<close>

theorem triageIntake_spec:
  "case triageIntake E pid iid tid ac route d of
     (Inl x, d') \<Rightarrow> intake_items d' = intake_items d
   | (Inr r, d') \<Rightarrow> item_triaged d (trim iid) (trim tid) r d'"
proof -
  define P :: "triage_result outcome \<Rightarrow> bool" where "P = (\<lambda>(res, d'). case res of
      Inl x \<Rightarrow> intake_items d' = intake_items d | Inr r \<Rightarrow> item_triaged d (trim iid) (trim tid) r d')"
  have refuse: "P (Inl x, d\<lparr>authz_decisions := l\<rparr>)" "P (Inl x, d)" for x l by (simp_all add: P_def)
  have inner: "P ((\<lambda>d. case topic_of d (trim tid) of None \<Rightarrow> throw NOT_FOUND d
      | Some t \<Rightarrow> if t_status t \<noteq> Active then throw TOPIC_NOT_ACTIVE d
          else triage_locked E pid (trim iid) (trim tid) (trim ac) route d) (d\<lparr>authz_decisions := l\<rparr>))" for l
  proof (cases "topic_status_of d (trim tid) = Some Active")
    case True
    then obtain t where t: "topic_of (d\<lparr>authz_decisions := l\<rparr>) (trim tid) = Some t" "t_status t = Active"
      by (auto simp: topic_status_of_def topic_of_def)
    obtain res d' where run: "triage_locked E pid (trim iid) (trim tid) (trim ac) route (d\<lparr>authz_decisions := l\<rparr>) = (res, d')" by force
    have "P (res, d')"
      using triage_locked_done [OF run] True
      by (auto simp: P_def item_triaged_def intake_of_def topic_status_of_def topic_of_def split: sum.splits)
    then show ?thesis by (simp add: t run)
  next
    case False
    then show ?thesis by (auto simp: topic_status_of_def topic_of_def throw_def refuse split: option.split)
  qed
  have "P (triageIntake E pid iid tid ac route d)"
  proof (cases "trim iid = [] \<or> trim tid = [] \<or> trim ac = []")
    case True
    then have "triageIntake E pid iid tid ac route d = throw BAD_REQUEST d" by (auto simp: triageIntake_def Let_def)
    then show ?thesis by (simp add: throw_def refuse)
  next
    case False
    have "P (guarded E pid A_write (rref K_topic (trim tid)) (\<lambda>d. case topic_of d (trim tid) of None \<Rightarrow> throw NOT_FOUND d
      | Some t \<Rightarrow> if t_status t \<noteq> Active then throw TOPIC_NOT_ACTIVE d
          else triage_locked E pid (trim iid) (trim tid) (trim ac) route d) (d\<lparr>authz_decisions := l\<rparr>))" for l
    proof (rule guarded_result)
      fix l'
      have twice: "d\<lparr>authz_decisions := l, authz_decisions := l'\<rparr> = d\<lparr>authz_decisions := l'\<rparr>" by simp
      show "P ((\<lambda>d. case topic_of d (trim tid) of None \<Rightarrow> throw NOT_FOUND d
      | Some t \<Rightarrow> if t_status t \<noteq> Active then throw TOPIC_NOT_ACTIVE d
          else triage_locked E pid (trim iid) (trim tid) (trim ac) route d) (d\<lparr>authz_decisions := l, authz_decisions := l'\<rparr>))"
        unfolding twice by (rule inner)
    qed (use refuse in simp)
    then show ?thesis
      using False unfolding triageIntake_def Let_def
      by (simp only: de_Morgan_disj if_False simp_thms) (rule guarded_result, assumption, rule refuse)
  qed
  then show ?thesis by (simp add: P_def case_prod_beta split: sum.splits)
qed

end
