(* ===== verification/Principals.thy ===== *)
theory Principals
  imports Grants
begin

text \<open>
  Principals, the subjects of every action (services/principals.ts), and how the acting principal of a
  call is derived from its credential (services/actingPrincipal.ts). The partial unique indexes
  \<^verbatim>\<open>principals_single_root_uniq\<close> and \<^verbatim>\<open>principals_single_system_uniq\<close> are part of the insert.
\<close>

section \<open>Kinds, statuses, names\<close>

fun kind_text :: "principal_kind \<Rightarrow> string" where
  "kind_text P_human = ''human''"
| "kind_text P_agent = ''agent''"
| "kind_text P_system = ''system''"

definition KINDS :: "principal_kind list" where
  "KINDS = [P_human, P_agent, P_system]"

definition parse_kind :: "string \<Rightarrow> principal_kind option" where
  "parse_kind s = find (\<lambda>k. kind_text k = s) KINDS"

fun status_text :: "principal_status \<Rightarrow> string" where
  "status_text P_active = ''active''"
| "status_text P_suspended = ''suspended''"
| "status_text P_retired = ''retired''"

definition STATUSES :: "principal_status list" where
  "STATUSES = [P_active, P_suspended, P_retired]"

definition parse_status :: "string \<Rightarrow> principal_status option" where
  "parse_status s = find (\<lambda>k. status_text k = s) STATUSES"

definition validateDisplayName :: "string \<Rightarrow> exn + string" where
  "validateDisplayName name =
     (if trim name = [] \<or> 256 < length (trim name) then Inl (Hub BAD_REQUEST) else Inr (trim name))"

section \<open>Reading\<close>

definition getPrincipal :: "env \<Rightarrow> string \<Rightarrow> db \<Rightarrow> exn + principal_row option" where
  "getPrincipal E pid d =
     (if pg_uuid E pid then Inr (find_row pr_id pid (principals d)) else Inl Pg_syntax)"

definition isActivePrincipal :: "env \<Rightarrow> string option \<Rightarrow> db \<Rightarrow> exn + bool" where
  "isActivePrincipal E pid d = (case pid of
     None \<Rightarrow> Inr False
   | Some p \<Rightarrow>
       if \<not> is_uuid E p then Inr False
       else (case getPrincipal E p d of
           Inl x \<Rightarrow> Inl x
         | Inr None \<Rightarrow> Inr False
         | Inr (Some r) \<Rightarrow> Inr (pr_status r = P_active)))"

definition getRootPrincipal :: "db \<Rightarrow> principal_row option" where
  "getRootPrincipal d = find pr_is_root (principals d)"

definition getSystemPrincipal :: "db \<Rightarrow> principal_row option" where
  "getSystemPrincipal d = find pr_is_system (principals d)"

text \<open>\<^verbatim>\<open>ORDER BY created_at DESC, principal_id\<close>\<close>

definition listPrincipals :: "db \<Rightarrow> principal_row list" where
  "listPrincipals d = sort_key (\<lambda>p. (- pr_created p, pr_id p)) (principals d)"

section \<open>Writing\<close>

text \<open>\<^verbatim>\<open>INSERT INTO principals .. RETURNING\<close>: the key and the two single-row indexes.\<close>

definition insert_principal ::
  "env \<Rightarrow> principal_kind \<Rightarrow> principal_status \<Rightarrow> string \<Rightarrow> bool \<Rightarrow> bool \<Rightarrow> db \<Rightarrow> principal_row outcome" where
  "insert_principal E kind st name rt sys d =
     (let p = \<lparr>pr_id = uuid_of E (uuid_ctr d), pr_is_root = rt, pr_status = st, pr_kind = kind, pr_name = name,
               pr_is_system = sys, pr_created = pg_now E\<rparr>;
          d1 = d\<lparr>uuid_ctr := Suc (uuid_ctr d)\<rparr>
      in if find_row pr_id (pr_id p) (principals d) \<noteq> None \<or> rt \<and> getRootPrincipal d \<noteq> None \<or>
            sys \<and> getSystemPrincipal d \<noteq> None
         then (Inl Pg_unique, d1)
         else (Inr p, d1\<lparr>principals := principals d @ [p]\<rparr>))"

definition createPrincipal ::
  "env \<Rightarrow> string \<Rightarrow> string \<Rightarrow> string option \<Rightarrow> db \<Rightarrow> principal_row outcome" where
  "createPrincipal E kind display_name status d = (case parse_kind kind of
     None \<Rightarrow> throw BAD_REQUEST d
   | Some k \<Rightarrow> (case (case status of None \<Rightarrow> Some P_active | Some s \<Rightarrow> parse_status s) of
       None \<Rightarrow> throw BAD_REQUEST d
     | Some st \<Rightarrow> (case validateDisplayName display_name of
         Inl x \<Rightarrow> (Inl x, d)
       | Inr name \<Rightarrow> insert_principal E k st name False False d)))"

text \<open>The guard of the update: rt and system are protected, \<^verbatim>\<open>retired\<close> is terminal.\<close>

definition status_movable :: "principal_row \<Rightarrow> bool" where
  "status_movable p \<longleftrightarrow> \<not> pr_is_root p \<and> \<not> pr_is_system p \<and> pr_status p \<noteq> P_retired"

definition setPrincipalStatus :: "env \<Rightarrow> string \<Rightarrow> string \<Rightarrow> db \<Rightarrow> principal_row outcome" where
  "setPrincipalStatus E pid status d = (case parse_status status of
     None \<Rightarrow> throw BAD_REQUEST d
   | Some st \<Rightarrow>
       if \<not> pg_uuid E pid then (Inl Pg_syntax, d)
       else (case find_row pr_id pid (principals d) of
           None \<Rightarrow> throw NOT_FOUND d
         | Some p \<Rightarrow>
             if status_movable p
             then (Inr (p\<lparr>pr_status := st\<rparr>),
                   d\<lparr>principals := update_where (\<lambda>x. pr_id x = pid \<and> status_movable x)
                       (\<lambda>x. x\<lparr>pr_status := st\<rparr>) (principals d)\<rparr>)
             else throw CONFLICT d))"

text \<open>A unique violation of the seed is a lost race: it is answered as a conflict.\<close>

definition seed_conflict :: "'r outcome \<Rightarrow> 'r outcome" where
  "seed_conflict out = (case out of (Inl Pg_unique, d) \<Rightarrow> (Inl (Hub CONFLICT), d) | _ \<Rightarrow> out)"

definition seedRootPrincipal :: "env \<Rightarrow> string \<Rightarrow> db \<Rightarrow> principal_row outcome" where
  "seedRootPrincipal E display_name d = (case validateDisplayName display_name of
     Inl x \<Rightarrow> (Inl x, d)
   | Inr name \<Rightarrow>
       if getRootPrincipal d \<noteq> None then throw CONFLICT d
       else seed_conflict (insert_principal E P_system P_active name True False d))"

definition seedSystemPrincipal :: "env \<Rightarrow> string \<Rightarrow> db \<Rightarrow> principal_row outcome" where
  "seedSystemPrincipal E display_name d = (case validateDisplayName display_name of
     Inl x \<Rightarrow> (Inl x, d)
   | Inr name \<Rightarrow>
       if getSystemPrincipal d \<noteq> None then throw CONFLICT d
       else seed_conflict (insert_principal E P_system P_active name False True d))"

section \<open>The acting principal\<close>

text \<open>
  \<^verbatim>\<open>toLowerCase\<close> and \<^verbatim>\<open>toUpperCase\<close> on the characters below 256. The sharp s has the upper case
  \<^verbatim>\<open>SS\<close>; the micro sign and y with diaeresis, whose upper case lies beyond 255, stay as they are.
\<close>

definition lower_char :: "char \<Rightarrow> char" where
  "lower_char c = (let n = of_char c :: nat in
     if 65 \<le> n \<and> n \<le> 90 \<or> 192 \<le> n \<and> n \<le> 222 \<and> n \<noteq> 215 then char_of (n + 32) else c)"

definition toLowerCase :: "string \<Rightarrow> string" where
  "toLowerCase = map lower_char"

definition upper_char :: "char \<Rightarrow> string" where
  "upper_char c = (let n = of_char c :: nat in
     if n = 223 then ''SS''
     else if 97 \<le> n \<and> n \<le> 122 \<or> 224 \<le> n \<and> n \<le> 254 \<and> n \<noteq> 247 then [char_of (n - 32)] else [c])"

definition toUpperCase :: "string \<Rightarrow> string" where
  "toUpperCase s = concat (map upper_char s)"

definition normalize_actor :: "string option \<Rightarrow> string option" where
  "normalize_actor a = (case a of None \<Rightarrow> None | Some s \<Rightarrow> if trim s = [] then None else Some (trim s))"

text \<open>An identifier that is set is not empty (\<^verbatim>\<open>if (params.authenticatedPrincipalId)\<close>).\<close>

definition resolveActingPrincipal ::
  "bool \<Rightarrow> string option \<Rightarrow> string option \<Rightarrow> string option \<Rightarrow> bool \<Rightarrow> exn + string option" where
  "resolveActingPrincipal authEnabled authenticated assertedActorId rootDev allowUnbound =
     (let asserted = normalize_actor assertedActorId in
      if authEnabled
      then if authenticated \<noteq> None \<and> authenticated \<noteq> Some []
           then (case (asserted, authenticated) of
               (Some a, Some p) \<Rightarrow> if toLowerCase a \<noteq> toLowerCase p
                 then Inl (Hub ASSERTED_IDENTITY_REJECTED) else Inr authenticated
             | _ \<Rightarrow> Inr authenticated)
           else Inr (if allowUnbound then asserted else None)
      else Inr (case asserted of Some a \<Rightarrow> Some a | None \<Rightarrow> rootDev))"

definition claimedSelfMismatch :: "bool \<Rightarrow> string option \<Rightarrow> string \<Rightarrow> bool" where
  "claimedSelfMismatch authEnabled claimed self =
     (authEnabled \<and> (case normalize_actor claimed of None \<Rightarrow> False | Some c \<Rightarrow> toLowerCase c \<noteq> toLowerCase self))"

section \<open>The law of principals\<close>

text \<open>
  One identifier, at most one root and one system principal, never the same row
  (\<^verbatim>\<open>principals_root_xor_system_chk\<close>), both active for ever.
\<close>

definition principals_ok :: "db \<Rightarrow> bool" where
  "principals_ok d \<longleftrightarrow> pkey pr_id (principals d) \<and>
     length (filter pr_is_root (principals d)) \<le> 1 \<and> length (filter pr_is_system (principals d)) \<le> 1 \<and>
     (\<forall>p \<in> set (principals d). \<not> (pr_is_root p \<and> pr_is_system p) \<and>
        (pr_is_root p \<or> pr_is_system p \<longrightarrow> pr_status p = P_active))"

lemma getRoot_None: "getRootPrincipal d = None \<longleftrightarrow> filter pr_is_root (principals d) = []"
  by (auto simp: getRootPrincipal_def find_None_iff filter_empty_conv)

lemma getSystem_None: "getSystemPrincipal d = None \<longleftrightarrow> filter pr_is_system (principals d) = []"
  by (auto simp: getSystemPrincipal_def find_None_iff filter_empty_conv)

lemma getRoot_Some: "getRootPrincipal d = Some r \<Longrightarrow> r \<in> set (principals d) \<and> pr_is_root r"
  by (auto simp: getRootPrincipal_def find_Some_iff)

lemma getSystem_Some: "getSystemPrincipal d = Some r \<Longrightarrow> r \<in> set (principals d) \<and> pr_is_system r"
  by (auto simp: getSystemPrincipal_def find_Some_iff)

lemma insert_principal_cases:
  obtains (clash) "insert_principal E k st nm rt sys d = (Inl Pg_unique, d\<lparr>uuid_ctr := Suc (uuid_ctr d)\<rparr>)"
  | (new) p where "insert_principal E k st nm rt sys d =
        (Inr p, d\<lparr>uuid_ctr := Suc (uuid_ctr d), principals := principals d @ [p]\<rparr>)"
      and "find_row pr_id (pr_id p) (principals d) = None" and "pr_is_root p = rt" and "pr_is_system p = sys"
      and "pr_status p = st" and "pr_kind p = k" and "pr_name p = nm" and "pr_id p = uuid_of E (uuid_ctr d)"
      and "rt \<Longrightarrow> getRootPrincipal d = None" and "sys \<Longrightarrow> getSystemPrincipal d = None"
proof -
  let ?p = "\<lparr>pr_id = uuid_of E (uuid_ctr d), pr_is_root = rt, pr_status = st, pr_kind = k, pr_name = nm,
    pr_is_system = sys, pr_created = pg_now E\<rparr>"
  show thesis
  proof (cases "find_row pr_id (pr_id ?p) (principals d) \<noteq> None \<or> rt \<and> getRootPrincipal d \<noteq> None \<or>
      sys \<and> getSystemPrincipal d \<noteq> None")
    case True
    then show thesis by (intro clash) (simp add: insert_principal_def Let_def)
  next
    case False
    then show thesis by (intro new [of ?p]) (auto simp: insert_principal_def Let_def)
  qed
qed

lemma insert_principal_ok:
  assumes "principals_ok d" and "\<not> (rt \<and> sys)" and "rt \<or> sys \<Longrightarrow> st = P_active"
  shows "principals_ok (snd (insert_principal E k st nm rt sys d))"
proof (cases rule: insert_principal_cases [of E k st nm rt sys d])
  case clash
  then show ?thesis using assms(1) by (simp add: principals_ok_def)
next
  case (new p)
  then show ?thesis using assms by (auto simp: principals_ok_def pkey_snoc getRoot_None getSystem_None)
qed

lemma filter_update_kept:
  "(\<And>r. P r \<Longrightarrow> \<not> Q r \<and> \<not> Q (f r)) \<Longrightarrow> filter Q (update_where P f xs) = filter Q xs"
  by (induction xs) (auto simp: update_where_def)

lemma setPrincipalStatus_ok:
  assumes "principals_ok d"
  shows "principals_ok (snd (setPrincipalStatus E pid st d))"
proof -
  let ?u = "\<lambda>s. update_where (\<lambda>x. pr_id x = pid \<and> status_movable x) (\<lambda>x. x\<lparr>pr_status := s\<rparr>) (principals d)"
  have "principals_ok (d\<lparr>principals := ?u s\<rparr>)" for s
  proof -
    have "filter pr_is_root (?u s) = filter pr_is_root (principals d)"
      "filter pr_is_system (?u s) = filter pr_is_system (principals d)"
      by (rule filter_update_kept, simp add: status_movable_def)+
    then show ?thesis
      using assms by (auto simp: principals_ok_def pkey_update_where in_update_where status_movable_def split: if_splits)
  qed
  then show ?thesis
    using assms by (auto simp: setPrincipalStatus_def throw_def split: option.split)
qed

lemma createPrincipal_ok: "principals_ok d \<Longrightarrow> principals_ok (snd (createPrincipal E k nm st d))"
  by (auto simp: createPrincipal_def throw_def intro: insert_principal_ok split: option.split sum.split)

lemma snd_seed_conflict [simp]: "snd (seed_conflict out) = snd out"
  by (auto simp: seed_conflict_def split: prod.split sum.split exn.split)

lemma seedRootPrincipal_ok: "principals_ok d \<Longrightarrow> principals_ok (snd (seedRootPrincipal E nm d))"
  by (auto simp: seedRootPrincipal_def throw_def intro: insert_principal_ok split: sum.split)

lemma seedSystemPrincipal_ok: "principals_ok d \<Longrightarrow> principals_ok (snd (seedSystemPrincipal E nm d))"
  by (auto simp: seedSystemPrincipal_def throw_def intro: insert_principal_ok split: sum.split)

text \<open>The only root, and the only system principal.\<close>

lemma root_unique:
  assumes "principals_ok d" and "p \<in> set (principals d)" and "pr_is_root p"
  shows "getRootPrincipal d = Some p"
proof -
  have "p \<in> set (filter pr_is_root (principals d))" using assms by simp
  moreover have "length (filter pr_is_root (principals d)) \<le> 1" using assms(1) by (simp add: principals_ok_def)
  ultimately have one: "filter pr_is_root (principals d) = [p]"
    by (cases "filter pr_is_root (principals d)") auto
  then obtain q where q: "getRootPrincipal d = Some q"
    by (cases "getRootPrincipal d") (auto simp: getRoot_None)
  then have "q \<in> set (filter pr_is_root (principals d))" using getRoot_Some by simp
  then show ?thesis using q one by simp
qed

end
