(* ===== verification/AuthSchema.thy ===== *)
theory AuthSchema
  imports Principals Lockout "HOL-Library.Word"
begin

text \<open>
  The tables of authentication (migrations 0041, 0063, 0065, 0071, 0072) beside the database of the hub,
  and what their services read from outside.

  The cryptographic primitives are third-party or runtime code and stay parameters: \<open>sha256\<close> (hex digest),
  \<open>hmac_sha256\<close> (key, message, base64url digest), \<open>hmac_sha1\<close> (key, message, digest bytes), the three entry
  points of the \<^verbatim>\<open>argon2\<close> package (\<open>argon_hash\<close> takes the number of the draw that makes its salt; \<open>None\<close>
  of the other two is a throw), the random sources (\<open>random_token n b\<close> is the base64url text of the \<open>b\<close>
  bytes of the \<open>n\<close>-th draw, \<open>random_bytes n b\<close> the bytes themselves, \<open>random_code n\<close> the \<open>n\<close>-th \<^verbatim>\<open>randomInt(0, 100000)\<close>), and
  \<open>decode_uri\<close>, \<^verbatim>\<open>decodeURIComponent\<close> (\<open>None\<close> is its \<^verbatim>\<open>URIError\<close>), whose results can lie outside
  the characters below 256 that strings are made of here.

  \<open>conf\<close> is the natural number an environment variable holds, when it holds one; \<open>conf_text\<close> its text.
\<close>

type_synonym byte = "8 word"

record auth_env =
  hub_env :: env
  conf :: "string \<Rightarrow> nat option"
  conf_text :: "string \<Rightarrow> string option"
  legacy_token :: "string option"
  legacy_disabled :: bool
  bootstrap_token :: "string option"
  max_keys :: nat
  sha256 :: "string \<Rightarrow> string"
  hmac_sha256 :: "string \<Rightarrow> string \<Rightarrow> string"
  hmac_sha1 :: "byte list \<Rightarrow> byte list \<Rightarrow> byte list"
  random_token :: "nat \<Rightarrow> nat \<Rightarrow> string"
  random_bytes :: "nat \<Rightarrow> nat \<Rightarrow> byte list"
  random_code :: "nat \<Rightarrow> nat"
  argon_hash :: "nat \<Rightarrow> string \<Rightarrow> string"
  argon_verify :: "string \<Rightarrow> string \<Rightarrow> bool option"
  argon_stale :: "string \<Rightarrow> bool option"
  decode_uri :: "string \<Rightarrow> string option"

abbreviation db_now :: "auth_env \<Rightarrow> int" where "db_now A \<equiv> pg_now (hub_env A)"
abbreviation host_now :: "auth_env \<Rightarrow> int" where "host_now A \<equiv> js_now (hub_env A)"

section \<open>Rows\<close>

record key_row =
  k_id :: string
  k_name :: string
  k_prefix :: string
  k_hash :: string
  k_role :: string
  k_scope :: "string option"
  k_expires :: "int option"
  k_last_used :: "int option"
  k_revoked :: bool
  k_created :: int
  k_created_by :: "string option"
  k_principal :: "string option"
  k_bootstrap :: bool

record session_row =
  se_id :: string
  se_principal :: string
  se_aal :: nat
  se_csrf :: string
  se_created :: int
  se_last_seen :: int
  se_expires :: int
  se_idle_expires :: int
  se_ip :: "string option"
  se_agent :: "string option"
  se_revoked :: "int option"

record grant_template =
  gt_scope_type :: scope_type
  gt_scope_id :: "string option"
  gt_capability :: capability

record invite_row =
  iv_id :: string
  iv_hash :: string
  iv_email :: string
  iv_kind :: principal_kind
  iv_name :: "string option"
  iv_template :: "grant_template option"
  iv_created_by :: "string option"
  iv_expires :: int
  iv_accepted :: "int option"
  iv_principal :: "string option"

datatype token_purpose = Email_verify | Password_reset

record token_row =
  at_id :: string
  at_principal :: string
  at_purpose :: token_purpose
  at_hash :: string
  at_expires :: int
  at_consumed :: "int option"

datatype factor_type = Totp | Webauthn

record backup_code =
  bc_hash :: string
  bc_used :: "int option"

record factor_row =
  fa_id :: string
  fa_principal :: string
  fa_type :: factor_type
  fa_secret :: string
  fa_codes :: "backup_code list"
  fa_label :: "string option"
  fa_verified :: "int option"

text \<open>\<open>lesson_authors\<close> is the column \<^verbatim>\<open>captured_by\<close> of the table of lessons; \<open>draws\<close> counts the random draws.\<close>

record auth_db =
  hub :: db
  api_keys :: "key_row list"
  human_credentials :: "cred_row list"
  mfa_factors :: "factor_row list"
  sessions :: "session_row list"
  invites :: "invite_row list"
  auth_tokens :: "token_row list"
  lesson_authors :: "string option list"
  draws :: nat

section \<open>Calls and transactions\<close>

type_synonym 'r auth_outcome = "(exn + 'r) \<times> auth_db"

type_synonym ('a, 'r) atx = "(auth_db, 'a, 'r, exn) tx"

definition refuse :: "hub_code \<Rightarrow> auth_db \<Rightarrow> 'r auth_outcome" where
  "refuse c s = (Inl (Hub c), s)"

text \<open>The next statement, when the one before did not throw.\<close>

definition andThen :: "'a auth_outcome \<Rightarrow> ('a \<Rightarrow> auth_db \<Rightarrow> 'b auth_outcome) \<Rightarrow> 'b auth_outcome" where
  "andThen out f = (case out of (Inl x, s) \<Rightarrow> (Inl x, s) | (Inr a, s) \<Rightarrow> f a s)"

definition on_hub :: "(db \<Rightarrow> 'r outcome) \<Rightarrow> auth_db \<Rightarrow> 'r auth_outcome" where
  "on_hub f s = (case f (hub s) of (r, d) \<Rightarrow> (r, s\<lparr>hub := d\<rparr>))"

definition read_hub :: "(db \<Rightarrow> exn + 'r) \<Rightarrow> auth_db \<Rightarrow> 'r auth_outcome" where
  "read_hub f s = (f (hub s), s)"

text \<open>A draw of the random source, and a generated identifier.\<close>

definition draw :: "auth_db \<Rightarrow> auth_db" where
  "draw s = s\<lparr>draws := Suc (draws s)\<rparr>"

definition fresh_uuid :: "auth_env \<Rightarrow> auth_db \<Rightarrow> string" where
  "fresh_uuid A s = uuid_of (hub_env A) (uuid_ctr (hub s))"

definition spend_uuid :: "auth_db \<Rightarrow> auth_db" where
  "spend_uuid s = s\<lparr>hub := (hub s)\<lparr>uuid_ctr := Suc (uuid_ctr (hub s))\<rparr>\<rparr>"

definition auth_rollback :: "auth_db \<Rightarrow> auth_db \<Rightarrow> auth_db" where
  "auth_rollback s0 s1 = s0\<lparr>hub := rollback (hub s0) (hub s1), draws := draws s1\<rparr>"

definition auth_transaction :: "('r, 'r) atx \<Rightarrow> auth_db \<Rightarrow> 'r auth_outcome" where
  "auth_transaction body s = (case body s of
     (Next r, s') \<Rightarrow> (Inr r, s')
   | (Abort r, s') \<Rightarrow> (Inr r, auth_rollback s s')
   | (Throw x, s') \<Rightarrow> (Inl x, auth_rollback s s'))"

text \<open>A statement of a transaction body that answers like a call.\<close>

definition stmt :: "(auth_db \<Rightarrow> 'a auth_outcome) \<Rightarrow> ('a, 'r) atx" where
  "stmt f s = (case f s of (Inl x, s') \<Rightarrow> (Throw x, s') | (Inr a, s') \<Rightarrow> (Next a, s'))"

text \<open>A unique violation (23505) translated by the \<^verbatim>\<open>catch\<close> of the caller.\<close>

definition on_unique :: "hub_code \<Rightarrow> 'r auth_outcome \<Rightarrow> 'r auth_outcome" where
  "on_unique c out = (case out of (Inl Pg_unique, s) \<Rightarrow> (Inl (Hub c), s) | _ \<Rightarrow> out)"

text \<open>\<^verbatim>\<open>intEnv(key, dflt)\<close>: a positive integer, else the default.\<close>

definition intEnv :: "auth_env \<Rightarrow> string \<Rightarrow> nat \<Rightarrow> nat" where
  "intEnv A key dflt = (case conf A key of Some n \<Rightarrow> if 0 < n then n else dflt | None \<Rightarrow> dflt)"

lemma andThen_simps [simp]:
  "andThen (Inl x, s) f = (Inl x, s)" "andThen (Inr a, s) f = f a s"
  by (simp_all add: andThen_def)

lemma andThen_Inr:
  "andThen out f = (Inr b, s'') \<longleftrightarrow> (\<exists>a s'. out = (Inr a, s') \<and> f a s' = (Inr b, s''))"
  by (auto simp: andThen_def split: prod.split sum.split)

lemma on_unique_Inr [simp]: "on_unique c out = (Inr r, s) \<longleftrightarrow> out = (Inr r, s)"
  by (auto simp: on_unique_def split: prod.splits sum.splits exn.splits)

lemma snd_on_unique [simp]: "snd (on_unique c out) = snd out"
  by (auto simp: on_unique_def split: prod.split sum.split exn.split)

lemma refuse_simps [simp]: "fst (refuse c s) = Inl (Hub c)" "snd (refuse c s) = s" "refuse c s \<noteq> (Inr r, s')"
  "(Inr r, s') \<noteq> refuse c s"
  by (simp_all add: refuse_def)

lemma auth_committed:
  "auth_transaction m s = (Inr r, s') \<Longrightarrow> no_abort (m s) \<Longrightarrow> after Q (m s) \<Longrightarrow> Q r s'"
  by (auto simp: auth_transaction_def no_abort_def after_def split: prod.splits ctl.splits)

lemma after_stmt [after_simps]: "after Q (stmt f s) = (\<forall>a s'. f s = (Inr a, s') \<longrightarrow> Q a s')"
  by (auto simp: stmt_def after_def split: prod.splits sum.splits)

lemma no_abort_stmt [no_abort_intros]: "no_abort (stmt f s)"
  by (auto simp: stmt_def no_abort_def split: prod.splits sum.splits)

end
