(* ===== verification/ApiKeys.thy ===== *)
theory ApiKeys
  imports AuthSchema
begin

text \<open>
  API keys (services/apiKeys.ts): minting, the bootstrap key of the root principal, the access review,
  rotation with an overlap, ephemeral keys, revocation, and \<open>validateApiKey\<close>, the check of every bearer token.
  Expiry instants are milliseconds; \<open>expires\<close> of \<open>createApiKey\<close> is the instant the caller's text denotes.
\<close>

section \<open>Keys and the indexes of their table\<close>

definition hashKey :: "auth_env \<Rightarrow> string \<Rightarrow> string" where
  "hashKey A key = sha256 A key"

definition generateKey :: "auth_env \<Rightarrow> nat \<Rightarrow> string" where
  "generateKey A n = ''chub_sk_'' @ random_token A n 24"

text \<open>\<^verbatim>\<open>key.slice(0, 12) + '...' + key.slice(-4)\<close>\<close>

definition key_prefix :: "string \<Rightarrow> string" where
  "key_prefix key = take 12 key @ ''...'' @ drop (length key - 4) key"

definition ROLES :: "string list" where
  "ROLES = [''admin'', ''writer'', ''reader'']"

text \<open>
  The primary key, \<^verbatim>\<open>UNIQUE (key_hash)\<close>, one active key per name, one live bootstrap key per principal.
\<close>

definition keys_collide :: "key_row \<Rightarrow> key_row \<Rightarrow> bool" where
  "keys_collide k x \<longleftrightarrow> k_id k = k_id x \<or> k_hash k = k_hash x \<or>
     \<not> k_revoked k \<and> \<not> k_revoked x \<and> (k_name k = k_name x \<or>
       k_bootstrap k \<and> k_bootstrap x \<and> k_principal k \<noteq> None \<and> k_principal k = k_principal x)"

definition insert_key :: "key_row \<Rightarrow> auth_db \<Rightarrow> key_row auth_outcome" where
  "insert_key k s =
     (if exists_where (keys_collide k) (api_keys s) then (Inl Pg_unique, s)
      else (Inr k, s\<lparr>api_keys := api_keys s @ [k]\<rparr>))"

text \<open>A row that is about to be written; its identifier is the next of the generator.\<close>

definition new_key ::
  "auth_env \<Rightarrow> auth_db \<Rightarrow> string \<Rightarrow> string \<Rightarrow> string \<Rightarrow> string option \<Rightarrow> int option \<Rightarrow> string option \<Rightarrow> string option \<Rightarrow>
     bool \<Rightarrow> key_row" where
  "new_key A s name key role scope expires createdBy pid boot =
     \<lparr>k_id = fresh_uuid A s, k_name = name, k_prefix = key_prefix key, k_hash = hashKey A key, k_role = role,
      k_scope = scope, k_expires = expires, k_last_used = None, k_revoked = False, k_created = db_now A,
      k_created_by = createdBy, k_principal = pid, k_bootstrap = boot\<rparr>"

text \<open>\<^verbatim>\<open>ORDER BY created_at DESC\<close>; rows of the same instant keep their order.\<close>

definition listApiKeys :: "auth_db \<Rightarrow> key_row list" where
  "listApiKeys s = sort_key (\<lambda>k. - k_created k) (api_keys s)"

section \<open>createApiKey\<close>

text \<open>The checks on the principal a key is bound to.\<close>

definition bindable :: "auth_env \<Rightarrow> string option \<Rightarrow> auth_db \<Rightarrow> exn option" where
  "bindable A owner s = (case owner of
     None \<Rightarrow> None
   | Some pid \<Rightarrow>
       if \<not> is_uuid (hub_env A) pid then Some (Hub BAD_REQUEST)
       else (case getPrincipal (hub_env A) pid (hub s) of
           Inl x \<Rightarrow> Some x
         | Inr None \<Rightarrow> Some (Hub NOT_FOUND)
         | Inr (Some p) \<Rightarrow>
             if pr_is_root p \<or> pr_status p \<noteq> P_active then Some (Hub BAD_REQUEST) else None))"

text \<open>The condition of the guarded \<^verbatim>\<open>INSERT .. SELECT\<close>.\<close>

definition eligible :: "string option \<Rightarrow> auth_db \<Rightarrow> bool" where
  "eligible owner s \<longleftrightarrow> (case owner of
     None \<Rightarrow> True
   | Some pid \<Rightarrow> exists_where (\<lambda>p. pr_id p = pid \<and> pr_status p = P_active \<and> \<not> pr_is_root p) (principals (hub s)))"

definition over_key_limit :: "auth_env \<Rightarrow> string option \<Rightarrow> auth_db \<Rightarrow> bool" where
  "over_key_limit A createdBy s \<longleftrightarrow> createdBy \<noteq> None \<and>
     max_keys A \<le> length (filter (\<lambda>k. k_created_by k = createdBy \<and> \<not> k_revoked k) (api_keys s))"

definition mint_key ::
  "auth_env \<Rightarrow> string \<Rightarrow> string \<Rightarrow> string option \<Rightarrow> int option \<Rightarrow> string option \<Rightarrow> string option \<Rightarrow>
     auth_db \<Rightarrow> (string \<times> key_row) auth_outcome" where
  "mint_key A name role scope expires createdBy owner s0 =
     (let key = generateKey A (draws s0); s = draw s0 in
      if \<not> eligible owner s then refuse CONFLICT s
      else andThen (insert_key (new_key A s name key role scope expires createdBy owner False) (spend_uuid s))
             (\<lambda>k s. (Inr (key, k), s)))"

definition createApiKey ::
  "auth_env \<Rightarrow> string \<Rightarrow> string option \<Rightarrow> string option \<Rightarrow> int option \<Rightarrow> string option \<Rightarrow> string option \<Rightarrow>
     auth_db \<Rightarrow> (string \<times> key_row) auth_outcome" where
  "createApiKey A name role_arg scope expires created_by owner s =
     (let role = or_else role_arg ''writer'';
          createdBy = normalize_actor created_by
      in if trim name = [] \<or> 128 < length name then refuse BAD_REQUEST s
         else if role \<notin> set ROLES then refuse BAD_REQUEST s
         else (case bindable A owner s of
             Some x \<Rightarrow> (Inl x, s)
           | None \<Rightarrow>
               if over_key_limit A createdBy s then refuse BAD_REQUEST s
               else on_unique BAD_REQUEST (mint_key A (trim name) role scope expires createdBy owner s)))"

section \<open>createBootstrapRootKey\<close>

definition live_bootstrap :: "string \<Rightarrow> key_row \<Rightarrow> bool" where
  "live_bootstrap pid k \<longleftrightarrow> k_principal k = Some pid \<and> k_bootstrap k \<and> \<not> k_revoked k"

definition revoke_key :: "key_row \<Rightarrow> key_row" where
  "revoke_key k = k\<lparr>k_revoked := True\<rparr>"

definition bootstrap_body :: "auth_env \<Rightarrow> string \<Rightarrow> string \<Rightarrow> (string \<times> key_row, string \<times> key_row) atx" where
  "bootstrap_body A pid key =
     tx_then (tx_write (\<lambda>s. s\<lparr>api_keys := update_where (live_bootstrap pid) revoke_key (api_keys s)\<rparr>))
       (tx_bind (stmt (\<lambda>s. insert_key (new_key A s (''root-bootstrap-'' @ take 20 (drop 8 key)) key ''admin'' None None
                     (Some ''bootstrap:root'') (Some pid) True) (spend_uuid s)))
         (\<lambda>k. tx_return (key, k)))"

definition createBootstrapRootKey :: "auth_env \<Rightarrow> string \<Rightarrow> auth_db \<Rightarrow> (string \<times> key_row) auth_outcome" where
  "createBootstrapRootKey A pid s =
     (if \<not> is_uuid (hub_env A) pid then refuse BAD_REQUEST s
      else case getPrincipal (hub_env A) pid (hub s) of
          Inl x \<Rightarrow> (Inl x, s)
        | Inr None \<Rightarrow> refuse BAD_REQUEST s
        | Inr (Some p) \<Rightarrow>
            if \<not> pr_is_root p then refuse BAD_REQUEST s
            else if pr_status p \<noteq> P_active then refuse CONFLICT s
            else on_unique CONFLICT (auth_transaction (bootstrap_body A pid (generateKey A (draws s))) (draw s)))"

section \<open>The access review\<close>

definition DAY_MS :: int where
  "DAY_MS = 24 * 60 * 60 * 1000"

definition UNUSED_REVIEW_THRESHOLD_MS :: int where
  "UNUSED_REVIEW_THRESHOLD_MS = 90 * DAY_MS"

record review_item =
  rv_key :: key_row
  rv_age_days :: int
  rv_days_since_used :: "int option"
  rv_principal_name :: "string option"
  rv_unused_90d :: bool
  rv_never_expires :: bool
  rv_ownerless :: bool

record review_stats =
  rs_total :: nat
  rs_unused :: nat
  rs_never_expires :: nat
  rs_ownerless :: nat

definition review_item_of :: "auth_env \<Rightarrow> auth_db \<Rightarrow> key_row \<Rightarrow> review_item" where
  "review_item_of A s k =
     \<lparr>rv_key = k, rv_age_days = (db_now A - k_created k) div DAY_MS,
      rv_days_since_used = map_option (\<lambda>u. (db_now A - u) div DAY_MS) (k_last_used k),
      rv_principal_name = Option.bind (k_principal k) (\<lambda>p. map_option pr_name (find_row pr_id p (principals (hub s)))),
      rv_unused_90d = (or_else (k_last_used k) (k_created k) \<le> db_now A - UNUSED_REVIEW_THRESHOLD_MS div DAY_MS * DAY_MS),
      rv_never_expires = (k_expires k = None), rv_ownerless = (k_principal k = None)\<rparr>"

definition reviewApiKeys :: "auth_env \<Rightarrow> auth_db \<Rightarrow> review_stats \<times> review_item list" where
  "reviewApiKeys A s =
     (let keys = map (review_item_of A s) (filter (\<lambda>k. \<not> k_revoked k) (listApiKeys s))
      in (\<lparr>rs_total = length keys, rs_unused = length (filter rv_unused_90d keys),
           rs_never_expires = length (filter rv_never_expires keys),
           rs_ownerless = length (filter rv_ownerless keys)\<rparr>, keys))"

section \<open>Rotation and ephemeral keys\<close>

definition DEFAULT_ROTATION_OVERLAP_MS :: int where
  "DEFAULT_ROTATION_OVERLAP_MS = 7 * DAY_MS"

definition MAX_ROTATION_OVERLAP_MS :: int where
  "MAX_ROTATION_OVERLAP_MS = 30 * DAY_MS"

definition DEFAULT_EPHEMERAL_TTL_MS :: int where
  "DEFAULT_EPHEMERAL_TTL_MS = 60 * 60 * 1000"

definition MAX_EPHEMERAL_TTL_MS :: int where
  "MAX_EPHEMERAL_TTL_MS = DAY_MS"

text \<open>A finite duration within its bounds, in whole milliseconds; \<open>strict\<close>: zero is refused too.\<close>

definition clamp_ms :: "bool \<Rightarrow> int \<Rightarrow> int \<Rightarrow> jsnum option \<Rightarrow> rat option" where
  "clamp_ms strict dflt cap arg = (case or_else arg (Fin (of_int dflt)) of
     Fin q \<Rightarrow> if q < 0 \<or> strict \<and> q = 0 then None else Some (min q (of_int cap))
   | _ \<Rightarrow> None)"

text \<open>\<^verbatim>\<open>new Date().toISOString().replace(/[:.]/g, '').slice(0, 15)\<close>\<close>

definition rotation_stamp :: "auth_env \<Rightarrow> string" where
  "rotation_stamp A = take 15 (filter (\<lambda>c. c \<noteq> CHR '':'' \<and> c \<noteq> CHR ''.'') (iso_text (host_now A)))"

definition successor_name :: "auth_env \<Rightarrow> string \<Rightarrow> string" where
  "successor_name A name =
     (let suffix = '' (rotated '' @ rotation_stamp A @ '')''
      in if 128 < length (name @ suffix) then take (128 - length suffix) name @ suffix else name @ suffix)"

definition set_key :: "string \<Rightarrow> (key_row \<Rightarrow> key_row) \<Rightarrow> auth_db \<Rightarrow> auth_db" where
  "set_key kid f s = s\<lparr>api_keys := update_where (\<lambda>k. k_id k = kid) f (api_keys s)\<rparr>"

record rotation =
  ro_key :: string
  ro_entry :: key_row
  ro_previous :: string
  ro_old_expires :: "int option"

definition rotate_body :: "auth_env \<Rightarrow> string \<Rightarrow> rat \<Rightarrow> string \<Rightarrow> (rotation, rotation) atx" where
  "rotate_body A kid overlap key s =
     (if \<not> pg_uuid (hub_env A) kid then (Throw Pg_syntax, s)
      else case find_row k_id kid (api_keys s) of
          None \<Rightarrow> (Throw (Hub NOT_FOUND), s)
        | Some old \<Rightarrow>
            if k_revoked old then (Throw (Hub CONFLICT), s)
            else if k_bootstrap old then (Throw (Hub FORBIDDEN), s)
            else tx_bind (stmt (\<lambda>s. insert_key (new_key A s (successor_name A (k_name old)) key (k_role old)
                             (k_scope old) None (k_created_by old) (k_principal old) False) (spend_uuid s)))
              (\<lambda>entry. let expiry = db_now A + \<lfloor>overlap\<rfloor> in
                 if overlap = 0
                 then tx_then (tx_write (set_key kid revoke_key))
                        (tx_return \<lparr>ro_key = key, ro_entry = entry, ro_previous = kid, ro_old_expires = None\<rparr>)
                 else tx_then (tx_write (set_key kid (\<lambda>k. k\<lparr>k_expires := Some expiry\<rparr>)))
                        (tx_return \<lparr>ro_key = key, ro_entry = entry, ro_previous = kid, ro_old_expires = Some expiry\<rparr>)) s)"

definition rotateApiKey :: "auth_env \<Rightarrow> string \<Rightarrow> jsnum option \<Rightarrow> auth_db \<Rightarrow> rotation auth_outcome" where
  "rotateApiKey A kid overlapMs s =
     (if \<not> is_uuid (hub_env A) kid then refuse BAD_REQUEST s
      else case clamp_ms False DEFAULT_ROTATION_OVERLAP_MS MAX_ROTATION_OVERLAP_MS overlapMs of
          None \<Rightarrow> refuse BAD_REQUEST s
        | Some overlap \<Rightarrow>
            on_unique CONFLICT (auth_transaction (rotate_body A kid overlap (generateKey A (draws s))) (draw s)))"

definition createEphemeralApiKey ::
  "auth_env \<Rightarrow> string \<Rightarrow> string option \<Rightarrow> string option \<Rightarrow> string option \<Rightarrow> string option \<Rightarrow> jsnum option \<Rightarrow>
     auth_db \<Rightarrow> (string \<times> key_row \<times> int) auth_outcome" where
  "createEphemeralApiKey A name role scope owner created_by ttlMs s =
     (case clamp_ms True DEFAULT_EPHEMERAL_TTL_MS MAX_EPHEMERAL_TTL_MS ttlMs of
        None \<Rightarrow> refuse BAD_REQUEST s
      | Some ttl \<Rightarrow>
          let expiry = host_now A + \<lfloor>ttl\<rfloor> in
          andThen (createApiKey A name role scope (Some expiry) created_by owner s)
            (\<lambda>(key, k) s. (Inr (key, k, or_else (k_expires k) expiry), s)))"

section \<open>Revocation and validation\<close>

definition revokeApiKey :: "auth_env \<Rightarrow> string \<Rightarrow> auth_db \<Rightarrow> unit auth_outcome" where
  "revokeApiKey A kid s =
     (if \<not> pg_uuid (hub_env A) kid then (Inl Pg_syntax, s)
      else if exists_where (\<lambda>k. k_id k = kid \<and> \<not> k_revoked k) (api_keys s)
      then (Inr (), s\<lparr>api_keys := update_where (\<lambda>k. k_id k = kid \<and> \<not> k_revoked k) revoke_key (api_keys s)\<rparr>)
      else refuse NOT_FOUND s)"

datatype credential_failure = Cf_expired | Cf_revoked | Cf_principal_inactive | Cf_invalid

text \<open>\<^verbatim>\<open>LEFT JOIN principals\<close> of the two readers.\<close>

definition key_subject :: "key_row \<Rightarrow> auth_db \<Rightarrow> principal_row option" where
  "key_subject k s = Option.bind (k_principal k) (\<lambda>p. find_row pr_id p (principals (hub s)))"

definition expired :: "auth_env \<Rightarrow> key_row \<Rightarrow> bool" where
  "expired A k = (case k_expires k of None \<Rightarrow> False | Some x \<Rightarrow> x \<le> db_now A)"

definition classifyCredentialFailure :: "auth_env \<Rightarrow> string \<Rightarrow> auth_db \<Rightarrow> credential_failure" where
  "classifyCredentialFailure A token s = (case find_row k_hash (hashKey A token) (api_keys s) of
     None \<Rightarrow> Cf_invalid
   | Some k \<Rightarrow>
       if k_revoked k then Cf_revoked
       else if expired A k then Cf_expired
       else if k_principal k \<noteq> None \<and> map_option pr_status (key_subject k s) \<noteq> Some P_active
       then Cf_principal_inactive
       else Cf_invalid)"

definition key_admits :: "auth_env \<Rightarrow> auth_db \<Rightarrow> key_row \<Rightarrow> bool" where
  "key_admits A s k \<longleftrightarrow> \<not> k_revoked k \<and> \<not> expired A k \<and>
     (k_principal k = None \<or> (case key_subject k s of
        None \<Rightarrow> False
      | Some p \<Rightarrow> pr_status p = P_active \<and> (\<not> pr_is_root p \<or> k_bootstrap k)))"

text \<open>The key, as read; its \<^verbatim>\<open>last_used_at\<close> is stamped afterwards.\<close>

definition validateApiKey :: "auth_env \<Rightarrow> string \<Rightarrow> auth_db \<Rightarrow> key_row option \<times> auth_db" where
  "validateApiKey A token s =
     (case find (\<lambda>k. k_hash k = hashKey A token \<and> key_admits A s k) (api_keys s) of
        None \<Rightarrow> (None, s)
      | Some k \<Rightarrow> (Some k, set_key (k_id k) (\<lambda>x. x\<lparr>k_last_used := Some (db_now A)\<rparr>) s))"

end
