(* ===== verification/Credentials.thy ===== *)
theory Credentials
  imports ApiKeys
begin

text \<open>
  What a person proves to log in, and how an account comes about: passwords and reset tokens
  (services/passwordCredentials.ts), second factors with TOTP and backup codes (services/mfa.ts), and
  invites, the only way to a new human principal (services/invites.ts).
\<close>

section \<open>Passwords\<close>

definition MIN_LENGTH :: nat where "MIN_LENGTH = 12"
definition MAX_LENGTH :: nat where "MAX_LENGTH = 128"

definition COMMON_PASSWORDS :: "string list" where
  "COMMON_PASSWORDS = [
    ''password'', ''password1'', ''password123'', ''passw0rd'', ''123456'', ''12345678'', ''123456789'', ''1234567890'',
    ''qwerty'', ''qwerty123'', ''letmein'', ''welcome'', ''welcome1'', ''admin'', ''administrator'', ''iloveyou'',
    ''monkey'', ''dragon'', ''football'', ''baseball'', ''sunshine'', ''princess'', ''changeme'', ''whatever'',
    ''trustno1'', ''abc123'', ''abcd1234'', ''p@ssw0rd'', ''p@ssword'', ''secret'', ''master'', ''login'', ''qwertyuiop'',
    ''contexthub'', ''freecontexthub'']"

text \<open>\<^verbatim>\<open>/^(.)\1+$/\<close>: one character, not a line terminator, at least twice.\<close>

definition single_repeated :: "string \<Rightarrow> bool" where
  "single_repeated p = (case p of
     [] \<Rightarrow> False
   | c # cs \<Rightarrow> cs \<noteq> [] \<and> c \<noteq> CHR 0x0A \<and> c \<noteq> CHR 0x0D \<and> list_all (\<lambda>x. x = c) cs)"

text \<open>\<open>assertPasswordPolicy\<close>: every refusal is the same code, so it is a test here.\<close>

definition assertPasswordPolicy :: "string \<Rightarrow> bool" where
  "assertPasswordPolicy p \<longleftrightarrow> toLowerCase p \<notin> set COMMON_PASSWORDS \<and> MIN_LENGTH \<le> length p \<and>
     length p \<le> MAX_LENGTH \<and> \<not> single_repeated p"

definition hashPassword :: "auth_env \<Rightarrow> string \<Rightarrow> auth_db \<Rightarrow> string auth_outcome" where
  "hashPassword A p s =
     (if assertPasswordPolicy p then (Inr (argon_hash A (draws s) p), draw s) else refuse BAD_REQUEST s)"

definition verifyPassword :: "auth_env \<Rightarrow> string \<Rightarrow> string \<Rightarrow> bool" where
  "verifyPassword A stored p = or_else (argon_verify A stored p) False"

definition needsRehash :: "auth_env \<Rightarrow> string \<Rightarrow> bool" where
  "needsRehash A stored = or_else (argon_stale A stored) True"

definition set_cred :: "string \<Rightarrow> (cred_row \<Rightarrow> cred_row) \<Rightarrow> auth_db \<Rightarrow> auth_db" where
  "set_cred pid f s = s\<lparr>human_credentials := update_where (\<lambda>c. hc_principal c = pid) f (human_credentials s)\<rparr>"

definition new_cred :: "string \<Rightarrow> string \<Rightarrow> cred_row" where
  "new_cred pid h = \<lparr>hc_principal = pid, hc_failed = 0, hc_soft_until = None, hc_hard = False, hc_hard_until = None,
     hc_last_login = None, hc_hash = h\<rparr>"

text \<open>\<open>setPassword\<close>: the upsert; it leaves \<^verbatim>\<open>hard_locked_until\<close> and the last login as they were.\<close>

definition setPassword :: "auth_env \<Rightarrow> string \<Rightarrow> string \<Rightarrow> auth_db \<Rightarrow> unit auth_outcome" where
  "setPassword A pid p s =
     andThen (hashPassword A p s) (\<lambda>h s. (Inr (),
       if find_row hc_principal pid (human_credentials s) = None
       then s\<lparr>human_credentials := human_credentials s @ [new_cred pid h]\<rparr>
       else set_cred pid (\<lambda>c. c\<lparr>hc_hash := h, hc_failed := 0, hc_soft_until := None, hc_hard := False\<rparr>) s))"

definition getCredential :: "string \<Rightarrow> auth_db \<Rightarrow> cred_row option" where
  "getCredential pid s = find_row hc_principal pid (human_credentials s)"

text \<open>
  \<open>resolvePrincipalByEmail\<close>: the accepted invites of the address whose principal has a credential, the
  latest acceptance first, \<^verbatim>\<open>NULLS LAST\<close>.
\<close>

definition email_rows :: "string \<Rightarrow> auth_db \<Rightarrow> invite_row list" where
  "email_rows email s = filter (\<lambda>i. toLowerCase (iv_email i) = toLowerCase (trim email) \<and>
     (case iv_principal i of None \<Rightarrow> False | Some p \<Rightarrow> getCredential p s \<noteq> None)) (invites s)"

definition newest_first :: "invite_row \<Rightarrow> int \<times> int" where
  "newest_first i = (case iv_accepted i of None \<Rightarrow> (1, 0) | Some t \<Rightarrow> (0, - t))"

definition resolvePrincipalByEmail :: "string \<Rightarrow> auth_db \<Rightarrow> string option" where
  "resolvePrincipalByEmail email s =
     (if email = [] then None
      else case sort_key newest_first (email_rows email s) of [] \<Rightarrow> None | i # _ \<Rightarrow> iv_principal i)"

definition rehashIfNeeded :: "auth_env \<Rightarrow> string \<Rightarrow> string \<Rightarrow> string \<Rightarrow> auth_db \<Rightarrow> unit auth_outcome" where
  "rehashIfNeeded A pid p stored s =
     (if \<not> needsRehash A stored then (Inr (), s)
      else andThen (hashPassword A p s) (\<lambda>h s. (Inr (), set_cred pid (\<lambda>c. c\<lparr>hc_hash := h\<rparr>) s)))"

section \<open>Tokens for reset and verification\<close>

definition hashToken :: "auth_env \<Rightarrow> string \<Rightarrow> string" where
  "hashToken A t = sha256 A t"

definition issueAuthToken :: "auth_env \<Rightarrow> string \<Rightarrow> token_purpose \<Rightarrow> auth_db \<Rightarrow> string auth_outcome" where
  "issueAuthToken A pid purpose s0 =
     (let token = random_token A (draws s0) 32; s = draw s0;
          t = \<lparr>at_id = fresh_uuid A s, at_principal = pid, at_purpose = purpose, at_hash = hashToken A token,
               at_expires = host_now A + int (intEnv A ''AUTH_RESET_TOKEN_TTL_SECONDS'' 3600) * 1000, at_consumed = None\<rparr>
      in if exists_where (\<lambda>x. at_id x = at_id t \<or> at_hash x = at_hash t) (auth_tokens s)
         then (Inl Pg_unique, spend_uuid s)
         else (Inr token, (spend_uuid s)\<lparr>auth_tokens := auth_tokens s @ [t]\<rparr>))"

definition redeemable :: "auth_env \<Rightarrow> string \<Rightarrow> token_row \<Rightarrow> bool" where
  "redeemable A token t \<longleftrightarrow> at_hash t = hashToken A token \<and> at_purpose t = Password_reset \<and>
     at_consumed t = None \<and> db_now A < at_expires t"

definition reset_body :: "auth_env \<Rightarrow> string \<Rightarrow> string \<Rightarrow> (string, string) atx" where
  "reset_body A token p s = (case find (redeemable A token) (auth_tokens s) of
     None \<Rightarrow> (Throw (Hub BAD_REQUEST), s)
   | Some t \<Rightarrow>
       tx_then (tx_write (\<lambda>s. s\<lparr>auth_tokens := update_where (redeemable A token)
                   (\<lambda>t. t\<lparr>at_consumed := Some (db_now A)\<rparr>) (auth_tokens s)\<rparr>))
         (tx_bind (stmt (hashPassword A p)) (\<lambda>h.
          tx_then (tx_write (set_cred (at_principal t) (\<lambda>c. c\<lparr>hc_hash := h\<rparr>)))
            (tx_return (at_principal t)))) s)"

definition resetPassword :: "auth_env \<Rightarrow> string \<Rightarrow> string \<Rightarrow> auth_db \<Rightarrow> string auth_outcome" where
  "resetPassword A token p s =
     (if \<not> assertPasswordPolicy p then refuse BAD_REQUEST s
      else andThen (auth_transaction (reset_body A token p) s)
        (\<lambda>pid s. (Inr pid, s\<lparr>human_credentials := clearLockout pid (human_credentials s)\<rparr>)))"

section \<open>Base 32\<close>

definition BASE32_ALPHABET :: string where
  "BASE32_ALPHABET = ''ABCDEFGHIJKLMNOPQRSTUVWXYZ234567''"

unbundle bit_operations_syntax

text \<open>
  The buffer \<open>value\<close> is a JavaScript number that the shifts cut to 32 bits; \<open>bits\<close> counts its fresh bits.
  \<open>b32_flush\<close> is the inner loop: a digit for every five bits.
\<close>

definition b32_digit :: "nat \<Rightarrow> char" where
  "b32_digit i = BASE32_ALPHABET ! i"

fun b32_flush :: "nat \<Rightarrow> 32 word \<Rightarrow> string \<times> nat" where
  "b32_flush bits v =
     (if bits < 5 then ([], bits)
      else case b32_flush (bits - 5) v of
        (ds, r) \<Rightarrow> (b32_digit (unat (drop_bit (bits - 5) v AND 31)) # ds, r))"

declare b32_flush.simps [simp del]

fun b32_encode_from :: "nat \<Rightarrow> 32 word \<Rightarrow> byte list \<Rightarrow> string" where
  "b32_encode_from bits v [] =
     (if 0 < bits then [b32_digit (unat (push_bit (5 - bits) v AND 31))] else [])"
| "b32_encode_from bits v (b # bs) =
     (let v' = push_bit 8 v OR ucast b in
      case b32_flush (bits + 8) v' of (ds, r) \<Rightarrow> ds @ b32_encode_from r v' bs)"

definition base32Encode :: "byte list \<Rightarrow> string" where
  "base32Encode bs = b32_encode_from 0 0 bs"

fun index_of :: "char \<Rightarrow> string \<Rightarrow> nat option" where
  "index_of c [] = None"
| "index_of c (x # xs) = (if x = c then Some 0 else map_option Suc (index_of c xs))"

text \<open>\<^verbatim>\<open>s.toUpperCase().replace(/=+$/, '').replace(/\s+/g, '')\<close>\<close>

definition b32_clean :: "string \<Rightarrow> string" where
  "b32_clean s = filter (\<lambda>c. \<not> js_space c) (rev (dropWhile (\<lambda>c. c = CHR ''='') (rev (toUpperCase s))))"

fun b32_decode_from :: "nat \<Rightarrow> 32 word \<Rightarrow> string \<Rightarrow> byte list option" where
  "b32_decode_from bits v [] = Some []"
| "b32_decode_from bits v (c # cs) = (case index_of c BASE32_ALPHABET of
     None \<Rightarrow> None
   | Some i \<Rightarrow>
       let v' = push_bit 5 v OR word_of_nat i; n = bits + 5 in
       if 8 \<le> n
       then map_option ((#) (ucast (drop_bit (n - 8) v' AND 0xff))) (b32_decode_from (n - 8) v' cs)
       else b32_decode_from n v' cs)"

definition base32Decode :: "string \<Rightarrow> byte list option" where
  "base32Decode s = b32_decode_from 0 0 (b32_clean s)"

section \<open>TOTP\<close>

definition TOTP_STEP_SECONDS :: int where "TOTP_STEP_SECONDS = 30"
definition TOTP_DIGITS :: nat where "TOTP_DIGITS = 6"

text \<open>The counter as eight bytes, the most significant first.\<close>

definition counter_bytes :: "int \<Rightarrow> byte list" where
  "counter_bytes n = map (\<lambda>i. word_of_int (n div 256 ^ (7 - i))) [0..<8]"

text \<open>Dynamic truncation: 31 bits at the offset the last nibble names.\<close>

definition truncated :: "byte list \<Rightarrow> 32 word" where
  "truncated dg = (let off = unat (last dg AND 0x0f) in
     push_bit 24 (ucast (dg ! off AND 0x7f)) OR push_bit 16 (ucast (dg ! (off + 1))) OR
     push_bit 8 (ucast (dg ! (off + 2))) OR ucast (dg ! (off + 3)))"

definition totpCode :: "auth_env \<Rightarrow> string \<Rightarrow> int \<Rightarrow> string option" where
  "totpCode A secret unixSeconds = (case base32Decode secret of
     None \<Rightarrow> None
   | Some key \<Rightarrow>
       Some (pad_zero TOTP_DIGITS (show_nat (unat (truncated
         (hmac_sha1 A key (counter_bytes (unixSeconds div TOTP_STEP_SECONDS)))) mod 10 ^ TOTP_DIGITS))))"

definition is_totp_text :: "string \<Rightarrow> bool" where
  "is_totp_text c \<longleftrightarrow> length c = 6 \<and> list_all is_digit c"

text \<open>\<open>None\<close>: the secret is not base 32 and the code throws.\<close>

fun totp_matches :: "auth_env \<Rightarrow> string \<Rightarrow> string \<Rightarrow> int \<Rightarrow> int list \<Rightarrow> bool option" where
  "totp_matches A secret c t [] = Some False"
| "totp_matches A secret c t (drift # ds) = (case totpCode A secret (t + drift * TOTP_STEP_SECONDS) of
     None \<Rightarrow> None
   | Some x \<Rightarrow> if x = c then Some True else totp_matches A secret c t ds)"

definition verifyTotp :: "auth_env \<Rightarrow> string \<Rightarrow> string \<Rightarrow> int \<Rightarrow> bool option" where
  "verifyTotp A secret code unixSeconds =
     (if \<not> is_totp_text (trim code) then Some False
      else totp_matches A secret (trim code) unixSeconds [-1, 0, 1])"

definition unix_now :: "auth_env \<Rightarrow> int" where
  "unix_now A = host_now A div 1000"

section \<open>Factors\<close>

definition generateTotpSecret :: "auth_env \<Rightarrow> nat \<Rightarrow> string" where
  "generateTotpSecret A n = base32Encode (random_bytes A n 20)"

definition backup_text :: "auth_env \<Rightarrow> nat \<Rightarrow> string" where
  "backup_text A n = pad_zero 5 (show_nat (random_code A n)) @ ''-'' @ pad_zero 5 (show_nat (random_code A (Suc n)))"

definition generateBackupCodes :: "auth_env \<Rightarrow> nat \<Rightarrow> nat \<Rightarrow> string list" where
  "generateBackupCodes A start n = map (\<lambda>i. backup_text A (start + 2 * i)) [0..<n]"

definition insert_factor :: "factor_row \<Rightarrow> auth_db \<Rightarrow> string auth_outcome" where
  "insert_factor f s =
     (if exists_where (\<lambda>x. fa_id x = fa_id f \<or> fa_type f = Totp \<and> fa_verified f \<noteq> None \<and> fa_type x = Totp \<and>
             fa_verified x \<noteq> None \<and> fa_principal x = fa_principal f) (mfa_factors s)
      then (Inl Pg_unique, s) else (Inr (fa_id f), s\<lparr>mfa_factors := mfa_factors s @ [f]\<rparr>))"

record enrollment =
  en_factor :: string
  en_secret :: string
  en_codes :: "string list"

definition enrollTotp :: "auth_env \<Rightarrow> string \<Rightarrow> string \<Rightarrow> auth_db \<Rightarrow> enrollment auth_outcome" where
  "enrollTotp A pid label s0 =
     (let secret = generateTotpSecret A (draws s0);
          codes = generateBackupCodes A (Suc (draws s0)) 10;
          s = s0\<lparr>draws := draws s0 + 21,
                 mfa_factors := delete_where (\<lambda>f. fa_principal f = pid \<and> fa_type f = Totp \<and> fa_verified f = None)
                   (mfa_factors s0)\<rparr>;
          f = \<lparr>fa_id = fresh_uuid A s, fa_principal = pid, fa_type = Totp, fa_secret = secret,
               fa_codes = map (\<lambda>c. \<lparr>bc_hash = sha256 A c, bc_used = None\<rparr>) codes, fa_label = Some label,
               fa_verified = None\<rparr>
      in andThen (insert_factor f (spend_uuid s))
           (\<lambda>fid s. (Inr \<lparr>en_factor = fid, en_secret = secret, en_codes = codes\<rparr>, s)))"

definition set_factor :: "string \<Rightarrow> (factor_row \<Rightarrow> factor_row) \<Rightarrow> auth_db \<Rightarrow> auth_db" where
  "set_factor fid f s = s\<lparr>mfa_factors := update_where (\<lambda>x. fa_id x = fid) f (mfa_factors s)\<rparr>"

text \<open>Another verified TOTP factor of the principal makes the update violate its partial index.\<close>

definition verifyTotpEnrollment :: "auth_env \<Rightarrow> string \<Rightarrow> string \<Rightarrow> string \<Rightarrow> auth_db \<Rightarrow> unit auth_outcome" where
  "verifyTotpEnrollment A pid fid code s =
     (if \<not> pg_uuid (hub_env A) fid then (Inl Pg_syntax, s)
      else case find (\<lambda>f. fa_id f = fid \<and> fa_principal f = pid \<and> fa_type f = Totp) (mfa_factors s) of
          None \<Rightarrow> refuse NOT_FOUND s
        | Some f \<Rightarrow>
            if verifyTotp A (fa_secret f) code (unix_now A) \<noteq> Some True then refuse BAD_REQUEST s
            else if exists_where (\<lambda>x. fa_id x \<noteq> fid \<and> fa_principal x = pid \<and> fa_type x = Totp \<and> fa_verified x \<noteq> None)
                   (mfa_factors s)
            then (Inl Pg_unique, s)
            else (Inr (), set_factor fid (\<lambda>x. x\<lparr>fa_verified := Some (db_now A)\<rparr>) s))"

definition hasVerifiedFactor :: "string \<Rightarrow> auth_db \<Rightarrow> bool" where
  "hasVerifiedFactor pid s = exists_where (\<lambda>f. fa_principal f = pid \<and> fa_verified f \<noteq> None) (mfa_factors s)"

definition totp_factors :: "string \<Rightarrow> auth_db \<Rightarrow> factor_row list" where
  "totp_factors pid s = filter (\<lambda>f. fa_principal f = pid \<and> fa_type f = Totp \<and> fa_verified f \<noteq> None) (mfa_factors s)"

fun any_totp :: "auth_env \<Rightarrow> string \<Rightarrow> factor_row list \<Rightarrow> bool option" where
  "any_totp A code [] = Some False"
| "any_totp A code (f # fs) = (case verifyTotp A (fa_secret f) code (unix_now A) of
     None \<Rightarrow> None | Some True \<Rightarrow> Some True | Some False \<Rightarrow> any_totp A code fs)"

definition unused_code :: "string \<Rightarrow> backup_code \<Rightarrow> bool" where
  "unused_code h c \<longleftrightarrow> bc_hash c = h \<and> bc_used c = None"

fun strike :: "string \<Rightarrow> int \<Rightarrow> backup_code list \<Rightarrow> backup_code list option" where
  "strike h t [] = None"
| "strike h t (c # cs) = (if unused_code h c then Some (c\<lparr>bc_used := Some t\<rparr> # cs) else map_option ((#) c) (strike h t cs))"

text \<open>The first factor that holds the code has it struck.\<close>

fun strike_factor :: "auth_env \<Rightarrow> string \<Rightarrow> factor_row list \<Rightarrow> auth_db \<Rightarrow> bool \<times> auth_db" where
  "strike_factor A h [] s = (False, s)"
| "strike_factor A h (f # fs) s = (case strike h (host_now A) (fa_codes f) of
     None \<Rightarrow> strike_factor A h fs s
   | Some cs \<Rightarrow> (True, set_factor (fa_id f) (\<lambda>x. x\<lparr>fa_codes := cs\<rparr>) s))"

definition verifyMfaChallenge :: "auth_env \<Rightarrow> string \<Rightarrow> string \<Rightarrow> auth_db \<Rightarrow> bool auth_outcome" where
  "verifyMfaChallenge A pid code s = (case any_totp A code (totp_factors pid s) of
     None \<Rightarrow> refuse BAD_REQUEST s
   | Some True \<Rightarrow> (Inr True, s)
   | Some False \<Rightarrow> (case strike_factor A (sha256 A (trim code)) (totp_factors pid s) s of (b, s') \<Rightarrow> (Inr b, s')))"

definition registerWebauthn :: "auth_env \<Rightarrow> string \<Rightarrow> string \<Rightarrow> string option \<Rightarrow> auth_db \<Rightarrow> string auth_outcome" where
  "registerWebauthn A pid blob label s =
     insert_factor \<lparr>fa_id = fresh_uuid A s, fa_principal = pid, fa_type = Webauthn, fa_secret = blob, fa_codes = [],
       fa_label = label, fa_verified = Some (db_now A)\<rparr> (spend_uuid s)"

section \<open>Invites\<close>

text \<open>
  The template as the request carries it: the two texts and the scope identifier when it is a string.
  A global template is refused.
\<close>

definition validateGrantTemplate ::
  "(string \<times> string option \<times> string) option \<Rightarrow> exn + grant_template option" where
  "validateGrantTemplate t = (case t of
     None \<Rightarrow> Inr None
   | Some (sty, sid, cap) \<Rightarrow> (case (parse_scope_type sty, parse_capability cap) of
       (Some st, Some c) \<Rightarrow> if st = S_global then Inl (Hub BAD_REQUEST)
         else Inr (Some \<lparr>gt_scope_type = st, gt_scope_id = sid, gt_capability = c\<rparr>)
     | _ \<Rightarrow> Inl (Hub BAD_REQUEST)))"

definition invite_kind :: "string option \<Rightarrow> principal_kind option" where
  "invite_kind k = (case or_else k ''human'' of s \<Rightarrow>
     if s = ''human'' then Some P_human else if s = ''agent'' then Some P_agent else None)"

record issued_invite =
  ii_id :: string
  ii_token :: string
  ii_email :: string
  ii_expires :: int

definition issueInvite ::
  "auth_env \<Rightarrow> string \<Rightarrow> string \<Rightarrow> string option \<Rightarrow> string option \<Rightarrow> (string \<times> string option \<times> string) option \<Rightarrow>
     int option \<Rightarrow> auth_db \<Rightarrow> issued_invite auth_outcome" where
  "issueInvite A email createdBy display_name kind template ttlSeconds s0 =
     (if CHR ''@'' \<notin> set email \<or> \<not> is_uuid (hub_env A) createdBy then refuse BAD_REQUEST s0
      else case invite_kind kind of
          None \<Rightarrow> refuse BAD_REQUEST s0
        | Some k \<Rightarrow> (case validateGrantTemplate template of
            Inl x \<Rightarrow> (Inl x, s0)
          | Inr tpl \<Rightarrow>
              let token = random_token A (draws s0) 32; s = draw s0;
                  ttl = or_else ttlSeconds (int (intEnv A ''AUTH_INVITE_TTL_SECONDS'' (7 * 24 * 3600)));
                  i = \<lparr>iv_id = fresh_uuid A s, iv_hash = hashToken A token, iv_email = trim email, iv_kind = k,
                       iv_name = display_name, iv_template = tpl, iv_created_by = Some createdBy,
                       iv_expires = host_now A + ttl * 1000, iv_accepted = None, iv_principal = None\<rparr>
              in if exists_where (\<lambda>x. iv_id x = iv_id i \<or> iv_hash x = iv_hash i) (invites s)
                 then (Inl Pg_unique, spend_uuid s)
                 else (Inr \<lparr>ii_id = iv_id i, ii_token = token, ii_email = trim email, ii_expires = iv_expires i\<rparr>,
                       (spend_uuid s)\<lparr>invites := invites s @ [i]\<rparr>)))"

definition open_invite :: "auth_env \<Rightarrow> string \<Rightarrow> invite_row \<Rightarrow> bool" where
  "open_invite A token i \<longleftrightarrow> iv_hash i = hashToken A token \<and> iv_accepted i = None \<and> db_now A < iv_expires i"

definition previewInvite :: "auth_env \<Rightarrow> string \<Rightarrow> auth_db \<Rightarrow> (string \<times> string option \<times> principal_kind \<times> int) option" where
  "previewInvite A token s =
     (if token = [] then None
      else map_option (\<lambda>i. (iv_email i, iv_name i, iv_kind i, iv_expires i)) (find (open_invite A token) (invites s)))"

text \<open>\<^verbatim>\<open>params.display_name?.trim() || invite.display_name?.trim() || invite.email\<close>\<close>

definition invited_name :: "string option \<Rightarrow> invite_row \<Rightarrow> string" where
  "invited_name nm i = (if trim_opt nm \<noteq> [] then trim_opt nm
     else if trim_opt (iv_name i) \<noteq> [] then trim_opt (iv_name i) else iv_email i)"

definition insert_cred :: "string \<Rightarrow> string \<Rightarrow> auth_db \<Rightarrow> unit auth_outcome" where
  "insert_cred pid h s =
     (if find_row hc_principal pid (human_credentials s) \<noteq> None then (Inl Pg_unique, s)
      else (Inr (), s\<lparr>human_credentials := human_credentials s @ [new_cred pid h]\<rparr>))"

text \<open>\<^verbatim>\<open>INSERT INTO grants .. ON CONFLICT DO NOTHING\<close>\<close>

definition starter_grant :: "auth_env \<Rightarrow> invite_row \<Rightarrow> string \<Rightarrow> auth_db \<Rightarrow> unit auth_outcome" where
  "starter_grant A i pid s = (case (iv_template i, iv_created_by i) of
     (Some t, Some by_whom) \<Rightarrow>
       andThen (on_hub (grant_round (hub_env A) (pid, gt_scope_type t, gt_scope_id t, gt_capability t) by_whom) s)
         (\<lambda>_ s. (Inr (), s))
   | _ \<Rightarrow> (Inr (), s))"

definition accept_body ::
  "auth_env \<Rightarrow> string \<Rightarrow> string \<Rightarrow> string option \<Rightarrow> (string \<times> string \<times> string, string \<times> string \<times> string) atx" where
  "accept_body A token p nm s = (case find (open_invite A token) (invites s) of
     None \<Rightarrow> (Throw (Hub BAD_REQUEST), s)
   | Some i \<Rightarrow>
       tx_then (tx_write (\<lambda>s. s\<lparr>invites := update_where (open_invite A token)
                   (\<lambda>i. i\<lparr>iv_accepted := Some (db_now A)\<rparr>) (invites s)\<rparr>))
      (tx_bind (stmt (on_hub (insert_principal (hub_env A) (iv_kind i) P_active (invited_name nm i) False False))) (\<lambda>pr.
       tx_bind (stmt (hashPassword A p)) (\<lambda>h.
       tx_then (tx_unit (stmt (insert_cred (pr_id pr) h)))
      (tx_then (tx_unit (stmt (starter_grant A i (pr_id pr))))
      (tx_then (tx_write (\<lambda>s. s\<lparr>invites := update_where (\<lambda>x. iv_id x = iv_id i)
                   (\<lambda>x. x\<lparr>iv_principal := Some (pr_id pr)\<rparr>) (invites s)\<rparr>))
         (tx_return (pr_id pr, invited_name nm i, iv_email i))))))) s)"

definition acceptInvite ::
  "auth_env \<Rightarrow> string \<Rightarrow> string \<Rightarrow> string option \<Rightarrow> auth_db \<Rightarrow> (string \<times> string \<times> string) auth_outcome" where
  "acceptInvite A token p nm s =
     (if token = [] then refuse BAD_REQUEST s else auth_transaction (accept_body A token p nm) s)"

end
