(* ===== verification/Sessions.thy ===== *)
theory Sessions
  imports Credentials
begin

text \<open>
  Browser sessions: the signed cookie and the life of a session (services/sessions.ts), and the middlewares
  that authenticate a cookie and guard it against forged requests (api/middleware/sessionAuth.ts).
\<close>

section \<open>Cookies\<close>

text \<open>\<^verbatim>\<open>process.env[key]?.trim() || dflt\<close>\<close>

definition textEnv :: "auth_env \<Rightarrow> string \<Rightarrow> string \<Rightarrow> string" where
  "textEnv A key dflt = (if trim_opt (conf_text A key) = [] then dflt else trim_opt (conf_text A key))"

definition SESSION_COOKIE_NAME :: "auth_env \<Rightarrow> string" where
  "SESSION_COOKIE_NAME A = textEnv A ''AUTH_SESSION_COOKIE_NAME'' ''chub_session''"

definition signingSecret :: "auth_env \<Rightarrow> string" where
  "signingSecret A = textEnv A ''AUTH_SESSION_SIGNING_SECRET'' (textEnv A ''ROOT_BOOTSTRAP_TOKEN''
     ''dev-insecure-session-secret-do-not-use-in-production'')"

datatype same_site = Lax | Strict | None_site

record cookie_policy =
  cp_name :: string
  cp_same_site :: same_site
  cp_absolute :: nat
  cp_idle :: nat

definition getCookiePolicy :: "auth_env \<Rightarrow> nat \<Rightarrow> cookie_policy" where
  "getCookiePolicy A aal =
     (let raw = toLowerCase (textEnv A ''AUTH_COOKIE_SAMESITE'' ''lax'')
      in \<lparr>cp_name = SESSION_COOKIE_NAME A,
          cp_same_site = (if raw = ''strict'' then Strict else if raw = ''none'' then None_site else Lax),
          cp_absolute = intEnv A ''AUTH_SESSION_ABSOLUTE_TTL_SECONDS'' (if aal = 2 then 12 * 3600 else 30 * 24 * 3600),
          cp_idle = intEnv A ''AUTH_SESSION_IDLE_TTL_SECONDS'' (15 * 60)\<rparr>)"

definition hmac :: "auth_env \<Rightarrow> string \<Rightarrow> string" where
  "hmac A value = hmac_sha256 A (signingSecret A) value"

definition signSessionId :: "auth_env \<Rightarrow> string \<Rightarrow> string" where
  "signSessionId A sid = sid @ ''.'' @ hmac A sid"

text \<open>What stands before and after the last full stop.\<close>

definition split_last_dot :: "string \<Rightarrow> (string \<times> string) option" where
  "split_last_dot s =
     (if CHR ''.'' \<in> set s
      then Some (rev (tl (dropWhile (\<lambda>c. c \<noteq> CHR ''.'') (rev s))), rev (takeWhile (\<lambda>c. c \<noteq> CHR ''.'') (rev s)))
      else None)"

definition unsignSessionId :: "auth_env \<Rightarrow> string option \<Rightarrow> string option" where
  "unsignSessionId A cookie = (case Option.bind cookie split_last_dot of
     None \<Rightarrow> None
   | Some (sid, sig) \<Rightarrow> if sid = [] then None else if sig = hmac A sid then Some sid else None)"

text \<open>The first \<^verbatim>\<open>=\<close> of a part.\<close>

definition cookie_pair :: "string \<Rightarrow> (string \<times> string) option" where
  "cookie_pair part =
     (if CHR ''='' \<in> set part
      then Some (trim (takeWhile (\<lambda>c. c \<noteq> CHR ''='') part), trim (tl (dropWhile (\<lambda>c. c \<noteq> CHR ''='') part)))
      else None)"

text \<open>A later cookie of the same name wins. \<open>None\<close>: a value is not valid percent encoding and the code throws.\<close>

fun cookie_parts :: "auth_env \<Rightarrow> string list \<Rightarrow> (string \<rightharpoonup> string) \<Rightarrow> (string \<rightharpoonup> string) option" where
  "cookie_parts A [] out = Some out"
| "cookie_parts A (p # ps) out = (case cookie_pair p of
     None \<Rightarrow> cookie_parts A ps out
   | Some (k, v) \<Rightarrow>
       if k = [] then cookie_parts A ps out
       else (case decode_uri A v of
           None \<Rightarrow> None
         | Some w \<Rightarrow> cookie_parts A ps (out(k \<mapsto> w))))"

definition parseCookies :: "auth_env \<Rightarrow> string option \<Rightarrow> (string \<rightharpoonup> string) option" where
  "parseCookies A header = (case header of
     None \<Rightarrow> Some Map.empty
   | Some h \<Rightarrow> if h = [] then Some Map.empty else cookie_parts A (split_on (CHR '';'') h) Map.empty)"

section \<open>The life of a session\<close>

record created_session =
  cs_session :: session_row
  cs_cookie :: string
  cs_csrf :: string
  cs_policy :: cookie_policy

definition createSession ::
  "auth_env \<Rightarrow> string \<Rightarrow> nat \<Rightarrow> string option \<Rightarrow> string option \<Rightarrow> auth_db \<Rightarrow> created_session auth_outcome" where
  "createSession A pid aal ip agent s0 =
     (let pol = getCookiePolicy A aal; csrf = random_token A (draws s0) 24; s = draw s0;
          se = \<lparr>se_id = fresh_uuid A s, se_principal = pid, se_aal = aal, se_csrf = csrf, se_created = db_now A,
                se_last_seen = db_now A, se_expires = host_now A + int (cp_absolute pol) * 1000,
                se_idle_expires = host_now A + int (cp_idle pol) * 1000, se_ip = ip, se_agent = agent, se_revoked = None\<rparr>
      in if find_row se_id (se_id se) (sessions s) \<noteq> None then (Inl Pg_unique, spend_uuid s)
         else (Inr \<lparr>cs_session = se, cs_cookie = signSessionId A (se_id se), cs_csrf = csrf, cs_policy = pol\<rparr>,
               (spend_uuid s)\<lparr>sessions := sessions s @ [se]\<rparr>))"

definition session_live :: "auth_env \<Rightarrow> session_row \<Rightarrow> bool" where
  "session_live A se \<longleftrightarrow> se_revoked se = None \<and> db_now A < se_expires se \<and> db_now A < se_idle_expires se"

definition touch :: "auth_env \<Rightarrow> session_row \<Rightarrow> session_row" where
  "touch A se = se\<lparr>se_last_seen := db_now A,
     se_idle_expires := host_now A + int (cp_idle (getCookiePolicy A 1)) * 1000\<rparr>"

definition resolveSession :: "auth_env \<Rightarrow> string option \<Rightarrow> auth_db \<Rightarrow> session_row option auth_outcome" where
  "resolveSession A cookie s = (case unsignSessionId A cookie of
     None \<Rightarrow> (Inr None, s)
   | Some sid \<Rightarrow>
       if \<not> pg_uuid (hub_env A) sid then (Inl Pg_syntax, s)
       else (case find (\<lambda>se. se_id se = sid \<and> session_live A se) (sessions s) of
           None \<Rightarrow> (Inr None, s)
         | Some se \<Rightarrow> (Inr (Some (touch A se)),
             s\<lparr>sessions := update_where (\<lambda>x. se_id x = sid \<and> session_live A x) (touch A) (sessions s)\<rparr>)))"

text \<open>\<^verbatim>\<open>ORDER BY last_seen DESC\<close>; an idle session that has not expired is listed.\<close>

definition listSessions :: "auth_env \<Rightarrow> string \<Rightarrow> auth_db \<Rightarrow> session_row list" where
  "listSessions A pid s = sort_key (\<lambda>se. - se_last_seen se)
     (filter (\<lambda>se. se_principal se = pid \<and> se_revoked se = None \<and> db_now A < se_expires se) (sessions s))"

definition revoke_sessions :: "auth_env \<Rightarrow> (session_row \<Rightarrow> bool) \<Rightarrow> auth_db \<Rightarrow> nat \<times> auth_db" where
  "revoke_sessions A Q s =
     (length (filter (\<lambda>se. Q se \<and> se_revoked se = None) (sessions s)),
      s\<lparr>sessions := update_where (\<lambda>se. Q se \<and> se_revoked se = None) (\<lambda>se. se\<lparr>se_revoked := Some (db_now A)\<rparr>) (sessions s)\<rparr>)"

definition revokeSession :: "auth_env \<Rightarrow> string \<Rightarrow> string \<Rightarrow> auth_db \<Rightarrow> bool auth_outcome" where
  "revokeSession A pid sid s =
     (if \<not> pg_uuid (hub_env A) sid then (Inl Pg_syntax, s)
      else case revoke_sessions A (\<lambda>se. se_id se = sid \<and> se_principal se = pid) s of (n, s') \<Rightarrow> (Inr (0 < n), s'))"

definition revokeAllSessions :: "auth_env \<Rightarrow> string \<Rightarrow> auth_db \<Rightarrow> nat \<times> auth_db" where
  "revokeAllSessions A pid = revoke_sessions A (\<lambda>se. se_principal se = pid)"

definition revokeOtherSessions :: "auth_env \<Rightarrow> string \<Rightarrow> string \<Rightarrow> auth_db \<Rightarrow> nat auth_outcome" where
  "revokeOtherSessions A pid keep s =
     (if keep = [] then (Inr 0, s)
      else if \<not> pg_uuid (hub_env A) keep then (Inl Pg_syntax, s)
      else case revoke_sessions A (\<lambda>se. se_principal se = pid \<and> se_id se \<noteq> keep) s of (n, s') \<Rightarrow> (Inr n, s'))"

section \<open>The middlewares\<close>

text \<open>
  A request, as the middlewares read it: the method, the headers \<^verbatim>\<open>Authorization\<close>, \<^verbatim>\<open>Cookie\<close> and
  \<^verbatim>\<open>X-CSRF-Token\<close> (the first value when there are several). \<open>caller\<close> is what they attach to it.
\<close>

record request =
  rq_method :: string
  rq_authorization :: "string option"
  rq_cookie :: "string option"
  rq_csrf :: "string option"

datatype auth_method = By_key | By_session | By_nobody

record caller =
  ca_principal :: "string option"
  ca_session :: "session_row option"
  ca_method :: auth_method
  ca_key :: "key_row option"

definition nobody :: caller where
  "nobody = \<lparr>ca_principal = None, ca_session = None, ca_method = By_nobody, ca_key = None\<rparr>"

definition attachSession :: "session_row \<Rightarrow> caller \<Rightarrow> caller" where
  "attachSession se ca =
     ca\<lparr>ca_principal := Some (se_principal se), ca_session := Some se, ca_method := By_session\<rparr>"

text \<open>The value of the session cookie; \<open>None\<close> of the outer option is the throw of \<^verbatim>\<open>decodeURIComponent\<close>.\<close>

definition session_cookie :: "auth_env \<Rightarrow> request \<Rightarrow> string option option" where
  "session_cookie A rq = map_option (\<lambda>m. case m (SESSION_COOKIE_NAME A) of
     None \<Rightarrow> None | Some v \<Rightarrow> if v = [] then None else Some v) (parseCookies A (rq_cookie rq))"

text \<open>
  What a middleware does with a request: it goes on with a caller, answers with a status, or throws
  (\<^verbatim>\<open>next(e)\<close> of the framework).
\<close>

datatype 'a mw = Go 'a | Respond nat | Crash

definition sessionAuth :: "auth_env \<Rightarrow> request \<Rightarrow> caller \<Rightarrow> auth_db \<Rightarrow> caller mw \<times> auth_db" where
  "sessionAuth A rq ca s =
     (if ca_principal ca \<noteq> None then (Go ca, s)
      else case session_cookie A rq of
          None \<Rightarrow> (Crash, s)
        | Some None \<Rightarrow> (Go ca, s)
        | Some (Some cookie) \<Rightarrow> (case resolveSession A (Some cookie) s of
            (Inr (Some se), s') \<Rightarrow> (Go (attachSession se ca), s')
          | (_, s') \<Rightarrow> (Go ca, s')))"

definition requireSession :: "auth_env \<Rightarrow> request \<Rightarrow> auth_db \<Rightarrow> caller mw \<times> auth_db" where
  "requireSession A rq s = (case session_cookie A rq of
     None \<Rightarrow> (Crash, s)
   | Some None \<Rightarrow> (Respond 401, s)
   | Some (Some cookie) \<Rightarrow> (case resolveSession A (Some cookie) s of
       (Inr (Some se), s') \<Rightarrow> (Go (attachSession se nobody), s')
     | (_, s') \<Rightarrow> (Respond 401, s')))"

definition SAFE_METHODS :: "string list" where
  "SAFE_METHODS = [''GET'', ''HEAD'', ''OPTIONS'']"

definition csrfGuard :: "request \<Rightarrow> caller \<Rightarrow> caller mw" where
  "csrfGuard rq ca =
     (if rq_method rq \<in> set SAFE_METHODS then Go ca
      else case ca_session ca of
          None \<Rightarrow> Go ca
        | Some se \<Rightarrow>
            if ca_method ca \<noteq> By_session then Go ca
            else if rq_csrf rq = None \<or> rq_csrf rq = Some [] \<or> rq_csrf rq \<noteq> Some (se_csrf se) then Respond 403
            else Go ca)"

end
