(* ===== verification/Login.thy ===== *)
theory Login
  imports Sessions
begin

text \<open>
  The surfaces that authenticate: the routes for people (api/routes/auth.ts), the bearer token of the REST
  interface (api/middleware/auth.ts) and its chain with the session middlewares (api/index.ts), and the caller
  of an MCP tool (mcp/auth.ts). A body field that is not a string is \<open>None\<close>.
\<close>

section \<open>Login\<close>

datatype auth_reply =
    Re_error nat                          \<comment> \<open>status, with a generic message\<close>
  | Re_mfa_required string                \<comment> \<open>the email\<close>
  | Re_session nat string string          \<comment> \<open>assurance level, CSRF token, cookie\<close>
  | Re_created string string string string  \<comment> \<open>principal, display name, CSRF token, cookie\<close>
  | Re_forgot "string option"             \<comment> \<open>the token, when the deployment exposes it\<close>
  | Re_reset string
  | Re_sessions "(session_row \<times> bool) list"
  | Re_count nat
  | Re_enrolled enrollment
  | Re_ok

definition set_creds :: "(cred_row list \<Rightarrow> cred_row list) \<Rightarrow> auth_db \<Rightarrow> auth_db" where
  "set_creds f s = s\<lparr>human_credentials := f (human_credentials s)\<rparr>"

definition lock_policy :: "auth_env \<Rightarrow> policy" where
  "lock_policy A = getLockoutPolicy (conf A)"

definition locked_out :: "auth_env \<Rightarrow> string \<Rightarrow> auth_db \<Rightarrow> bool" where
  "locked_out A pid s \<longleftrightarrow> (case getLockState (human_credentials s) pid of
     None \<Rightarrow> False | Some c \<Rightarrow> is_locked (evaluateLock c (host_now A)))"

definition note_failure :: "auth_env \<Rightarrow> string \<Rightarrow> auth_db \<Rightarrow> auth_db" where
  "note_failure A pid = set_creds (\<lambda>cs. snd (recordFailure (hub_env A) (lock_policy A) pid cs))"

definition note_success :: "auth_env \<Rightarrow> string \<Rightarrow> auth_db \<Rightarrow> auth_db" where
  "note_success A pid = set_creds (recordSuccess (hub_env A) pid)"

definition password_ok :: "auth_env \<Rightarrow> string \<Rightarrow> string \<Rightarrow> auth_db \<Rightarrow> bool" where
  "password_ok A pid p s \<longleftrightarrow> (case getCredential pid s of
     None \<Rightarrow> False | Some c \<Rightarrow> verifyPassword A (hc_hash c) p)"

definition completeLogin ::
  "auth_env \<Rightarrow> string \<times> string option \<times> string option \<Rightarrow> string \<Rightarrow> auth_db \<Rightarrow> auth_reply auth_outcome" where
  "completeLogin A who pid s = (case who of (email, ip, agent) \<Rightarrow>
     if hasVerifiedFactor pid s then (Inr (Re_mfa_required email), s)
     else andThen (createSession A pid 1 ip agent (note_success A pid s))
       (\<lambda>c s. (Inr (Re_session 1 (cs_csrf c) (cs_cookie c)), s)))"

text \<open>An unknown address costs a decoy verification, which changes nothing.\<close>

definition login ::
  "auth_env \<Rightarrow> string option \<Rightarrow> string option \<Rightarrow> string option \<Rightarrow> string option \<Rightarrow> auth_db \<Rightarrow>
     auth_reply auth_outcome" where
  "login A ip agent email password s = (case (email, password) of
     (Some e, Some p) \<Rightarrow> (case resolvePrincipalByEmail e s of
         None \<Rightarrow> (Inr (Re_error 401), s)
       | Some pid \<Rightarrow>
           if locked_out A pid s then (Inr (Re_error 401), s)
           else if \<not> password_ok A pid p s then (Inr (Re_error 401), note_failure A pid s)
           else (case getCredential pid s of
               None \<Rightarrow> completeLogin A (e, ip, agent) pid s
             | Some c \<Rightarrow> andThen (rehashIfNeeded A pid p (hc_hash c) s)
                 (\<lambda>_. completeLogin A (e, ip, agent) pid)))
   | _ \<Rightarrow> (Inr (Re_error 400), s))"

definition mfa_verify ::
  "auth_env \<Rightarrow> string option \<Rightarrow> string option \<Rightarrow> string option \<Rightarrow> string option \<Rightarrow> string option \<Rightarrow> auth_db \<Rightarrow>
     auth_reply auth_outcome" where
  "mfa_verify A ip agent email password code s = (case (email, password, code) of
     (Some e, Some p, Some c) \<Rightarrow> (case resolvePrincipalByEmail e s of
         None \<Rightarrow> (Inr (Re_error 401), s)
       | Some pid \<Rightarrow>
           if locked_out A pid s then (Inr (Re_error 401), s)
           else if \<not> password_ok A pid p s then (Inr (Re_error 401), note_failure A pid s)
           else andThen (verifyMfaChallenge A pid c s) (\<lambda>ok s.
             if \<not> ok then (Inr (Re_error 401), note_failure A pid s)
             else andThen (createSession A pid 2 ip agent (note_success A pid s))
               (\<lambda>c s. (Inr (Re_session 2 (cs_csrf c) (cs_cookie c)), s))))
   | _ \<Rightarrow> (Inr (Re_error 400), s))"

definition register ::
  "auth_env \<Rightarrow> string option \<Rightarrow> string option \<Rightarrow> string option \<Rightarrow> string option \<Rightarrow> string option \<Rightarrow> auth_db \<Rightarrow>
     auth_reply auth_outcome" where
  "register A ip agent token password nm s = (case (token, password) of
     (Some t, Some p) \<Rightarrow> andThen (acceptInvite A t p nm s) (\<lambda>(pid, name, _) s.
         andThen (createSession A pid 1 ip agent s)
           (\<lambda>c s. (Inr (Re_created pid name (cs_csrf c) (cs_cookie c)), s)))
   | _ \<Rightarrow> (Inr (Re_error 400), s))"

section \<open>Forgotten passwords\<close>

definition exposes_token :: "auth_env \<Rightarrow> bool" where
  "exposes_token A \<longleftrightarrow> conf_text A ''AUTH_EXPOSE_DEV_RESET_TOKEN'' = Some ''true''"

definition password_forgot :: "auth_env \<Rightarrow> string option \<Rightarrow> auth_db \<Rightarrow> auth_reply auth_outcome" where
  "password_forgot A email s = (case email of
     None \<Rightarrow> (Inr (Re_error 400), s)
   | Some e \<Rightarrow> (case resolvePrincipalByEmail e s of
       None \<Rightarrow> (Inr (Re_forgot None), s)
     | Some pid \<Rightarrow> andThen (issueAuthToken A pid Password_reset s)
         (\<lambda>t s. (Inr (Re_forgot (if exposes_token A then Some t else None)), s))))"

definition password_reset :: "auth_env \<Rightarrow> string option \<Rightarrow> string option \<Rightarrow> auth_db \<Rightarrow> auth_reply auth_outcome" where
  "password_reset A token password s = (case (token, password) of
     (Some t, Some p) \<Rightarrow> andThen (resetPassword A t p s) (\<lambda>pid s. (Inr (Re_reset pid), s))
   | _ \<Rightarrow> (Inr (Re_error 400), s))"

section \<open>Routes of a session\<close>

text \<open>\<^verbatim>\<open>requireSession\<close>, then \<^verbatim>\<open>csrfGuard\<close>, then the handler with the attached session.\<close>

definition with_session ::
  "auth_env \<Rightarrow> request \<Rightarrow> (session_row \<Rightarrow> auth_db \<Rightarrow> auth_reply auth_outcome) \<Rightarrow> auth_db \<Rightarrow> auth_reply auth_outcome" where
  "with_session A rq handler s = (case requireSession A rq s of
     (Go ca, s') \<Rightarrow> (case csrfGuard rq ca of
         Go ca' \<Rightarrow> (case ca_session ca' of Some se \<Rightarrow> handler se s' | None \<Rightarrow> (Inr (Re_error 401), s'))
       | Respond n \<Rightarrow> (Inr (Re_error n), s')
       | Crash \<Rightarrow> (Inr (Re_error 500), s'))
   | (Respond n, s') \<Rightarrow> (Inr (Re_error n), s')
   | (Crash, s') \<Rightarrow> (Inr (Re_error 500), s'))"

definition logout :: "auth_env \<Rightarrow> request \<Rightarrow> auth_db \<Rightarrow> auth_reply auth_outcome" where
  "logout A rq = with_session A rq (\<lambda>se s.
     andThen (revokeSession A (se_principal se) (se_id se) s) (\<lambda>_ s. (Inr Re_ok, s)))"

definition sessions_list :: "auth_env \<Rightarrow> request \<Rightarrow> auth_db \<Rightarrow> auth_reply auth_outcome" where
  "sessions_list A rq = with_session A rq (\<lambda>se s.
     (Inr (Re_sessions (map (\<lambda>x. (x, se_id x = se_id se)) (listSessions A (se_principal se) s))), s))"

definition session_delete :: "auth_env \<Rightarrow> request \<Rightarrow> string \<Rightarrow> auth_db \<Rightarrow> auth_reply auth_outcome" where
  "session_delete A rq sid = with_session A rq (\<lambda>se s.
     andThen (revokeSession A (se_principal se) sid s) (\<lambda>ok s. if ok then (Inr Re_ok, s) else refuse NOT_FOUND s))"

definition sessions_revoke_others :: "auth_env \<Rightarrow> request \<Rightarrow> auth_db \<Rightarrow> auth_reply auth_outcome" where
  "sessions_revoke_others A rq = with_session A rq (\<lambda>se s.
     andThen (revokeOtherSessions A (se_principal se) (se_id se) s) (\<lambda>n s. (Inr (Re_count n), s)))"

definition mfa_enroll :: "auth_env \<Rightarrow> request \<Rightarrow> string option \<Rightarrow> auth_db \<Rightarrow> auth_reply auth_outcome" where
  "mfa_enroll A rq label = with_session A rq (\<lambda>se s.
     andThen (enrollTotp A (se_principal se) (or_else label (se_principal se)) s) (\<lambda>e s. (Inr (Re_enrolled e), s)))"

definition mfa_enroll_verify ::
  "auth_env \<Rightarrow> request \<Rightarrow> string option \<Rightarrow> string option \<Rightarrow> auth_db \<Rightarrow> auth_reply auth_outcome" where
  "mfa_enroll_verify A rq factor code = with_session A rq (\<lambda>se s. case (factor, code) of
     (Some f, Some c) \<Rightarrow> andThen (verifyTotpEnrollment A (se_principal se) f c s) (\<lambda>_ s. (Inr Re_ok, s))
   | _ \<Rightarrow> (Inr (Re_error 400), s))"

section \<open>The bearer token\<close>

definition callerPrincipalOf :: "caller \<Rightarrow> string option" where
  "callerPrincipalOf ca = ca_principal ca"

text \<open>\<^verbatim>\<open>token === env.CONTEXT_HUB_WORKSPACE_TOKEN\<close>, when one is configured.\<close>

definition is_legacy :: "auth_env \<Rightarrow> string \<Rightarrow> bool" where
  "is_legacy A token \<longleftrightarrow> legacy_token A = Some token \<and> token \<noteq> []"

definition bearerAuth :: "auth_env \<Rightarrow> request \<Rightarrow> auth_db \<Rightarrow> caller mw \<times> auth_db" where
  "bearerAuth A rq s =
     (let header = or_else (rq_authorization rq) [] in
      if \<not> auth_enabled (hub_env A) then (Go nobody, s)
      else if header = [] \<and> session_cookie A rq = None then (Crash, s)
      else if header = [] \<and> session_cookie A rq \<noteq> Some None then (Go nobody, s)
      else if \<not> startsWith ''Bearer '' header then (Respond 401, s)
      else let token = drop 7 header in
        if is_legacy A token then (if legacy_disabled A then (Respond 401, s) else (Go nobody, s))
        else (case validateApiKey A token s of
            (None, s') \<Rightarrow> (Respond 401, s')
          | (Some k, s') \<Rightarrow> (Go (nobody\<lparr>ca_principal := k_principal k, ca_key := Some k, ca_method := By_key\<rparr>), s')))"

definition mw_bind :: "'a mw \<times> auth_db \<Rightarrow> ('a \<Rightarrow> auth_db \<Rightarrow> 'b mw \<times> auth_db) \<Rightarrow> 'b mw \<times> auth_db" where
  "mw_bind m f = (case m of (Go a, s) \<Rightarrow> f a s | (Respond n, s) \<Rightarrow> (Respond n, s) | (Crash, s) \<Rightarrow> (Crash, s))"

text \<open>\<^verbatim>\<open>app.use('/api', bearerAuth); app.use('/api', sessionAuth); app.use('/api', csrfGuard)\<close>\<close>

definition api_auth :: "auth_env \<Rightarrow> request \<Rightarrow> auth_db \<Rightarrow> caller mw \<times> auth_db" where
  "api_auth A rq s =
     mw_bind (mw_bind (bearerAuth A rq s) (\<lambda>ca. sessionAuth A rq ca)) (\<lambda>ca s. (csrfGuard rq ca, s))"

section \<open>The caller of an MCP tool\<close>

datatype caller_scope = Any_scope | Global_scope | Project_scope string

record mcp_caller =
  mc_scope :: caller_scope
  mc_principal :: "string option"
  mc_expires :: "int option"

definition resolveMcpCaller :: "auth_env \<Rightarrow> string option \<Rightarrow> auth_db \<Rightarrow> mcp_caller auth_outcome" where
  "resolveMcpCaller A token s =
     (if \<not> auth_enabled (hub_env A) then (Inr \<lparr>mc_scope = Any_scope, mc_principal = None, mc_expires = None\<rparr>, s)
      else let t = or_else token [] in
        if t = [] then refuse UNAUTHORIZED s
        else if is_legacy A t
        then (if legacy_disabled A then refuse UNAUTHORIZED s
              else (Inr \<lparr>mc_scope = Global_scope, mc_principal = None, mc_expires = None\<rparr>, s))
        else (case validateApiKey A t s of
            (Some k, s') \<Rightarrow>
              (Inr \<lparr>mc_scope = (case k_scope k of None \<Rightarrow> Global_scope | Some p \<Rightarrow> Project_scope p),
                    mc_principal = k_principal k, mc_expires = k_expires k\<rparr>, s')
          | (None, s') \<Rightarrow>
              (case classifyCredentialFailure A t s' of
                 Cf_expired \<Rightarrow> refuse CREDENTIAL_EXPIRED s'
               | Cf_revoked \<Rightarrow> refuse CREDENTIAL_EXPIRED s'
               | _ \<Rightarrow> refuse UNAUTHORIZED s')))"

definition isReservedActorId :: "string option \<Rightarrow> bool" where
  "isReservedActorId v = (case v of
     None \<Rightarrow> False | Some a \<Rightarrow> startsWith ''system:'' a \<or> startsWith ''motion:'' a)"

definition resolveActingActor ::
  "auth_env \<Rightarrow> string option \<Rightarrow> string option \<Rightarrow> auth_db \<Rightarrow> (caller_scope \<times> string option) auth_outcome" where
  "resolveActingActor A token asserted s =
     (if isReservedActorId asserted then refuse BAD_REQUEST s
      else andThen (resolveMcpCaller A token s) (\<lambda>ca s.
        case resolveActingPrincipal (auth_enabled (hub_env A)) (mc_principal ca) asserted None (\<not> legacy_disabled A) of
          Inl x \<Rightarrow> (Inl x, s)
        | Inr acting \<Rightarrow>
            if auth_enabled (hub_env A) \<and> acting = None then refuse ASSERTED_IDENTITY_REJECTED s
            else (Inr (mc_scope ca, acting), s)))"

definition resolveTargetActor :: "auth_env \<Rightarrow> string \<Rightarrow> auth_db \<Rightarrow> string auth_outcome" where
  "resolveTargetActor A actor s =
     (if isReservedActorId (Some actor) then refuse BAD_REQUEST s
      else if \<not> auth_enabled (hub_env A) then (Inr actor, s)
      else (case isActivePrincipal (hub_env A) (Some actor) (hub s) of
          Inl x \<Rightarrow> (Inl x, s)
        | Inr ok \<Rightarrow> if ok then (Inr actor, s) else refuse BAD_REQUEST s))"

fun resolveTargetActors :: "auth_env \<Rightarrow> string list \<Rightarrow> auth_db \<Rightarrow> string list auth_outcome" where
  "resolveTargetActors A [] s = (Inr [], s)"
| "resolveTargetActors A (a # as) s =
     andThen (resolveTargetActor A a s) (\<lambda>x s.
     andThen (resolveTargetActors A as s) (\<lambda>xs s. (Inr (x # xs), s)))"

end
