(* ===== verification/Bootstrap.thy ===== *)
theory Bootstrap
  imports ApiKeys
begin

text \<open>
  Preparing a deployment for enforcement: the root of trust and the identity of the worker
  (services/bootstrap.ts), the grants of existing keys (services/backfillGrants.ts), the migration of free
  actor names to principals (services/migrateCoordinationActors.ts), and \<open>assertEnforceReady\<close>, the check
  before authorization is switched on.
\<close>

section \<open>Usable identities\<close>

definition hasUsableRootCredential :: "auth_env \<Rightarrow> auth_db \<Rightarrow> bool" where
  "hasUsableRootCredential A s \<longleftrightarrow> exists_where (\<lambda>k. (case key_subject k s of
       None \<Rightarrow> False
     | Some p \<Rightarrow> pr_is_root p \<and> pr_status p = P_active) \<and>
     k_bootstrap k \<and> \<not> k_revoked k \<and> \<not> expired A k) (api_keys s)"

definition given_by_root :: "grant_row \<Rightarrow> db \<Rightarrow> bool" where
  "given_by_root g d \<longleftrightarrow> (case find_row pr_id (g_granted_by g) (principals d) of
     None \<Rightarrow> False | Some r \<Rightarrow> pr_is_root r \<and> pr_status r = P_active)"

definition global_write :: "grant_row \<Rightarrow> bool" where
  "global_write g \<longleftrightarrow> g_scope_type g = S_global \<and> g_capability g = C_write"

definition hasUsableSystemIdentity :: "db \<Rightarrow> bool" where
  "hasUsableSystemIdentity d \<longleftrightarrow> exists_where (\<lambda>p. pr_is_system p \<and> pr_status p = P_active \<and>
     exists_where (\<lambda>g. global_write g \<and> given_by_root g d) (loadActiveGrants (pr_id p) d) \<and>
     \<not> exists_where (\<lambda>g. \<not> global_write g) (loadActiveGrants (pr_id p) d)) (principals d)"

section \<open>bootstrapSystem and bootstrapRoot\<close>

datatype bootstrap_status = B_created | B_granted | B_reissued | B_noop

definition bootstrapSystem ::
  "auth_env \<Rightarrow> string option \<Rightarrow> auth_db \<Rightarrow> (bootstrap_status \<times> principal_row) auth_outcome" where
  "bootstrapSystem A display_name s =
     (case getRootPrincipal (hub s) of
        None \<Rightarrow> refuse CONFLICT s
      | Some r \<Rightarrow>
          andThen (case getSystemPrincipal (hub s) of
              Some p \<Rightarrow> (Inr (p, False), s)
            | None \<Rightarrow> andThen (on_hub (seedSystemPrincipal (hub_env A)
                (if trim_opt display_name = [] then ''system-worker'' else trim_opt display_name)) s)
                (\<lambda>p s. (Inr (p, True), s)))
            (\<lambda>(p, created) s.
               if hasUsableSystemIdentity (hub s)
               then (Inr (if created then B_created else B_noop, p), s)
               else andThen (on_hub (createGrant (hub_env A) (pr_id p) ''global'' None ''write'' (pr_id r)) s)
                 (\<lambda>g s. (Inr (if created then B_created else B_granted, p), s))))"

definition secretsMatch :: "auth_env \<Rightarrow> string \<Rightarrow> string \<Rightarrow> bool" where
  "secretsMatch A a b = (sha256 A a = sha256 A b)"

definition bootstrapRoot ::
  "auth_env \<Rightarrow> string \<Rightarrow> string option \<Rightarrow> auth_db \<Rightarrow>
     (bootstrap_status \<times> principal_row \<times> string option) auth_outcome" where
  "bootstrapRoot A presented display_name s =
     (case bootstrap_token A of
        None \<Rightarrow> refuse BAD_REQUEST s
      | Some configured \<Rightarrow>
          if configured = [] then refuse BAD_REQUEST s
          else if presented = [] \<or> \<not> secretsMatch A presented configured then refuse UNAUTHORIZED s
          else (case getRootPrincipal (hub s) of
              None \<Rightarrow> andThen (on_hub (seedRootPrincipal (hub_env A)
                    (if trim_opt display_name = [] then ''root'' else trim_opt display_name)) s)
                  (\<lambda>p s. andThen (createBootstrapRootKey A (pr_id p) s)
                    (\<lambda>(key, k) s. (Inr (B_created, p, Some key), s)))
            | Some p \<Rightarrow>
                if hasUsableRootCredential A s then (Inr (B_noop, p, None), s)
                else andThen (createBootstrapRootKey A (pr_id p) s)
                  (\<lambda>(key, k) s. (Inr (B_reissued, p, Some key), s))))"

section \<open>Grants for existing keys\<close>

fun role_capability :: "string \<Rightarrow> capability option" where
  "role_capability r = (if r = ''admin'' then Some C_admin else if r = ''writer'' then Some C_write
     else if r = ''reader'' then Some C_read else None)"

definition role_rank :: "string \<Rightarrow> nat" where
  "role_rank r = (case role_capability r of None \<Rightarrow> 0 | Some c \<Rightarrow> cap_rank c)"

text \<open>\<^verbatim>\<open>COVERING_GRANT_EXISTS\<close>\<close>

definition grant_covers_key :: "key_row \<Rightarrow> grant_row \<Rightarrow> bool" where
  "grant_covers_key k g \<longleftrightarrow> role_rank (k_role k) \<le> cap_rank (g_capability g) \<and>
     (g_scope_type g = S_global \<or>
      k_scope k \<noteq> None \<and> g_scope_type g = S_project \<and> g_scope_id g = k_scope k)"

definition key_covered :: "key_row \<Rightarrow> db \<Rightarrow> bool" where
  "key_covered k d \<longleftrightarrow> exists_where (\<lambda>g. k_principal k = Some (g_grantee g) \<and> g_revoked_at g = None \<and>
     grant_covers_key k g) (grants d)"

text \<open>\<^verbatim>\<open>eligibleKeysSql\<close>: the active keys bound to an active principal that is not root.\<close>

definition eligible_key :: "auth_env \<Rightarrow> string list option \<Rightarrow> auth_db \<Rightarrow> key_row \<Rightarrow> bool" where
  "eligible_key A restrict s k \<longleftrightarrow> \<not> k_revoked k \<and> \<not> expired A k \<and>
     (case key_subject k s of None \<Rightarrow> False | Some p \<Rightarrow> pr_status p = P_active \<and> \<not> pr_is_root p) \<and>
     (case restrict of None \<Rightarrow> True | Some ps \<Rightarrow> ps = [] \<or> k_principal k \<in> Some ` set ps)"

definition ungranted_keys :: "auth_env \<Rightarrow> string list option \<Rightarrow> auth_db \<Rightarrow> key_row list" where
  "ungranted_keys A restrict s =
     filter (\<lambda>k. eligible_key A restrict s k \<and> \<not> key_covered k (hub s)) (api_keys s)"

definition countCredentialsWithoutGrants :: "auth_env \<Rightarrow> string list option \<Rightarrow> auth_db \<Rightarrow> nat" where
  "countCredentialsWithoutGrants A restrict s = length (ungranted_keys A restrict s)"

record backfill_result =
  bf_scanned :: nat
  bf_created :: nat
  bf_skipped :: nat
  bf_skipped_revoked :: nat

definition mapped_scope :: "key_row \<Rightarrow> scope_type" where
  "mapped_scope k = (if k_scope k = None then S_global else S_project)"

definition edge_revoked :: "key_row \<Rightarrow> capability \<Rightarrow> db \<Rightarrow> bool" where
  "edge_revoked k cap d \<longleftrightarrow> exists_where (\<lambda>g. k_principal k = Some (g_grantee g) \<and> g_scope_type g = mapped_scope k \<and>
     g_scope_id g = k_scope k \<and> g_capability g = cap \<and> g_revoked_at g \<noteq> None) (grants d)"

text \<open>The loop over the keys; a throw of \<open>createGrant\<close> ends it.\<close>

fun backfill_keys ::
  "auth_env \<Rightarrow> string \<Rightarrow> key_row list \<Rightarrow> backfill_result \<Rightarrow> auth_db \<Rightarrow> backfill_result auth_outcome" where
  "backfill_keys A rid [] r s = (Inr r, s)"
| "backfill_keys A rid (k # ks) r s = (case role_capability (k_role k) of
     None \<Rightarrow> backfill_keys A rid ks (r\<lparr>bf_skipped := Suc (bf_skipped r)\<rparr>) s
   | Some cap \<Rightarrow>
       if edge_revoked k cap (hub s)
       then backfill_keys A rid ks (r\<lparr>bf_skipped_revoked := Suc (bf_skipped_revoked r)\<rparr>) s
       else andThen (on_hub (createGrant (hub_env A) (or_else (k_principal k) []) (scope_type_text (mapped_scope k))
                 (k_scope k) (capability_text cap) rid) s)
            (\<lambda>_. backfill_keys A rid ks (r\<lparr>bf_created := Suc (bf_created r)\<rparr>)))"

definition backfillGrantsFromApiKeys ::
  "auth_env \<Rightarrow> string list option \<Rightarrow> auth_db \<Rightarrow> backfill_result auth_outcome" where
  "backfillGrantsFromApiKeys A restrict s = (case getRootPrincipal (hub s) of
     None \<Rightarrow> refuse CONFLICT s
   | Some r \<Rightarrow> backfill_keys A (pr_id r) (ungranted_keys A restrict s)
       \<lparr>bf_scanned = length (ungranted_keys A restrict s), bf_created = 0, bf_skipped = 0, bf_skipped_revoked = 0\<rparr> s)"

section \<open>Actor names\<close>

text \<open>The values of \<^verbatim>\<open>SCALAR_COLUMNS\<close> that are not null, and the elements of \<^verbatim>\<open>ARRAY_COLUMNS\<close>.\<close>

definition some_values :: "'a option list \<Rightarrow> 'a list" where
  "some_values xs = List.map_filter id xs"

definition scalar_actors :: "auth_db \<Rightarrow> string list" where
  "scalar_actors s = (let d = hub s in
     map a_id (actors d) @ map c_actor (claims d) @ map bm_actor (members d) @ map vt_actor (votes d) @
     map px_principal (proxies d) @ map px_proxy (proxies d) @ map px_granted_by (proxies d) @
     map p_actor (participants d) @ some_values (map p_granted_by (participants d)) @
     map tk_created_by (tasks d) @ map v_created_by (versions d) @ map t_created_by (topics d) @
     map r_submitted_by (requests d) @ some_values (map s_decided_by (steps d)) @
     map b_created_by (bodies d) @ map m_proposed_by (motions d) @ some_values (map m_seconded_by (motions d)) @
     map i_submitted_by (intake_items d) @ map e_actor (events d) @ some_values (lesson_authors s))"

definition array_actors :: "auth_db \<Rightarrow> string list" where
  "array_actors s = concat (map b_veto (bodies (hub s))) @ concat (map d_parties (disputes (hub s)))"

text \<open>\<^verbatim>\<open>btrim\<close> removes spaces; \<^verbatim>\<open>LIKE 'system:%'\<close> is a prefix.\<close>

definition migratable :: "auth_db \<Rightarrow> string \<Rightarrow> bool" where
  "migratable s v \<longleftrightarrow> list_ex (\<lambda>c. c \<noteq> CHR '' '') v \<and> \<not> startsWith ''system:'' v \<and> \<not> startsWith ''motion:'' v \<and>
     find_row pr_id v (principals (hub s)) = None"

definition unmigrated :: "string list option \<Rightarrow> auth_db \<Rightarrow> string list" where
  "unmigrated restrict s =
     filter (\<lambda>v. migratable s v \<and> (case restrict of None \<Rightarrow> True | Some vs \<Rightarrow> vs = [] \<or> v \<in> set vs))
       (remdups (scalar_actors s @ array_actors s))"

definition countUnmigratedCoordinationActors :: "auth_db \<Rightarrow> nat" where
  "countUnmigratedCoordinationActors s = length (unmigrated None s)"

text \<open>The rewrite of every column by a renaming of values.\<close>

definition rename_hub :: "(string \<Rightarrow> string) \<Rightarrow> db \<Rightarrow> db" where
  "rename_hub f d = d\<lparr>
     actors := map (\<lambda>x. x\<lparr>a_id := f (a_id x)\<rparr>) (actors d),
     claims := map (\<lambda>x. x\<lparr>c_actor := f (c_actor x)\<rparr>) (claims d),
     members := map (\<lambda>x. x\<lparr>bm_actor := f (bm_actor x)\<rparr>) (members d),
     votes := map (\<lambda>x. x\<lparr>vt_actor := f (vt_actor x)\<rparr>) (votes d),
     proxies := map (\<lambda>x. x\<lparr>px_principal := f (px_principal x), px_proxy := f (px_proxy x),
                       px_granted_by := f (px_granted_by x)\<rparr>) (proxies d),
     participants := map (\<lambda>x. x\<lparr>p_actor := f (p_actor x), p_granted_by := map_option f (p_granted_by x)\<rparr>) (participants d),
     tasks := map (\<lambda>x. x\<lparr>tk_created_by := f (tk_created_by x)\<rparr>) (tasks d),
     versions := map (\<lambda>x. x\<lparr>v_created_by := f (v_created_by x)\<rparr>) (versions d),
     topics := map (\<lambda>x. x\<lparr>t_created_by := f (t_created_by x)\<rparr>) (topics d),
     requests := map (\<lambda>x. x\<lparr>r_submitted_by := f (r_submitted_by x)\<rparr>) (requests d),
     steps := map (\<lambda>x. x\<lparr>s_decided_by := map_option f (s_decided_by x)\<rparr>) (steps d),
     bodies := map (\<lambda>x. x\<lparr>b_created_by := f (b_created_by x), b_veto := map f (b_veto x)\<rparr>) (bodies d),
     motions := map (\<lambda>x. x\<lparr>m_proposed_by := f (m_proposed_by x), m_seconded_by := map_option f (m_seconded_by x)\<rparr>) (motions d),
     intake_items := map (\<lambda>x. x\<lparr>i_submitted_by := f (i_submitted_by x)\<rparr>) (intake_items d),
     events := map (\<lambda>x. x\<lparr>e_actor := f (e_actor x)\<rparr>) (events d),
     disputes := map (\<lambda>x. x\<lparr>d_parties := map f (d_parties x)\<rparr>) (disputes d)\<rparr>"

definition rename_actors :: "(string \<Rightarrow> string) \<Rightarrow> auth_db \<Rightarrow> auth_db" where
  "rename_actors f s = s\<lparr>hub := rename_hub f (hub s), lesson_authors := map (map_option f) (lesson_authors s)\<rparr>"

definition imported :: "auth_env \<Rightarrow> string \<times> string \<Rightarrow> principal_row" where
  "imported A m = \<lparr>pr_id = snd m, pr_is_root = False, pr_status = P_active, pr_kind = P_agent,
     pr_name = take 256 (fst m), pr_is_system = False, pr_created = db_now A\<rparr>"

text \<open>The map of legacy names: one generated identifier each.\<close>

definition actor_map :: "auth_env \<Rightarrow> string list \<Rightarrow> auth_db \<Rightarrow> (string \<times> string) list" where
  "actor_map A vs s = zip vs (map (\<lambda>i. uuid_of (hub_env A) (uuid_ctr (hub s) + i)) [0..<length vs])"

definition renaming :: "(string \<times> string) list \<Rightarrow> string \<Rightarrow> string" where
  "renaming m v = or_else (map_of m v) v"

text \<open>The keys of the rewritten tables that hold an actor.\<close>

definition actor_keys_ok :: "db \<Rightarrow> bool" where
  "actor_keys_ok d \<longleftrightarrow> pkey (\<lambda>x. (a_project x, a_id x)) (actors d) \<and> pkey (\<lambda>x. (bm_body x, bm_actor x)) (members d) \<and>
     pkey (\<lambda>x. (vt_motion x, vt_actor x)) (votes d) \<and> pkey (\<lambda>x. (px_body x, px_principal x, px_proxy x)) (proxies d) \<and>
     pkey (\<lambda>x. (p_topic x, p_actor x)) (participants d)"

record migrate_result =
  mg_imported :: nat
  mg_scalar_columns :: nat
  mg_array_columns :: nat

definition migrate_body :: "auth_env \<Rightarrow> string list option \<Rightarrow> (migrate_result, migrate_result) atx" where
  "migrate_body A restrict s =
     (let vs = unmigrated restrict s; m = actor_map A vs s; ps = map (imported A) m;
          s1 = s\<lparr>hub := (hub s)\<lparr>uuid_ctr := uuid_ctr (hub s) + length vs\<rparr>\<rparr>;
          s2 = s1\<lparr>hub := (hub s1)\<lparr>principals := principals (hub s1) @ ps\<rparr>\<rparr>;
          s3 = rename_actors (renaming m) s2
      in if \<not> pkey pr_id (principals (hub s2)) \<or> actor_keys_ok (hub s) \<and> \<not> actor_keys_ok (hub s3)
         then (Throw Pg_unique, s1)
         else (Next \<lparr>mg_imported = length ps, mg_scalar_columns = 20, mg_array_columns = 2\<rparr>, s3))"

definition migrateCoordinationActorIds ::
  "auth_env \<Rightarrow> string list option \<Rightarrow> auth_db \<Rightarrow> migrate_result auth_outcome" where
  "migrateCoordinationActorIds A restrict = auth_transaction (migrate_body A restrict)"

section \<open>assertEnforceReady\<close>

definition assertEnforceReady :: "auth_env \<Rightarrow> auth_db \<Rightarrow> exn + principal_row" where
  "assertEnforceReady A s =
     (if legacy_token A \<noteq> None \<and> legacy_token A \<noteq> Some [] \<and> \<not> legacy_disabled A then Inl (Hub CONFLICT)
      else case getRootPrincipal (hub s) of
          None \<Rightarrow> Inl (Hub CONFLICT)
        | Some r \<Rightarrow>
            if \<not> hasUsableRootCredential A s \<or> 0 < countUnmigratedCoordinationActors s \<or>
               0 < countCredentialsWithoutGrants A None s \<or> \<not> hasUsableSystemIdentity (hub s)
            then Inl (Hub CONFLICT) else Inr r)"

end
