(* ===== verification/Delegation.thy ===== *)
theory Delegation
  imports Grants
begin

text \<open>
  The delegation invariant (services/grantCapability.ts): the policy over the grants writer. One may grant
  a capability at a scope when one holds both \<^verbatim>\<open>delegate\<close> and the capability there, and may revoke a grant
  as its granter or with \<^verbatim>\<open>admin\<close> or \<^verbatim>\<open>delegate\<close> over its scope. The arguments are those of the TypeScript
  types; other texts are refused by \<open>createGrant\<close>.
\<close>

fun capability_action :: "capability \<Rightarrow> action" where
  "capability_action C_read = A_read"
| "capability_action C_write = A_write"
| "capability_action C_admin = A_admin"
| "capability_action C_delegate = A_delegate"

fun scope_kind :: "scope_type \<Rightarrow> res_kind" where
  "scope_kind S_global = K_global"
| "scope_kind S_project = K_project"
| "scope_kind S_topic = K_topic"
| "scope_kind S_task = K_task"
| "scope_kind S_group = K_group"

definition scope_ref :: "scope_type \<Rightarrow> string option \<Rightarrow> res_ref" where
  "scope_ref sty sid = \<lparr>ref_kind = scope_kind sty, ref_id = sid\<rparr>"

fun allows :: "decision \<Rightarrow> bool" where
  "allows (Allow w g) = True"
| "allows (Deny w) = False"

definition grantCapability ::
  "env \<Rightarrow> string option \<Rightarrow> string \<Rightarrow> scope_type \<Rightarrow> string option \<Rightarrow> capability \<Rightarrow> db \<Rightarrow> grant_row outcome" where
  "grantCapability E caller grantee sty sid cap d =
     (if \<not> auth_enabled E then throw FORBIDDEN d
      else case authorize E caller A_delegate (scope_ref sty sid) d of (canDelegate, d1) \<Rightarrow>
        (case authorize E caller (capability_action cap) (scope_ref sty sid) d1 of (canGrantCap, d2) \<Rightarrow>
           if \<not> allows canDelegate \<or> \<not> allows canGrantCap then throw FORBIDDEN d2
           else createGrant E grantee (scope_type_text sty) sid (capability_text cap) (or_else caller []) d2))"

datatype revoke_status = Rv_revoked | Rv_noop

definition revokeGrantAuthorized :: "env \<Rightarrow> string option \<Rightarrow> string \<Rightarrow> db \<Rightarrow> revoke_status outcome" where
  "revokeGrantAuthorized E caller gid d = (case getGrant E gid d of
     None \<Rightarrow> (Inr Rv_noop, d)
   | Some g \<Rightarrow>
       let rf = scope_ref (g_scope_type g) (g_scope_id g);
           done = (\<lambda>d. (Inr (if g_revoked_at g = None then Rv_revoked else Rv_noop), revokeGrant E gid d))
       in if caller \<noteq> None \<and> caller \<noteq> Some [] \<and> Some (g_granted_by g) = caller then done d
          else (case authorize E caller A_admin rf d of (canAdmin, d1) \<Rightarrow>
            (case authorize E caller A_delegate rf d1 of (canDelegate, d2) \<Rightarrow>
               if \<not> allows canAdmin \<and> \<not> allows canDelegate then throw FORBIDDEN d2 else done d2)))"

section \<open>No escalation\<close>

lemma authorize_same: "authorize E pid act rf d = (dec, d') \<Longrightarrow> \<exists>l. d' = d\<lparr>authz_decisions := l\<rparr>"
  by (auto simp: authorize_def logDecision_def Let_def split: if_splits) (metis db.surjective db.update_convs(25))

lemma authorize_allows:
  "auth_enabled E \<Longrightarrow> authorize E pid act rf d = (dec, d') \<Longrightarrow> allows dec \<longleftrightarrow> entitled E pid act rf d"
  using evaluate_entitled [of E pid act rf d]
  by (cases dec) (auto simp: authorize_def Let_def)

text \<open>
  A grant at a scope covers a resource only at or below the place the scope resolves to.
\<close>

lemma topic_scope_id: "topic_scope d t = Some r \<Longrightarrow> \<exists>p. r = R_topic p t"
  by (auto simp: topic_scope_def)

lemma task_scope_id: "task_scope d k = Some r \<Longrightarrow> \<exists>p t. r = R_task p t k \<and> topic_scope d t = Some (R_topic p t)"
  by (auto simp: task_scope_def topic_scope_def split: option.splits)

text \<open>What a resolved resource looks like, and that its parts resolve to the same chain.\<close>

definition placed :: "env \<Rightarrow> db \<Rightarrow> res_scope \<Rightarrow> bool" where
  "placed E d r \<longleftrightarrow> (case r of
     R_topic p t \<Rightarrow> topic_scope d t = Some r
   | R_task p t k \<Rightarrow> task_scope d k = Some r \<and> topic_scope d t = Some (R_topic p t)
   | _ \<Rightarrow> True)"

lemma placed_topic: "topic_scope d t = Some r \<Longrightarrow> placed E d r"
  using topic_scope_id [of d t r] by (auto simp: placed_def)

lemma placed_task: "task_scope d k = Some r \<Longrightarrow> placed E d r"
  using task_scope_id [of d k r] by (auto simp: placed_def)

lemma resolved_placed: "resolveResourceScope E rf d = Some r \<Longrightarrow> placed E d r"
  unfolding resolveResourceScope_def Let_def
  by (auto split: if_splits res_kind.splits option.splits bind_splits intro: placed_topic placed_task)
    (auto simp: placed_def)

text \<open>A granter's grant that covers the target scope covers everything the new grant covers.\<close>

lemma scope_transfer:
  assumes target: "resolveResourceScope E (scope_ref sty sid) d = Some tgt"
    and mine: "scopeCovers h tgt"
    and edge: "g_scope_type g = sty" "sty \<noteq> S_global \<Longrightarrow> g_scope_id g = Some (trim_opt sid)"
    and res: "placed E d r" and theirs: "scopeCovers g r"
  shows "scopeCovers h r"
proof (cases sty)
  case S_global
  then have "tgt = R_global" using target by (simp add: scope_ref_def resolveResourceScope_def)
  then show ?thesis using mine by (auto simp: scopeCovers_def split: scope_type.splits)
next
  case S_project
  then have "tgt = R_project (trim_opt sid)"
    using target by (auto simp: scope_ref_def resolveResourceScope_def Let_def split: if_splits)
  then show ?thesis
    using mine theirs edge S_project by (auto simp: scopeCovers_def split: scope_type.splits)
next
  case S_group
  then have "tgt = R_group (trim_opt sid)"
    using target by (auto simp: scope_ref_def resolveResourceScope_def Let_def split: if_splits)
  then show ?thesis
    using mine theirs edge S_group by (auto simp: scopeCovers_def split: scope_type.splits)
next
  case S_topic
  then have "topic_scope d (trim_opt sid) = Some tgt"
    using target by (auto simp: scope_ref_def resolveResourceScope_def Let_def split: if_splits)
  moreover from this obtain p where "tgt = R_topic p (trim_opt sid)" using topic_scope_id by blast
  moreover have "scope_topic r = Some (trim_opt sid)" using theirs edge S_topic by (auto simp: scopeCovers_def)
  ultimately show ?thesis
    using mine res by (cases r) (auto simp: scopeCovers_def placed_def split: scope_type.splits)
next
  case S_task
  then have "task_scope d (trim_opt sid) = Some tgt"
    using target by (auto simp: scope_ref_def resolveResourceScope_def Let_def split: if_splits)
  moreover have "scope_task r = Some (trim_opt sid)" using theirs edge S_task by (auto simp: scopeCovers_def)
  ultimately have "r = tgt" using res by (cases r) (auto simp: placed_def)
  then show ?thesis using mine by simp
qed

lemma covers_action: "capabilityCovers c act \<Longrightarrow> capabilityCovers c' (capability_action c) \<Longrightarrow> capabilityCovers c' act"
  by (cases c; cases act; cases c') (auto simp: capabilityCovers_def)

lemma createGrant_edge:
  assumes "createGrant E gr (scope_type_text sty) sid (capability_text cap) who d = (Inr g, d')"
  shows "g_grantee g = gr \<and> g_scope_type g = sty \<and> (sty \<noteq> S_global \<longrightarrow> g_scope_id g = Some (trim_opt sid)) \<and>
    g_capability g = cap"
proof -
  have texts: "parse_capability (capability_text cap) = Some cap" "parse_scope_type (scope_type_text sty) = Some sty"
    by (cases cap; simp add: parse_capability_def CAPABILITIES_def)
      (cases sty; simp add: parse_scope_type_def SCOPE_TYPES_def)
  then obtain sid' where loop: "grant_loop 3 E (gr, sty, sid', cap) who d = (Inr g, d')"
    and sid': "sty \<noteq> S_global \<longrightarrow> sid' = Some (trim_opt sid)"
    using assms by (cases sty) (auto simp: createGrant_def normalizeScope_def bad_def throw_def split: if_splits)
  have three: "(3::nat) = Suc 2" by simp
  have "grant_edge g = (gr, sty, sid', cap)"
    using loop unfolding three grant_loop_eq
    by (cases rule: grant_round_cases [of "(gr, sty, sid', cap)" d E who]) (auto dest: active_edge_Some)
  then show ?thesis using sid' by (auto simp: grant_edge_def)
qed

section \<open>Properties\<close>

text \<open>
  Property C3. No escalation: whatever a delegated grant allows its grantee, its granter is already allowed,
  for every action and every resource (a capability or a scope that the granter does not hold cannot be
  granted), and it is possible only with authorization on.
\<close>

theorem no_escalation:
  assumes "grantCapability E caller grantee sty sid cap d = (Inr g, d')"
    and "capabilityCovers (g_capability g) act" and "resolveResourceScope E rf d = Some res" and "scopeCovers g res"
  shows "auth_enabled E \<and> g_grantee g = grantee \<and> allows (fst (authorize E caller act rf d))"
proof -
  have on: "auth_enabled E" using assms(1) by (auto simp: grantCapability_def throw_def split: if_splits)
  obtain dec1 d1 where a1: "authorize E caller A_delegate (scope_ref sty sid) d = (dec1, d1)" by force
  obtain dec2 d2 where a2: "authorize E caller (capability_action cap) (scope_ref sty sid) d1 = (dec2, d2)" by force
  obtain l1 l2 where l: "d1 = d\<lparr>authz_decisions := l1\<rparr>" "d2 = d1\<lparr>authz_decisions := l2\<rparr>"
    using authorize_same [OF a1] authorize_same [OF a2] by blast
  have ok: "allows dec2" and created: "createGrant E grantee (scope_type_text sty) sid (capability_text cap) (or_else caller []) d2 = (Inr g, d')"
    using assms(1) on a1 a2 by (auto simp: grantCapability_def throw_def split: if_splits)
  note edge = createGrant_edge [OF created]
  have "entitled E caller (capability_action cap) (scope_ref sty sid) d1"
    using ok authorize_allows [OF on a2] by simp
  then have "entitled E caller act rf d"
    unfolding evaluate_entitled [symmetric] l(1) evaluate_log
    unfolding evaluate_entitled entitled_def
  proof (elim exE conjE disjE)
    fix p assume p: "loadPrincipalLite E caller d = Some p" "pr_is_root p"
    then show "\<exists>p. loadPrincipalLite E caller d = Some p \<and> (pr_is_root p \<or> pr_status p = P_active \<and>
        (\<exists>res. resolveResourceScope E rf d = Some res \<and> (\<exists>g\<in>set (grants d). g_grantee g = pr_id p \<and>
          g_revoked_at g = None \<and> capabilityCovers (g_capability g) act \<and> scopeCovers g res)))" by blast
  next
    fix p tgt
    assume p: "loadPrincipalLite E caller d = Some p" "pr_status p = P_active"
      and tgt: "resolveResourceScope E (scope_ref sty sid) d = Some tgt"
      and "\<exists>h\<in>set (grants d). g_grantee h = pr_id p \<and> g_revoked_at h = None \<and>
        capabilityCovers (g_capability h) (capability_action cap) \<and> scopeCovers h tgt"
    then obtain h where h: "h \<in> set (grants d)" "g_grantee h = pr_id p" "g_revoked_at h = None"
      "capabilityCovers (g_capability h) (capability_action cap)" "scopeCovers h tgt" by blast
    have "scopeCovers h res"
      using scope_transfer [OF tgt h(5) _ _ resolved_placed [OF assms(3)] assms(4)] edge by blast
    moreover have "capabilityCovers (g_capability h) act" using covers_action h(4) assms(2) edge by blast
    ultimately show "\<exists>p. loadPrincipalLite E caller d = Some p \<and> (pr_is_root p \<or> pr_status p = P_active \<and>
        (\<exists>res. resolveResourceScope E rf d = Some res \<and> (\<exists>g\<in>set (grants d). g_grantee g = pr_id p \<and>
          g_revoked_at g = None \<and> capabilityCovers (g_capability g) act \<and> scopeCovers g res)))"
      using p assms(3) h by blast
  qed
  then have "allows (fst (authorize E caller act rf d))"
    using authorize_allows [OF on] by (metis prod.collapse)
  then show ?thesis using on edge by blast
qed

text \<open>A project administrator who may delegate, and a member.\<close>

definition delegation_db :: db where
  "delegation_db = members_db\<lparr>grants := map (\<lambda>c. \<lparr>g_id = capability_text c, g_grantee = ''mia'', g_scope_type = S_project,
     g_scope_id = Some ''p'', g_capability = c, g_granted_by = ''root'', g_granted_at = 0, g_revoked_at = None\<rparr>)
     [C_delegate, C_write], topics := [a_topic ''T'' Active 0]\<rparr>"

theorem no_escalation_witness:
  "allows (fst (authorize auth_env (Some ''mia'') A_write (rref K_topic ''T'') delegation_db))"
proof -
  let ?run = "grantCapability auth_env (Some ''mia'') ''root'' S_topic (Some ''T'') C_write delegation_db"
  have run: "?run = (Inr \<lparr>g_id = ''u'', g_grantee = ''root'', g_scope_type = S_topic, g_scope_id = Some ''T'',
      g_capability = C_write, g_granted_by = ''mia'', g_granted_at = 1000000, g_revoked_at = None\<rparr>, snd ?run)" (is "_ = (Inr ?g, _)")
  proof -
    have "fst ?run = Inr ?g" by code_simp
    then show ?thesis by (metis prod.collapse)
  qed
  have "resolveResourceScope auth_env (rref K_topic ''T'') delegation_db = Some (R_topic ''p'' ''T'')" by code_simp
  from no_escalation [OF run _ this] show ?thesis by (simp add: capabilityCovers_def scopeCovers_def)
qed

end
