(* ===== verification/AuthLaw.thy ===== *)
theory AuthLaw
  imports Login Bootstrap Delegation
begin

text \<open>
  The law of the authentication tables: \<open>auth_ok\<close>, what holds of them at any time, and \<open>auth_evolved\<close>, what
  a later state keeps of an earlier one (nothing retired, revoked, accepted, consumed or used comes back).
  Every operation of the services respects both; \<open>sound\<close> is their conjunction.
\<close>

section \<open>Tables that evolve\<close>

definition table_kept :: "('a \<Rightarrow> 'a \<Rightarrow> bool) \<Rightarrow> 'a list \<Rightarrow> 'a list \<Rightarrow> bool" where
  "table_kept K xs ys \<longleftrightarrow> (\<forall>x \<in> set xs. \<exists>y \<in> set ys. K x y)"

named_theorems table_kept_intros \<open>how tables evolve\<close>

lemma table_kept_refl [table_kept_intros]: "(\<And>x. K x x) \<Longrightarrow> table_kept K xs xs"
  by (auto simp: table_kept_def)

lemma table_kept_trans:
  "table_kept K xs ys \<Longrightarrow> table_kept K ys zs \<Longrightarrow> (\<And>x y z. K x y \<Longrightarrow> K y z \<Longrightarrow> K x z) \<Longrightarrow> table_kept K xs zs"
  unfolding table_kept_def by metis

lemma table_kept_append [table_kept_intros]: "(\<And>x. K x x) \<Longrightarrow> table_kept K xs (xs @ ys)"
  by (auto simp: table_kept_def)

lemma table_kept_update [table_kept_intros]:
  "(\<And>x. K x x) \<Longrightarrow> (\<And>x. x \<in> set xs \<Longrightarrow> Q x \<Longrightarrow> K x (f x)) \<Longrightarrow> table_kept K xs (update_where Q f xs)"
  unfolding table_kept_def set_update_where by (simp add: image_iff Bex_def) (metis (full_types))

definition stays :: "'a option \<Rightarrow> 'a option \<Rightarrow> bool" where
  "stays a b \<longleftrightarrow> a = None \<or> b = a"

definition principal_kept :: "principal_row \<Rightarrow> principal_row \<Rightarrow> bool" where
  "principal_kept p q \<longleftrightarrow> pr_id q = pr_id p \<and> pr_is_root q = pr_is_root p \<and> pr_is_system q = pr_is_system p \<and>
     pr_kind q = pr_kind p \<and> (pr_status p = P_retired \<longrightarrow> pr_status q = P_retired)"

definition key_kept :: "key_row \<Rightarrow> key_row \<Rightarrow> bool" where
  "key_kept k x \<longleftrightarrow> k_id x = k_id k \<and> k_hash x = k_hash k \<and> k_principal x = k_principal k \<and> k_role x = k_role k \<and>
     k_scope x = k_scope k \<and> k_bootstrap x = k_bootstrap k \<and> (k_revoked k \<longrightarrow> k_revoked x)"

definition session_kept :: "session_row \<Rightarrow> session_row \<Rightarrow> bool" where
  "session_kept a b \<longleftrightarrow> se_id b = se_id a \<and> se_principal b = se_principal a \<and> se_aal b = se_aal a \<and>
     se_csrf b = se_csrf a \<and> se_expires b = se_expires a \<and> stays (se_revoked a) (se_revoked b)"

definition invite_kept :: "invite_row \<Rightarrow> invite_row \<Rightarrow> bool" where
  "invite_kept a b \<longleftrightarrow> iv_id b = iv_id a \<and> iv_hash b = iv_hash a \<and> iv_email b = iv_email a \<and> iv_kind b = iv_kind a \<and>
     iv_template b = iv_template a \<and> iv_created_by b = iv_created_by a \<and> iv_expires b = iv_expires a \<and>
     stays (iv_accepted a) (iv_accepted b)"

definition token_kept :: "token_row \<Rightarrow> token_row \<Rightarrow> bool" where
  "token_kept a b \<longleftrightarrow> at_id b = at_id a \<and> at_principal b = at_principal a \<and> at_purpose b = at_purpose a \<and>
     at_hash b = at_hash a \<and> at_expires b = at_expires a \<and> stays (at_consumed a) (at_consumed b)"

lemmas kept_defs = principal_kept_def key_kept_def session_kept_def invite_kept_def token_kept_def stays_def

lemma kept_refl [simp]:
  "principal_kept p p" "key_kept k k" "session_kept a a" "invite_kept i i" "token_kept t t"
  by (simp_all add: kept_defs)

lemma kept_trans:
  "principal_kept p q \<Longrightarrow> principal_kept q r \<Longrightarrow> principal_kept p r"
  "key_kept k x \<Longrightarrow> key_kept x y \<Longrightarrow> key_kept k y"
  "session_kept a b \<Longrightarrow> session_kept b c \<Longrightarrow> session_kept a c"
  "invite_kept i j \<Longrightarrow> invite_kept j l \<Longrightarrow> invite_kept i l"
  "token_kept t u \<Longrightarrow> token_kept u v \<Longrightarrow> token_kept t v"
  by (auto simp: kept_defs)

definition auth_evolved :: "auth_db \<Rightarrow> auth_db \<Rightarrow> bool" where
  "auth_evolved s s' \<longleftrightarrow> table_kept principal_kept (principals (hub s)) (principals (hub s')) \<and>
     table_kept key_kept (api_keys s) (api_keys s') \<and> table_kept session_kept (sessions s) (sessions s') \<and>
     table_kept invite_kept (invites s) (invites s') \<and> table_kept token_kept (auth_tokens s) (auth_tokens s')"

section \<open>The law\<close>

text \<open>A key is a bootstrap key exactly when it is bound to the root principal; a bound key has its principal.\<close>

definition key_bound :: "db \<Rightarrow> key_row \<Rightarrow> bool" where
  "key_bound d k \<longleftrightarrow> (case k_principal k of
     None \<Rightarrow> \<not> k_bootstrap k
   | Some pid \<Rightarrow> (case find_row pr_id pid (principals d) of
       None \<Rightarrow> False | Some p \<Rightarrow> k_bootstrap k = pr_is_root p))"

lemma key_bound_cong: "principals d' = principals d \<Longrightarrow> key_bound d' k = key_bound d k"
  by (simp add: key_bound_def split: option.split)

lemma key_bound_key:
  "k_principal x = k_principal k \<Longrightarrow> k_bootstrap x = k_bootstrap k \<Longrightarrow> key_bound d x = key_bound d k"
  by (simp add: key_bound_def split: option.split)

definition keys_ok :: "auth_db \<Rightarrow> bool" where
  "keys_ok s \<longleftrightarrow> sorted_wrt (\<lambda>x y. \<not> keys_collide x y) (api_keys s) \<and> (\<forall>k \<in> set (api_keys s). key_bound (hub s) k)"

definition invites_ok :: "invite_row list \<Rightarrow> bool" where
  "invites_ok is \<longleftrightarrow> pkey iv_id is \<and> pkey iv_hash is"

definition auth_ok :: "auth_db \<Rightarrow> bool" where
  "auth_ok s \<longleftrightarrow> principals_ok (hub s) \<and> keys_ok s \<and> pkey hc_principal (human_credentials s) \<and>
     pkey se_id (sessions s) \<and> invites_ok (invites s) \<and> pkey at_id (auth_tokens s) \<and> pkey at_hash (auth_tokens s) \<and>
     pkey fa_id (mfa_factors s)"

definition sound :: "auth_db \<Rightarrow> auth_db \<Rightarrow> bool" where
  "sound s s' \<longleftrightarrow> auth_ok s \<longrightarrow> auth_ok s' \<and> auth_evolved s s'"

section \<open>Relations on the tables\<close>

text \<open>The contract of the calls: \<open>R\<close> composes, and drawing identifiers and random values is nothing.\<close>

locale auth_effect = path R for R :: "auth_db \<Rightarrow> auth_db \<Rightarrow> bool" +
  assumes rel_outside:
    "R s (s\<lparr>hub := (hub s)\<lparr>fencing_seq := f, uuid_ctr := u, authz_decisions := l\<rparr>, draws := n\<rparr>)"
begin

lemma rel_draws: "R s (draw s)" "R s (spend_uuid s)" "R s (auth_rollback s s')"
  using rel_outside [where s = s and n = "Suc (draws s)" and f = "fencing_seq (hub s)" and u = "uuid_ctr (hub s)"
      and l = "authz_decisions (hub s)"]
    rel_outside [where s = s and n = "draws s" and f = "fencing_seq (hub s)" and u = "Suc (uuid_ctr (hub s))"
      and l = "authz_decisions (hub s)"]
    rel_outside [where s = s and n = "draws s'" and f = "fencing_seq (hub s')" and u = "uuid_ctr (hub s')"
      and l = "authz_decisions (hub s)"]
  by (simp_all add: draw_def spend_uuid_def auth_rollback_def rollback_def)

lemma rel_skip: "R s (s\<lparr>draws := n\<rparr>)"
  using rel_outside [where s = s and n = n and f = "fencing_seq (hub s)" and u = "uuid_ctr (hub s)"
      and l = "authz_decisions (hub s)"]
  by simp

lemma rel_refuse: "R s (snd (refuse c s))"
  by (simp add: refuse_def)

lemma rel_andThen: "R s (snd out) \<Longrightarrow> (\<And>a s'. out = (Inr a, s') \<Longrightarrow> R s' (snd (f a s'))) \<Longrightarrow> R s (snd (andThen out f))"
  by (cases out; cases "fst out") (auto intro: rel_trans)

lemma rel_stmt: "R s (snd (f s)) \<Longrightarrow> after (\<lambda>_. R s) (stmt f s)"
  by (auto simp: after_stmt)

lemma rel_auth_transaction: "after (\<lambda>_. R s) (body s) \<Longrightarrow> R s (snd (auth_transaction body s))"
  by (auto simp: auth_transaction_def rel_draws split: prod.splits ctl.splits)

lemma rel_drawn: "R (draw s) s' \<Longrightarrow> R s s'" "R (spend_uuid s) s' \<Longrightarrow> R s s'"
  by (blast intro: rel_trans rel_draws)+

end

interpretation sound: auth_effect sound
proof
  show "sound s s" for s by (auto simp: sound_def auth_evolved_def table_kept_def intro: kept_refl)
  show "sound s s'" if "sound s t" "sound t s'" for s t s'
    using that unfolding sound_def auth_evolved_def by (blast intro: table_kept_trans kept_trans)
  fix s :: auth_db and n f u l
  let ?d' = "(hub s)\<lparr>fencing_seq := f, uuid_ctr := u, authz_decisions := l\<rparr>"
  let ?s' = "s\<lparr>hub := (hub s)\<lparr>fencing_seq := f, uuid_ctr := u, authz_decisions := l\<rparr>, draws := n\<rparr>"
  have "auth_ok ?s'" if "auth_ok s"
    using that key_bound_cong [of ?d' "hub s"] by (simp add: auth_ok_def principals_ok_def keys_ok_def)
  moreover have "auth_evolved s ?s'"
    by (simp add: auth_evolved_def table_kept_refl)
  ultimately show "sound s ?s'" by (simp add: sound_def)
qed

section \<open>Changes of the hub\<close>

text \<open>What an operation may do to the principals.\<close>

definition principals_kept :: "db \<Rightarrow> db \<Rightarrow> bool" where
  "principals_kept d d' \<longleftrightarrow> principals_ok d \<longrightarrow> principals_ok d' \<and> table_kept principal_kept (principals d) (principals d')"

lemma principals_kept_find:
  assumes "principals_kept d d'" "principals_ok d" "find_row pr_id pid (principals d) = Some p"
  shows "\<exists>q. find_row pr_id pid (principals d') = Some q \<and> principal_kept p q"
proof -
  have p: "p \<in> set (principals d)" "pr_id p = pid" using find_row_Some [OF assms(3)] by simp_all
  have both: "principals_ok d' \<and> table_kept principal_kept (principals d) (principals d')"
    using assms(1,2) unfolding principals_kept_def by blast
  then have ok: "pkey pr_id (principals d')" "table_kept principal_kept (principals d) (principals d')"
    unfolding principals_ok_def by blast+
  then obtain q where q: "q \<in> set (principals d')" "principal_kept p q"
    using p(1) unfolding table_kept_def by blast
  moreover have "pr_id q = pid" using q(2) p(2) by (simp add: principal_kept_def)
  ultimately show ?thesis using find_row_pkey [OF ok(1) q(1)] by blast
qed

lemma key_bound_kept:
  assumes "principals_kept d d'" "principals_ok d" "key_bound d k"
  shows "key_bound d' k"
proof (cases "k_principal k")
  case (Some pid)
  then obtain p where p: "find_row pr_id pid (principals d) = Some p" "k_bootstrap k = pr_is_root p"
    using assms(3) by (auto simp: key_bound_def split: option.splits)
  then obtain q where "find_row pr_id pid (principals d') = Some q" "principal_kept p q"
    using principals_kept_find [OF assms(1,2)] by blast
  then show ?thesis using Some p by (simp add: key_bound_def principal_kept_def)
qed (use assms(3) in \<open>simp add: key_bound_def\<close>)

lemma sound_hub:
  assumes "principals_kept (hub s) d'"
  shows "sound s (s\<lparr>hub := d'\<rparr>)"
proof -
  have "auth_ok (s\<lparr>hub := d'\<rparr>) \<and> auth_evolved s (s\<lparr>hub := d'\<rparr>)" if ok: "auth_ok s"
  proof -
    have p: "principals_ok (hub s)" using ok by (simp add: auth_ok_def)
    then have "principals_ok d'" "table_kept principal_kept (principals (hub s)) (principals d')"
      using assms by (simp_all add: principals_kept_def)
    moreover have "keys_ok (s\<lparr>hub := d'\<rparr>)"
      using ok key_bound_kept [OF assms p] by (simp add: auth_ok_def keys_ok_def)
    ultimately show ?thesis using ok by (simp add: auth_ok_def auth_evolved_def table_kept_refl)
  qed
  then show ?thesis by (simp add: sound_def)
qed

lemma principals_kept_same: "principals d' = principals d \<Longrightarrow> principals_kept d d'"
  by (auto simp: principals_kept_def principals_ok_def intro: table_kept_refl)

lemma sound_hub_same: "principals d' = principals (hub s) \<Longrightarrow> sound s (s\<lparr>hub := d'\<rparr>)"
  by (rule sound_hub) (rule principals_kept_same)

lemma snd_on_hub [simp]: "snd (on_hub f s) = s\<lparr>hub := snd (f (hub s))\<rparr>"
  by (simp add: on_hub_def split: prod.split)

lemma sound_on_hub: "principals_kept (hub s) (snd (f (hub s))) \<Longrightarrow> sound s (snd (on_hub f s))"
  by (simp add: sound_hub)

lemma insert_principal_kept:
  assumes "\<not> (rt \<and> sys)" and "rt \<or> sys \<Longrightarrow> st = P_active"
  shows "principals_kept d (snd (insert_principal E k st nm rt sys d))"
  unfolding principals_kept_def
proof (intro impI conjI insert_principal_ok [OF _ assms])
  show "table_kept principal_kept (principals d) (principals (snd (insert_principal E k st nm rt sys d)))"
    by (cases rule: insert_principal_cases [of E k st nm rt sys d]) (simp_all add: table_kept_refl table_kept_append)
qed

lemma createPrincipal_kept: "principals_kept d (snd (createPrincipal E k nm st d))"
  by (auto simp: createPrincipal_def throw_def intro: insert_principal_kept principals_kept_same
      split: option.split sum.split)

lemma seedRootPrincipal_kept: "principals_kept d (snd (seedRootPrincipal E nm d))"
  by (auto simp: seedRootPrincipal_def throw_def intro: insert_principal_kept principals_kept_same split: sum.split)

lemma seedSystemPrincipal_kept: "principals_kept d (snd (seedSystemPrincipal E nm d))"
  by (auto simp: seedSystemPrincipal_def throw_def intro: insert_principal_kept principals_kept_same split: sum.split)

lemma setPrincipalStatus_kept: "principals_kept d (snd (setPrincipalStatus E pid st d))"
proof -
  have "table_kept principal_kept (principals d) (principals (snd (setPrincipalStatus E pid st d)))"
    by (auto simp: setPrincipalStatus_def throw_def principal_kept_def status_movable_def
        intro!: table_kept_intros split: option.split)
  then show ?thesis by (simp add: principals_kept_def setPrincipalStatus_ok)
qed

lemma createGrant_principals: "principals (snd (createGrant E gr sty sid cap who d)) = principals d"
proof (cases rule: createGrant_cases [of E gr sty sid cap who d])
  case (2 e)
  then show ?thesis
    by (cases rule: grant_round_cases [of e d E who]) (auto simp: snd_grant_loop)
qed simp

lemma grant_round_principals: "principals (snd (grant_round E e who d)) = principals d"
  by (cases rule: grant_round_cases [of e d E who]) auto

section \<open>Writes of one table\<close>

text \<open>Each table may be replaced by one that keeps its keys and evolves.\<close>

lemma sound_creds:
  "(pkey hc_principal (human_credentials s) \<Longrightarrow> pkey hc_principal cs) \<Longrightarrow> sound s (s\<lparr>human_credentials := cs\<rparr>)"
  by (simp add: sound_def auth_ok_def keys_ok_def auth_evolved_def table_kept_refl)

lemma sound_factors: "(pkey fa_id (mfa_factors s) \<Longrightarrow> pkey fa_id fs) \<Longrightarrow> sound s (s\<lparr>mfa_factors := fs\<rparr>)"
  by (simp add: sound_def auth_ok_def keys_ok_def auth_evolved_def table_kept_refl)

lemma sound_sessions:
  "(pkey se_id (sessions s) \<Longrightarrow> pkey se_id ss) \<Longrightarrow> table_kept session_kept (sessions s) ss \<Longrightarrow> sound s (s\<lparr>sessions := ss\<rparr>)"
  by (simp add: sound_def auth_ok_def keys_ok_def auth_evolved_def table_kept_refl)

lemma sound_invites:
  "(invites_ok (invites s) \<Longrightarrow> invites_ok is) \<Longrightarrow> table_kept invite_kept (invites s) is \<Longrightarrow> sound s (s\<lparr>invites := is\<rparr>)"
  by (simp add: sound_def auth_ok_def keys_ok_def auth_evolved_def table_kept_refl)

lemma sound_tokens:
  "(pkey at_id (auth_tokens s) \<and> pkey at_hash (auth_tokens s) \<Longrightarrow> pkey at_id ts \<and> pkey at_hash ts) \<Longrightarrow>
    table_kept token_kept (auth_tokens s) ts \<Longrightarrow> sound s (s\<lparr>auth_tokens := ts\<rparr>)"
  by (simp add: sound_def auth_ok_def keys_ok_def auth_evolved_def table_kept_refl)

lemma sound_keys:
  "(auth_ok s \<Longrightarrow> keys_ok (s\<lparr>api_keys := ks\<rparr>) \<and> table_kept key_kept (api_keys s) ks) \<Longrightarrow> sound s (s\<lparr>api_keys := ks\<rparr>)"
  by (simp add: sound_def auth_ok_def auth_evolved_def table_kept_refl)

lemma sound_when: "(auth_ok s \<Longrightarrow> sound s s') \<Longrightarrow> sound s s'"
  by (simp add: sound_def)

lemma sound_after_when: "(auth_ok s \<Longrightarrow> after (\<lambda>_. sound s) m) \<Longrightarrow> after (\<lambda>_. sound s) m"
  by (auto simp: sound_def after_def split: prod.splits ctl.splits)

section \<open>Keys\<close>

lemma keys_collide_kept:
  "key_kept x x' \<Longrightarrow> key_kept y y' \<Longrightarrow> k_name x' = k_name x \<Longrightarrow> k_name y' = k_name y \<Longrightarrow>
    keys_collide x' y' \<Longrightarrow> keys_collide x y"
  by (auto simp: keys_collide_def key_kept_def)

lemma sound_key_update:
  assumes "\<And>k. key_kept k (f k)" and "\<And>k. k_name (f k) = k_name k"
  shows "sound s (s\<lparr>api_keys := update_where Q f (api_keys s)\<rparr>)"
proof (rule sound_keys, intro conjI)
  assume "auth_ok s"
  then have ok: "sorted_wrt (\<lambda>x y. \<not> keys_collide x y) (api_keys s)" "\<forall>k \<in> set (api_keys s). key_bound (hub s) k"
    by (simp_all add: auth_ok_def keys_ok_def)
  let ?g = "\<lambda>k. if Q k then f k else k"
  have "key_kept k (?g k)" "k_name (?g k) = k_name k" for k using assms by simp_all
  then have "sorted_wrt (\<lambda>x y. \<not> keys_collide (?g x) (?g y)) (api_keys s)"
    using keys_collide_kept by (intro sorted_wrt_mono_rel [OF _ ok(1)]) blast
  moreover have "key_bound (hub s) (f k) = key_bound (hub s) k" for k
    using assms(1) [of k] key_bound_key [of "f k" k] by (simp add: key_kept_def)
  then have "\<forall>k \<in> set (update_where Q f (api_keys s)). key_bound (hub s) k"
    using ok(2) by (auto simp: set_update_where)
  ultimately show "keys_ok (s\<lparr>api_keys := update_where Q f (api_keys s)\<rparr>)"
    by (simp add: keys_ok_def update_where_def sorted_wrt_map)
  show "table_kept key_kept (api_keys s) (update_where Q f (api_keys s))"
    using assms(1) by (intro table_kept_intros) simp_all
qed

lemma sound_insert_key:
  assumes "key_bound (hub s) k"
  shows "sound s (snd (insert_key k s))"
proof (cases "exists_where (keys_collide k) (api_keys s)")
  case False
  have "\<not> keys_collide x k" if "x \<in> set (api_keys s)" for x
    using False that by (auto simp: exists_where_def list_ex_iff keys_collide_def)
  then show ?thesis
    using False assms by (auto simp: insert_key_def keys_ok_def auth_ok_def sorted_wrt_append
        intro!: sound_keys table_kept_append)
qed (simp add: insert_key_def)

lemma hub_draws [simp]: "hub (draw s) = hub s" "principals (hub (spend_uuid s)) = principals (hub s)"
  "api_keys (draw s) = api_keys s" "api_keys (spend_uuid s) = api_keys s"
  by (simp_all add: draw_def spend_uuid_def)

lemma eligible_bound: "eligible pid s \<Longrightarrow> k_principal k = pid \<Longrightarrow> \<not> k_bootstrap k \<Longrightarrow> principals_ok (hub s) \<Longrightarrow> key_bound (hub s) k"
  by (auto simp: eligible_def key_bound_def exists_where_def list_ex_iff principals_ok_def
      dest!: find_row_pkey split: option.splits)

lemma sound_mint_key: "sound s (snd (mint_key A name role scope expires by_whom owner s))"
proof (cases "eligible owner (draw s)")
  case True
  let ?k = "new_key A (draw s) name (generateKey A (draws s)) role scope expires by_whom owner False"
  have "sound (spend_uuid (draw s)) (snd (insert_key ?k (spend_uuid (draw s))))"
  proof (rule sound_when, rule sound_insert_key)
    assume "auth_ok (spend_uuid (draw s))"
    then have "principals_ok (hub (draw s))" by (simp add: auth_ok_def principals_ok_def)
    then have "key_bound (hub (draw s)) ?k" using True by (intro eligible_bound) (simp_all add: new_key_def)
    then show "key_bound (hub (spend_uuid (draw s))) ?k" using key_bound_cong by (metis hub_draws(2))
  qed
  then have "sound s (snd (insert_key ?k (spend_uuid (draw s))))"
    by (blast intro: sound.rel_drawn)
  then show ?thesis using True by (auto simp: mint_key_def Let_def intro: sound.rel_andThen)
qed (simp add: mint_key_def Let_def sound.rel_refuse sound.rel_draws)

lemma sound_createApiKey: "sound s (snd (createApiKey A name role scope expires by_whom owner s))"
  by (auto simp: createApiKey_def Let_def sound_mint_key split: option.split)

lemma sound_createEphemeralApiKey: "sound s (snd (createEphemeralApiKey A name role scope owner by_whom ttl s))"
  by (auto simp: createEphemeralApiKey_def Let_def sound_createApiKey intro!: sound.rel_andThen split: option.split)

lemma sound_revokeApiKey: "sound s (snd (revokeApiKey A kid s))"
  by (auto simp: revokeApiKey_def revoke_key_def key_kept_def intro!: sound_key_update)

lemma sound_validateApiKey: "sound s (snd (validateApiKey A token s))"
  by (auto simp: validateApiKey_def set_key_def key_kept_def intro!: sound_key_update split: option.split)

lemma sound_bootstrap_body:
  assumes "find_row pr_id pid (principals (hub s)) = Some p" and "pr_is_root p"
  shows "after (\<lambda>_. sound s) (bootstrap_body A pid key s)"
proof -
  let ?s = "s\<lparr>api_keys := update_where (live_bootstrap pid) revoke_key (api_keys s)\<rparr>"
  let ?k = "new_key A ?s (''root-bootstrap-'' @ take 20 (drop 8 key)) key ''admin'' None None (Some ''bootstrap:root'') (Some pid) True"
  have "sound s ?s" by (rule sound_key_update) (simp_all add: revoke_key_def key_kept_def)
  moreover have "key_bound (hub (spend_uuid ?s)) ?k" using assms by (simp add: key_bound_def new_key_def)
  then have "sound (spend_uuid ?s) (snd (insert_key ?k (spend_uuid ?s)))" by (rule sound_insert_key)
  ultimately have "sound s (snd (insert_key ?k (spend_uuid ?s)))"
    by (blast intro: sound.rel_trans sound.rel_drawn)
  then show ?thesis by (auto simp: bootstrap_body_def after_simps)
qed

lemma sound_createBootstrapRootKey: "sound s (snd (createBootstrapRootKey A pid s))"
proof -
  have "sound s (snd (auth_transaction (bootstrap_body A pid key) (draw s)))"
    if "find_row pr_id pid (principals (hub s)) = Some p" "pr_is_root p" for p key
    by (rule sound.rel_drawn(1), rule sound.rel_auth_transaction, rule sound_bootstrap_body [where p = p]) (simp_all add: that)
  then show ?thesis
    by (auto simp: createBootstrapRootKey_def getPrincipal_def split: sum.split option.split)
qed

lemma sound_rotate_body: "after (\<lambda>_. sound s) (rotate_body A kid overlap key s)"
proof (rule sound_after_when)
  assume ok: "auth_ok s"
  show "after (\<lambda>_. sound s) (rotate_body A kid overlap key s)"
  proof (cases "find_row k_id kid (api_keys s)")
    case (Some old)
    let ?k = "new_key A s (successor_name A (k_name old)) key (k_role old) (k_scope old) None (k_created_by old) (k_principal old) False"
    have "sound (spend_uuid s) (snd (insert_key ?k (spend_uuid s)))" if "\<not> k_bootstrap old"
    proof (rule sound_insert_key)
      have "key_bound (hub s) old" using ok find_row_in [OF Some] by (simp add: auth_ok_def keys_ok_def)
      then have "key_bound (hub s) ?k" using that by (simp add: key_bound_def new_key_def cong: option.case_cong)
      then show "key_bound (hub (spend_uuid s)) ?k" using key_bound_cong by (metis hub_draws(2))
    qed
    then have ins: "sound s s'" if "insert_key ?k (spend_uuid s) = (Inr r, s')" "\<not> k_bootstrap old" for r s'
      using that by (metis snd_conv sound.rel_drawn(2))
    have "sound s' (set_key kid revoke_key s')" "sound s' (set_key kid (\<lambda>k. k\<lparr>k_expires := x\<rparr>) s')" for s' x
      by (auto simp: set_key_def revoke_key_def key_kept_def intro!: sound_key_update)
    then show ?thesis
      using Some by (auto simp: rotate_body_def after_simps Let_def intro: sound.rel_trans [OF ins])
  qed (simp add: rotate_body_def)
qed

lemma sound_rotateApiKey: "sound s (snd (rotateApiKey A kid overlap s))"
proof -
  have "sound s (snd (auth_transaction (rotate_body A kid overlap key) (draw s)))" for overlap key
    by (rule sound.rel_drawn(1), rule sound.rel_auth_transaction, rule sound_rotate_body)
  then show ?thesis by (simp add: rotateApiKey_def sound.rel_refuse Let_def split: option.split)
qed

end
