(* ===== verification/AuthSystem.thy ===== *)
theory AuthSystem
  imports System AuthLaw
begin

text \<open>
  Every operation on the tables of authentication keeps their law, and the system they make: the calls of
  the services, the routes and the middlewares, interleaved with the operations of the coordination hub,
  which leave the principals alone.
\<close>

lemma tables_draws [simp]:
  "auth_tokens (draw s) = auth_tokens s" "auth_tokens (spend_uuid s) = auth_tokens s"
  "invites (draw s) = invites s" "invites (spend_uuid s) = invites s"
  "sessions (draw s) = sessions s" "sessions (spend_uuid s) = sessions s"
  by (simp_all add: draw_def spend_uuid_def)

section \<open>Credentials\<close>

lemma snd_hashPassword: "snd (hashPassword A p s) = s \<or> snd (hashPassword A p s) = draw s"
  by (simp add: hashPassword_def)

lemma sound_hashPassword: "sound s (snd (hashPassword A p s))"
  using snd_hashPassword [of A p s] sound.rel_draws by auto

lemma sound_set_cred: "(\<And>c. hc_principal (f c) = hc_principal c) \<Longrightarrow> sound s (set_cred pid f s)"
  unfolding set_cred_def by (rule sound_creds) (simp add: pkey_update_where)

lemma sound_add_cred:
  "find_row hc_principal (hc_principal c) (human_credentials s) = None \<Longrightarrow>
    sound s (s\<lparr>human_credentials := human_credentials s @ [c]\<rparr>)"
  by (rule sound_creds) (simp add: pkey_snoc)

lemma sound_setPassword: "sound s (snd (setPassword A pid p s))"
proof -
  have "sound s' (if find_row hc_principal pid (human_credentials s') = None
      then s'\<lparr>human_credentials := human_credentials s' @ [new_cred pid h]\<rparr>
      else set_cred pid (\<lambda>c. c\<lparr>hc_hash := h, hc_failed := 0, hc_soft_until := None, hc_hard := False\<rparr>) s')" for h s'
    by (simp add: sound_set_cred sound_add_cred new_cred_def)
  then show ?thesis unfolding setPassword_def
    by (intro sound.rel_andThen sound_hashPassword) simp
qed

lemma sound_rehashIfNeeded: "sound s (snd (rehashIfNeeded A pid p h s))"
  by (simp add: rehashIfNeeded_def sound.rel_andThen sound_hashPassword sound_set_cred)

lemma kept_principal [simp]:
  "hc_principal (fail_row E pol c) = hc_principal c" "hc_principal (clear_row c) = hc_principal c"
  by (simp_all add: fail_row_def clear_row_def Let_def)

lemma sound_set_creds: "(pkey hc_principal (human_credentials s) \<Longrightarrow> pkey hc_principal (f (human_credentials s))) \<Longrightarrow>
    sound s (set_creds f s)"
  unfolding set_creds_def by (rule sound_creds)

lemma pkey_lockout:
  "pkey hc_principal cs \<Longrightarrow> pkey hc_principal (snd (recordFailure E pol pid cs))"
  "pkey hc_principal cs \<Longrightarrow> pkey hc_principal (recordSuccess E pid cs)"
  "pkey hc_principal cs \<Longrightarrow> pkey hc_principal (clearLockout pid cs)"
  by (simp_all add: recordFailure_def recordSuccess_def clearLockout_def pkey_update_where split: option.split)

lemma sound_notes: "sound s (note_failure A pid s)" "sound s (note_success A pid s)"
  unfolding note_failure_def note_success_def by (rule sound_set_creds, simp add: pkey_lockout)+

lemma sound_clearLockout: "sound s (s\<lparr>human_credentials := clearLockout pid (human_credentials s)\<rparr>)"
  by (rule sound_creds) (rule pkey_lockout)

section \<open>Tokens\<close>

lemma sound_issueAuthToken: "sound s (snd (issueAuthToken A pid purpose s))"
proof -
  have "sound u (u\<lparr>auth_tokens := auth_tokens u @ [t]\<rparr>)"
    if "\<not> exists_where (\<lambda>x. at_id x = at_id t \<or> at_hash x = at_hash t) (auth_tokens u)" for u t
    using that by (intro sound_tokens table_kept_append) (auto simp: pkey_def exists_where_def list_ex_iff)
  from this [of _ "spend_uuid (draw s)"]
  have "sound (spend_uuid (draw s)) (snd (issueAuthToken A pid purpose s))"
    by (simp add: issueAuthToken_def Let_def)
  then show ?thesis by (blast intro: sound.rel_drawn)
qed

lemma sound_reset_body: "after (\<lambda>_. sound s) (reset_body A token p s)"
proof (cases "find (redeemable A token) (auth_tokens s)")
  case (Some t)
  let ?s = "s\<lparr>auth_tokens := update_where (redeemable A token) (\<lambda>t. t\<lparr>at_consumed := Some (db_now A)\<rparr>) (auth_tokens s)\<rparr>"
  have "sound s ?s"
    by (intro sound_tokens table_kept_intros)
      (simp_all add: pkey_update_where token_kept_def stays_def redeemable_def)
  then have "sound s (set_cred pid (\<lambda>c. c\<lparr>hc_hash := h\<rparr>) s')"
    if "hashPassword A p ?s = (Inr h, s')" for pid h s'
    using that sound_hashPassword [of ?s A p] sound_set_cred [of "\<lambda>c. c\<lparr>hc_hash := h\<rparr>" s' pid]
    by (metis (no_types, lifting) cred_row.select_convs(1) cred_row.surjective cred_row.update_convs(7) snd_conv sound.rel_trans)
  then show ?thesis using Some by (simp add: reset_body_def after_simps)
qed (simp add: reset_body_def)

lemma sound_resetPassword: "sound s (snd (resetPassword A token p s))"
  unfolding resetPassword_def
  by (auto intro!: sound.rel_andThen sound.rel_auth_transaction sound_reset_body sound_clearLockout simp: sound.rel_refuse)

section \<open>Second factors\<close>

lemma sound_insert_factor: "sound s (snd (insert_factor f s))"
proof (cases "exists_where (\<lambda>x. fa_id x = fa_id f \<or> fa_type f = Totp \<and> fa_verified f \<noteq> None \<and> fa_type x = Totp \<and>
             fa_verified x \<noteq> None \<and> fa_principal x = fa_principal f) (mfa_factors s)")
  case False
  then have "find_row fa_id (fa_id f) (mfa_factors s) = None"
    by (auto simp: exists_where_def list_ex_iff find_row_None)
  moreover have "snd (insert_factor f s) = s\<lparr>mfa_factors := mfa_factors s @ [f]\<rparr>"
    using False by (simp add: insert_factor_def)
  ultimately show ?thesis by (simp add: sound_factors pkey_snoc)
qed (simp add: insert_factor_def)

lemma sound_set_factor: "(\<And>x. fa_id (f x) = fa_id x) \<Longrightarrow> sound s (set_factor fid f s)"
  unfolding set_factor_def by (rule sound_factors) (simp add: pkey_update_where)

lemma sound_enrollTotp: "sound s (snd (enrollTotp A pid label s))"
proof -
  let ?P = "\<lambda>f. fa_principal f = pid \<and> fa_type f = Totp \<and> fa_verified f = None"
  let ?t = "s\<lparr>draws := draws s + 21\<rparr>"
  let ?s = "s\<lparr>draws := draws s + 21, mfa_factors := delete_where ?P (mfa_factors s)\<rparr>"
  have "sound ?t (?t\<lparr>mfa_factors := delete_where ?P (mfa_factors ?t)\<rparr>)"
    by (rule sound_factors) (rule pkey_delete_where)
  then have "sound s ?s" using sound.rel_trans [OF sound.rel_skip] by simp
  then have "sound s (spend_uuid ?s)" using sound.rel_draws(2) by (rule sound.rel_trans)
  then have "sound s (snd (insert_factor f (spend_uuid ?s)))" for f
    using sound_insert_factor sound.rel_trans by blast
  then show ?thesis by (simp add: enrollTotp_def Let_def sound.rel_andThen)
qed

lemma sound_verifyTotpEnrollment: "sound s (snd (verifyTotpEnrollment A pid fid code s))"
  by (simp add: verifyTotpEnrollment_def sound.rel_refuse sound_set_factor split: option.split)

lemma sound_strike_factor: "sound s (snd (strike_factor A h fs s))"
  by (induction fs) (auto simp: sound_set_factor split: option.split)

lemma sound_verifyMfaChallenge: "sound s (snd (verifyMfaChallenge A pid code s))"
  using sound_strike_factor [of s A "sha256 A (trim code)" "totp_factors pid s"]
  by (auto simp: verifyMfaChallenge_def sound.rel_refuse split: option.split bool.split prod.split)

lemma sound_registerWebauthn: "sound s (snd (registerWebauthn A pid blob label s))"
  unfolding registerWebauthn_def by (rule sound.rel_drawn(2)) (rule sound_insert_factor)

section \<open>Invites\<close>

lemma sound_issueInvite: "sound s (snd (issueInvite A email by_whom nm kind tpl ttl s))"
proof -
  have "sound (spend_uuid (draw s)) ((spend_uuid (draw s))\<lparr>invites := invites s @ [i]\<rparr>)"
    if "\<not> exists_where (\<lambda>x. iv_id x = iv_id i \<or> iv_hash x = iv_hash i) (invites s)" for i
    using that by (intro sound_invites)
      (auto simp: invites_ok_def pkey_def exists_where_def list_ex_iff intro: table_kept_append)
  then have "sound s ((spend_uuid (draw s))\<lparr>invites := invites s @ [i]\<rparr>)"
    if "\<not> exists_where (\<lambda>x. iv_id x = iv_id i \<or> iv_hash x = iv_hash i) (invites s)" for i
    using that by (blast intro: sound.rel_drawn)
  moreover have "sound s (spend_uuid (draw s))" by (blast intro: sound.rel_drawn)
  ultimately show ?thesis
    by (simp add: issueInvite_def Let_def sound.rel_refuse split: option.split sum.split)
qed

lemma invites_ok_update:
  "(\<And>i. iv_id (f i) = iv_id i) \<Longrightarrow> (\<And>i. iv_hash (f i) = iv_hash i) \<Longrightarrow> invites_ok (update_where Q f is) = invites_ok is"
  by (simp add: invites_ok_def pkey_update_where)

lemma sound_insert_cred: "sound s (snd (insert_cred pid h s))"
  by (simp add: insert_cred_def sound_add_cred new_cred_def)

lemma sound_starter_grant: "sound s (snd (starter_grant A i pid s))"
  by (auto simp: starter_grant_def sound_hub_same grant_round_principals intro!: sound.rel_andThen split: option.split)

lemma sound_stmt_chain:
  "sound s s' \<Longrightarrow> sound s' (snd (f s')) \<Longrightarrow> (\<And>a t. sound s t \<Longrightarrow> after (\<lambda>_. sound s) (g a t)) \<Longrightarrow>
    after (\<lambda>_. sound s) (tx_bind (stmt f) g s')"
  by (auto simp: after_simps) (metis snd_conv sound.rel_trans)

lemma sound_unit_chain:
  "sound s s' \<Longrightarrow> sound s' (snd (f s')) \<Longrightarrow> (\<And>t. sound s t \<Longrightarrow> after (\<lambda>_. sound s) (m t)) \<Longrightarrow>
    after (\<lambda>_. sound s) (tx_then (tx_unit (stmt f)) m s')"
  by (auto simp: after_simps) (metis snd_conv sound.rel_trans)

lemma sound_write_chain:
  "sound s s' \<Longrightarrow> sound s' (f s') \<Longrightarrow> (sound s (f s') \<Longrightarrow> after (\<lambda>_. sound s) (m (f s'))) \<Longrightarrow>
    after (\<lambda>_. sound s) (tx_then (tx_write f) m s')"
  by (auto simp: after_simps) (metis sound.rel_trans)

lemma sound_link_invite:
  "sound s (s\<lparr>invites := update_where Q (\<lambda>x. x\<lparr>iv_principal := pid\<rparr>) (invites s)\<rparr>)"
  by (intro sound_invites table_kept_intros) (simp_all add: invites_ok_update invite_kept_def stays_def)

lemma sound_accept_body: "after (\<lambda>_. sound s) (accept_body A token p nm s)"
proof (cases "find (open_invite A token) (invites s)")
  case (Some i)
  have taken: "sound s (s\<lparr>invites := update_where (open_invite A token) (\<lambda>i. i\<lparr>iv_accepted := Some (db_now A)\<rparr>) (invites s)\<rparr>)"
    by (intro sound_invites table_kept_intros) (simp_all add: invites_ok_update invite_kept_def stays_def open_invite_def)
  have "accept_body A token p nm s =
     tx_then (tx_write (\<lambda>s. s\<lparr>invites := update_where (open_invite A token)
                   (\<lambda>i. i\<lparr>iv_accepted := Some (db_now A)\<rparr>) (invites s)\<rparr>))
      (tx_bind (stmt (on_hub (insert_principal (hub_env A) (iv_kind i) P_active (invited_name nm i) False False))) (\<lambda>pr.
       tx_bind (stmt (hashPassword A p)) (\<lambda>h.
       tx_then (tx_unit (stmt (insert_cred (pr_id pr) h)))
      (tx_then (tx_unit (stmt (starter_grant A i (pr_id pr))))
      (tx_then (tx_write (\<lambda>s. s\<lparr>invites := update_where (\<lambda>x. iv_id x = iv_id i)
                   (\<lambda>x. x\<lparr>iv_principal := Some (pr_id pr)\<rparr>) (invites s)\<rparr>))
         (tx_return (pr_id pr, invited_name nm i, iv_email i))))))) s"
    using Some by (simp add: accept_body_def)
  moreover have "after (\<lambda>_. sound s) \<dots>"
    by (rule sound_write_chain, rule sound.rel_refl, rule taken, rule sound_stmt_chain, assumption,
        rule sound_on_hub, rule insert_principal_kept, simp, simp,
        rule sound_stmt_chain, assumption, rule sound_hashPassword,
        rule sound_unit_chain, assumption, rule sound_insert_cred,
        rule sound_unit_chain, assumption, rule sound_starter_grant,
        rule sound_write_chain, assumption, rule sound_link_invite, simp add: after_simps)
  ultimately show ?thesis by simp
qed (simp add: accept_body_def)

lemma sound_acceptInvite: "sound s (snd (acceptInvite A token p nm s))"
  by (simp add: acceptInvite_def sound.rel_refuse sound.rel_auth_transaction sound_accept_body)

section \<open>Sessions\<close>

lemma sound_createSession: "sound s (snd (createSession A pid aal ip agent s))"
proof -
  have "sound (spend_uuid (draw s)) ((spend_uuid (draw s))\<lparr>sessions := sessions s @ [se]\<rparr>)"
    if "find_row se_id (se_id se) (sessions s) = None" for se
    using that sound_sessions [of "spend_uuid (draw s)" "sessions s @ [se]"]
    by (simp add: pkey_snoc table_kept_append)
  then have "sound (spend_uuid (draw s)) (snd (createSession A pid aal ip agent s))"
    by (simp add: createSession_def Let_def)
  then show ?thesis by (blast intro: sound.rel_drawn)
qed

lemma sound_session_update:
  "(\<And>se. Q se \<Longrightarrow> session_kept se (f se)) \<Longrightarrow> (\<And>se. se_id (f se) = se_id se) \<Longrightarrow>
    sound s (s\<lparr>sessions := update_where Q f (sessions s)\<rparr>)"
  by (intro sound_sessions table_kept_intros) (simp_all add: pkey_update_where)

lemma session_kept_changes:
  "session_kept se (touch A se)" "se_id (touch A se) = se_id se"
  "se_revoked se = None \<Longrightarrow> session_kept se (se\<lparr>se_revoked := t\<rparr>)"
  by (simp_all add: session_kept_def touch_def stays_def)

lemma sound_resolveSession: "sound s (snd (resolveSession A cookie s))"
  by (auto simp: resolveSession_def session_kept_changes intro!: sound_session_update split: option.split)

lemma sound_revoke_sessions: "sound s (snd (revoke_sessions A Q s))"
  by (auto simp: revoke_sessions_def session_kept_changes intro!: sound_session_update)

lemma sound_revokeSession: "sound s (snd (revokeSession A pid sid s))"
  by (simp add: revokeSession_def split_def sound_revoke_sessions)

lemma sound_revokeAllSessions: "sound s (snd (revokeAllSessions A pid s))"
  by (simp add: revokeAllSessions_def sound_revoke_sessions)

lemma sound_revokeOtherSessions: "sound s (snd (revokeOtherSessions A pid keep s))"
  by (simp add: revokeOtherSessions_def split_def sound_revoke_sessions)

section \<open>Surfaces\<close>

lemma sound_completeLogin: "sound s (snd (completeLogin A who pid s))"
  by (cases who) (auto simp: completeLogin_def intro: sound.rel_andThen sound.rel_trans [OF sound_notes(2) sound_createSession])

lemma sound_login: "sound s (snd (login A ip agent e p s))"
  by (auto simp: login_def sound_notes sound_completeLogin sound_rehashIfNeeded intro!: sound.rel_andThen
      split: option.split)

lemma sound_mfa_verify: "sound s (snd (mfa_verify A ip agent e p c s))"
  by (auto simp: mfa_verify_def sound_notes sound_verifyMfaChallenge intro!: sound.rel_andThen
      intro: sound.rel_trans [OF sound_notes(2) sound_createSession] split: option.split)

lemma sound_register: "sound s (snd (register A ip agent t p nm s))"
  by (auto simp: register_def sound_acceptInvite sound_createSession intro!: sound.rel_andThen split: option.split)

lemma sound_password_forgot: "sound s (snd (password_forgot A e s))"
  by (auto simp: password_forgot_def sound_issueAuthToken intro!: sound.rel_andThen split: option.split)

lemma sound_password_reset: "sound s (snd (password_reset A t p s))"
  by (auto simp: password_reset_def sound_resetPassword intro!: sound.rel_andThen split: option.split)

lemma sound_requireSession: "sound s (snd (requireSession A rq s))"
  using sound_resolveSession [of s A]
  by (auto simp: requireSession_def split: option.splits prod.splits sum.splits) (metis snd_conv)+

lemma sound_with_session:
  assumes "\<And>se t. sound t (snd (handler se t))"
  shows "sound s (snd (with_session A rq handler s))"
proof -
  obtain r t where q: "requireSession A rq s = (r, t)" by force
  then have "sound s t" using sound_requireSession by (metis snd_conv)
  then show ?thesis
    using q sound.rel_trans [OF _ assms] by (auto simp: with_session_def split: mw.split option.split)
qed

lemma sound_session_routes:
  "sound s (snd (logout A rq s))" "sound s (snd (sessions_list A rq s))" "sound s (snd (session_delete A rq sid s))"
  "sound s (snd (sessions_revoke_others A rq s))" "sound s (snd (mfa_enroll A rq label s))"
  "sound s (snd (mfa_enroll_verify A rq f c s))"
  unfolding logout_def sessions_list_def session_delete_def sessions_revoke_others_def mfa_enroll_def mfa_enroll_verify_def
  by (rule sound_with_session, auto simp: sound.rel_refuse sound_revokeSession sound_revokeOtherSessions
      sound_enrollTotp sound_verifyTotpEnrollment intro!: sound.rel_andThen split: option.split)+

lemma sound_bearerAuth: "sound s (snd (bearerAuth A rq s))"
  using sound_validateApiKey [of s A]
  by (auto simp: bearerAuth_def Let_def split: prod.split option.split) (metis snd_conv)+

lemma sound_sessionAuth: "sound s (snd (sessionAuth A rq ca s))"
  using sound_resolveSession [of s A]
  by (auto simp: sessionAuth_def split: option.splits prod.splits sum.splits) (metis snd_conv)+

lemma sound_mw_bind: "sound s (snd m) \<Longrightarrow> (\<And>a t. sound t (snd (f a t))) \<Longrightarrow> sound s (snd (mw_bind m f))"
  by (auto simp: mw_bind_def split: prod.split mw.split intro: sound.rel_trans)

lemma sound_api_auth: "sound s (snd (api_auth A rq s))"
  by (simp add: api_auth_def sound_mw_bind sound_bearerAuth sound_sessionAuth)

lemma sound_resolveMcpCaller: "sound s (snd (resolveMcpCaller A token s))"
  using sound_validateApiKey [of s A "or_else token []"]
  by (auto simp: resolveMcpCaller_def Let_def sound.rel_refuse
      split: prod.split option.split credential_failure.split)

section \<open>Bootstrap\<close>

lemma sound_bootstrapRoot: "sound s (snd (bootstrapRoot A key nm s))"
  by (auto simp: bootstrapRoot_def sound.rel_refuse sound_createBootstrapRootKey sound_hub seedRootPrincipal_kept
      intro!: sound.rel_andThen split: option.split)

lemma sound_bootstrapSystem: "sound s (snd (bootstrapSystem A nm s))"
  by (auto simp: bootstrapSystem_def sound.rel_refuse sound_hub seedSystemPrincipal_kept sound_hub_same
      createGrant_principals intro!: sound.rel_andThen split: option.split)

lemma sound_backfill_keys: "sound s (snd (backfill_keys A rid ks r s))"
  by (induction ks arbitrary: r s)
    (auto simp: sound_hub_same createGrant_principals intro!: sound.rel_andThen split: option.split)

lemma sound_backfill: "sound s (snd (backfillGrantsFromApiKeys A restrict s))"
  by (simp add: backfillGrantsFromApiKeys_def sound.rel_refuse sound_backfill_keys split: option.split)

lemma sound_lessons: "sound s (s\<lparr>lesson_authors := l\<rparr>)"
  by (simp add: sound_def auth_ok_def keys_ok_def auth_evolved_def table_kept_refl)

lemma imported_kept:
  assumes "pkey pr_id (principals d @ map (imported A) m)"
  shows "principals_kept d (rename_hub f (d\<lparr>uuid_ctr := u, principals := principals d @ map (imported A) m\<rparr>))"
proof -
  have "filter pr_is_root (map (imported A) m) = []" "filter pr_is_system (map (imported A) m) = []"
    by (auto simp: imported_def filter_empty_conv)
  then show ?thesis
    using assms by (auto simp: principals_kept_def principals_ok_def rename_hub_def imported_def intro: table_kept_append)
qed

lemma sound_migrate: "sound s (snd (migrateCoordinationActorIds A restrict s))"
proof -
  let ?d = "\<lambda>u m f. rename_hub f ((hub s)\<lparr>uuid_ctr := u, principals := principals (hub s) @ map (imported A) m\<rparr>)"
  have "sound s (s\<lparr>hub := ?d u m f, lesson_authors := l\<rparr>)"
    if "pkey pr_id (principals (hub s) @ map (imported A) m)" for u m f l
    using sound.rel_trans [OF sound_hub [OF imported_kept [OF that]] sound_lessons] by simp
  then have "after (\<lambda>_. sound s) (migrate_body A restrict s)"
    by (simp add: migrate_body_def Let_def rename_actors_def)
  then show ?thesis
    unfolding migrateCoordinationActorIds_def by (rule sound.rel_auth_transaction)
qed

section \<open>The system\<close>

inductive auth_step :: "auth_db \<Rightarrow> auth_db \<Rightarrow> bool" where
  principal_created: "auth_step s (snd (on_hub (createPrincipal E kind nm st) s))"
| principal_moved: "auth_step s (snd (on_hub (setPrincipalStatus E pid st) s))"
| root_bootstrapped: "auth_step s (snd (bootstrapRoot A key nm' s))"
| system_bootstrapped: "auth_step s (snd (bootstrapSystem A nm' s))"
| backfilled: "auth_step s (snd (backfillGrantsFromApiKeys A restrict s))"
| migrated: "auth_step s (snd (migrateCoordinationActorIds A restrict s))"
| key_created: "auth_step s (snd (createApiKey A nm role scope xp cb own s))"
| key_ephemeral: "auth_step s (snd (createEphemeralApiKey A nm role scope own cb ttl s))"
| key_rotated: "auth_step s (snd (rotateApiKey A kid ov s))"
| key_revoked: "auth_step s (snd (revokeApiKey A kid s))"
| password_set: "auth_step s (snd (setPassword A pid pw s))"
| webauthn_registered: "auth_step s (snd (registerWebauthn A pid blob label s))"
| invite_issued: "auth_step s (snd (issueInvite A email by_whom nm' kind' tpl ttl' s))"
| sessions_ended: "auth_step s (snd (revokeAllSessions A pid s))"
| logged_in: "auth_step s (snd (login A ip agent e p s))"
| mfa_verified: "auth_step s (snd (mfa_verify A ip agent e p c s))"
| registered: "auth_step s (snd (register A ip agent t p nm' s))"
| forgot: "auth_step s (snd (password_forgot A e s))"
| reset: "auth_step s (snd (password_reset A t p s))"
| logged_out: "auth_step s (snd (logout A rq s))"
| session_listed: "auth_step s (snd (sessions_list A rq s))"
| session_deleted: "auth_step s (snd (session_delete A rq sid s))"
| others_ended: "auth_step s (snd (sessions_revoke_others A rq s))"
| enrolled: "auth_step s (snd (mfa_enroll A rq label' s))"
| enrolment_verified: "auth_step s (snd (mfa_enroll_verify A rq f c s))"
| requested: "auth_step s (snd (api_auth A rq s))"
| tool_called: "auth_step s (snd (resolveMcpCaller A token s))"
| capability_granted: "auth_step s (snd (on_hub (grantCapability E caller gr sty sid' cap) s))"
| capability_revoked: "auth_step s (snd (on_hub (revokeGrantAuthorized E caller gid) s))"
| worked: "step (hub s) d' \<Longrightarrow> principals d' = principals (hub s) \<Longrightarrow> auth_step s (s\<lparr>hub := d'\<rparr>)"

lemma authorize_principals [simp]: "principals (snd (authorize E pid act rf d)) = principals d"
proof -
  obtain l where "snd (authorize E pid act rf d) = d\<lparr>authz_decisions := l\<rparr>"
    using authorize_same [OF prod.collapse [symmetric]] by blast
  then show ?thesis by simp
qed

lemma grantCapability_principals: "principals (snd (grantCapability E caller gr sty sid cap d)) = principals d"
  by (simp add: grantCapability_def throw_def createGrant_principals split_def)

lemma revokeGrant_principals [simp]: "principals (revokeGrant E gid d) = principals d"
  by (simp add: revokeGrant_def)

lemma revokeGrantAuthorized_principals: "principals (snd (revokeGrantAuthorized E caller gid d)) = principals d"
  by (simp add: revokeGrantAuthorized_def throw_def split_def Let_def split: option.split)

lemma auth_step_sound: "auth_step s s' \<Longrightarrow> sound s s'"
proof (induction rule: auth_step.induct)
  case (worked s d')
  then show ?case by (simp add: sound_hub_same)
qed (simp_all add: sound_hub createPrincipal_kept setPrincipalStatus_kept sound_bootstrapRoot sound_bootstrapSystem
    sound_backfill sound_migrate sound_createApiKey sound_createEphemeralApiKey sound_rotateApiKey
    sound_revokeApiKey sound_setPassword sound_registerWebauthn sound_issueInvite sound_revokeAllSessions sound_login
    sound_mfa_verify sound_register sound_password_forgot sound_password_reset sound_session_routes sound_api_auth
    sound_resolveMcpCaller sound_hub_same grantCapability_principals revokeGrantAuthorized_principals)

definition auth_initial :: "auth_db \<Rightarrow> bool" where
  "auth_initial s \<longleftrightarrow> principals (hub s) = [] \<and> api_keys s = [] \<and> human_credentials s = [] \<and> sessions s = [] \<and>
     invites s = [] \<and> auth_tokens s = [] \<and> mfa_factors s = []"

inductive auth_reachable :: "auth_db \<Rightarrow> bool" where
  auth_start: "auth_initial s \<Longrightarrow> auth_reachable s"
| auth_further: "auth_reachable s \<Longrightarrow> auth_step s s' \<Longrightarrow> auth_reachable s'"

abbreviation auth_later :: "auth_db \<Rightarrow> auth_db \<Rightarrow> bool" where
  "auth_later \<equiv> auth_step\<^sup>*\<^sup>*"

lemma auth_reachable_ok: "auth_reachable s \<Longrightarrow> auth_ok s"
proof (induction rule: auth_reachable.induct)
  case (auth_start s)
  then show ?case by (simp add: auth_initial_def auth_ok_def principals_ok_def keys_ok_def invites_ok_def)
next
  case (auth_further s s')
  then show ?case using auth_step_sound by (simp add: sound_def)
qed

lemma auth_later_sound: "auth_later s s' \<Longrightarrow> sound s s'"
  by (induction rule: rtranclp_induct) (auto intro: sound.rel_trans auth_step_sound)

lemma auth_later_kept: "auth_later s s' \<Longrightarrow> auth_reachable s \<Longrightarrow> auth_ok s \<and> auth_ok s' \<and> auth_evolved s s'"
  using auth_later_sound auth_reachable_ok by (simp add: sound_def)

end
