(* ===== verification/Identity.thy ===== *)
theory Identity
  imports AuthSystem "HOL-Library.Code_Target_Nat"
begin

text \<open>
  What the authentication tables guarantee over time: the root of trust, credentials that do not come back,
  tokens and invites that work once, sessions that end.
\<close>

section \<open>A run\<close>

text \<open>Concrete primitives: digests that keep their text, numbered random texts.\<close>

definition dev_auth :: auth_env where
  "dev_auth = \<lparr>hub_env = auth_env, conf = (\<lambda>_. Some 20), conf_text = (\<lambda>_. None), legacy_token = None,
     legacy_disabled = True, bootstrap_token = Some ''boot'', max_keys = 10, sha256 = (\<lambda>x. x),
     hmac_sha256 = (\<lambda>k m. ''h'' @ m), hmac_sha1 = (\<lambda>k m. replicate 20 0),
     random_token = (\<lambda>n b. replicate (Suc n) (CHR ''r'')), random_bytes = (\<lambda>n b. replicate b 0),
     random_code = (\<lambda>n. n), argon_hash = (\<lambda>n p. p), argon_verify = (\<lambda>h p. Some (h = p)),
     argon_stale = (\<lambda>h. Some False), decode_uri = Some\<rparr>"

definition empty_auth :: auth_db where
  "empty_auth = \<lparr>hub = empty_db, api_keys = [], human_credentials = [], mfa_factors = [], sessions = [], invites = [],
     auth_tokens = [], lesson_authors = [], draws = 0\<rparr>"

text \<open>The root is bootstrapped; a key is minted and revoked; a person registers with an invite and logs out.\<close>

definition rooted_auth :: auth_db where
  "rooted_auth = snd (bootstrapRoot dev_auth ''boot'' None empty_auth)"

definition keyed_auth :: auth_db where
  "keyed_auth = snd (createApiKey dev_auth ''ci'' None None None None None rooted_auth)"

definition revoked_auth :: auth_db where
  "revoked_auth = snd (revokeApiKey dev_auth ''uuu'' keyed_auth)"

definition invited_auth :: auth_db where
  "invited_auth = snd (issueInvite dev_auth ''a@b'' ''u'' None None None None rooted_auth)"

definition registered_auth :: auth_db where
  "registered_auth = snd (register dev_auth None None (Some ''rr'') (Some ''correct horse'') None invited_auth)"

definition logged_out_auth :: auth_db where
  "logged_out_auth = snd (revokeAllSessions dev_auth ''uuuu'' registered_auth)"

definition reset_asked :: auth_db where
  "reset_asked = snd (password_forgot dev_auth (Some ''a@b'') registered_auth)"

definition reset_done :: auth_db where
  "reset_done = snd (password_reset dev_auth (Some ''rrrrr'') (Some ''battery staple'') reset_asked)"

lemma auth_run:
  "auth_reachable rooted_auth" "auth_reachable keyed_auth" "auth_reachable revoked_auth" "auth_reachable invited_auth"
  "auth_reachable registered_auth" "auth_reachable logged_out_auth" "auth_reachable reset_asked" "auth_reachable reset_done"
proof -
  have "auth_reachable empty_auth" by (rule auth_start) (simp add: auth_initial_def empty_auth_def empty_db_def)
  then show root: "auth_reachable rooted_auth"
    unfolding rooted_auth_def by (rule auth_further [OF _ root_bootstrapped])
  then show key: "auth_reachable keyed_auth" unfolding keyed_auth_def by (rule auth_further [OF _ key_created])
  then show "auth_reachable revoked_auth" unfolding revoked_auth_def by (rule auth_further [OF _ key_revoked])
  from root show inv: "auth_reachable invited_auth" unfolding invited_auth_def by (rule auth_further [OF _ invite_issued])
  then show reg: "auth_reachable registered_auth" unfolding registered_auth_def by (rule auth_further [OF _ registered])
  then show "auth_reachable logged_out_auth" unfolding logged_out_auth_def by (rule auth_further [OF _ sessions_ended])
  from reg show ask: "auth_reachable reset_asked" unfolding reset_asked_def by (rule auth_further [OF _ forgot])
  then show "auth_reachable reset_done" unfolding reset_done_def by (rule auth_further [OF _ reset])
qed

lemma auth_run_keys:
  "map (\<lambda>k. (k_id k, k_hash k, k_revoked k, k_bootstrap k, k_principal k)) (api_keys rooted_auth) =
     [(''uu'', ''chub_sk_r'', False, True, Some ''u'')]"
  "map (\<lambda>k. (k_id k, k_hash k, k_revoked k)) (api_keys revoked_auth) =
     [(''uu'', ''chub_sk_r'', False), (''uuu'', ''chub_sk_rr'', True)]"
  by code_simp+

lemma auth_run_people:
  "map (\<lambda>i. (iv_hash i, iv_accepted i)) (invites registered_auth) = [(''rr'', Some 1000000)]"
  "map (\<lambda>se. (se_id se, se_principal se, se_revoked se)) (sessions registered_auth) = [(''uuuuu'', ''uuuu'', None)]"
  "map (\<lambda>se. (se_id se, se_revoked se)) (sessions logged_out_auth) = [(''uuuuu'', Some 1000000)]"
  "map (\<lambda>t. (at_hash t, at_consumed t)) (auth_tokens reset_done) = [(''rrrrr'', Some 1000000)]"
  by code_simp+

section \<open>What later states keep\<close>

lemma apart_distinct: "sorted_wrt (\<lambda>x y. f x \<noteq> f y) xs \<Longrightarrow> pkey f xs"
  by (induction xs) (auto simp: pkey_def)

lemma keys_collideI: "k_hash x = k_hash y \<Longrightarrow> keys_collide x y" "k_id x = k_id y \<Longrightarrow> keys_collide x y"
  by (simp_all add: keys_collide_def)

lemma keys_hash:
  assumes "keys_ok s"
  shows "pkey k_hash (api_keys s)"
proof (rule apart_distinct)
  show "sorted_wrt (\<lambda>x y. k_hash x \<noteq> k_hash y) (api_keys s)"
    by (rule sorted_wrt_mono_rel [where P = "\<lambda>x y. \<not> keys_collide x y"])
      (use assms keys_collideI(1) in \<open>auto simp: keys_ok_def\<close>)
qed

lemma keys_id:
  assumes "keys_ok s"
  shows "pkey k_id (api_keys s)"
proof (rule apart_distinct)
  show "sorted_wrt (\<lambda>x y. k_id x \<noteq> k_id y) (api_keys s)"
    by (rule sorted_wrt_mono_rel [where P = "\<lambda>x y. \<not> keys_collide x y"])
      (use assms keys_collideI(2) in \<open>auto simp: keys_ok_def\<close>)
qed

lemma subject_later:
  assumes "auth_ok s" and "auth_evolved s s'" and "auth_ok s'" and "key_subject k s = Some p"
    and "k_principal x = k_principal k"
  shows "\<exists>q. key_subject x s' = Some q \<and> principal_kept p q"
proof -
  obtain pid where pid: "k_principal k = Some pid" "find_row pr_id pid (principals (hub s)) = Some p"
    using assms(4) by (auto simp: key_subject_def bind_eq_Some_conv)
  have "principals_kept (hub s) (hub s')"
    using assms(1-3) by (simp add: principals_kept_def auth_ok_def auth_evolved_def)
  then show ?thesis
    using principals_kept_find pid assms(1,5) by (simp add: key_subject_def auth_ok_def)
qed

lemma validate_None:
  assumes "keys_ok s" and "x \<in> set (api_keys s)" and "k_hash x = hashKey A token" and "\<not> key_admits A s x"
  shows "validateApiKey A token s = (None, s)"
proof -
  have "\<not> (k_hash y = hashKey A token \<and> key_admits A s y)" if "y \<in> set (api_keys s)" for y
    using pkey_unique [OF keys_hash [OF assms(1)] that assms(2)] assms(3,4) by metis
  then have "find (\<lambda>k. k_hash k = hashKey A token \<and> key_admits A s k) (api_keys s) = None"
    by (simp add: find_None_iff)
  then show ?thesis by (simp add: validateApiKey_def)
qed

lemma gone_not_admitted:
  assumes "auth_ok s" and "auth_evolved s s'" and "auth_ok s'" and "k \<in> set (api_keys s)"
    and "k_revoked k \<or> (\<exists>p. key_subject k s = Some p \<and> pr_status p = P_retired)"
  shows "\<exists>x \<in> set (api_keys s'). k_hash x = k_hash k \<and> \<not> key_admits A s' x"
proof -
  obtain x where x: "x \<in> set (api_keys s')" "key_kept k x"
    using assms(2,4) by (auto simp: auth_evolved_def table_kept_def)
  have "\<not> key_admits A s' x" using assms(5)
  proof (elim disjE exE conjE)
    assume "k_revoked k"
    then show ?thesis using x(2) by (simp add: key_admits_def key_kept_def)
  next
    fix p assume "key_subject k s = Some p" "pr_status p = P_retired"
    moreover from this have "k_principal x \<noteq> None" using x(2) by (auto simp: key_subject_def key_kept_def bind_eq_Some_conv)
    moreover have "k_principal x = k_principal k" using x(2) by (simp add: key_kept_def)
    ultimately show ?thesis
      using subject_later [OF assms(1-3)] by (fastforce simp: key_admits_def principal_kept_def)
  qed
  then show ?thesis using x by (auto simp: key_kept_def)
qed

section \<open>Cookies\<close>

lemma span_until:
  "c \<notin> set xs \<Longrightarrow> takeWhile (\<lambda>x. x \<noteq> c) (xs @ c # ys) = xs"
  "c \<notin> set xs \<Longrightarrow> dropWhile (\<lambda>x. x \<noteq> c) (xs @ c # ys) = c # ys"
  by (induction xs) auto

lemma split_last_dot_append:
  assumes "CHR ''.'' \<notin> set b"
  shows "split_last_dot (a @ CHR ''.'' # b) = Some (a, b)"
  using span_until [of "CHR ''.''" "rev b" "rev a"] assms by (simp add: split_last_dot_def)

lemma split_last_dot_Some:
  assumes "split_last_dot s = Some (a, b)"
  shows "s = a @ CHR ''.'' # b"
proof -
  have "CHR ''.'' \<in> set s" using assms by (simp add: split_last_dot_def split: if_splits)
  then obtain xs ys where "s = xs @ CHR ''.'' # ys" "CHR ''.'' \<notin> set ys" by (blast dest: split_list_last)
  then show ?thesis using assms split_last_dot_append by simp
qed

lemma unsign_Some: "unsignSessionId A cookie = Some sid \<Longrightarrow> cookie = Some (signSessionId A sid)"
  by (auto simp: unsignSessionId_def signSessionId_def bind_eq_Some_conv dest!: split_last_dot_Some
      split: option.splits if_splits)

lemma sign_unsign:
  "sid \<noteq> [] \<Longrightarrow> CHR ''.'' \<notin> set (hmac A sid) \<Longrightarrow> unsignSessionId A (Some (signSessionId A sid)) = Some sid"
  by (simp add: unsignSessionId_def signSessionId_def split_last_dot_append)

section \<open>Invites and reset tokens\<close>

lemma auth_rollback_same [simp]: "auth_rollback s s = s"
  by (simp add: auth_rollback_def rollback_def)

lemma find_pkey_None:
  "pkey key xs \<Longrightarrow> y \<in> set xs \<Longrightarrow> (\<And>x. P x \<Longrightarrow> key x = key y) \<Longrightarrow> \<not> P y \<Longrightarrow> find P xs = None"
  by (auto simp: find_None_iff) (metis pkey_unique)

lemma used_invite_refused:
  assumes "auth_ok s" and "i \<in> set (invites s)" and "iv_hash i = hashToken A token" and "iv_accepted i \<noteq> None"
  shows "acceptInvite A token p nm s = refuse BAD_REQUEST s"
proof -
  have "find (open_invite A token) (invites s) = None"
    by (rule find_pkey_None [of iv_hash _ i]) (use assms in \<open>auto simp: auth_ok_def invites_ok_def open_invite_def\<close>)
  then show ?thesis
    by (simp add: acceptInvite_def auth_transaction_def accept_body_def refuse_def)
qed

lemma used_token_refused:
  assumes "auth_ok s" and "t \<in> set (auth_tokens s)" and "at_hash t = hashToken A token" and "at_consumed t \<noteq> None"
  shows "resetPassword A token p s = refuse BAD_REQUEST s"
proof -
  have "find (redeemable A token) (auth_tokens s) = None"
    by (rule find_pkey_None [of at_hash _ t]) (use assms in \<open>auto simp: auth_ok_def redeemable_def\<close>)
  then show ?thesis
    by (simp add: resetPassword_def auth_transaction_def reset_body_def refuse_def)
qed

lemma hashPassword_frame:
  "hashPassword A p s = (Inr h, t) \<Longrightarrow> hub t = hub s \<and> invites t = invites s \<and> human_credentials t = human_credentials s
     \<and> auth_tokens t = auth_tokens s"
  by (auto simp: hashPassword_def draw_def split: if_splits)

lemma insert_cred_frame: "insert_cred pid h s = (Inr u, t) \<Longrightarrow> hub t = hub s \<and> invites t = invites s"
  by (auto simp: insert_cred_def split: if_splits)

lemma starter_grant_frame:
  "starter_grant A i pid s = (Inr u, t) \<Longrightarrow> principals (hub t) = principals (hub s) \<and> invites t = invites s"
  by (auto simp: starter_grant_def on_hub_def andThen_Inr split: option.splits prod.splits)
    (metis grant_round_principals snd_conv)

lemma insert_principal_frame:
  assumes "on_hub (insert_principal E k st nm rt sys) s = (Inr pr, t)"
  shows "invites t = invites s \<and>
     find_row pr_id (pr_id pr) (principals (hub s)) = None \<and> principals (hub t) = principals (hub s) @ [pr] \<and>
     pr_kind pr = k \<and> pr_status pr = st \<and> pr_is_root pr = rt \<and> pr_is_system pr = sys \<and> pr_name pr = nm"
  using assms by (cases rule: insert_principal_cases [of E k st nm rt sys "hub s"]) (auto simp: on_hub_def)

lemmas accept_frames = hashPassword_frame insert_cred_frame starter_grant_frame insert_principal_frame

lemma updated_in: "x \<in> set xs \<Longrightarrow> P x \<Longrightarrow> f x \<in> set (update_where P f xs)"
  by (auto simp: set_update_where)

lemma accepted_body:
  "after (\<lambda>(pid, name, email) t. \<exists>i pr. find (open_invite A token) (invites s) = Some i \<and> email = iv_email i \<and>
      name = invited_name nm i \<and> pr_id pr = pid \<and> find_row pr_id pid (principals (hub s)) = None \<and>
      principals (hub t) = principals (hub s) @ [pr] \<and> pr_kind pr = iv_kind i \<and> pr_status pr = P_active \<and>
      \<not> pr_is_root pr \<and> \<not> pr_is_system pr \<and>
      (\<exists>j \<in> set (invites t). iv_hash j = hashToken A token \<and> iv_accepted j \<noteq> None))
     (accept_body A token p nm s)"
proof (cases "find (open_invite A token) (invites s)")
  case (Some i)
  let ?taken = "update_where (open_invite A token) (\<lambda>i. i\<lparr>iv_accepted := Some (db_now A)\<rparr>) (invites s)"
  let ?linked = "\<lambda>pid. update_where (\<lambda>x. iv_id x = iv_id i) (\<lambda>x. x\<lparr>iv_principal := Some pid\<rparr>) ?taken"
  let ?j = "\<lambda>pid. i\<lparr>iv_accepted := Some (db_now A), iv_principal := Some pid\<rparr>"
  have i: "i \<in> set (invites s)" "open_invite A token i" using Some by (auto simp: find_Some_iff)
  then have "i\<lparr>iv_accepted := Some (db_now A)\<rparr> \<in> set ?taken" by (rule updated_in)
  then have "?j pid \<in> set (?linked pid)" for pid using updated_in by fastforce
  moreover have "iv_hash (?j pid) = hashToken A token \<and> iv_accepted (?j pid) \<noteq> None" for pid
    using i(2) by (simp add: open_invite_def)
  ultimately have linked: "\<exists>j \<in> set (?linked pid). iv_hash j = hashToken A token \<and> iv_accepted j \<noteq> None" for pid
    by blast
  show ?thesis
    using linked by (simp add: accept_body_def Some after_simps)
      (auto dest!: accept_frames)
qed (simp add: accept_body_def)

lemma accept_no_abort: "no_abort (accept_body A token p nm s)"
  by (auto simp: accept_body_def intro!: no_abort_intros split: option.split)

lemma credential_updated:
  assumes "\<And>c. hc_principal (f c) = hc_principal c"
  shows "find_row hc_principal pid (update_where (\<lambda>c. hc_principal c = pid) f cs) = map_option f (find_row hc_principal pid cs)"
proof (cases "find_row hc_principal pid cs")
  case (Some c)
  then have "hc_principal c = pid" by (rule find_row_key)
  then show ?thesis using Some assms by (simp add: find_row_update_where)
qed (use assms in \<open>simp add: find_row_update_where\<close>)

lemma reset_body_after:
  "after (\<lambda>pid t. \<exists>k j. find (redeemable A token) (auth_tokens s) = Some k \<and> at_principal k = pid \<and>
      j \<in> set (auth_tokens t) \<and> at_hash j = hashToken A token \<and> at_consumed j \<noteq> None \<and>
      (\<forall>c. getCredential pid t = Some c \<longrightarrow> hc_hash c = argon_hash A (draws s) p))
     (reset_body A token p s)"
proof (cases "find (redeemable A token) (auth_tokens s)")
  case (Some k)
  let ?j = "k\<lparr>at_consumed := Some (db_now A)\<rparr>"
  have k: "k \<in> set (auth_tokens s)" "redeemable A token k" using Some by (auto simp: find_Some_iff)
  then have "?j \<in> set (update_where (redeemable A token) (\<lambda>t. t\<lparr>at_consumed := Some (db_now A)\<rparr>) (auth_tokens s))"
    by (rule updated_in)
  moreover have "at_hash ?j = hashToken A token" using k(2) by (simp add: redeemable_def)
  moreover have "hc_hash c = h" if "getCredential pid (set_cred pid (\<lambda>c. c\<lparr>hc_hash := h\<rparr>) t) = Some c" for c pid h t
    using that credential_updated [of "\<lambda>c. c\<lparr>hc_hash := h\<rparr>" pid "human_credentials t"]
    by (auto simp: getCredential_def set_cred_def)
  ultimately show ?thesis
    using Some by (auto simp: reset_body_def after_simps hashPassword_def refuse_def draw_def set_cred_def split: if_splits)
qed (simp add: reset_body_def)

lemma reset_no_abort: "no_abort (reset_body A token p s)"
  by (auto simp: reset_body_def intro!: no_abort_intros split: option.split)

section \<open>Properties\<close>

text \<open>
  Property C1. In every reachable state there is at most one root and at most one system principal, neither
  can be suspended or retired, no principal is both, and a key is a bootstrap key exactly when it belongs to the
  root, so no ordinary key ever carries the root's authority.
\<close>

theorem single_root:
  assumes "auth_reachable s"
  shows "length (filter pr_is_root (principals (hub s))) \<le> 1 \<and> length (filter pr_is_system (principals (hub s))) \<le> 1 \<and>
    (\<forall>p \<in> set (principals (hub s)). pr_is_root p \<or> pr_is_system p \<longrightarrow>
       pr_status p = P_active \<and> \<not> (pr_is_root p \<and> pr_is_system p)) \<and>
    (\<forall>k \<in> set (api_keys s). k_bootstrap k \<longleftrightarrow> (\<exists>p. key_subject k s = Some p \<and> pr_is_root p))"
proof -
  have ok: "principals_ok (hub s)" "\<forall>k \<in> set (api_keys s). key_bound (hub s) k"
    using auth_reachable_ok [OF assms] by (simp_all add: auth_ok_def keys_ok_def)
  have "k_bootstrap k \<longleftrightarrow> (\<exists>p. key_subject k s = Some p \<and> pr_is_root p)" if "key_bound (hub s) k" for k
    using that by (cases "k_principal k") (auto simp: key_bound_def key_subject_def split: option.splits)
  then show ?thesis using ok unfolding principals_ok_def by blast
qed

theorem single_root_witness: "\<exists>p. key_subject (hd (api_keys revoked_auth)) revoked_auth = Some p \<and> pr_is_root p"
proof -
  have "hd (api_keys revoked_auth) \<in> set (api_keys revoked_auth) \<and> k_bootstrap (hd (api_keys revoked_auth))" by code_simp
  then show ?thesis using single_root [OF auth_run(3)] by blast
qed

text \<open>
  Property C2. A revoked key, and every key of a retired principal, is refused for ever: whatever happens
  later, its token is answered 401 on the REST interface and with an error on the MCP one.
\<close>

theorem credential_gone:
  assumes "auth_reachable s" and "auth_later s s'" and "k \<in> set (api_keys s)" and "k_hash k = hashKey A token"
    and "k_revoked k \<or> (\<exists>p. key_subject k s = Some p \<and> pr_status p = P_retired)"
    and "auth_enabled (hub_env A)" and "token \<noteq> []" and "\<not> is_legacy A token"
  shows "bearerAuth A (rq\<lparr>rq_authorization := Some (''Bearer '' @ token)\<rparr>) s' = (Respond 401, s') \<and>
    (\<exists>c \<in> {UNAUTHORIZED, CREDENTIAL_EXPIRED}. resolveMcpCaller A (Some token) s' = refuse c s')"
proof -
  note later = auth_later_kept [OF assms(2,1)]
  obtain x where "x \<in> set (api_keys s')" "k_hash x = k_hash k" "\<not> key_admits A s' x"
    using gone_not_admitted later assms(3,5) by blast
  then have v: "validateApiKey A token s' = (None, s')"
    using validate_None later assms(4) unfolding auth_ok_def by metis
  have "resolveMcpCaller A (Some token) s' = refuse UNAUTHORIZED s' \<or> resolveMcpCaller A (Some token) s' = refuse CREDENTIAL_EXPIRED s'"
    using v assms(6-8) by (cases "classifyCredentialFailure A token s'") (simp_all add: resolveMcpCaller_def Let_def or_else_def)
  then show ?thesis using v assms(6-8) by (auto simp: bearerAuth_def Let_def or_else_def)
qed

theorem credential_gone_witness:
  "bearerAuth dev_auth \<lparr>rq_method = ''GET'', rq_authorization = Some ''Bearer chub_sk_rr'', rq_cookie = None, rq_csrf = None\<rparr>
     (snd (createApiKey dev_auth ''ci'' None None None None None revoked_auth)) =
   (Respond 401, snd (createApiKey dev_auth ''ci'' None None None None None revoked_auth))"
proof -
  have k: "last (api_keys revoked_auth) \<in> set (api_keys revoked_auth)" "k_revoked (last (api_keys revoked_auth))"
    "k_hash (last (api_keys revoked_auth)) = hashKey dev_auth ''chub_sk_rr''" by code_simp+
  have "auth_later revoked_auth (snd (createApiKey dev_auth ''ci'' None None None None None revoked_auth))"
    by (rule r_into_rtranclp) (rule key_created)
  from credential_gone [OF auth_run(3) this k(1,3),
      of "\<lparr>rq_method = ''GET'', rq_authorization = None, rq_cookie = None, rq_csrf = None\<rparr>"] k(2)
  show ?thesis by (simp add: dev_auth_def auth_env_def is_legacy_def)
qed

text \<open>
  Property C38. The tables of identity are well formed in every reachable state: identifiers, hashes of keys, invites and tokens and the
  names of active keys are unique, each account has one password, and a bound key has its principal.
\<close>

theorem identity_typed:
  assumes "auth_reachable s"
  shows "distinct (map pr_id (principals (hub s))) \<and> distinct (map k_id (api_keys s)) \<and> distinct (map k_hash (api_keys s)) \<and>
    distinct (map k_name (filter (\<lambda>k. \<not> k_revoked k) (api_keys s))) \<and> distinct (map hc_principal (human_credentials s)) \<and>
    distinct (map se_id (sessions s)) \<and> distinct (map iv_id (invites s)) \<and> distinct (map iv_hash (invites s)) \<and>
    distinct (map at_id (auth_tokens s)) \<and> distinct (map at_hash (auth_tokens s)) \<and> distinct (map fa_id (mfa_factors s)) \<and>
    (\<forall>k \<in> set (api_keys s). \<forall>pid. k_principal k = Some pid \<longrightarrow> (\<exists>p \<in> set (principals (hub s)). pr_id p = pid))"
proof -
  have ok: "auth_ok s" by (rule auth_reachable_ok [OF assms])
  have "distinct (map k_id ks) \<and> distinct (map k_hash ks) \<and> distinct (map k_name (filter (\<lambda>k. \<not> k_revoked k) ks))"
    if "sorted_wrt (\<lambda>x y. \<not> keys_collide x y) ks" for ks
    using that by (induction ks) (auto simp: keys_collide_def)
  then have "distinct (map k_id (api_keys s)) \<and> distinct (map k_hash (api_keys s)) \<and>
      distinct (map k_name (filter (\<lambda>k. \<not> k_revoked k) (api_keys s)))" using ok by (simp add: auth_ok_def keys_ok_def)
  moreover have "\<exists>p \<in> set (principals (hub s)). pr_id p = pid" if "k \<in> set (api_keys s)" "k_principal k = Some pid" for k pid
  proof -
    have "key_bound (hub s) k" using ok that(1) by (simp add: auth_ok_def keys_ok_def)
    then show ?thesis using that(2) by (auto simp: key_bound_def split: option.splits dest: find_row_Some)
  qed
  ultimately show ?thesis using ok by (simp add: auth_ok_def principals_ok_def invites_ok_def pkey_def)
qed

theorem identity_typed_witness: "distinct (map k_hash (api_keys revoked_auth))"
  using identity_typed [OF auth_run(3)] by blast



text \<open>
  Property C7. An invite works once: whoever registers with it presented the token of an open, unexpired invite
  and becomes exactly one new active principal of the invited kind, never root nor system; every later attempt
  with the same token is refused and changes nothing.
\<close>

theorem invite_once:
  assumes "auth_reachable s" and "acceptInvite A token p nm s = (Inr (pid, name, email), s1)" and "auth_later s1 s'"
    and "sha256 B = sha256 A"
  shows "(\<exists>i \<in> set (invites s). open_invite A token i \<and> email = iv_email i \<and> name = invited_name nm i \<and>
      (\<exists>pr. principals (hub s1) = principals (hub s) @ [pr] \<and> pr_id pr = pid \<and> pr_kind pr = iv_kind i \<and>
        pr_status pr = P_active \<and> \<not> pr_is_root pr \<and> \<not> pr_is_system pr)) \<and>
    find_row pr_id pid (principals (hub s)) = None \<and>
    acceptInvite B token p' nm' s' = refuse BAD_REQUEST s'"
proof -
  have "auth_transaction (accept_body A token p nm) s = (Inr (pid, name, email), s1)"
    using assms(2) by (auto simp: acceptInvite_def split: if_splits)
  from auth_committed [OF this accept_no_abort accepted_body] obtain i pr j where
    i: "find (open_invite A token) (invites s) = Some i" "email = iv_email i" "name = invited_name nm i"
    and pr: "pr_id pr = pid" "find_row pr_id pid (principals (hub s)) = None" "principals (hub s1) = principals (hub s) @ [pr]"
      "pr_kind pr = iv_kind i" "pr_status pr = P_active" "\<not> pr_is_root pr" "\<not> pr_is_system pr"
    and j: "j \<in> set (invites s1)" "iv_hash j = hashToken A token" "iv_accepted j \<noteq> None" by auto
  have "sound s s1" using sound_acceptInvite [of s A token p nm] assms(2) by simp
  then have ok: "auth_ok s1" using auth_reachable_ok [OF assms(1)] by (simp add: sound_def)
  then have "auth_ok s' \<and> auth_evolved s1 s'" using auth_later_sound [OF assms(3)] by (simp add: sound_def)
  moreover from this obtain j' where "j' \<in> set (invites s')" "invite_kept j j'"
    using j(1) by (auto simp: auth_evolved_def table_kept_def)
  ultimately have "acceptInvite B token p' nm' s' = refuse BAD_REQUEST s'"
    using j(2,3) assms(4) by (intro used_invite_refused [of _ j']) (auto simp: invite_kept_def stays_def hashToken_def)
  moreover have "i \<in> set (invites s)" "open_invite A token i" using i(1) by (auto simp: find_Some_iff)
  ultimately show ?thesis using i pr by blast
qed

theorem invite_once_witness:
  "acceptInvite dev_auth ''rr'' ''battery staple'' None (snd (acceptInvite dev_auth ''rr'' ''correct horse'' None invited_auth)) =
     refuse BAD_REQUEST (snd (acceptInvite dev_auth ''rr'' ''correct horse'' None invited_auth))"
proof -
  let ?run = "acceptInvite dev_auth ''rr'' ''correct horse'' None invited_auth"
  have "fst ?run = Inr (''uuuu'', ''a@b'', ''a@b'')" by code_simp
  then have "?run = (Inr (''uuuu'', ''a@b'', ''a@b''), snd ?run)" by (metis prod.collapse)
  from invite_once [OF auth_run(4) this, of "snd ?run" dev_auth] show ?thesis by simp
qed

text \<open>
  Property C8. A reset token works once: a successful reset consumed an unexpired token that was issued to the
  account, set the new password and cleared its lock; every later attempt with the same token is refused
  and changes nothing.
\<close>

theorem reset_once:
  assumes "auth_reachable s" and "resetPassword A token p s = (Inr pid, s1)" and "auth_later s1 s'"
    and "sha256 B = sha256 A"
  shows "assertPasswordPolicy p \<and> (\<exists>t \<in> set (auth_tokens s). redeemable A token t \<and> at_principal t = pid) \<and>
    (\<forall>c. getCredential pid s1 = Some c \<longrightarrow> hc_hash c = argon_hash A (draws s) p \<and> \<not> is_locked (evaluateLock c n)) \<and>
    resetPassword B token p' s' = refuse BAD_REQUEST s'"
proof -
  obtain t where pol: "assertPasswordPolicy p" and run: "auth_transaction (reset_body A token p) s = (Inr pid, t)"
    and s1: "s1 = t\<lparr>human_credentials := clearLockout pid (human_credentials t)\<rparr>"
    using assms(2) by (auto simp: resetPassword_def andThen_Inr split: if_splits)
  from auth_committed [OF run reset_no_abort reset_body_after] obtain k j where
    k: "find (redeemable A token) (auth_tokens s) = Some k" "at_principal k = pid"
    and j: "j \<in> set (auth_tokens t)" "at_hash j = hashToken A token" "at_consumed j \<noteq> None"
    and cred: "\<And>c. getCredential pid t = Some c \<Longrightarrow> hc_hash c = argon_hash A (draws s) p" by blast
  have "hc_hash c = argon_hash A (draws s) p \<and> \<not> is_locked (evaluateLock c n)"
    if c: "getCredential pid s1 = Some c" for c
  proof -
    obtain c0 where "getCredential pid t = Some c0" "c = clear_row c0"
      using c credential_updated [of clear_row pid "human_credentials t"]
      by (auto simp: s1 getCredential_def clearLockout_def)
    then show ?thesis using cred by (simp add: clear_row_def evaluateLock_def soft_eval_def)
  qed
  moreover have "resetPassword B token p' s' = refuse BAD_REQUEST s'"
  proof -
    have "sound s s1" using sound_resetPassword [of s A token p] assms(2) by simp
    then have "auth_ok s1" using auth_reachable_ok [OF assms(1)] by (simp add: sound_def)
    then have later: "auth_ok s'" "auth_evolved s1 s'" using auth_later_sound [OF assms(3)] by (simp_all add: sound_def)
    then obtain j' where "j' \<in> set (auth_tokens s')" "token_kept j j'"
      using j(1) by (auto simp: auth_evolved_def table_kept_def s1)
    then show ?thesis
      using later(1) j(2,3) assms(4) by (intro used_token_refused [of _ j']) (auto simp: token_kept_def stays_def hashToken_def)
  qed
  moreover have "k \<in> set (auth_tokens s)" "redeemable A token k" using k(1) by (auto simp: find_Some_iff)
  ultimately show ?thesis using pol k(2) by blast
qed

theorem reset_once_witness:
  "resetPassword dev_auth ''rrrrr'' ''battery staple'' (snd (resetPassword dev_auth ''rrrrr'' ''battery staple'' reset_asked)) =
     refuse BAD_REQUEST (snd (resetPassword dev_auth ''rrrrr'' ''battery staple'' reset_asked))"
proof -
  let ?run = "resetPassword dev_auth ''rrrrr'' ''battery staple'' reset_asked"
  have "fst ?run = Inr ''uuuu''" by code_simp
  then have "?run = (Inr ''uuuu'', snd ?run)" by (metis prod.collapse)
  from reset_once [OF auth_run(7) this, of "snd ?run" dev_auth] show ?thesis by simp
qed

end
