(* ===== verification/Rotation.thy ===== *)
theory Rotation
  imports Identity
begin

text \<open>
  Rotation of an API key, and the way to enforcement: what \<open>assertEnforceReady\<close> promises, and that the
  migration of actor names and the backfill of grants reach it.
\<close>

section \<open>Validation of a key that is there\<close>

lemma find_unique:
  assumes "x \<in> set xs" and "P x" and "\<And>y. y \<in> set xs \<Longrightarrow> P y \<Longrightarrow> y = x"
  shows "find P xs = Some x"
proof (cases "find P xs")
  case None
  then show ?thesis using assms(1,2) by (simp add: find_None_iff)
next
  case (Some y)
  then have "y \<in> set xs" "P y" by (auto simp: find_Some_iff)
  then show ?thesis using Some assms(3) by simp
qed

lemma validate_found:
  assumes "keys_ok s" and "x \<in> set (api_keys s)" and "k_hash x = hashKey A token"
  shows "fst (validateApiKey A token s) = (if key_admits A s x then Some x else None)"
proof (cases "key_admits A s x")
  case True
  have "find (\<lambda>k. k_hash k = hashKey A token \<and> key_admits A s k) (api_keys s) = Some x"
  proof (rule find_unique)
    show "y = x" if "y \<in> set (api_keys s)" "k_hash y = hashKey A token \<and> key_admits A s y" for y
      using pkey_unique [OF keys_hash [OF assms(1)] that(1) assms(2)] that(2) assms(3) by simp
  qed (use assms True in simp_all)
  then show ?thesis using True by (simp add: validateApiKey_def)
next
  case False
  then show ?thesis using validate_None [OF assms] by simp
qed

text \<open>The holder of a key may use it.\<close>

definition holder_active :: "auth_db \<Rightarrow> key_row \<Rightarrow> bool" where
  "holder_active s k \<longleftrightarrow> k_principal k = None \<or> (\<exists>p. key_subject k s = Some p \<and> pr_status p = P_active)"

lemma admits_holder:
  "key_bound (hub s) k \<Longrightarrow> \<not> k_bootstrap k \<Longrightarrow>
    key_admits A s k \<longleftrightarrow> \<not> k_revoked k \<and> \<not> expired A k \<and> holder_active s k"
  by (cases "k_principal k") (auto simp: key_admits_def holder_active_def key_bound_def key_subject_def split: option.splits)

section \<open>Rotation\<close>

text \<open>What rotation makes of the old key.\<close>

definition retired_row :: "auth_env \<Rightarrow> rat \<Rightarrow> key_row \<Rightarrow> key_row" where
  "retired_row A overlap k = (if overlap = 0 then revoke_key k else k\<lparr>k_expires := Some (db_now A + \<lfloor>overlap\<rfloor>)\<rparr>)"

definition successor_of :: "auth_env \<Rightarrow> string \<Rightarrow> key_row \<Rightarrow> key_row \<Rightarrow> bool" where
  "successor_of A key old n \<longleftrightarrow> k_hash n = hashKey A key \<and> k_role n = k_role old \<and> k_scope n = k_scope old \<and>
     k_principal n = k_principal old \<and> k_expires n = None \<and> \<not> k_revoked n \<and> \<not> k_bootstrap n"

definition rotated_to :: "auth_env \<Rightarrow> string \<Rightarrow> rat \<Rightarrow> string \<Rightarrow> auth_db \<Rightarrow> key_row \<Rightarrow> rotation \<Rightarrow> auth_db \<Rightarrow> bool" where
  "rotated_to A kid overlap key s old r t \<longleftrightarrow> find_row k_id kid (api_keys s) = Some old \<and> \<not> k_revoked old \<and>
     \<not> k_bootstrap old \<and> successor_of A key old (ro_entry r) \<and> \<not> exists_where (keys_collide (ro_entry r)) (api_keys s) \<and>
     ro_key r = key \<and> principals (hub t) = principals (hub s) \<and>
     api_keys t = update_where (\<lambda>k. k_id k = kid) (retired_row A overlap) (api_keys s @ [ro_entry r]) \<and>
     ro_old_expires r = (if overlap = 0 then None else Some (db_now A + \<lfloor>overlap\<rfloor>))"

lemma rotate_body_after:
  "after (\<lambda>r t. \<exists>old. rotated_to A kid overlap key s old r t) (rotate_body A kid overlap key s)"
proof (cases "find_row k_id kid (api_keys s)")
  case (Some old)
  have retire: "retired_row A 0 = revoke_key"
    "overlap \<noteq> 0 \<Longrightarrow> retired_row A overlap = (\<lambda>k. k\<lparr>k_expires := Some (db_now A + \<lfloor>overlap\<rfloor>)\<rparr>)"
    by (simp_all add: retired_row_def fun_eq_iff)
  have ins: "insert_key n (spend_uuid s) = (Inr e, t) \<longleftrightarrow>
      \<not> exists_where (keys_collide n) (api_keys s) \<and> e = n \<and> t = (spend_uuid s)\<lparr>api_keys := api_keys s @ [n]\<rparr>" for n e t
    by (auto simp: insert_key_def)
  show ?thesis
    using Some by (auto simp: rotate_body_def after_simps Let_def ins retire set_key_def rotated_to_def successor_of_def new_key_def)
qed (simp add: rotate_body_def)

lemma rotate_no_abort: "no_abort (rotate_body A kid overlap key s)"
  by (auto simp: rotate_body_def Let_def intro!: no_abort_intros split: option.split)

lemma rotateApiKey_to:
  assumes "rotateApiKey A kid ov s = (Inr r, s')"
  shows "\<exists>overlap old. clamp_ms False DEFAULT_ROTATION_OVERLAP_MS MAX_ROTATION_OVERLAP_MS ov = Some overlap \<and>
    rotated_to A kid overlap (generateKey A (draws s)) s old r s'"
proof -
  obtain overlap where clamp: "clamp_ms False DEFAULT_ROTATION_OVERLAP_MS MAX_ROTATION_OVERLAP_MS ov = Some overlap"
    and run: "auth_transaction (rotate_body A kid overlap (generateKey A (draws s))) (draw s) = (Inr r, s')"
    using assms by (auto simp: rotateApiKey_def split: if_splits option.splits)
  have "\<exists>old. rotated_to A kid overlap (generateKey A (draws s)) (draw s) old r s'"
    using auth_committed [OF run rotate_no_abort rotate_body_after] .
  then show ?thesis using clamp by (auto simp: rotated_to_def)
qed

lemma clamp_bounds: "0 \<le> cap \<Longrightarrow> clamp_ms strict dflt cap ov = Some q \<Longrightarrow> 0 \<le> q \<and> q \<le> of_int cap"
  by (auto simp: clamp_ms_def split: jsnum.splits if_splits)

text \<open>The old row and its successor in the table a rotation leaves.\<close>

lemma rotated_rows:
  assumes "rotated_to A kid overlap key s old r t"
  shows "retired_row A overlap old \<in> set (api_keys t)" and "ro_entry r \<in> set (api_keys t)"
proof -
  have old: "old \<in> set (api_keys s)" "k_id old = kid"
    using assms by (auto simp: rotated_to_def dest: find_row_in find_row_key)
  then have "k_id (ro_entry r) \<noteq> kid"
    using assms by (auto simp: rotated_to_def exists_where_def list_ex_iff keys_collide_def)
  then show "retired_row A overlap old \<in> set (api_keys t)" "ro_entry r \<in> set (api_keys t)"
    using assms old updated_in [of old "api_keys s @ [ro_entry r]" "\<lambda>k. k_id k = kid" "retired_row A overlap"]
    by (auto simp: rotated_to_def set_update_where)
qed

lemma holder_kept: "principals (hub t) = principals (hub s) \<Longrightarrow> k_principal x = k_principal k \<Longrightarrow>
    holder_active t x = holder_active s k"
  by (simp add: holder_active_def key_subject_def)

section \<open>Properties\<close>

text \<open>
  Property C6. Rotation is seamless and its overlap bounded: the successor has the role, scope and owner of the old
  key and is valid at once and at any later time while its owner is active; the old token stays valid exactly
  until the announced instant, at most thirty days away, and not at all when no overlap was asked for.
\<close>

theorem rotate_overlap:
  assumes "auth_reachable s" and "rotateApiKey A kid ov s = (Inr r, s')" and "sha256 B = sha256 A"
  shows "\<exists>old \<in> set (api_keys s). k_id old = kid \<and> \<not> k_revoked old \<and>
    k_role (ro_entry r) = k_role old \<and> k_scope (ro_entry r) = k_scope old \<and> k_principal (ro_entry r) = k_principal old \<and>
    fst (validateApiKey B (ro_key r) s') = (if holder_active s old then Some (ro_entry r) else None) \<and>
    (hashKey A token = k_hash old \<longrightarrow> (fst (validateApiKey B token s') \<noteq> None \<longleftrightarrow>
       holder_active s old \<and> (\<exists>x. ro_old_expires r = Some x \<and> db_now B < x))) \<and>
    (\<forall>x. ro_old_expires r = Some x \<longrightarrow> db_now A \<le> x \<and> x \<le> db_now A + MAX_ROTATION_OVERLAP_MS)"
proof -
  obtain overlap old where clamp: "clamp_ms False DEFAULT_ROTATION_OVERLAP_MS MAX_ROTATION_OVERLAP_MS ov = Some overlap"
    and rot: "rotated_to A kid overlap (generateKey A (draws s)) s old r s'"
    using rotateApiKey_to [OF assms(2)] by blast
  have "sound s s'" using sound_rotateApiKey [of s A kid ov] assms(2) by simp
  then have ok: "keys_ok s'" using auth_reachable_ok [OF assms(1)] by (simp add: sound_def auth_ok_def)
  then have bound: "key_bound (hub s') k" if "k \<in> set (api_keys s')" for k using that by (simp add: keys_ok_def)
  have old: "old \<in> set (api_keys s)" "k_id old = kid" "\<not> k_revoked old" "\<not> k_bootstrap old"
    using rot by (auto simp: rotated_to_def dest: find_row_in find_row_key)
  have new: "successor_of A (ro_key r) old (ro_entry r)" and same: "principals (hub s') = principals (hub s)"
    and until: "ro_old_expires r = (if overlap = 0 then None else Some (db_now A + \<lfloor>overlap\<rfloor>))"
    using rot by (simp_all add: rotated_to_def)
  note rows = rotated_rows [OF rot]
  have "key_admits B s' (ro_entry r) = holder_active s old"
    using admits_holder [OF bound [OF rows(2)]] new holder_kept [OF same, of "ro_entry r" old]
    by (simp add: successor_of_def expired_def)
  then have fresh: "fst (validateApiKey B (ro_key r) s') = (if holder_active s old then Some (ro_entry r) else None)"
    using validate_found [OF ok rows(2), of B "ro_key r"] new assms(3) by (simp add: successor_of_def hashKey_def)
  let ?g = "retired_row A overlap old"
  have g: "k_principal ?g = k_principal old" "\<not> k_bootstrap ?g" "k_hash ?g = k_hash old"
    using old by (simp_all add: retired_row_def revoke_key_def)
  have "key_admits B s' ?g \<longleftrightarrow> holder_active s old \<and> (\<exists>x. ro_old_expires r = Some x \<and> db_now B < x)"
    using admits_holder [OF bound [OF rows(1)] g(2), of B] holder_kept [OF same g(1)] old(3) until
    by (auto simp: retired_row_def revoke_key_def expired_def)
  then have "fst (validateApiKey B token s') \<noteq> None \<longleftrightarrow> holder_active s old \<and> (\<exists>x. ro_old_expires r = Some x \<and> db_now B < x)"
    if "hashKey A token = k_hash old"
    using validate_found [OF ok rows(1), of B token] that g(3) assms(3) by (simp add: hashKey_def)
  moreover have "db_now A \<le> x \<and> x \<le> db_now A + MAX_ROTATION_OVERLAP_MS" if "ro_old_expires r = Some x" for x
    using that until clamp_bounds [OF _ clamp]
    by (auto simp: MAX_ROTATION_OVERLAP_MS_def DAY_MS_def le_floor_iff floor_le_iff split: if_splits)
  ultimately show ?thesis using old fresh new unfolding successor_of_def by blast
qed

theorem rotate_overlap_witness:
  "fst (validateApiKey dev_auth ''chub_sk_rrr'' (snd (rotateApiKey dev_auth ''uuu'' None keyed_auth))) \<noteq> None \<and>
   fst (validateApiKey dev_auth ''chub_sk_rr'' (snd (rotateApiKey dev_auth ''uuu'' None keyed_auth))) \<noteq> None"
proof -
  let ?run = "rotateApiKey dev_auth ''uuu'' None keyed_auth"
  have "(case fst ?run of Inr r \<Rightarrow> ro_key r = ''chub_sk_rrr'' \<and> ro_old_expires r = Some 605800000 | _ \<Rightarrow> False)" by code_simp
  then obtain r where r: "fst ?run = Inr r" "ro_key r = ''chub_sk_rrr''" "ro_old_expires r = Some 605800000"
    by (auto split: sum.splits)
  then have run: "?run = (Inr r, snd ?run)" by (simp add: prod_eq_iff)
  have keys: "\<forall>k \<in> set (api_keys keyed_auth). k_id k = ''uuu'' \<longrightarrow> k_hash k = hashKey dev_auth ''chub_sk_rr'' \<and> k_principal k = None"
    by code_simp
  have now: "db_now dev_auth < 605800000" by code_simp
  obtain old where old: "old \<in> set (api_keys keyed_auth)" "k_id old = ''uuu''"
    and valid: "fst (validateApiKey dev_auth (ro_key r) (snd ?run)) = (if holder_active keyed_auth old then Some (ro_entry r) else None)"
      "hashKey dev_auth ''chub_sk_rr'' = k_hash old \<longrightarrow> (fst (validateApiKey dev_auth ''chub_sk_rr'' (snd ?run)) \<noteq> None \<longleftrightarrow>
         holder_active keyed_auth old \<and> (\<exists>x. ro_old_expires r = Some x \<and> db_now dev_auth < x))"
    using rotate_overlap [OF auth_run(2) run refl, of "''chub_sk_rr''"] by blast
  then show ?thesis using keys r(2,3) now by (auto simp: holder_active_def)
qed

end
