(* ===== verification/Readiness.thy ===== *)
theory Readiness
  imports Rotation
begin

text \<open>
  The way to enforcement: \<open>assertEnforceReady\<close> promises that nobody is locked out when authorization is
  switched on, the migration of actor names and the backfill of grants remove what it objects to.
\<close>

section \<open>The gate\<close>

lemma gate_open: "auth_enabled E \<Longrightarrow> entitled E pid act rf d \<Longrightarrow> fst (assertAuthorized E pid act rf d) = None"
  using evaluate_entitled [of E pid act rf d]
  by (auto simp: assertAuthorized_def authorize_def Let_def split: decision.splits)

lemma root_entitled:
  "find_row pr_id pid (principals d) = Some p \<Longrightarrow> pr_is_root p \<Longrightarrow> is_uuid E pid \<Longrightarrow> entitled E (Some pid) act rf d"
  by (simp add: entitled_def loadPrincipalLite_def)

lemma grant_entitled:
  assumes "find_row pr_id pid (principals d) = Some p" and "is_uuid E pid" and "pr_status p = P_active"
    and "resolveResourceScope E rf d = Some res" and "g \<in> set (grants d)" and "g_grantee g = pid" and "g_revoked_at g = None"
    and "capabilityCovers (g_capability g) act" and "scopeCovers g res"
  shows "entitled E (Some pid) act rf d"
  using assms find_row_key [OF assms(1)] unfolding entitled_def loadPrincipalLite_def by auto

text \<open>The resources a key reaches: everything, or what lies in its project.\<close>

definition key_reaches :: "key_row \<Rightarrow> res_scope \<Rightarrow> bool" where
  "key_reaches k res \<longleftrightarrow> k_scope k = None \<or> scope_project res = k_scope k"

lemma rank_covers:
  "role_capability r = Some c \<Longrightarrow> role_rank r \<le> cap_rank h \<Longrightarrow> capabilityCovers c act \<Longrightarrow> capabilityCovers h act"
  by (cases h; cases act) (auto simp: role_rank_def capabilityCovers_def split: if_splits)

lemma covered_entitled:
  assumes "key_covered k d" and "k_principal k = Some pid" and "role_capability (k_role k) = Some c"
    and "capabilityCovers c act" and "resolveResourceScope E rf d = Some res" and "key_reaches k res"
    and "find_row pr_id pid (principals d) = Some p" and "is_uuid E pid" and "pr_status p = P_active"
  shows "entitled E (Some pid) act rf d"
proof -
  obtain g where g: "g \<in> set (grants d)" "g_grantee g = pid" "g_revoked_at g = None" "grant_covers_key k g"
    using assms(1,2) by (auto simp: key_covered_def exists_where_def list_ex_iff)
  then have "capabilityCovers (g_capability g) act" using rank_covers assms(3,4) by (simp add: grant_covers_key_def)
  moreover have "scopeCovers g res"
    using g(4) assms(6) by (auto simp: grant_covers_key_def key_reaches_def scopeCovers_def)
  ultimately show ?thesis using grant_entitled assms(5,7-9) g by blast
qed

section \<open>No lockout\<close>

definition enforcing :: "auth_env \<Rightarrow> env" where
  "enforcing A = (hub_env A)\<lparr>auth_enabled := True\<rparr>"

lemma enforcing_simps [simp]: "auth_enabled (enforcing A)" "is_uuid (enforcing A) = is_uuid (hub_env A)"
  by (simp_all add: enforcing_def)

lemma ready_facts:
  assumes "assertEnforceReady A s = Inr r"
  shows "legacy_token A = None \<or> legacy_token A = Some [] \<or> legacy_disabled A"
    and "getRootPrincipal (hub s) = Some r" and "hasUsableRootCredential A s"
    and "unmigrated None s = []" and "ungranted_keys A None s = []" and "hasUsableSystemIdentity (hub s)"
  using assms by (auto simp: assertEnforceReady_def countUnmigratedCoordinationActors_def
      countCredentialsWithoutGrants_def split: if_splits option.splits)

lemma ready_key:
  assumes "ungranted_keys A None s = []" and "k \<in> set (api_keys s)" and "key_admits A s k" and "k_principal k = Some pid"
    and "role_capability (k_role k) = Some c" and "capabilityCovers c act"
    and "resolveResourceScope E rf (hub s) = Some res" and "key_reaches k res" and "is_uuid E pid"
  shows "entitled E (Some pid) act rf (hub s)"
proof -
  obtain p where p: "key_subject k s = Some p" "find_row pr_id pid (principals (hub s)) = Some p" "pr_status p = P_active"
    "\<not> k_revoked k" "\<not> expired A k"
    using assms(3,4) by (auto simp: key_admits_def key_subject_def split: option.splits)
  show ?thesis
  proof (cases "pr_is_root p")
    case True
    then show ?thesis using root_entitled p(2) assms(9) by blast
  next
    case False
    then have "eligible_key A None s k" using p by (simp add: eligible_key_def)
    then have "key_covered k (hub s)" using assms(1,2) by (auto simp: ungranted_keys_def filter_empty_conv)
    then show ?thesis using covered_entitled assms(4-9) p(2,3) by blast
  qed
qed

lemma usable_root_key:
  assumes "hasUsableRootCredential A s"
  shows "\<exists>k \<in> set (api_keys s). \<exists>p \<in> set (principals (hub s)). pr_is_root p \<and> key_admits A s k \<and> k_principal k = Some (pr_id p)"
proof -
  obtain k p where k: "k \<in> set (api_keys s)" "key_subject k s = Some p" "pr_is_root p" "pr_status p = P_active"
    "k_bootstrap k" "\<not> k_revoked k" "\<not> expired A k"
    using assms by (auto simp: hasUsableRootCredential_def exists_where_def list_ex_iff split: option.splits)
  then have "p \<in> set (principals (hub s)) \<and> k_principal k = Some (pr_id p)"
    by (auto simp: key_subject_def bind_eq_Some_conv dest: find_row_Some)
  moreover have "key_admits A s k" using k by (simp add: key_admits_def)
  ultimately show ?thesis using k(1,3) by blast
qed

lemma admitted_holder:
  "key_admits A s k \<Longrightarrow> k_principal k = Some pid \<Longrightarrow> \<exists>p \<in> set (principals (hub s)). pr_id p = pid"
  by (auto simp: key_admits_def key_subject_def split: option.splits dest: find_row_Some)

section \<open>Properties\<close>


text \<open>A deployment that is ready: root, the worker, a person with a writer's key for the project \<open>p\<close>, backfilled.\<close>

definition peopled_auth :: auth_db where
  "peopled_auth = snd (createApiKey dev_auth ''ci'' (Some ''writer'') (Some ''p'') None None (Some ''uuuuu'')
     (snd (on_hub (createPrincipal auth_env ''human'' ''Mia'' None) (snd (bootstrapSystem dev_auth None rooted_auth)))))"

definition ready_auth :: auth_db where
  "ready_auth = snd (backfillGrantsFromApiKeys dev_auth None peopled_auth)"

lemma ready_run: "auth_reachable peopled_auth" "auth_reachable ready_auth"
proof -
  show p: "auth_reachable peopled_auth" unfolding peopled_auth_def
    by (rule auth_further [OF auth_further [OF auth_further [OF auth_run(1) system_bootstrapped] principal_created] key_created])
  then show "auth_reachable ready_auth" unfolding ready_auth_def by (rule auth_further [OF _ backfilled])
qed


section \<open>Migration of actor names\<close>

lemma some_values_map: "some_values (map (\<lambda>x. map_option f (g x)) xs) = map f (some_values (map g xs))"
  by (induction xs) (simp_all add: some_values_def map_filter_simps split: option.split)

lemma renamed_actors:
  "scalar_actors (rename_actors f s) = map f (scalar_actors s)"
  "array_actors (rename_actors f s) = map f (array_actors s)"
  by (simp_all add: scalar_actors_def array_actors_def rename_actors_def rename_hub_def Let_def comp_def map_concat
      some_values_map [where g = p_granted_by] some_values_map [where g = s_decided_by]
      some_values_map [where g = m_seconded_by] some_values_map [where g = "\<lambda>x. x", simplified])

lemma actors_outside [simp]:
  "scalar_actors (s\<lparr>hub := (hub s)\<lparr>uuid_ctr := u, principals := ps\<rparr>\<rparr>) = scalar_actors s"
  "array_actors (s\<lparr>hub := (hub s)\<lparr>uuid_ctr := u, principals := ps\<rparr>\<rparr>) = array_actors s"
  "principals (hub (rename_actors f s)) = principals (hub s)"
  by (simp_all add: scalar_actors_def array_actors_def rename_actors_def rename_hub_def Let_def)

lemma renaming_cases:
  assumes "length vs = length ps" and "distinct vs"
  shows "v \<notin> set vs \<Longrightarrow> renaming (zip vs ps) v = v" and "v \<in> set vs \<Longrightarrow> renaming (zip vs ps) v \<in> set ps"
    and "distinct ps \<Longrightarrow> inj_on (renaming (zip vs ps)) (set vs)"
proof -
  show "v \<notin> set vs \<Longrightarrow> renaming (zip vs ps) v = v"
    using assms(1) by (auto simp: renaming_def or_else_def dest: map_of_SomeD set_zip_leftD split: option.split)
  have some: "\<exists>p. map_of (zip vs ps) w = Some p \<and> p \<in> set ps" if "w \<in> set vs" for w
    using that assms(1) map_of_zip_is_Some [OF assms(1)] by (meson map_of_SomeD set_zip_rightD)
  then show "v \<in> set vs \<Longrightarrow> renaming (zip vs ps) v \<in> set ps"
    by (fastforce simp: renaming_def or_else_def)
  assume d: "distinct ps"
  have "v = w" if v: "v \<in> set vs" and w: "w \<in> set vs" and same: "renaming (zip vs ps) v = renaming (zip vs ps) w" for v w
  proof -
    obtain p where "map_of (zip vs ps) v = Some p" "map_of (zip vs ps) w = Some p"
      using some [OF v] some [OF w] same by (auto simp: renaming_def or_else_def)
    then have "(v, p) \<in> set (zip vs ps)" "(w, p) \<in> set (zip vs ps)" by (blast dest: map_of_SomeD)+
    then obtain i j where "i < length vs" "vs ! i = v" "ps ! i = p" "j < length vs" "vs ! j = w" "ps ! j = p"
      using assms(1) by (auto simp: in_set_zip)
    then show ?thesis using d assms(1) by (metis nth_eq_iff_index_eq)
  qed
  then show "inj_on (renaming (zip vs ps)) (set vs)" by (auto simp: inj_on_def)
qed

lemma migratable_mono:
  "principals (hub s') = principals (hub s) @ ps \<Longrightarrow> \<not> migratable s v \<Longrightarrow> \<not> migratable s' v"
  by (auto simp: migratable_def find_row_append split: option.split)



section \<open>Backfill\<close>

text \<open>The names of projects that a key's scope may hold: \<open>createGrant\<close> takes them as they are.\<close>

definition plain_scope :: "key_row \<Rightarrow> bool" where
  "plain_scope k \<longleftrightarrow> (case k_scope k of None \<Rightarrow> True | Some p \<Rightarrow> p \<noteq> [] \<and> trim p = p)"

lemma createGrant_grants:
  "\<exists>gs. grants (snd (createGrant E gr sty sid cap who d)) = grants d @ gs \<and> (\<forall>g \<in> set gs. g_revoked_at g = None)"
proof (cases rule: createGrant_cases [of E gr sty sid cap who d])
  case (2 e)
  then show ?thesis by (cases rule: grant_round_cases [of e d E who]) (auto simp: snd_grant_loop)
qed simp

lemma createGrant_in:
  assumes "createGrant E gr sty sid cap who d = (Inr g, d')"
  shows "g \<in> set (grants d') \<and> g_revoked_at g = None"
proof (cases rule: createGrant_cases [of E gr sty sid cap who d])
  case (2 e)
  have three: "(3::nat) = Suc 2" by simp
  show ?thesis
    using 2(1) assms unfolding three grant_loop_eq
    by (cases rule: grant_round_cases [of e d E who]) (auto dest: active_edge_Some)
qed (use assms in simp)

lemma createGrant_covers:
  assumes "createGrant E pid (scope_type_text (mapped_scope k)) (k_scope k) (capability_text c) rid d = (Inr g, d')"
    and "k_principal k = Some pid" and "role_capability (k_role k) = Some c" and "plain_scope k"
  shows "key_covered k d'"
proof -
  note edge = createGrant_edge [OF assms(1)] and within = createGrant_in [OF assms(1)]
  have "grant_covers_key k g"
    using edge assms(3,4) by (cases "k_scope k")
      (auto simp: grant_covers_key_def role_rank_def mapped_scope_def plain_scope_def trim_opt_def or_else_def)
  then show ?thesis
    using edge within assms(2) by (auto simp: key_covered_def exists_where_def list_ex_iff)
qed

lemma createGrant_keeps: "key_covered k d \<Longrightarrow> key_covered k (snd (createGrant E gr sty sid cap who d))"
  using createGrant_grants [of E gr sty sid cap who d] by (auto simp: key_covered_def exists_where_def)

text \<open>What the loop leaves uncovered it has counted.\<close>

lemma backfill_keys_counts:
  assumes "backfill_keys A rid ks r s = (Inr r', s')" and "\<forall>k \<in> set ks. plain_scope k \<and> k_principal k \<noteq> None"
  shows "length (filter (\<lambda>k. \<not> key_covered k (hub s')) ks) + bf_skipped r + bf_skipped_revoked r \<le>
      bf_skipped r' + bf_skipped_revoked r' \<and>
    bf_created r' + bf_skipped r' + bf_skipped_revoked r' = bf_created r + bf_skipped r + bf_skipped_revoked r + length ks \<and>
    bf_scanned r' = bf_scanned r \<and> api_keys s' = api_keys s \<and> principals (hub s') = principals (hub s) \<and>
    (\<forall>k. key_covered k (hub s) \<longrightarrow> key_covered k (hub s'))"
  using assms
proof (induction ks arbitrary: r s)
  case (Cons k ks)
  have rest: "\<forall>k \<in> set ks. plain_scope k \<and> k_principal k \<noteq> None" using Cons.prems(2) by simp
  show ?case
  proof (cases "role_capability (k_role k)")
    case None
    then have "backfill_keys A rid ks (r\<lparr>bf_skipped := Suc (bf_skipped r)\<rparr>) s = (Inr r', s')" using Cons.prems(1) by simp
    from Cons.IH [OF this rest] show ?thesis by auto
  next
    case (Some c)
    show ?thesis
    proof (cases "edge_revoked k c (hub s)")
      case True
      then have "backfill_keys A rid ks (r\<lparr>bf_skipped_revoked := Suc (bf_skipped_revoked r)\<rparr>) s = (Inr r', s')"
        using Some Cons.prems(1) by simp
      from Cons.IH [OF this rest] show ?thesis by auto
    next
      case False
      obtain pid where pid: "k_principal k = Some pid" using Cons.prems(2) by auto
      let ?call = "createGrant (hub_env A) pid (scope_type_text (mapped_scope k)) (k_scope k) (capability_text c) rid (hub s)"
      obtain g where g: "?call = (Inr g, snd ?call)"
        and go: "backfill_keys A rid ks (r\<lparr>bf_created := Suc (bf_created r)\<rparr>) (s\<lparr>hub := snd ?call\<rparr>) = (Inr r', s')"
        using Cons.prems(1) Some False pid by (auto simp: andThen_Inr on_hub_def or_else_def split: prod.splits)
      note IH = Cons.IH [OF go rest]
      have "key_covered k (snd ?call)"
        using createGrant_covers [OF g pid Some] Cons.prems(2) by simp
      then have "key_covered k (hub s')" using IH by simp
      then show ?thesis using IH createGrant_keeps by (auto simp: createGrant_principals)
    qed
  qed
qed simp

text \<open>
  The backfill covers what it can and reports the rest: after it every key that lacked a covering
  grant has one, except at most as many as were counted as unmappable or deliberately revoked (none are left
  when both counts are zero); no key that was covered is uncovered, and the counts add up.
\<close>

theorem backfill_covers:
  assumes "backfillGrantsFromApiKeys A None s = (Inr r, s')" and "\<forall>k \<in> set (api_keys s). plain_scope k"
  shows "countCredentialsWithoutGrants A None s' \<le> bf_skipped r + bf_skipped_revoked r \<and>
    bf_scanned r = countCredentialsWithoutGrants A None s \<and>
    bf_created r + bf_skipped r + bf_skipped_revoked r = bf_scanned r \<and>
    api_keys s' = api_keys s \<and> (\<forall>k. key_covered k (hub s) \<longrightarrow> key_covered k (hub s'))"
proof -
  let ?ks = "ungranted_keys A None s"
  obtain rt where run: "backfill_keys A rt ?ks \<lparr>bf_scanned = length ?ks, bf_created = 0, bf_skipped = 0, bf_skipped_revoked = 0\<rparr> s = (Inr r, s')"
    using assms(1) by (auto simp: backfillGrantsFromApiKeys_def split: option.splits)
  have "\<forall>k \<in> set ?ks. plain_scope k \<and> k_principal k \<noteq> None"
    using assms(2) by (auto simp: ungranted_keys_def eligible_key_def key_subject_def bind_eq_Some_conv split: option.splits)
  note counts = backfill_keys_counts [OF run this]
  have "eligible_key A None s' k = eligible_key A None s k" for k
    using counts by (simp add: eligible_key_def key_subject_def)
  then have "ungranted_keys A None s' = filter (\<lambda>k. \<not> key_covered k (hub s')) ?ks"
    using counts by (auto simp: ungranted_keys_def intro!: filter_cong)
  then show ?thesis using counts by (simp add: countCredentialsWithoutGrants_def)
qed

theorem backfill_covers_witness: "countCredentialsWithoutGrants dev_auth None ready_auth = 0"
proof -
  let ?run = "backfillGrantsFromApiKeys dev_auth None peopled_auth"
  have "fst ?run = Inr \<lparr>bf_scanned = 1, bf_created = 1, bf_skipped = 0, bf_skipped_revoked = 0\<rparr>" by code_simp
  then have "?run = (Inr \<lparr>bf_scanned = 1, bf_created = 1, bf_skipped = 0, bf_skipped_revoked = 0\<rparr>, ready_auth)"
    by (simp add: ready_auth_def prod_eq_iff)
  moreover have "\<forall>k \<in> set (api_keys peopled_auth). plain_scope k" by code_simp
  ultimately show ?thesis using backfill_covers by fastforce
qed

end
