(* ===== verification/Codec.thy ===== *)
theory Codec
  imports Identity
begin

text \<open>
  The codecs of second factors (services/mfa.ts): base 32 decodes what it encodes, whatever the case and the
  padding of the text, and a TOTP code is six digits and accepted within one step of its time.
\<close>

unbundle bit_operations_syntax

section \<open>The low bits of a word\<close>

definition low_bits :: "nat \<Rightarrow> 'a::len word \<Rightarrow> bool list" where
  "low_bits n v = map (bit v) (rev [0..<n])"

lemma length_low_bits [simp]: "length (low_bits n v) = n"
  by (simp add: low_bits_def)

lemma nth_low_bits: "i < n \<Longrightarrow> low_bits n v ! i = bit v (n - Suc i)"
  by (simp add: low_bits_def rev_nth)

lemma low_bits_push:
  fixes v :: "32 word"
  assumes "n + k \<le> 32" and "\<And>i. bit w i \<Longrightarrow> i < k"
  shows "low_bits (n + k) (push_bit k v OR w) = low_bits n v @ low_bits k w"
proof (rule nth_equalityI)
  fix i assume "i < length (low_bits (n + k) (push_bit k v OR w))"
  then have i: "i < n + k" by simp
  have "\<not> bit w (n + k - Suc i)" if "i < n" using assms(2) that by fastforce
  then show "low_bits (n + k) (push_bit k v OR w) ! i = (low_bits n v @ low_bits k w) ! i"
    using i assms(1) by (auto simp: nth_low_bits nth_append bit_simps algebra_simps)
qed simp

lemma low_bits_ucast: "n \<le> 8 \<Longrightarrow> low_bits n (ucast (b :: byte) :: 32 word) = low_bits n b"
  by (auto simp: low_bits_def bit_simps)

lemma low_bits_drop:
  fixes v :: "32 word"
  assumes "k \<le> n" and "n \<le> 32"
  shows "low_bits k (drop_bit (n - k) v) = take k (low_bits n v)"
proof (rule nth_equalityI)
  fix i assume "i < length (low_bits k (drop_bit (n - k) v))"
  then show "low_bits k (drop_bit (n - k) v) ! i = take k (low_bits n v) ! i"
    using assms by (simp add: nth_low_bits bit_simps algebra_simps)
qed (use assms in simp)

lemma low_bits_rest: "r \<le> n \<Longrightarrow> drop (n - r) (low_bits n v) = low_bits r v"
  by (rule nth_equalityI) (simp_all add: nth_low_bits)

lemma low_bits_zero [simp]: "low_bits n 0 = replicate n False"
  by (rule nth_equalityI) (simp_all add: nth_low_bits)

lemma low_bits_mask: "n \<le> k \<Longrightarrow> low_bits n (v AND mask k) = low_bits n (v :: 32 word)"
  by (auto simp: low_bits_def bit_simps dest: bit_imp_le_length)

lemma byte_eqI: "low_bits 8 a = low_bits 8 b \<Longrightarrow> a = (b :: byte)"
  by (rule bit_word_eqI) (auto simp: low_bits_def)

section \<open>Digits\<close>

definition digit_bits :: "nat \<Rightarrow> bool list" where
  "digit_bits i = low_bits 5 (word_of_nat i :: 32 word)"

lemma masks: "(31 :: 32 word) = mask 5" "(255 :: 32 word) = mask 8"
  by (simp_all add: mask_eq_exp_minus_1)

lemma digit_index:
  "unat (w AND 31 :: 32 word) < 32" "digit_bits (unat (w AND 31 :: 32 word)) = low_bits 5 w"
proof -
  have "w AND mask 5 < 2 ^ 5" by (rule and_mask_less') simp
  then have "unat (w AND mask 5) < unat (2 ^ 5 :: 32 word)" by (simp only: word_less_nat_alt)
  then show "unat (w AND 31) < 32" by (simp add: masks)
  show "digit_bits (unat (w AND 31)) = low_bits 5 w"
    by (simp add: digit_bits_def masks low_bits_mask)
qed

lemma flush_bits:
  assumes "n \<le> 32" and "b32_flush n v = (ds, r)"
  shows "\<exists>ixs. ds = map b32_digit ixs \<and> (\<forall>i \<in> set ixs. i < 32) \<and>
    concat (map digit_bits ixs) @ low_bits r v = low_bits n v \<and> r < 5 \<and> r \<le> n"
  using assms
proof (induction n v arbitrary: ds rule: b32_flush.induct)
  case (1 n v)
  show ?case
  proof (cases "n < 5")
    case True
    then show ?thesis using "1.prems"(2) by (simp add: b32_flush.simps [of n v])
  next
    case False
    let ?i = "unat (drop_bit (n - 5) v AND 31)"
    have "\<exists>es. b32_flush (n - 5) v = (es, r) \<and> ds = b32_digit ?i # es"
      using 1(3) False b32_flush.simps [of n v] by (auto split: prod.splits)
    then obtain es where rest: "b32_flush (n - 5) v = (es, r)" and ds: "ds = b32_digit ?i # es" by blast
    obtain ixs where ixs: "es = map b32_digit ixs" "\<forall>i \<in> set ixs. i < 32"
      "concat (map digit_bits ixs) @ low_bits r v = low_bits (n - 5) v" "r < 5" "r \<le> n - 5"
      using "1.IH" [OF False _ rest] "1.prems"(1) diff_le_self le_trans by blast
    have "digit_bits ?i = take 5 (low_bits n v)"
      using False "1.prems"(1) by (simp add: digit_index low_bits_drop)
    moreover have "low_bits (n - 5) v = drop 5 (low_bits n v)"
      using False low_bits_rest [of "n - 5" n v] by simp
    ultimately have "concat (map digit_bits (?i # ixs)) @ low_bits r v = low_bits n v"
      using ixs(3) by simp
    then show ?thesis using ds ixs digit_index(1) by (intro exI [of _ "?i # ixs"]) auto
  qed
qed

lemma encode_bits:
  "n < 5 \<Longrightarrow> \<exists>ixs k. b32_encode_from n v bs = map b32_digit ixs \<and> (\<forall>i \<in> set ixs. i < 32) \<and> k < 5 \<and>
    concat (map digit_bits ixs) = low_bits n v @ concat (map (low_bits 8) bs) @ replicate k False"
proof (induction n v bs rule: b32_encode_from.induct)
  case (1 n v)
  show ?case
  proof (cases "0 < n")
    case True
    have "low_bits (n + (5 - n)) (push_bit (5 - n) v OR 0) = low_bits n v @ low_bits (5 - n) (0 :: 32 word)"
      using 1 by (intro low_bits_push) simp_all
    then have "digit_bits (unat (push_bit (5 - n) v AND 31)) = low_bits n v @ replicate (5 - n) False"
      using 1 by (simp add: digit_index)
    then show ?thesis using True digit_index(1)
      by (intro exI [of _ "[unat (push_bit (5 - n) v AND 31)]"] exI [of _ "5 - n"]) auto
  next
    case False
    then show ?thesis by (intro exI [of _ "[]"] exI [of _ 0]) (simp add: low_bits_def)
  qed
next
  case (2 n v b bs)
  let ?v = "push_bit 8 v OR ucast b :: 32 word"
  obtain ds r where flush: "b32_flush (n + 8) ?v = (ds, r)" by force
  obtain ixs where ixs: "ds = map b32_digit ixs" "\<forall>i \<in> set ixs. i < 32"
    "concat (map digit_bits ixs) @ low_bits r ?v = low_bits (n + 8) ?v" "r < 5"
    using flush_bits [OF _ flush] "2.prems" by auto
  obtain js k where js: "b32_encode_from r ?v bs = map b32_digit js" "\<forall>i \<in> set js. i < 32" "k < 5"
    "concat (map digit_bits js) = low_bits r ?v @ concat (map (low_bits 8) bs) @ replicate k False"
    using "2.IH" [OF refl flush [symmetric] ixs(4)] by blast
  have "low_bits (n + 8) ?v = low_bits n v @ low_bits 8 (ucast b :: 32 word)"
    using "2.prems" by (intro low_bits_push) (auto simp: bit_simps dest: bit_imp_le_length)
  then have "concat (map digit_bits (ixs @ js)) = low_bits n v @ concat (map (low_bits 8) (b # bs)) @ replicate k False"
    using ixs(3) js(4) by (simp add: low_bits_ucast)
  moreover have "b32_encode_from n v (b # bs) = map b32_digit (ixs @ js)"
    using flush ixs(1) js(1) by (simp add: Let_def)
  ultimately show ?case using ixs(2) js(2,3) by (intro exI [of _ "ixs @ js"] exI [of _ k]) auto
qed

section \<open>Decoding\<close>

lemma alphabet: "list_all (\<lambda>i. index_of (b32_digit i) BASE32_ALPHABET = Some i) [0..<32]"
  by code_simp

lemma index_digit: "i < 32 \<Longrightarrow> index_of (b32_digit i) BASE32_ALPHABET = Some i"
  using alphabet by (simp add: list_all_iff del: upt_Suc)

lemma emitted:
  fixes v :: "32 word"
  assumes "8 \<le> n" and "n \<le> 32"
  shows "low_bits 8 (ucast (drop_bit (n - 8) v AND 0xff) :: byte) = take 8 (low_bits n v)"
proof -
  have "low_bits 8 (ucast (drop_bit (n - 8) v AND 0xff) :: byte) = low_bits 8 (drop_bit (n - 8) v AND mask 8)"
    by (auto simp: low_bits_def bit_simps masks)
  also have "\<dots> = take 8 (low_bits n v)" using assms by (simp add: low_bits_mask low_bits_drop)
  finally show ?thesis .
qed

lemma small_index: "i < 32 \<Longrightarrow> bit (word_of_nat i :: 32 word) j \<Longrightarrow> j < 5"
proof (rule ccontr)
  assume "i < 32" "bit (word_of_nat i :: 32 word) j" "\<not> j < 5"
  then have "bit i j" by (simp add: bit_simps)
  moreover have "(2 :: nat) ^ 5 \<le> 2 ^ j" using \<open>\<not> j < 5\<close> by (intro power_increasing) simp_all
  then have "i < 2 ^ j" using \<open>i < 32\<close> by simp
  ultimately show False by (simp add: bit_iff_odd)
qed

lemma decode_bits:
  assumes "n < 8" and "\<forall>i \<in> set ixs. i < 32" and "length pad < 8"
    and "low_bits n v @ concat (map digit_bits ixs) = concat (map (low_bits 8) bs) @ pad"
  shows "b32_decode_from n v (map b32_digit ixs) = Some bs"
  using assms
proof (induction ixs arbitrary: n v bs)
  case Nil
  then have "n = length (concat (map (low_bits 8) bs)) + length pad"
    by (metis append_Nil2 concat.simps(1) length_append length_low_bits list.map(1))
  then have "bs = []" using Nil.prems(1) by (cases bs) auto
  then show ?case by simp
next
  case (Cons i ixs)
  let ?v = "push_bit 5 v OR word_of_nat i :: 32 word"
  have i: "i < 32" and rest: "\<forall>i \<in> set ixs. i < 32" using Cons.prems(2) by simp_all
  have "low_bits (n + 5) ?v = low_bits n v @ digit_bits i"
    unfolding digit_bits_def using Cons.prems(1) i by (intro low_bits_push) (simp_all add: small_index)
  then have stream: "low_bits (n + 5) ?v @ concat (map digit_bits ixs) = concat (map (low_bits 8) bs) @ pad"
    using Cons.prems(4) by simp
  show ?case
  proof (cases "8 \<le> n + 5")
    case True
    have "8 \<le> length (concat (map (low_bits 8) bs) @ pad)"
      using True arg_cong [OF stream, of length] by simp
    then obtain b cs where bs: "bs = b # cs" using Cons.prems(3) by (cases bs) auto
    have "take 8 (low_bits (n + 5) ?v) = low_bits 8 b"
      using arg_cong [OF stream, of "take 8"] True bs by simp
    then have b: "ucast (drop_bit (n + 5 - 8) ?v AND 0xff) = b"
      using emitted [of "n + 5" ?v] True Cons.prems(1) by (intro byte_eqI) simp
    have "drop 8 (low_bits (n + 5) ?v) @ concat (map digit_bits ixs) = concat (map (low_bits 8) cs) @ pad"
      using arg_cong [OF stream, of "drop 8"] True bs by simp
    then have "low_bits (n + 5 - 8) ?v @ concat (map digit_bits ixs) = concat (map (low_bits 8) cs) @ pad"
      using low_bits_rest [of "n + 5 - 8" "n + 5" ?v] True by simp
    then have "b32_decode_from (n + 5 - 8) ?v (map b32_digit ixs) = Some cs"
      using Cons.prems(1,3) rest by (intro Cons.IH) simp_all
    then show ?thesis using True b bs i by (simp add: index_digit Let_def)
  next
    case False
    then have "b32_decode_from (n + 5) ?v (map b32_digit ixs) = Some bs"
      using stream Cons.prems(3) rest by (intro Cons.IH) simp_all
    then show ?thesis using False i by (simp add: index_digit Let_def)
  qed
qed

text \<open>What \<open>base32Decode\<close> strips or folds never touches a digit.\<close>

lemma digit_chars: "list_all (\<lambda>i. upper_char (b32_digit i) = [b32_digit i] \<and> upper_char (lower_char (b32_digit i)) = [b32_digit i] \<and>
    \<not> js_space (b32_digit i) \<and> b32_digit i \<noteq> CHR ''='') [0..<32]"
  by code_simp

lemma clean_digits:
  assumes "\<forall>i \<in> set ixs. i < 32" and "\<forall>i < 32. upper_char (g (b32_digit i)) = [b32_digit i]"
  shows "b32_clean (map g (map b32_digit ixs) @ replicate k (CHR ''='')) = map b32_digit ixs"
proof -
  have digit: "b32_digit i \<noteq> CHR ''='' \<and> \<not> js_space (b32_digit i)" if "i < 32" for i
    using digit_chars that by (simp add: list_all_iff del: upt_Suc)
  have "toUpperCase (map g (map b32_digit ixs)) = map b32_digit ixs"
    using assms by (induction ixs) (simp_all add: toUpperCase_def)
  moreover have "toUpperCase (replicate k (CHR ''='')) = replicate k (CHR ''='')"
    by (induction k) (simp_all add: toUpperCase_def upper_char_def)
  ultimately have "toUpperCase (map g (map b32_digit ixs) @ replicate k (CHR ''='')) = map b32_digit ixs @ replicate k (CHR ''='')"
    by (simp add: toUpperCase_def)
  moreover have "dropWhile (\<lambda>c. c = CHR ''='') (replicate k (CHR ''='') @ rev (map b32_digit ixs)) = rev (map b32_digit ixs)"
  proof -
    have stop: "dropWhile (\<lambda>c. c = CHR ''='') xs = xs" if "\<forall>x \<in> set xs. x \<noteq> CHR ''=''" for xs
      using that by (cases xs) auto
    have "dropWhile (\<lambda>c. c = CHR ''='') (rev (map b32_digit ixs)) = rev (map b32_digit ixs)"
      by (rule stop) (use digit assms(1) in auto)
    then show ?thesis by (induction k) simp_all
  qed
  moreover have "filter (\<lambda>c. \<not> js_space c) (map b32_digit ixs) = map b32_digit ixs"
    using digit assms(1) by (simp add: filter_id_conv)
  ultimately show ?thesis by (simp add: b32_clean_def)
qed

section \<open>Codes\<close>

lemma show_nat_text: "list_all is_digit (show_nat n) \<and> (\<forall>k. 0 < k \<longrightarrow> n < 10 ^ k \<longrightarrow> length (show_nat n) \<le> k)"
proof (induction n rule: show_nat.induct)
  case (1 n)
  show ?case
  proof (cases "n < 10")
    case True
    then have "is_digit (char_of (n + 48))" by (simp add: is_digit_def code_of_def)
    then show ?thesis using True by (simp add: show_nat.simps [of n] Suc_le_eq)
  next
    case False
    have "n mod 10 < 10" by simp
    then have "is_digit (char_of (n mod 10 + 48))" by (simp add: is_digit_def code_of_def)
    moreover have "length (show_nat (n div 10)) + 1 \<le> k" if pos: "0 < k" and lt: "n < 10 ^ k" for k
    proof -
      obtain j where k: "k = Suc j" using pos by (cases k) auto
      then have "n div 10 < 10 ^ j" using lt by (simp add: less_mult_imp_div_less mult.commute)
      moreover have "j \<noteq> 0" using lt k False by (cases j) auto
      ultimately show ?thesis using 1(1) [OF False] k by auto
    qed
    ultimately show ?thesis using 1(1) [OF False] False by (simp add: show_nat.simps [of n])
  qed
qed

lemma totp_text: "totpCode A secret t = Some c \<Longrightarrow> is_totp_text c"
proof -
  have "is_totp_text (pad_zero 6 (show_nat (m mod 10 ^ 6)))" for m
  proof -
    have "m mod 10 ^ 6 < 10 ^ 6" by simp
    then have "length (show_nat (m mod 10 ^ 6)) \<le> 6" "list_all is_digit (show_nat (m mod 10 ^ 6))"
      using show_nat_text [of "m mod 10 ^ 6"] by auto
    then show ?thesis by (auto simp: is_totp_text_def is_digit_def code_of_def list_all_iff)
  qed
  then show "totpCode A secret t = Some c \<Longrightarrow> is_totp_text c"
    by (auto simp: totpCode_def TOTP_DIGITS_def simp del: pad_zero.simps split: option.splits)
qed

lemma totp_step:
  assumes "t' div 30 = t div 30 + drift"
  shows "totpCode A secret (t + drift * TOTP_STEP_SECONDS) = totpCode A secret t'"
proof -
  have "(t + drift * TOTP_STEP_SECONDS) div TOTP_STEP_SECONDS = t' div TOTP_STEP_SECONDS"
    using assms by (simp add: TOTP_STEP_SECONDS_def)
  then show ?thesis by (simp only: totpCode_def)
qed

lemma matches_iff:
  assumes "base32Decode secret \<noteq> None"
  shows "totp_matches A secret c t ds = Some (\<exists>d \<in> set ds. totpCode A secret (t + d * TOTP_STEP_SECONDS) = Some c)"
  using assms by (induction ds) (auto simp: totpCode_def split: option.splits)

section \<open>Properties\<close>

text \<open>
  Property C40. Base 32 decodes what it encodes: every byte string comes back from its text, in upper or lower
  case, with any padding.
\<close>

theorem base32_roundtrip:
  "base32Decode (base32Encode bs @ replicate k (CHR ''='')) = Some bs \<and>
   base32Decode (toLowerCase (base32Encode bs) @ replicate k (CHR ''='')) = Some bs"
proof -
  obtain ixs j where ixs: "base32Encode bs = map b32_digit ixs" "\<forall>i \<in> set ixs. i < 32" "j < 5"
    "concat (map digit_bits ixs) = concat (map (low_bits 8) bs) @ replicate j False"
    using encode_bits [of 0 0 bs] by (auto simp: base32Encode_def)
  have "b32_decode_from 0 0 (map b32_digit ixs) = Some bs"
    using ixs by (intro decode_bits [of _ _ "replicate j False"]) simp_all
  moreover have "\<forall>i < 32. upper_char (id (b32_digit i)) = [b32_digit i]" "\<forall>i < 32. upper_char (lower_char (b32_digit i)) = [b32_digit i]"
    using digit_chars by (simp_all add: list_all_iff del: upt_Suc)
  ultimately show ?thesis
    using clean_digits [OF ixs(2), of id] clean_digits [OF ixs(2), of lower_char] ixs(1)
    by (simp add: base32Decode_def toLowerCase_def)
qed

text \<open>
  A TOTP code is accepted exactly in its own thirty-second step and the two beside it: with a
  well-formed secret the answer is yes precisely when the trimmed code is the six-digit code of
  an instant at most one step away.
\<close>

theorem totp_window:
  assumes "base32Decode secret \<noteq> None"
  shows "verifyTotp A secret code t =
    Some (\<exists>t0. \<bar>t0 div 30 - t div 30\<bar> \<le> 1 \<and> totpCode A secret t0 = Some (trim code))"
proof -
  let ?P = "\<lambda>d. totpCode A secret (t + d * TOTP_STEP_SECONDS) = Some (trim code)"
  have "(\<exists>d \<in> set [-1, 0, 1]. ?P d) \<longleftrightarrow> (\<exists>t0. \<bar>t0 div 30 - t div 30\<bar> \<le> 1 \<and> totpCode A secret t0 = Some (trim code))"
  proof
    assume "\<exists>d \<in> set [-1, 0, 1]. ?P d"
    then obtain d where d: "d \<in> {-1, 0, 1}" "?P d" by (metis list.set(1,2))
    have "(t + d * TOTP_STEP_SECONDS) div 30 - t div 30 = d" by (simp add: TOTP_STEP_SECONDS_def)
    then show "\<exists>t0. \<bar>t0 div 30 - t div 30\<bar> \<le> 1 \<and> totpCode A secret t0 = Some (trim code)"
      using d by (intro exI [of _ "t + d * TOTP_STEP_SECONDS"]) auto
  next
    assume "\<exists>t0. \<bar>t0 div 30 - t div 30\<bar> \<le> 1 \<and> totpCode A secret t0 = Some (trim code)"
    then obtain t0 where t0: "\<bar>t0 div 30 - t div 30\<bar> \<le> 1" "totpCode A secret t0 = Some (trim code)" by blast
    then have "?P (t0 div 30 - t div 30)" using totp_step [of t0 t "t0 div 30 - t div 30"] by simp
    moreover have "t0 div 30 - t div 30 \<in> set [-1, 0, 1]" using t0(1) by auto
    ultimately show "\<exists>d \<in> set [-1, 0, 1]. ?P d" by blast
  qed
  then show ?thesis
    using totp_text [of A secret _ "trim code"] matches_iff [OF assms, of A "trim code" t "[-1, 0, 1]"]
    by (auto simp: verifyTotp_def simp del: set_simps)
qed

theorem totp_window_witness: "verifyTotp dev_auth ''MY'' '' 000000 '' 31 = Some True"
proof -
  have "base32Decode ''MY'' \<noteq> None" by code_simp
  moreover have "totpCode dev_auth ''MY'' 31 = Some (trim '' 000000 '')" by code_simp
  then have "\<exists>t0. \<bar>t0 div 30 - (31 :: int) div 30\<bar> \<le> 1 \<and> totpCode dev_auth ''MY'' t0 = Some (trim '' 000000 '')"
    by (intro exI [of _ 31]) simp
  ultimately show ?thesis using totp_window [of "''MY''" dev_auth "'' 000000 ''" 31] by simp
qed

end
