(* ===== verification/Jobs.thy ===== *)
theory Jobs
  imports Chaining
begin

text \<open>
  The job queue (services/jobQueue.ts over the tables of src/migrations/0006, 0046, 0051): enqueuing with its
  gates on project, root and cache root, the two ways to claim, completion, failure with its retry,
  progress, cancellation, listing.

  \<open>job_db\<close> is the coordination database with the tables of jobs, sources and workspaces;
  \<open>published\<close> holds the identifiers sent to the broker and \<open>calls\<close> the calls of services outside the model.
\<close>

section \<open>State\<close>

datatype job_type = Repo_sync | Workspace_scan | Workspace_delta_index | Index_run | Git_ingest | Quality_eval
  | Knowledge_refresh | Faq_build | Raptor_build | Loop_shallow | Loop_deep | Memory_build | Extract_vision | Leases_sweep

datatype job_status = J_queued | J_running | J_succeeded | J_failed | J_dead_letter | J_cancelled

type_synonym payload = "(string \<times> json) list"

record job_row =
  j_id :: string
  j_project :: "string option"
  j_type :: job_type
  j_queue :: string
  j_payload :: payload
  j_corr :: "string option"
  j_status :: job_status
  j_attempts :: nat
  j_max :: nat
  j_available :: int
  j_error :: "string option"
  j_queued_at :: int
  j_started :: "int option"
  j_finished :: "int option"
  j_progress :: "jsnum option"
  j_message :: "string option"

datatype source_type = Remote_git | Local_workspace

record source_row =
  sr_project :: string
  sr_type :: source_type
  sr_git_url :: "string option"
  sr_ref :: string
  sr_root :: "string option"
  sr_root_by :: "string option"
  sr_enabled :: bool

record workspace_row =
  ws_id :: string
  ws_project :: string
  ws_root :: string
  ws_root_by :: "string option"
  ws_active :: bool
  ws_updated :: int

text \<open>
  A call of a service whose body is outside the model, with the arguments that matter here: the project, the file-system
  root it works on, the payload its options come from.
\<close>

datatype service =
    S_git string string string string payload
  | S_status string string
  | S_ingest string string payload
  | S_index string string
  | S_impact string string payload
  | S_eval string payload
  | S_faq string string payload
  | S_raptor string string payload
  | S_estimate string payload
  | S_memory string string payload
  | S_large_memory string string payload
  | S_document string string
  | S_extract string string payload
  | S_sweep payload

record job_db =
  jhub :: db
  async_jobs :: "job_row list"
  project_sources :: "source_row list"
  project_workspaces :: "workspace_row list"
  published :: "string list"
  calls :: "service list"

type_synonym 'r job_outcome = "(exn + 'r) \<times> job_db"

text \<open>
  What a call reads from outside. \<open>je_broker\<close>: a RabbitMQ channel is available. \<open>je_cwd\<close> is the working
  directory, \<open>text_number\<close> is \<^verbatim>\<open>Number\<close> of a string, \<open>je_chunk_root\<close> a root in the table of chunks, and
  \<open>je_service n\<close> the answer of the \<open>n\<close>-th call of a service outside the model.
\<close>

record answer =
  an_ok :: bool
  an_flag :: bool

record job_env =
  henv :: env
  je_broker :: bool
  je_cwd :: string
  text_number :: "string \<Rightarrow> jsnum"
  loop_enabled :: bool
  memory_enabled :: bool
  je_chunk_root :: "string \<Rightarrow> string option"
  je_service :: "nat \<Rightarrow> service \<Rightarrow> exn + answer"
  je_message :: "exn \<Rightarrow> string"

definition j_refuse :: "hub_code \<Rightarrow> job_db \<Rightarrow> 'r job_outcome" where
  "j_refuse c s = (Inl (Hub c), s)"

definition j_then :: "'a job_outcome \<Rightarrow> ('a \<Rightarrow> job_db \<Rightarrow> 'b job_outcome) \<Rightarrow> 'b job_outcome" where
  "j_then out f = (case out of (Inl x, s) \<Rightarrow> (Inl x, s) | (Inr a, s) \<Rightarrow> f a s)"

definition j_authorized ::
  "job_env \<Rightarrow> string option \<Rightarrow> action \<Rightarrow> string \<Rightarrow> (job_db \<Rightarrow> 'r job_outcome) \<Rightarrow> job_db \<Rightarrow> 'r job_outcome" where
  "j_authorized J acting act pid rest s =
     (case assertAuthorized (henv J) acting act (rref K_project pid) (jhub s) of
        (Some x, d) \<Rightarrow> (Inl x, s\<lparr>jhub := d\<rparr>)
      | (None, d) \<Rightarrow> rest (s\<lparr>jhub := d\<rparr>))"

definition j_global :: "job_env \<Rightarrow> string option \<Rightarrow> action \<Rightarrow> job_db \<Rightarrow> bool" where
  "j_global J acting act s = hasGlobalGrant (henv J) acting act (jhub s)"

definition j_uuid :: "job_env \<Rightarrow> job_db \<Rightarrow> string" where
  "j_uuid J s = uuid_of (henv J) (uuid_ctr (jhub s))"

definition j_spend :: "job_db \<Rightarrow> job_db" where
  "j_spend s = s\<lparr>jhub := (jhub s)\<lparr>uuid_ctr := Suc (uuid_ctr (jhub s))\<rparr>\<rparr>"

section \<open>Payloads\<close>

fun js_truthy :: "json \<Rightarrow> bool" where
  "js_truthy JNull = False"
| "js_truthy (JBool b) = b"
| "js_truthy (JNum q) = (q \<noteq> 0)"
| "js_truthy (JStr s) = (s \<noteq> [])"
| "js_truthy _ = True"

text \<open>\<^verbatim>\<open>String(v)\<close>: an array joins its elements with commas, null and undefined print as nothing there.\<close>

fun js_string :: "env \<Rightarrow> json \<Rightarrow> string" where
  "js_string E JNull = ''null''"
| "js_string E (JBool b) = (if b then ''true'' else ''false'')"
| "js_string E (JNum q) = num_text E q"
| "js_string E (JStr s) = s"
| "js_string E (JArr xs) = join_with '','' (map (\<lambda>x. if x = JNull then [] else js_string E x) xs)"
| "js_string E (JObj kvs) = ''[object Object]''"

definition pget :: "string \<Rightarrow> payload \<Rightarrow> json option" where
  "pget k p = map_of p k"

definition pset :: "string \<Rightarrow> json \<Rightarrow> payload \<Rightarrow> payload" where
  "pset k v p = (if k \<in> fst ` set p then map (\<lambda>e. if fst e = k then (k, v) else e) p else p @ [(k, v)])"

definition pdelete :: "string \<Rightarrow> payload \<Rightarrow> payload" where
  "pdelete k p = filter (\<lambda>e. fst e \<noteq> k) p"

text \<open>\<^verbatim>\<open>typeof v === 'string' && v.trim().length > 0\<close>\<close>

definition nonblank_text :: "json option \<Rightarrow> bool" where
  "nonblank_text v = (case v of Some (JStr s) \<Rightarrow> trim s \<noteq> [] | _ \<Rightarrow> False)"

section \<open>Enqueuing\<close>

text \<open>\<^verbatim>\<open>Math.max(1, Math.trunc(max_attempts ?? 3))\<close> into a column of type INT.\<close>

definition max_attempts_of :: "jsnum option \<Rightarrow> exn + nat" where
  "max_attempts_of x = (case x of
     None \<Rightarrow> Inr 3
   | Some NaN \<Rightarrow> Inl Pg_syntax
   | Some PosInf \<Rightarrow> Inl Pg_syntax
   | Some NegInf \<Rightarrow> Inr 1
   | Some (Fin q) \<Rightarrow> let n = max 1 \<lfloor>q\<rfloor> in if 2147483647 < n then Inl Pg_range else Inr (nat n))"

definition stamp_root :: "string option \<Rightarrow> payload \<Rightarrow> payload" where
  "stamp_root acting p =
     (if nonblank_text (pget ''root'' p) then pset ''root_authorized_by'' (json_opt acting) p
      else pdelete ''root_authorized_by'' p)"

datatype backend = Postgres | Rabbitmq

definition insert_job ::
  "job_env \<Rightarrow> string option \<Rightarrow> job_type \<Rightarrow> payload \<Rightarrow> string option \<Rightarrow> string option \<Rightarrow> jsnum option \<Rightarrow> job_db \<Rightarrow>
    (string \<times> backend) job_outcome" where
  "insert_job J project ty p corr queue maxA s =
     (let jid = j_uuid J s; s1 = j_spend s;
          c = (case corr of Some x \<Rightarrow> x | None \<Rightarrow> j_uuid J s1);
          s2 = (if corr = None then j_spend s1 else s1)
      in case max_attempts_of maxA of
           Inl x \<Rightarrow> (Inl x, s2)
         | Inr n \<Rightarrow>
             if find_row j_id jid (async_jobs s2) \<noteq> None then (Inl Pg_unique, s2)
             else let s3 = s2\<lparr>async_jobs := async_jobs s2 @ [\<lparr>j_id = jid, j_project = project, j_type = ty,
                        j_queue = or_else queue ''default'', j_payload = p, j_corr = Some c, j_status = J_queued,
                        j_attempts = 0, j_max = n, j_available = pg_now (henv J), j_error = None,
                        j_queued_at = pg_now (henv J), j_started = None, j_finished = None, j_progress = None,
                        j_message = None\<rparr>]\<rparr>
                  in if je_broker J then (Inr (jid, Rabbitmq), s3\<lparr>published := published s3 @ [jid]\<rparr>)
                     else (Inr (jid, Postgres), s3))"

definition enqueue_checked ::
  "job_env \<Rightarrow> bool \<Rightarrow> string option \<Rightarrow> string option \<Rightarrow> job_type \<Rightarrow> payload \<Rightarrow> string option \<Rightarrow> string option \<Rightarrow>
    jsnum option \<Rightarrow> job_db \<Rightarrow> (string \<times> backend) job_outcome" where
  "enqueue_checked J isGlobal project acting ty p corr queue maxA s =
     (if nonblank_text (pget ''root'' p) \<and> \<not> isGlobal then j_refuse BAD_REQUEST s
      else if nonblank_text (pget ''cache_root'' p) \<and> \<not> isGlobal then j_refuse BAD_REQUEST s
      else insert_job J project ty (stamp_root acting p) corr queue maxA s)"

definition enqueueJob ::
  "job_env \<Rightarrow> string option \<Rightarrow> string option \<Rightarrow> job_type \<Rightarrow> payload \<Rightarrow> string option \<Rightarrow> string option \<Rightarrow>
    jsnum option \<Rightarrow> job_db \<Rightarrow> (string \<times> backend) job_outcome" where
  "enqueueJob J project acting ty p corr queue maxA s =
     (let isGlobal = j_global J acting A_write s in
      if project \<noteq> None \<and> project \<noteq> Some []
      then j_authorized J acting A_write (or_else project []) (enqueue_checked J isGlobal project acting ty p corr queue maxA) s
      else if \<not> isGlobal then j_refuse BAD_REQUEST s
      else enqueue_checked J isGlobal project acting ty p corr queue maxA s)"

section \<open>Claiming\<close>

definition set_job :: "string \<Rightarrow> (job_row \<Rightarrow> job_row) \<Rightarrow> job_db \<Rightarrow> job_db" where
  "set_job jid f s = s\<lparr>async_jobs := update_where (\<lambda>j. j_id j = jid) f (async_jobs s)\<rparr>"

definition start_job :: "job_env \<Rightarrow> job_row \<Rightarrow> job_row" where
  "start_job J j = j\<lparr>j_status := J_running, j_attempts := Suc (j_attempts j), j_started := Some (pg_now (henv J))\<rparr>"

definition claimable :: "job_env \<Rightarrow> string \<Rightarrow> string option \<Rightarrow> job_row \<Rightarrow> bool" where
  "claimable J queue scope j \<longleftrightarrow> j_status j = J_queued \<and> j_queue j = queue \<and> j_available j \<le> pg_now (henv J) \<and>
     (scope = None \<or> scope = Some [] \<or> j_project j = scope)"

text \<open>\<^verbatim>\<open>ORDER BY queued_at ASC LIMIT 1\<close>; the job as it is after the update is returned.\<close>

definition claimNextQueuedJob :: "job_env \<Rightarrow> string \<Rightarrow> string option \<Rightarrow> job_db \<Rightarrow> job_row option \<times> job_db" where
  "claimNextQueuedJob J queue scope s =
     (case sort_key j_queued_at (filter (claimable J queue scope) (async_jobs s)) of
        [] \<Rightarrow> (None, s)
      | j # _ \<Rightarrow> (Some (start_job J j), set_job (j_id j) (start_job J) s))"

definition claimQueuedJobById :: "job_env \<Rightarrow> string \<Rightarrow> job_db \<Rightarrow> job_row option job_outcome" where
  "claimQueuedJobById J jid s =
     (if \<not> pg_uuid (henv J) jid then (Inl Pg_syntax, s)
      else case find_row j_id jid (async_jobs s) of
          None \<Rightarrow> (Inr None, s)
        | Some j \<Rightarrow>
            if j_status j = J_queued \<and> j_available j \<le> pg_now (henv J)
            then (Inr (Some (start_job J j)), set_job jid (start_job J) s)
            else (Inr None, s))"

section \<open>The end of a run\<close>

definition complete_row :: "job_env \<Rightarrow> job_row \<Rightarrow> job_row" where
  "complete_row J j = j\<lparr>j_status := J_succeeded, j_finished := Some (pg_now (henv J)), j_error := None,
     j_progress := Some (Fin 100)\<rparr>"

definition completeJob :: "job_env \<Rightarrow> string \<Rightarrow> job_db \<Rightarrow> job_db" where
  "completeJob J jid = set_job jid (complete_row J)"

definition next_status :: "nat \<Rightarrow> nat \<Rightarrow> job_status" where
  "next_status attempts maxA = (if maxA \<le> attempts then J_dead_letter else J_failed)"

definition failed_row :: "job_env \<Rightarrow> job_status \<Rightarrow> string \<Rightarrow> job_row \<Rightarrow> job_row" where
  "failed_row J st err j = j\<lparr>j_status := st, j_error := Some err, j_finished := Some (pg_now (henv J)),
     j_available := (if st = J_failed then pg_now (henv J) + 30000 else j_available j)\<rparr>"

definition requeue_row :: "job_row \<Rightarrow> job_row" where
  "requeue_row j = j\<lparr>j_status := J_queued, j_started := None, j_finished := None\<rparr>"

text \<open>Two statements; \<open>failJob_first\<close> is the first alone.\<close>

definition failJob_first :: "job_env \<Rightarrow> string \<Rightarrow> nat \<Rightarrow> nat \<Rightarrow> string \<Rightarrow> job_db \<Rightarrow> job_db" where
  "failJob_first J jid attempts maxA err = set_job jid (failed_row J (next_status attempts maxA) err)"

definition failJob :: "job_env \<Rightarrow> string \<Rightarrow> nat \<Rightarrow> nat \<Rightarrow> string \<Rightarrow> job_db \<Rightarrow> job_status \<times> job_db" where
  "failJob J jid attempts maxA err s =
     (let st = next_status attempts maxA; s1 = failJob_first J jid attempts maxA err s
      in (st, if st = J_failed then set_job jid requeue_row s1 else s1))"

text \<open>\<^verbatim>\<open>Math.max(0, Math.min(100, progress))\<close>\<close>

definition clamp_progress :: "jsnum \<Rightarrow> jsnum" where
  "clamp_progress x = (case x of Fin q \<Rightarrow> Fin (max 0 (min 100 q)) | PosInf \<Rightarrow> Fin 100 | NegInf \<Rightarrow> Fin 0 | NaN \<Rightarrow> NaN)"

definition updateJobProgress :: "job_env \<Rightarrow> string \<Rightarrow> jsnum \<Rightarrow> string option \<Rightarrow> job_db \<Rightarrow> unit job_outcome" where
  "updateJobProgress J jid progress msg s =
     (if \<not> pg_uuid (henv J) jid then (Inl Pg_syntax, s)
      else (Inr (), set_job jid (\<lambda>j. j\<lparr>j_progress := Some (clamp_progress progress), j_message := msg\<rparr>) s))"

definition isJobCancelled :: "job_env \<Rightarrow> string \<Rightarrow> job_db \<Rightarrow> bool job_outcome" where
  "isJobCancelled J jid s =
     (if \<not> pg_uuid (henv J) jid then (Inl Pg_syntax, s)
      else (Inr (case find_row j_id jid (async_jobs s) of None \<Rightarrow> False | Some j \<Rightarrow> j_status j = J_cancelled), s))"

section \<open>Cancelling and listing\<close>

definition cancel_row :: "job_env \<Rightarrow> job_row \<Rightarrow> job_row" where
  "cancel_row J j = j\<lparr>j_status := J_cancelled, j_finished := Some (pg_now (henv J)), j_error := Some ''Cancelled by user''\<rparr>"

definition cancellable :: "string \<Rightarrow> string option \<Rightarrow> job_row \<Rightarrow> bool" where
  "cancellable jid project j \<longleftrightarrow> j_id j = jid \<and> (project = None \<or> project = Some [] \<or> j_project j = project) \<and>
     (j_status j = J_queued \<or> j_status j = J_running)"

definition cancel_rows :: "job_env \<Rightarrow> string \<Rightarrow> string option \<Rightarrow> job_db \<Rightarrow> bool job_outcome" where
  "cancel_rows J jid project s =
     (if \<not> pg_uuid (henv J) jid then (Inl Pg_syntax, s)
      else (Inr (exists_where (cancellable jid project) (async_jobs s)),
            s\<lparr>async_jobs := update_where (cancellable jid project) (cancel_row J) (async_jobs s)\<rparr>))"

definition cancelJob :: "job_env \<Rightarrow> string \<Rightarrow> string option \<Rightarrow> string option \<Rightarrow> job_db \<Rightarrow> bool job_outcome" where
  "cancelJob J jid project acting s =
     (if project \<noteq> None \<and> project \<noteq> Some []
      then j_authorized J acting A_write (or_else project []) (cancel_rows J jid project) s
      else if \<not> j_global J acting A_write s then j_refuse BAD_REQUEST s
      else cancel_rows J jid project s)"

text \<open>\<^verbatim>\<open>Math.min(Math.max(limit ?? 50, 1), 200)\<close> and \<^verbatim>\<open>Math.max(offset ?? 0, 0)\<close> as BIGINT parameters: \<open>None\<close> is a refused literal.\<close>

definition whole :: "rat \<Rightarrow> nat option" where
  "whole q = (if of_int \<lfloor>q\<rfloor> = q then Some (nat \<lfloor>q\<rfloor>) else None)"

definition page_limit :: "jsnum option \<Rightarrow> nat option" where
  "page_limit x = (case x of None \<Rightarrow> Some 50 | Some NaN \<Rightarrow> None | Some PosInf \<Rightarrow> Some 200 | Some NegInf \<Rightarrow> Some 1
     | Some (Fin q) \<Rightarrow> whole (min (max q 1) 200))"

definition page_offset :: "jsnum option \<Rightarrow> nat option" where
  "page_offset x = (case x of None \<Rightarrow> Some 0 | Some NaN \<Rightarrow> None | Some PosInf \<Rightarrow> None | Some NegInf \<Rightarrow> Some 0
     | Some (Fin q) \<Rightarrow> whole (max q 0))"

definition job_listed ::
  "string option \<Rightarrow> string list option \<Rightarrow> string option \<Rightarrow> job_status option \<Rightarrow> job_row \<Rightarrow> bool" where
  "job_listed project pids corr st j \<longleftrightarrow>
     (case pids of
        Some (p # ps) \<Rightarrow> j_project j \<in> Some ` set (p # ps)
      | _ \<Rightarrow> project = None \<or> project = Some [] \<or> j_project j = project) \<and>
     (corr = None \<or> corr = Some [] \<or> j_corr j = corr) \<and> (st = None \<or> Some (j_status j) = st)"

text \<open>Every named project is checked in turn.\<close>

fun j_read_all :: "job_env \<Rightarrow> string option \<Rightarrow> string list \<Rightarrow> job_db \<Rightarrow> unit job_outcome" where
  "j_read_all J acting [] s = (Inr (), s)"
| "j_read_all J acting (p # ps) s = j_authorized J acting A_read p (j_read_all J acting ps) s"

definition listJobs ::
  "job_env \<Rightarrow> string option \<Rightarrow> string list option \<Rightarrow> string option \<Rightarrow> string option \<Rightarrow> job_status option \<Rightarrow>
    jsnum option \<Rightarrow> jsnum option \<Rightarrow> job_db \<Rightarrow> (job_row list \<times> nat) job_outcome" where
  "listJobs J project pids acting corr st lmt off s =
     (let ids = (case pids of Some ps \<Rightarrow> ps | None \<Rightarrow>
                   (case project of None \<Rightarrow> [] | Some p \<Rightarrow> if p = [] then [] else [p]));
          rows = filter (job_listed project pids corr st) (async_jobs s);
          answer = (\<lambda>s. case (page_limit lmt, page_offset off) of
             (Some n, Some k) \<Rightarrow> (Inr (take n (drop k (rev (sort_key j_queued_at rows))), length rows), s)
           | _ \<Rightarrow> (Inl Pg_syntax, s))
      in if ids \<noteq> [] then j_then (j_read_all J acting ids s) (\<lambda>_. answer)
         else if \<not> j_global J acting A_read s then j_refuse BAD_REQUEST s
         else answer s)"

text \<open>services/sweepScheduler.ts: what one cycle enqueues once it holds the advisory lock.\<close>

definition sweep_cycle_enqueue :: "job_env \<Rightarrow> rat \<Rightarrow> job_db \<Rightarrow> (string \<times> backend) job_outcome" where
  "sweep_cycle_enqueue J grace =
     enqueueJob J None None Leases_sweep [(''grace_minutes'', JNum grace)]
       (Some (''sweep-'' @ num_text (henv J) (of_int (js_now (henv J))))) None None"

lemma lease_sweep_refused:
  "auth_enabled (henv J) \<Longrightarrow> sweep_cycle_enqueue J grace s = j_refuse BAD_REQUEST s"
  by (simp add: sweep_cycle_enqueue_def enqueueJob_def j_global_def hasGlobalGrant_def loadPrincipalLite_def)

end
