(* ===== verification/Worker.thy ===== *)
theory Worker
  imports Jobs Bootstrap
begin

text \<open>
  What runs the jobs: the file-system root of a project (utils/resolveProjectRoot.ts), the sources and workspaces
  that store one (services/repoSources.ts, services/workspaceTracker.ts), the executor (services/jobExecutor.ts) and
  the start of the worker (src/src/worker.ts, services/bootPosture.ts).

  The work itself (git, indexing, summaries, evaluation) lies outside; each such call is an entry of \<open>calls\<close>
  and answers \<open>je_service\<close>.
\<close>

section \<open>Paths\<close>

text \<open>
  \<^verbatim>\<open>path.resolve(..)\<close> on POSIX: arguments are joined from the right until one is absolute, the working
  directory last; empty and \<^verbatim>\<open>.\<close> segments go, \<^verbatim>\<open>..\<close> takes back a segment.
\<close>

fun norm_segments :: "string list \<Rightarrow> string list \<Rightarrow> string list" where
  "norm_segments acc [] = rev acc"
| "norm_segments acc (x # xs) =
     (if x = [] \<or> x = ''.'' then norm_segments acc xs
      else if x = ''..'' then norm_segments (drop 1 acc) xs
      else norm_segments (x # acc) xs)"

fun gather_path :: "string list \<Rightarrow> string \<Rightarrow> string" where
  "gather_path [] acc = acc"
| "gather_path (p # ps) acc =
     (if p = [] then gather_path ps acc
      else if hd p = CHR ''/'' then p @ ''/'' @ acc
      else gather_path ps (p @ ''/'' @ acc))"

definition path_resolve :: "string \<Rightarrow> string list \<Rightarrow> string" where
  "path_resolve cwd args =
     ''/'' @ join_with ''/'' (norm_segments [] (split_on (CHR ''/'') (gather_path (rev args @ [cwd]) [])))"

text \<open>\<^verbatim>\<open>/\/[A-Z]:[\\/]/\<close>\<close>

fun windows_path :: "string \<Rightarrow> bool" where
  "windows_path (a # b # c # d # xs) =
     (a = CHR ''/'' \<and> b \<ge> CHR ''A'' \<and> b \<le> CHR ''Z'' \<and> c = CHR '':'' \<and> (d = CHR 0x5C \<or> d = CHR ''/'') \<or>
      windows_path (b # c # d # xs))"
| "windows_path _ = False"

definition isValidServerPath :: "string \<Rightarrow> bool" where
  "isValidServerPath p \<longleftrightarrow> \<not> windows_path p \<and> trim p \<noteq> []"

section \<open>The root of a project\<close>

definition storedRootAuthorized :: "job_env \<Rightarrow> string option \<Rightarrow> job_db \<Rightarrow> bool" where
  "storedRootAuthorized J authBy s \<longleftrightarrow> \<not> auth_enabled (henv J) \<or> j_global J authBy A_write s"

definition source_rank :: "source_row \<Rightarrow> nat" where
  "source_rank r = (if sr_type r = Remote_git then 0 else 1)"

definition source_root :: "job_env \<Rightarrow> string \<Rightarrow> job_db \<Rightarrow> string option" where
  "source_root J pid s =
     (case sort_key source_rank (filter (\<lambda>r. sr_project r = pid \<and> sr_root r \<noteq> None \<and> sr_root r \<noteq> Some [] \<and> sr_enabled r)
             (project_sources s)) of
        [] \<Rightarrow> None
      | r # _ \<Rightarrow> if isValidServerPath (or_else (sr_root r) []) \<and> storedRootAuthorized J (sr_root_by r) s
                 then sr_root r else None)"

definition workspace_root :: "job_env \<Rightarrow> string \<Rightarrow> job_db \<Rightarrow> string option" where
  "workspace_root J pid s =
     (case find (\<lambda>w. ws_project w = pid \<and> ws_active w) (project_workspaces s) of
        None \<Rightarrow> None
      | Some w \<Rightarrow> if ws_root w \<noteq> [] \<and> isValidServerPath (ws_root w) \<and> storedRootAuthorized J (ws_root_by w) s
                  then Some (ws_root w) else None)"

definition chunk_root :: "job_env \<Rightarrow> string \<Rightarrow> string option" where
  "chunk_root J pid = (if auth_enabled (henv J) then None
     else case je_chunk_root J pid of
         None \<Rightarrow> None
       | Some r \<Rightarrow> if r \<noteq> [] \<and> isValidServerPath r then Some r else None)"

definition resolveProjectRoot ::
  "job_env \<Rightarrow> string option \<Rightarrow> string option \<Rightarrow> string option \<Rightarrow> job_db \<Rightarrow> exn + string" where
  "resolveProjectRoot J project explicit authBy s =
     (if trim_opt explicit \<noteq> []
      then if auth_enabled (henv J) \<and> \<not> j_global J authBy A_write s then Inl (Hub FORBIDDEN) else Inr (trim_opt explicit)
      else if project = None \<or> project = Some [] then Inl Plain_error
      else case source_root J (or_else project []) s of
          Some r \<Rightarrow> Inr r
        | None \<Rightarrow> (case workspace_root J (or_else project []) s of
            Some r \<Rightarrow> Inr r
          | None \<Rightarrow> (case chunk_root J (or_else project []) of Some r \<Rightarrow> Inr r | None \<Rightarrow> Inl Plain_error)))"

text \<open>\<^verbatim>\<open>payload.k ? String(payload.k) : undefined\<close>\<close>

definition text_of :: "job_env \<Rightarrow> string \<Rightarrow> payload \<Rightarrow> string option" where
  "text_of J k p = (case pget k p of None \<Rightarrow> None
     | Some v \<Rightarrow> if js_truthy v then Some (js_string (henv J) v) else None)"

definition resolveRoot :: "job_env \<Rightarrow> string option \<Rightarrow> payload \<Rightarrow> job_db \<Rightarrow> exn + string" where
  "resolveRoot J project p s = resolveProjectRoot J project (text_of J ''root'' p) (text_of J ''root_authorized_by'' p) s"

section \<open>Sources and workspaces\<close>

definition note_project :: "string \<Rightarrow> job_db \<Rightarrow> job_db" where
  "note_project pid s = (if pid \<in> set (projects (jhub s)) then s
     else s\<lparr>jhub := (jhub s)\<lparr>projects := projects (jhub s) @ [pid]\<rparr>\<rparr>)"

text \<open>The stamp is a column of type UUID (src/migrations/0069).\<close>

definition stampable :: "job_env \<Rightarrow> string option \<Rightarrow> bool" where
  "stampable J acting \<longleftrightarrow> (case acting of None \<Rightarrow> True | Some a \<Rightarrow> pg_uuid (henv J) a)"

definition merge_source :: "source_row \<Rightarrow> source_row \<Rightarrow> source_row" where
  "merge_source new old = old\<lparr>sr_git_url := sr_git_url new, sr_ref := sr_ref new,
     sr_root := (if sr_root new = None then sr_root old else sr_root new),
     sr_root_by := (if sr_root new = None then sr_root_by old else sr_root_by new),
     sr_enabled := sr_enabled new\<rparr>"

definition upsert_source :: "source_row \<Rightarrow> source_row list \<Rightarrow> source_row list" where
  "upsert_source r tbl =
     (let same = (\<lambda>x. sr_project x = sr_project r \<and> sr_type x = sr_type r) in
      if exists_where same tbl then update_where same (merge_source r) tbl else tbl @ [r])"

text \<open>A path is a root to be gated when it is not blank; it is stored when it is not empty.\<close>

definition configureProjectSource ::
  "job_env \<Rightarrow> string \<Rightarrow> string option \<Rightarrow> source_type \<Rightarrow> string option \<Rightarrow> string option \<Rightarrow> string option \<Rightarrow> bool option \<Rightarrow>
    job_db \<Rightarrow> unit job_outcome" where
  "configureProjectSource J pid acting ty url ref repoRoot enabled =
     j_authorized J acting A_write pid (\<lambda>s.
       let hasRepoRoot = (trim_opt repoRoot \<noteq> []) in
       if hasRepoRoot \<and> auth_enabled (henv J) \<and> \<not> j_global J acting A_write s then j_refuse FORBIDDEN s
       else if hasRepoRoot \<and> \<not> stampable J acting then (Inl Pg_syntax, note_project pid s)
       else (Inr (), (note_project pid s)\<lparr>project_sources := upsert_source
          \<lparr>sr_project = pid, sr_type = ty, sr_git_url = url, sr_ref = or_else ref ''main'',
           sr_root = (case repoRoot of None \<Rightarrow> None | Some r \<Rightarrow> if r = [] then None else Some (path_resolve (je_cwd J) [r])),
           sr_root_by = (if hasRepoRoot then acting else None), sr_enabled = or_else enabled True\<rparr> (project_sources s)\<rparr>))"

definition getProjectSource ::
  "job_env \<Rightarrow> string \<Rightarrow> source_type \<Rightarrow> string option \<Rightarrow> job_db \<Rightarrow> source_row option job_outcome" where
  "getProjectSource J pid ty acting =
     j_authorized J acting A_read pid (\<lambda>s. (Inr (find (\<lambda>r. sr_project r = pid \<and> sr_type r = ty) (project_sources s)), s))"

text \<open>\<^verbatim>\<open>projectId.replace(/[^\w.-]+/g, '_')\<close>\<close>

definition word_char :: "char \<Rightarrow> bool" where
  "word_char c \<longleftrightarrow> (c \<ge> CHR ''a'' \<and> c \<le> CHR ''z'') \<or> (c \<ge> CHR ''A'' \<and> c \<le> CHR ''Z'') \<or>
     (c \<ge> CHR ''0'' \<and> c \<le> CHR ''9'') \<or> c = CHR ''_''"

fun safe_from :: "bool \<Rightarrow> string \<Rightarrow> string" where
  "safe_from gap [] = []"
| "safe_from gap (c # cs) =
     (if word_char c \<or> c = CHR ''.'' \<or> c = CHR ''-'' then c # safe_from False cs
      else if gap then safe_from True cs else CHR ''_'' # safe_from True cs)"

definition safe_project :: "string \<Rightarrow> string" where
  "safe_project = safe_from False"

definition call_service :: "job_env \<Rightarrow> service \<Rightarrow> job_db \<Rightarrow> answer job_outcome" where
  "call_service J c s = (je_service J (length (calls s)) c, s\<lparr>calls := calls s @ [c]\<rparr>)"

text \<open>The result of \<open>prepareRepo\<close>: whether its status is ok, and the root.\<close>

definition prepareRepo ::
  "job_env \<Rightarrow> string \<Rightarrow> string option \<Rightarrow> string \<Rightarrow> string \<Rightarrow> string option \<Rightarrow> payload \<Rightarrow> job_db \<Rightarrow> (bool \<times> string) job_outcome" where
  "prepareRepo J pid acting url cacheRoot ref p =
     j_authorized J acting A_write pid (\<lambda>s.
       if auth_enabled (henv J) \<and> \<not> j_global J acting A_write s then j_refuse FORBIDDEN s
       else let r = (if trim (or_else ref ''main'') = [] then ''main'' else trim (or_else ref ''main''));
                rt = path_resolve (je_cwd J) [cacheRoot, safe_project pid]
            in case call_service J (S_git pid url rt r p) s of
                 (Inl _, s1) \<Rightarrow> (Inr (False, rt), s1)
               | (Inr _, s1) \<Rightarrow>
                   (case configureProjectSource J pid acting Remote_git (Some url) (Some r) (Some rt) (Some True) s1 of
                      (Inl _, s2) \<Rightarrow> (Inr (False, rt), s2)
                    | (Inr _, s2) \<Rightarrow> (Inr (True, rt), s2)))"

definition registerWorkspaceRoot ::
  "job_env \<Rightarrow> string \<Rightarrow> string option \<Rightarrow> string \<Rightarrow> bool option \<Rightarrow> job_db \<Rightarrow> string job_outcome" where
  "registerWorkspaceRoot J pid acting rootPath active =
     j_authorized J acting A_write pid (\<lambda>s.
       if auth_enabled (henv J) \<and> \<not> j_global J acting A_write s then j_refuse FORBIDDEN s
       else let rt = path_resolve (je_cwd J) [rootPath]; wid = j_uuid J s;
                same = (\<lambda>w. ws_project w = pid \<and> ws_root w = rt); s1 = j_spend (note_project pid s)
            in if \<not> stampable J acting then (Inl Pg_syntax, note_project pid s)
               else if exists_where same (project_workspaces s1)
               then (Inr rt, s1\<lparr>project_workspaces := update_where same
                      (\<lambda>w. w\<lparr>ws_root_by := acting, ws_active := or_else active True, ws_updated := pg_now (henv J)\<rparr>)
                      (project_workspaces s1)\<rparr>)
               else if find_row ws_id wid (project_workspaces s1) \<noteq> None then (Inl Pg_unique, s1)
               else (Inr rt, s1\<lparr>project_workspaces := project_workspaces s1 @
                      [\<lparr>ws_id = wid, ws_project = pid, ws_root = rt, ws_root_by = acting,
                        ws_active = or_else active True, ws_updated = pg_now (henv J)\<rparr>]\<rparr>))"

definition listWorkspaceRoots :: "job_env \<Rightarrow> string \<Rightarrow> string option \<Rightarrow> job_db \<Rightarrow> workspace_row list job_outcome" where
  "listWorkspaceRoots J pid acting = j_authorized J acting A_read pid
     (\<lambda>s. (Inr (rev (sort_key ws_updated (filter (\<lambda>w. ws_project w = pid) (project_workspaces s)))), s))"

text \<open>The status is ok or error; the row of \<^verbatim>\<open>workspace_deltas\<close> is not modelled.\<close>

definition scanWorkspaceChanges ::
  "job_env \<Rightarrow> string \<Rightarrow> string option \<Rightarrow> string \<Rightarrow> bool \<Rightarrow> job_db \<Rightarrow> bool job_outcome" where
  "scanWorkspaceChanges J pid acting rootPath runDelta =
     j_authorized J acting A_write pid (\<lambda>s.
       let rt = path_resolve (je_cwd J) [rootPath]; failed = (\<lambda>s. (Inr False, s)) in
       case call_service J (S_status pid rt) s of
         (Inl _, s1) \<Rightarrow> failed s1
       | (Inr _, s1) \<Rightarrow>
           (case registerWorkspaceRoot J pid acting rt (Some True) s1 of
              (Inl _, s2) \<Rightarrow> failed s2
            | (Inr _, s2) \<Rightarrow>
                if runDelta
                then (case call_service J (S_index pid rt) s2 of (Inl _, s3) \<Rightarrow> failed s3 | (Inr _, s3) \<Rightarrow> (Inr True, s3))
                else (Inr True, s2)))"

section \<open>The executor\<close>

definition j_done :: "job_db \<Rightarrow> unit job_outcome" where
  "j_done s = (Inr (), s)"

definition run_service :: "job_env \<Rightarrow> service \<Rightarrow> job_db \<Rightarrow> unit job_outcome" where
  "run_service J c s = j_then (call_service J c s) (\<lambda>_. j_done)"

definition j_seq :: "(job_db \<Rightarrow> unit job_outcome) \<Rightarrow> (job_db \<Rightarrow> 'b job_outcome) \<Rightarrow> job_db \<Rightarrow> 'b job_outcome" where
  "j_seq f g s = j_then (f s) (\<lambda>_. g)"

definition j_when :: "bool \<Rightarrow> (job_db \<Rightarrow> unit job_outcome) \<Rightarrow> job_db \<Rightarrow> unit job_outcome" where
  "j_when b f = (if b then f else j_done)"

text \<open>\<^verbatim>\<open>payload.k !== false\<close>, and \<^verbatim>\<open>payload.k ?? d\<close> as text or as JSON.\<close>

definition not_false :: "string \<Rightarrow> payload \<Rightarrow> bool" where
  "not_false k p \<longleftrightarrow> pget k p \<noteq> Some (JBool False)"

definition text_or :: "job_env \<Rightarrow> string \<Rightarrow> string \<Rightarrow> payload \<Rightarrow> string" where
  "text_or J k dflt p = (case pget k p of None \<Rightarrow> dflt | Some v \<Rightarrow> if v = JNull then dflt else js_string (henv J) v)"

definition json_or_null :: "string \<Rightarrow> payload \<Rightarrow> json" where
  "json_or_null k p = or_else (pget k p) JNull"

fun js_number :: "job_env \<Rightarrow> json \<Rightarrow> jsnum" where
  "js_number J JNull = Fin 0"
| "js_number J (JBool b) = Fin (if b then 1 else 0)"
| "js_number J (JNum q) = Fin q"
| "js_number J v = text_number J (js_string (henv J) v)"

text \<open>The rounds of the deep loop: \<^verbatim>\<open>Math.min(Math.max(Number(payload.max_rounds ?? 3), 1), 5)\<close>; NaN gives none.\<close>

definition max_rounds :: "job_env \<Rightarrow> payload \<Rightarrow> nat" where
  "max_rounds J p = (case (case pget ''max_rounds'' p of None \<Rightarrow> Fin 3 | Some v \<Rightarrow> if v = JNull then Fin 3 else js_number J v) of
     NaN \<Rightarrow> 0 | PosInf \<Rightarrow> 5 | NegInf \<Rightarrow> 1 | Fin q \<Rightarrow> nat \<lfloor>min (max q 1) 5\<rfloor>)"

definition summaries :: "job_env \<Rightarrow> string \<Rightarrow> string \<Rightarrow> payload \<Rightarrow> job_db \<Rightarrow> unit job_outcome" where
  "summaries J pid rt p =
     j_seq (j_when (not_false ''run_faq'' p) (run_service J (S_faq pid rt p)))
       (j_when (not_false ''run_raptor'' p) (run_service J (S_raptor pid rt p)))"

text \<open>The estimate of the size is only logged and may fail; the choice of the pipeline may not.\<close>

definition builder_memory :: "job_env \<Rightarrow> string \<Rightarrow> string \<Rightarrow> payload \<Rightarrow> job_db \<Rightarrow> unit job_outcome" where
  "builder_memory J pid rt p s =
     (let s1 = snd (call_service J (S_estimate rt []) s) in
      j_then (call_service J (S_estimate rt p) s1) (\<lambda>large.
        run_service J (if an_flag large then S_large_memory pid rt p else S_memory pid rt p)))"

fun deep_rounds :: "job_env \<Rightarrow> string \<Rightarrow> string \<Rightarrow> payload \<Rightarrow> nat list \<Rightarrow> job_db \<Rightarrow> unit job_outcome" where
  "deep_rounds J pid rt p [] s = j_done s"
| "deep_rounds J pid rt p (i # rs) s =
     j_seq (j_when (i = 1 \<and> not_false ''run_shallow'' p) (summaries J pid rt p))
       (j_seq (j_when (i = 1 \<and> not_false ''builder_memory'' p \<and> memory_enabled J) (builder_memory J pid rt p))
         (j_seq (run_service J (S_index pid rt))
           (\<lambda>s. j_then (call_service J (S_eval pid p) s) (\<lambda>gate.
              if an_flag gate then j_done else deep_rounds J pid rt p rs)))) s"

definition with_root ::
  "job_env \<Rightarrow> string \<Rightarrow> payload \<Rightarrow> (string \<Rightarrow> job_db \<Rightarrow> unit job_outcome) \<Rightarrow> job_db \<Rightarrow> unit job_outcome" where
  "with_root J pid p f s = (case resolveRoot J (Some pid) p s of Inl x \<Rightarrow> (Inl x, s) | Inr rt \<Rightarrow> f rt s)"

definition chained ::
  "job_env \<Rightarrow> string option \<Rightarrow> string option \<Rightarrow> string \<Rightarrow> job_type \<Rightarrow> payload \<Rightarrow> job_db \<Rightarrow> unit job_outcome" where
  "chained J acting corr pid ty p s = j_then (enqueueJob J (Some pid) acting ty p corr None None s) (\<lambda>_. j_done)"

definition root_payload :: "string \<Rightarrow> payload" where
  "root_payload rt = [(''root'', JStr rt)]"

definition repo_sync :: "job_env \<Rightarrow> string option \<Rightarrow> string option \<Rightarrow> string \<Rightarrow> payload \<Rightarrow> job_db \<Rightarrow> unit job_outcome" where
  "repo_sync J acting corr pid p s =
     (let url = text_or J ''git_url'' [] p in
      if url = [] then (Inl Plain_error, s)
      else j_then (prepareRepo J pid acting url (text_or J ''cache_root'' ''./.repo-cache'' p) (text_of J ''ref'' p) p s)
        (\<lambda>(ok, rt). if \<not> ok then (\<lambda>s. (Inl Plain_error, s))
           else j_seq (chained J acting corr pid Git_ingest
                  [(''root'', JStr rt), (''since'', json_or_null ''since'' p), (''max_commits'', json_or_null ''max_commits'' p)])
                (chained J acting corr pid Index_run (root_payload rt))))"

definition execute_on :: "job_env \<Rightarrow> string option \<Rightarrow> string option \<Rightarrow> string \<Rightarrow> job_type \<Rightarrow> payload \<Rightarrow> job_db \<Rightarrow> unit job_outcome" where
  "execute_on J acting corr pid ty p = (case ty of
     Repo_sync \<Rightarrow> repo_sync J acting corr pid p
   | Git_ingest \<Rightarrow> with_root J pid p (\<lambda>rt. run_service J (S_ingest pid rt p))
   | Index_run \<Rightarrow> with_root J pid p (\<lambda>rt. run_service J (S_index pid rt))
   | Workspace_delta_index \<Rightarrow> with_root J pid p (\<lambda>rt. run_service J (S_index pid rt))
   | Workspace_scan \<Rightarrow> with_root J pid p (\<lambda>rt s. j_then (scanWorkspaceChanges J pid acting rt False s) (\<lambda>_.
       j_seq (chained J acting corr pid Workspace_delta_index (root_payload rt))
         (chained J acting corr pid Knowledge_refresh (root_payload rt))))
   | Knowledge_refresh \<Rightarrow> (case text_of J ''commit_sha'' p of None \<Rightarrow> j_done
       | Some sha \<Rightarrow> if sha = [] then j_done else run_service J (S_impact pid sha p))
   | Quality_eval \<Rightarrow> run_service J (S_eval pid p)
   | Loop_shallow \<Rightarrow> if \<not> loop_enabled J then j_done
       else with_root J pid p (\<lambda>rt. j_seq (summaries J pid rt p)
         (j_seq (run_service J (S_index pid rt)) (run_service J (S_document pid ''shallow''))))
   | Loop_deep \<Rightarrow> if \<not> loop_enabled J then j_done
       else with_root J pid p (\<lambda>rt. j_seq (deep_rounds J pid rt p [1..<Suc (max_rounds J p)])
         (run_service J (S_document pid ''deep'')))
   | Faq_build \<Rightarrow> with_root J pid p (\<lambda>rt. j_seq (run_service J (S_faq pid rt p))
       (chained J acting corr pid Index_run (root_payload rt)))
   | Raptor_build \<Rightarrow> with_root J pid p (\<lambda>rt. j_seq (run_service J (S_raptor pid rt p))
       (chained J acting corr pid Index_run (root_payload rt)))
   | Memory_build \<Rightarrow> with_root J pid p (\<lambda>rt s. j_then (call_service J (S_large_memory pid rt p) s) (\<lambda>r.
       j_when (an_ok r) (chained J acting corr pid Index_run (root_payload rt))))
   | Extract_vision \<Rightarrow> (if text_or J ''doc_id'' [] p = [] then (\<lambda>s. (Inl Plain_error, s))
       else run_service J (S_extract pid (text_or J ''doc_id'' [] p) p))
   | Leases_sweep \<Rightarrow> run_service J (S_sweep p))"

definition executeByType ::
  "job_env \<Rightarrow> string option \<Rightarrow> job_type \<Rightarrow> string option \<Rightarrow> payload \<Rightarrow> string option \<Rightarrow> job_db \<Rightarrow> unit job_outcome" where
  "executeByType J acting ty project p corr =
     (if ty = Leases_sweep then run_service J (S_sweep p)
      else if project = None \<or> project = Some [] then (\<lambda>s. (Inl Plain_error, s))
      else execute_on J acting corr (or_else project []) ty p)"

datatype run_result = Run_idle | Run_ok string | Run_error string

definition execute_claimed :: "job_env \<Rightarrow> string option \<Rightarrow> job_row \<Rightarrow> job_db \<Rightarrow> run_result \<times> job_db" where
  "execute_claimed J acting j s =
     (case executeByType J acting (j_type j) (j_project j) (j_payload j) (j_corr j) s of
        (Inr _, s1) \<Rightarrow> (Run_ok (j_id j), completeJob J (j_id j) s1)
      | (Inl x, s1) \<Rightarrow> (Run_error (j_id j), snd (failJob J (j_id j) (j_attempts j) (j_max j) (je_message J x) s1)))"

definition drain :: "job_env \<Rightarrow> string \<Rightarrow> string option \<Rightarrow> string option \<Rightarrow> job_db \<Rightarrow> run_result job_outcome" where
  "drain J queue scope acting s = (case claimNextQueuedJob J queue scope s of
     (None, s1) \<Rightarrow> (Inr Run_idle, s1)
   | (Some j, s1) \<Rightarrow> (case execute_claimed J acting j s1 of (r, s2) \<Rightarrow> (Inr r, s2)))"

definition runNextJob :: "job_env \<Rightarrow> string option \<Rightarrow> string option \<Rightarrow> string option \<Rightarrow> job_db \<Rightarrow> run_result job_outcome" where
  "runNextJob J queue scope acting s =
     (let go = drain J (or_else queue ''default'') scope acting in
      if scope \<noteq> None \<and> scope \<noteq> Some [] then j_authorized J acting A_write (or_else scope []) go s
      else if \<not> j_global J acting A_write s then j_refuse BAD_REQUEST s
      else go s)"

definition run_by_id :: "job_env \<Rightarrow> string \<Rightarrow> string option \<Rightarrow> job_db \<Rightarrow> run_result job_outcome" where
  "run_by_id J jid acting s = j_then (claimQueuedJobById J jid s) (\<lambda>claimed s1. case claimed of
     None \<Rightarrow> (Inr Run_idle, s1)
   | Some j \<Rightarrow> (case execute_claimed J acting j s1 of (r, s2) \<Rightarrow> (Inr r, s2)))"

definition runJobById :: "job_env \<Rightarrow> string \<Rightarrow> string option \<Rightarrow> job_db \<Rightarrow> run_result job_outcome" where
  "runJobById J jid acting s =
     (if \<not> pg_uuid (henv J) jid then (Inl Pg_syntax, s)
      else case find (\<lambda>j. j_id j = jid \<and> j_status j = J_queued) (async_jobs s) of
          None \<Rightarrow> (Inr Run_idle, s)
        | Some j \<Rightarrow>
            if j_project j \<noteq> None \<and> j_project j \<noteq> Some []
            then j_authorized J acting A_write (or_else (j_project j) []) (run_by_id J jid acting) s
            else if \<not> j_global J acting A_write s then j_refuse BAD_REQUEST s
            else run_by_id J jid acting s)"

section \<open>The start of a process\<close>

datatype posture = Refuse_boot | Enforce_ready_required | Warn_unauthenticated | Boot_ok

definition evaluateBootPosture :: "bool \<Rightarrow> env \<Rightarrow> posture" where
  "evaluateBootPosture production E =
     (if production \<and> \<not> auth_enabled E then Refuse_boot
      else if production \<and> auth_enabled E then Enforce_ready_required
      else if \<not> auth_enabled E then Warn_unauthenticated else Boot_ok)"

text \<open>\<open>None\<close>: the process exits. Otherwise the identity the worker acts as.\<close>

definition worker_start :: "auth_env \<Rightarrow> bool \<Rightarrow> auth_db \<Rightarrow> string option option" where
  "worker_start A production s =
     (let posture = evaluateBootPosture production (hub_env A);
          identity = map_option pr_id (getSystemPrincipal (hub s))
      in if posture = Refuse_boot then None
         else if posture = Enforce_ready_required \<and> isl (assertEnforceReady A s) then None
         else if auth_enabled (hub_env A) \<and> \<not> hasUsableSystemIdentity (hub s) then None
         else Some identity)"

end
