(* ===== verification/JobLaw.thy ===== *)
theory JobLaw
  imports Worker Identity
begin

text \<open>
  What the job queue guarantees. \<open>queue_step\<close> interleaves the statements of any number of workers and callers; a state is the
  database with the runs in flight, each the row its worker claimed. The runs of a job are exclusive and at most as
  many as allowed, and an ended job stays ended. A file-system root reaches a service only on the authority of
  a principal with global write.
\<close>

section \<open>The root of a job\<close>

lemma pget_pset: "pget k (pset k v p) = Some v"
proof (cases "k \<in> fst ` set p")
  case True
  have "map_of (map (\<lambda>e. if fst e = k then (k, v) else e) q) k = Some v" if "k \<in> fst ` set q" for q
    using that by (induction q) auto
  then show ?thesis using True by (simp add: pget_def pset_def)
next
  case False
  then have "map_of p k = None" by (simp add: map_of_eq_None_iff)
  then show ?thesis using False by (simp add: pget_def pset_def map_add_def)
qed

lemma pget_pset_other: "k \<noteq> k' \<Longrightarrow> pget k (pset k' v p) = pget k p"
proof -
  assume ne: "k \<noteq> k'"
  have "map_of (map (\<lambda>e. if fst e = k' then (k', v) else e) q) k = map_of q k" for q
    using ne by (induction q) auto
  then show ?thesis using ne by (auto simp: pget_def pset_def map_add_def split: option.split)
qed

lemma pget_pdelete: "pget k (pdelete k p) = None" "k \<noteq> k' \<Longrightarrow> pget k (pdelete k' p) = pget k p"
  by (induction p) (auto simp: pget_def pdelete_def)

lemma stamp_root_pget:
  "pget ''root'' (stamp_root acting p) = pget ''root'' p"
  "pget ''root_authorized_by'' (stamp_root acting p) =
    (if nonblank_text (pget ''root'' p) then Some (json_opt acting) else None)"
  by (simp_all add: stamp_root_def pget_pset pget_pset_other pget_pdelete)

lemma j_authorized_Inr:
  "j_authorized J acting act pid rest s = (Inr r, s') \<Longrightarrow> \<exists>l. rest (s\<lparr>jhub := (jhub s)\<lparr>authz_decisions := l\<rparr>\<rparr>) = (Inr r, s')"
  by (auto simp: j_authorized_def split: prod.splits option.splits dest!: authz.gate_frame) metis

lemma insert_job_row:
  assumes "insert_job J project ty p corr queue maxA s = (Inr (jid, b), s')"
  shows "\<exists>row. async_jobs s' = async_jobs s @ [row] \<and> j_id row = jid \<and> find_row j_id jid (async_jobs s) = None \<and>
    j_payload row = p \<and> j_status row = J_queued \<and> j_attempts row = 0 \<and> 0 < j_max row \<and> j_project row = project"
  using assms
  by (auto simp: insert_job_def Let_def j_spend_def max_attempts_of_def split: sum.splits if_splits option.splits jsnum.splits)

lemma enqueued:
  assumes "enqueueJob J project acting ty p corr queue maxA s = (Inr (jid, b), s')"
  shows "(nonblank_text (pget ''root'' p) \<longrightarrow> j_global J acting A_write s) \<and>
    (\<exists>row. async_jobs s' = async_jobs s @ [row] \<and> j_id row = jid \<and> find_row j_id jid (async_jobs s) = None \<and>
      j_payload row = stamp_root acting p \<and> j_status row = J_queued \<and> j_attempts row = 0 \<and> 0 < j_max row \<and> j_project row = project)"
proof -
  obtain l where "enqueue_checked J (j_global J acting A_write s) project acting ty p corr queue maxA
      (s\<lparr>jhub := (jhub s)\<lparr>authz_decisions := l\<rparr>\<rparr>) = (Inr (jid, b), s')"
  proof (cases "project \<noteq> None \<and> project \<noteq> Some []")
    case True
    then show thesis using assms that by (auto simp: enqueueJob_def Let_def dest!: j_authorized_Inr)
  next
    case False
    moreover have "s = s\<lparr>jhub := (jhub s)\<lparr>authz_decisions := authz_decisions (jhub s)\<rparr>\<rparr>" by simp
    ultimately show thesis using assms that [of "authz_decisions (jhub s)"]
      by (auto simp: enqueueJob_def Let_def j_refuse_def split: if_splits)
  qed
  then show ?thesis
    by (auto simp: enqueue_checked_def j_refuse_def split: if_splits dest!: insert_job_row)
qed

lemma hasGlobalGrant_None: "auth_enabled E \<Longrightarrow> \<not> hasGlobalGrant E None act d"
  by (simp add: hasGlobalGrant_def loadPrincipalLite_def)

lemma stored_authority:
  "auth_enabled (henv J) \<Longrightarrow> storedRootAuthorized J by s \<Longrightarrow> \<exists>a. by = Some a \<and> hasGlobalGrant (henv J) (Some a) A_write (jhub s)"
  by (cases "by") (auto simp: storedRootAuthorized_def j_global_def hasGlobalGrant_None)

lemma find_found: "find P xs = Some x \<Longrightarrow> x \<in> set xs \<and> P x"
  by (auto simp: find_Some_iff)

lemma source_root_Some:
  assumes "source_root J pid s = Some r" and "auth_enabled (henv J)"
  shows "\<exists>x \<in> set (project_sources s). \<exists>a. sr_project x = pid \<and> sr_enabled x \<and> sr_root x = Some r \<and> sr_root_by x = Some a \<and>
    hasGlobalGrant (henv J) (Some a) A_write (jhub s)"
proof -
  let ?rows = "filter (\<lambda>r. sr_project r = pid \<and> sr_root r \<noteq> None \<and> sr_root r \<noteq> Some [] \<and> sr_enabled r) (project_sources s)"
  obtain x xs where x: "sort_key source_rank ?rows = x # xs" "storedRootAuthorized J (sr_root_by x) s" "sr_root x = Some r"
    using assms(1) by (auto simp: source_root_def split: list.splits if_splits)
  have "x \<in> set (sort_key source_rank ?rows)" unfolding x(1) by simp
  then have "x \<in> set ?rows" by simp
  then show ?thesis using x(2,3) stored_authority [OF assms(2)] by auto
qed

lemma workspace_root_Some:
  assumes "workspace_root J pid s = Some r" and "auth_enabled (henv J)"
  shows "\<exists>w \<in> set (project_workspaces s). \<exists>a. ws_project w = pid \<and> ws_active w \<and> ws_root w = r \<and> ws_root_by w = Some a \<and>
    hasGlobalGrant (henv J) (Some a) A_write (jhub s)"
proof -
  obtain w where w: "find (\<lambda>w. ws_project w = pid \<and> ws_active w) (project_workspaces s) = Some w"
      "storedRootAuthorized J (ws_root_by w) s" "ws_root w = r"
    using assms(1) by (auto simp: workspace_root_def split: option.splits if_splits)
  then show ?thesis using find_found [OF w(1)] stored_authority [OF assms(2) w(2)] by auto
qed


section \<open>The queue and its workers\<close>

type_synonym queue = "job_db \<times> job_row list"

text \<open>
  One statement of a caller or a worker, each with its own environment. \<open>work\<close> is anything that leaves the
  table of jobs alone; \<open>crash\<close> and \<open>fail_cut\<close> are workers that disappear.
\<close>

inductive queue_step :: "queue \<Rightarrow> queue \<Rightarrow> bool" where
  enqueue: "enqueueJob J project acting ty p corr queue maxA s = (r, s') \<Longrightarrow> queue_step (s, R) (s', R)"
| claim_next: "claimNextQueuedJob J queue scope s = (Some j, s') \<Longrightarrow> queue_step (s, R) (s', R @ [j])"
| claim_id: "claimQueuedJobById J jid s = (Inr (Some j), s') \<Longrightarrow> queue_step (s, R) (s', R @ [j])"
| succeed: "j \<in> set R \<Longrightarrow> queue_step (s, R) (completeJob J (j_id j) s, remove1 j R)"
| failed: "j \<in> set R \<Longrightarrow> queue_step (s, R) (snd (failJob J (j_id j) (j_attempts j) (j_max j) err s), remove1 j R)"
| fail_cut: "j \<in> set R \<Longrightarrow> queue_step (s, R) (failJob_first J (j_id j) (j_attempts j) (j_max j) err s, remove1 j R)"
| crash: "j \<in> set R \<Longrightarrow> queue_step (s, R) (s, remove1 j R)"
| progress: "updateJobProgress J jid x msg s = (r, s') \<Longrightarrow> queue_step (s, R) (s', R)"
| cancel: "cancelJob J jid project acting s = (r, s') \<Longrightarrow> queue_step (s, R) (s', R)"
| work: "async_jobs s' = async_jobs s \<Longrightarrow> queue_step (s, R) (s', R)"

inductive queue_reachable :: "queue \<Rightarrow> bool" where
  empty: "async_jobs s = [] \<Longrightarrow> queue_reachable (s, [])"
| next_step: "queue_reachable q \<Longrightarrow> queue_step q q' \<Longrightarrow> queue_reachable q'"

definition row_ok :: "job_row \<Rightarrow> bool" where
  "row_ok j \<longleftrightarrow> j_attempts j \<le> j_max j \<and> (j_status j = J_queued \<longrightarrow> j_attempts j < j_max j)"

definition run_of :: "job_row \<Rightarrow> job_row \<Rightarrow> bool" where
  "run_of j row \<longleftrightarrow> j_id row = j_id j \<and> j_attempts row = j_attempts j \<and> j_max row = j_max j \<and>
     (j_status row = J_running \<or> j_status row = J_cancelled)"

fun queue_ok :: "queue \<Rightarrow> bool" where
  "queue_ok (s, R) \<longleftrightarrow> pkey j_id (async_jobs s) \<and> (\<forall>j \<in> set (async_jobs s). row_ok j) \<and> distinct (map j_id R) \<and>
     (\<forall>j \<in> set R. 0 < j_attempts j \<and> (\<exists>row \<in> set (async_jobs s). run_of j row))"

text \<open>What one step does to the rows.\<close>

lemma same_jobs [simp]: "async_jobs (s\<lparr>jhub := d\<rparr>) = async_jobs s"
  by simp

lemma enqueue_rows:
  assumes "enqueueJob J project acting ty p corr queue maxA s = (r, s')"
  shows "async_jobs s' = async_jobs s \<or> (\<exists>row. async_jobs s' = async_jobs s @ [row] \<and>
    find_row j_id (j_id row) (async_jobs s) = None \<and> j_status row = J_queued \<and> j_attempts row = 0 \<and> 0 < j_max row)"
proof (cases r)
  case (Inl x)
  then have "async_jobs s' = async_jobs s"
    using assms
    by (auto simp: enqueueJob_def enqueue_checked_def insert_job_def Let_def j_refuse_def j_authorized_def j_spend_def
        split: if_splits prod.splits option.splits sum.splits)
  then show ?thesis by simp
next
  case (Inr x)
  obtain jid b where "x = (jid, b)" by force
  then show ?thesis using enqueued [of J project acting ty p corr queue maxA s jid b s'] assms Inr by auto
qed

lemma cancel_rows_of:
  assumes "cancelJob J jid project acting s = (r, s')"
  shows "async_jobs s' = async_jobs s \<or>
    async_jobs s' = update_where (cancellable jid project) (cancel_row J) (async_jobs s)"
  using assms by (auto simp: cancelJob_def j_authorized_def cancel_rows_def j_refuse_def
      split: if_splits prod.splits option.splits)

lemma claim_next_row:
  assumes "claimNextQueuedJob J queue scope s = (Some j, s')"
  shows "\<exists>row \<in> set (async_jobs s). j_status row = J_queued \<and> j = start_job J row \<and> s' = set_job (j_id row) (start_job J) s"
proof -
  obtain row rows where row: "sort_key j_queued_at (filter (claimable J queue scope) (async_jobs s)) = row # rows"
      "j = start_job J row" "s' = set_job (j_id row) (start_job J) s"
    using assms by (auto simp: claimNextQueuedJob_def split: list.splits)
  have "row \<in> set (sort_key j_queued_at (filter (claimable J queue scope) (async_jobs s)))" unfolding row(1) by simp
  then show ?thesis using row(2,3) by (auto simp: claimable_def)
qed

lemma claim_id_row:
  assumes "claimQueuedJobById J jid s = (Inr (Some j), s')"
  shows "\<exists>row \<in> set (async_jobs s). j_status row = J_queued \<and> j = start_job J row \<and> s' = set_job (j_id row) (start_job J) s"
  using assms by (auto simp: claimQueuedJobById_def split: if_splits option.splits dest: find_row_Some)

text \<open>The law survives an update that keeps it for each row and for each run still in flight.\<close>

lemma queue_ok_update:
  assumes ok: "queue_ok (s, R)" and rows: "async_jobs s' = update_where P f (async_jobs s)"
    and id: "\<And>j. j_id (f j) = j_id j"
    and row: "\<And>j. j \<in> set (async_jobs s) \<Longrightarrow> P j \<Longrightarrow> row_ok j \<Longrightarrow> row_ok (f j)"
    and sub: "set R' \<subseteq> set R" and dist: "distinct (map j_id R')"
    and run: "\<And>r j. r \<in> set R' \<Longrightarrow> j \<in> set (async_jobs s) \<Longrightarrow> P j \<Longrightarrow> run_of r j \<Longrightarrow> run_of r (f j)"
  shows "queue_ok (s', R')"
proof -
  have "\<exists>x \<in> set (async_jobs s'). run_of r x" if r: "r \<in> set R'" for r
  proof -
    have "r \<in> set R" using sub r by blast
    then obtain x where x: "x \<in> set (async_jobs s)" "run_of r x" using ok by auto
    then have "run_of r (if P x then f x else x)" using run [OF r x(1)] by simp
    then show ?thesis using x(1) unfolding rows set_update_where by blast
  qed
  moreover have "\<forall>j \<in> set (async_jobs s'). row_ok j" using ok row by (auto simp: rows in_update_where)
  moreover have "pkey j_id (async_jobs s')" using ok by (simp add: rows pkey_update_where id)
  ultimately show ?thesis using ok sub dist by auto
qed

lemma run_row:
  "queue_ok (s, R) \<Longrightarrow> r \<in> set R \<Longrightarrow> j \<in> set (async_jobs s) \<Longrightarrow> j_id j = j_id r \<Longrightarrow> run_of r j"
  using pkey_unique [of j_id "async_jobs s"] by (fastforce simp: run_of_def)

lemma not_removed: "distinct (map j_id R) \<Longrightarrow> r \<in> set (remove1 j R) \<Longrightarrow> j \<in> set R \<Longrightarrow> j_id r \<noteq> j_id j"
  by (auto simp: distinct_map inj_on_def)

lemma queue_ok_claim:
  assumes ok: "queue_ok (s, R)" and x: "x \<in> set (async_jobs s)" "j_status x = J_queued"
  shows "queue_ok (set_job (j_id x) (start_job J) s, R @ [start_job J x])"
proof -
  have free: "j_id r \<noteq> j_id x" if "r \<in> set R" for r
    using run_row [OF ok that x(1)] x(2) by (auto simp: run_of_def)
  have rows: "async_jobs (set_job (j_id x) (start_job J) s) = update_where (\<lambda>j. j_id j = j_id x) (start_job J) (async_jobs s)"
    by (simp add: set_job_def)
  have "queue_ok (set_job (j_id x) (start_job J) s, R)"
  proof (rule queue_ok_update [OF ok rows])
    show "row_ok (start_job J j)" if "j \<in> set (async_jobs s)" "j_id j = j_id x" "row_ok j" for j
    proof -
      have "j = x" using that(1,2) x(1) ok by (auto intro: pkey_unique [of j_id "async_jobs s"])
      then show ?thesis using that(3) x(2) by (simp add: row_ok_def start_job_def)
    qed
    show "run_of r (start_job J j)" if "r \<in> set R" "j_id j = j_id x" "run_of r j" for r j
      using that free by (auto simp: run_of_def)
  qed (use ok in \<open>simp_all add: start_job_def\<close>)
  moreover have "start_job J x \<in> set (async_jobs (set_job (j_id x) (start_job J) s))"
    using x(1) unfolding rows set_update_where by auto
  moreover have "run_of (start_job J x) (start_job J x)" by (simp add: run_of_def start_job_def)
  moreover have "j_id x \<notin> j_id ` set R" using free by force
  ultimately show ?thesis by (auto simp: start_job_def)
qed

lemma queue_ok_end:
  assumes ok: "queue_ok (s, R)" and j: "j \<in> set R" and rows: "async_jobs s' = update_where (\<lambda>x. j_id x = j_id j) f (async_jobs s)"
    and id: "\<And>x. j_id (f x) = j_id x" and row: "\<And>x. run_of j x \<Longrightarrow> row_ok x \<Longrightarrow> row_ok (f x)"
  shows "queue_ok (s', remove1 j R)"
proof (rule queue_ok_update [OF ok rows id])
  show "row_ok (f x)" if "x \<in> set (async_jobs s)" "j_id x = j_id j" "row_ok x" for x
    using row [OF run_row [OF ok j that(1,2)] that(3)] .
  show "run_of r (f x)" if "r \<in> set (remove1 j R)" "j_id x = j_id j" "run_of r x" for r x
    using that not_removed [of R r j] ok j by (auto simp: run_of_def)
  show "set (remove1 j R) \<subseteq> set R" by (rule set_remove1_subset)
  show "distinct (map j_id (remove1 j R))" using ok by (metis distinct_map distinct_remove1 inj_on_subset queue_ok.simps set_remove1_subset)
qed

lemma failJob_rows:
  "async_jobs (snd (failJob J jid att maxA err s)) = update_where (\<lambda>x. j_id x = jid)
    (\<lambda>x. (if next_status att maxA = J_failed then requeue_row else id) (failed_row J (next_status att maxA) err x)) (async_jobs s)"
  by (simp add: failJob_def failJob_first_def set_job_def update_where_def Let_def failed_row_def)

lemma queue_step_ok: "queue_step q q' \<Longrightarrow> queue_ok q \<Longrightarrow> queue_ok q'"
proof (induction rule: queue_step.induct)
  case (enqueue J project acting ty p corr queue maxA s r s' R)
  from enqueue_rows [OF enqueue(1)] show ?case
  proof
    assume "async_jobs s' = async_jobs s"
    then show ?thesis using enqueue(2) by simp
  next
    assume "\<exists>row. async_jobs s' = async_jobs s @ [row] \<and>
      find_row j_id (j_id row) (async_jobs s) = None \<and> j_status row = J_queued \<and> j_attempts row = 0 \<and> 0 < j_max row"
    then show ?thesis using enqueue(2) by (auto simp: pkey_snoc row_ok_def)
  qed
next
  case (claim_next J queue scope s j s' R)
  then show ?case using claim_next_row [OF claim_next(1)] queue_ok_claim by blast
next
  case (claim_id J jid s j s' R)
  then show ?case using claim_id_row [OF claim_id(1)] queue_ok_claim by blast
next
  case (succeed j R s J)
  then show ?case
    by (intro queue_ok_end [where f = "complete_row J"]) (simp_all add: completeJob_def set_job_def complete_row_def row_ok_def)
next
  case (failed j R s J err)
  show ?case
    by (rule queue_ok_end [OF failed(2,1) failJob_rows])
      (auto simp: row_ok_def run_of_def next_status_def failed_row_def requeue_row_def)
next
  case (fail_cut j R s J err)
  then show ?case
    by (intro queue_ok_end [where f = "failed_row J (next_status (j_attempts j) (j_max j)) err"])
      (auto simp: failJob_first_def set_job_def failed_row_def row_ok_def next_status_def)
next
  case (crash j R s)
  then show ?case
    by (intro queue_ok_end [where f = "\<lambda>x. x"]) (simp_all add: update_where_def)
next
  case (progress J jid x msg s r s' R)
  then have "async_jobs s' = async_jobs s \<or> async_jobs s' = update_where (\<lambda>j. j_id j = jid)
      (\<lambda>j. j\<lparr>j_progress := Some (clamp_progress x), j_message := msg\<rparr>) (async_jobs s)"
    by (auto simp: updateJobProgress_def set_job_def split: if_splits)
  then show ?case
  proof
    assume "async_jobs s' = async_jobs s"
    then show ?thesis using progress(2) by simp
  next
    assume rows: "async_jobs s' = update_where (\<lambda>j. j_id j = jid)
      (\<lambda>j. j\<lparr>j_progress := Some (clamp_progress x), j_message := msg\<rparr>) (async_jobs s)"
    show ?thesis by (rule queue_ok_update [OF progress(2) rows]) (use progress(2) in \<open>simp_all add: row_ok_def run_of_def\<close>)
  qed
next
  case (cancel J jid project acting s r s' R)
  from cancel_rows_of [OF cancel(1)] show ?case
  proof
    assume "async_jobs s' = async_jobs s"
    then show ?thesis using cancel(2) by simp
  next
    assume rows: "async_jobs s' = update_where (cancellable jid project) (cancel_row J) (async_jobs s)"
    show ?thesis by (rule queue_ok_update [OF cancel(2) rows]) (use cancel(2) in \<open>simp_all add: row_ok_def run_of_def cancel_row_def\<close>)
  qed
next
  case (work s' s R)
  then show ?case by simp
qed

lemma queue_reachable_ok: "queue_reachable q \<Longrightarrow> queue_ok q"
  by (induction rule: queue_reachable.induct) (simp_all add: queue_step_ok pkey_Nil)

section \<open>Ended jobs\<close>

text \<open>An ended job: a final status, and no run of it in flight. \<open>same_end\<close>: all but the progress is as before.\<close>

fun ended_job :: "queue \<Rightarrow> job_row \<Rightarrow> bool" where
  "ended_job (s, R) x \<longleftrightarrow> x \<in> set (async_jobs s) \<and> j_status x \<noteq> J_queued \<and> j_status x \<noteq> J_running \<and> j_id x \<notin> j_id ` set R"

definition same_end :: "job_row \<Rightarrow> job_row \<Rightarrow> bool" where
  "same_end x x' \<longleftrightarrow> j_id x' = j_id x \<and> j_status x' = j_status x \<and> j_attempts x' = j_attempts x \<and>
     j_error x' = j_error x \<and> j_finished x' = j_finished x"

lemma same_end_refl [simp]: "same_end x x"
  by (simp add: same_end_def)

lemma ended_update:
  assumes "ended_job (s, R) x" and "async_jobs s' = update_where P f (async_jobs s)"
    and "P x \<Longrightarrow> same_end x (f x)" and "j_id ` set R' \<subseteq> j_id ` set R \<union> {j. j \<noteq> j_id x}"
  shows "\<exists>x'. ended_job (s', R') x' \<and> same_end x x'"
  using assms by (intro exI [of _ "if P x then f x else x"]) (auto simp: set_update_where same_end_def)

lemma ended_other:
  assumes "ended_job (s, R) x" and "async_jobs s' = update_where (\<lambda>j. j_id j = jid) f (async_jobs s)"
    and "jid \<noteq> j_id x" and "j_id ` set R' \<subseteq> insert jid (j_id ` set R)"
  shows "\<exists>x'. ended_job (s', R') x' \<and> same_end x x'"
  by (rule ended_update [OF assms(1,2)]) (use assms(3,4) in auto)

lemma run_gone:
  "ended_job (s, R) x \<Longrightarrow> j \<in> set R \<Longrightarrow> j_id j \<noteq> j_id x"
  "j_id ` set (remove1 j R) \<subseteq> insert i (j_id ` set R)"
  using set_remove1_subset [of j R] by (auto intro: image_eqI) (metis imageI)

lemma ended_step:
  assumes "queue_step q q'" and "queue_ok q" and "ended_job q x"
  shows "\<exists>x'. ended_job q' x' \<and> same_end x x'"
  using assms
proof (induction rule: queue_step.induct)
  case (enqueue J project acting ty p corr queue maxA s r s' R)
  then show ?case using enqueue_rows [OF enqueue(1)] by (intro exI [of _ x]) auto
next
  case (claim_next J queue scope s j s' R)
  from claim_next_row [OF claim_next(1)] obtain y where y: "y \<in> set (async_jobs s)" "j_status y = J_queued"
    "j = start_job J y" "s' = set_job (j_id y) (start_job J) s" by blast
  then have "j_id y \<noteq> j_id x" using claim_next(2,3) pkey_unique [of j_id "async_jobs s" y x] by auto
  then show ?case using y by (intro ended_other [OF claim_next(3), of s' "j_id y" "start_job J"]) (auto simp: set_job_def start_job_def)
next
  case (claim_id J jid s j s' R)
  from claim_id_row [OF claim_id(1)] obtain y where y: "y \<in> set (async_jobs s)" "j_status y = J_queued"
    "j = start_job J y" "s' = set_job (j_id y) (start_job J) s" by blast
  then have "j_id y \<noteq> j_id x" using claim_id(2,3) pkey_unique [of j_id "async_jobs s" y x] by auto
  then show ?case using y by (intro ended_other [OF claim_id(3), of s' "j_id y" "start_job J"]) (auto simp: set_job_def start_job_def)
next
  case (succeed j R s J)
  show ?case
    by (rule ended_other [OF succeed(3), of _ "j_id j" "complete_row J"])
      (simp_all add: completeJob_def set_job_def run_gone(1) [OF succeed(3,1)] run_gone(2) del: insert_subset)
next
  case (failed j R s J err)
  show ?case
    by (rule ended_other [OF failed(3) failJob_rows run_gone(1) [OF failed(3,1)] run_gone(2)])
next
  case (fail_cut j R s J err)
  show ?case
    by (rule ended_other [OF fail_cut(3), of _ "j_id j" "failed_row J (next_status (j_attempts j) (j_max j)) err"])
      (simp_all add: failJob_first_def set_job_def run_gone(1) [OF fail_cut(3,1)] run_gone(2))
next
  case (crash j R s)
  then have "j_id x \<notin> j_id ` set (remove1 j R)" using image_mono [OF set_remove1_subset, of j_id j R] by auto
  then show ?case using crash(3) by (intro exI [of _ x]) simp
next
  case (progress J jid y msg s r s' R)
  have "async_jobs s' = update_where (\<lambda>j. pg_uuid (henv J) jid \<and> j_id j = jid)
      (\<lambda>j. j\<lparr>j_progress := Some (clamp_progress y), j_message := msg\<rparr>) (async_jobs s)"
    using progress(1) by (auto simp: updateJobProgress_def set_job_def update_where_def split: if_splits)
  then show ?case by (rule ended_update [OF progress(3)]) (auto simp: same_end_def)
next
  case (cancel J jid project acting s r s' R)
  from cancel_rows_of [OF cancel(1)] show ?case
  proof
    assume "async_jobs s' = async_jobs s"
    then show ?thesis using cancel(3) by (intro exI [of _ x]) auto
  next
    assume "async_jobs s' = update_where (cancellable jid project) (cancel_row J) (async_jobs s)"
    then show ?thesis by (rule ended_update [OF cancel(3)]) (use cancel(3) in \<open>auto simp: cancellable_def\<close>)
  qed
next
  case (work s' s R)
  then show ?case by (intro exI [of _ x]) auto
qed

lemma ended_later:
  assumes "queue_step\<^sup>*\<^sup>* q q'" and "queue_ok q" and "ended_job q x"
  shows "\<exists>x'. ended_job q' x' \<and> same_end x x'"
  using assms
proof (induction arbitrary: x rule: converse_rtranclp_induct)
  case (step q q1)
  from ended_step [OF step(1,4,5)] obtain x1 where x1: "ended_job q1 x1" "same_end x x1" by blast
  from step(3) [OF queue_step_ok [OF step(1,4)] x1(1)] x1(2) show ?case by (auto simp: same_end_def)
qed auto

section \<open>The executor takes steps of the machine\<close>

definition queue_path :: "job_db \<Rightarrow> job_db \<Rightarrow> bool" where
  "queue_path s s' \<longleftrightarrow> (\<forall>R. queue_step\<^sup>*\<^sup>* (s, R) (s', R))"

interpretation queue: path queue_path
proof
  show "queue_path s s" for s by (simp add: queue_path_def)
  show "queue_path s s' \<Longrightarrow> queue_path s' s'' \<Longrightarrow> queue_path s s''" for s s' s''
    by (auto simp: queue_path_def intro: rtranclp_trans)
qed

definition quiet :: "(job_db \<Rightarrow> 'r job_outcome) \<Rightarrow> bool" where
  "quiet f \<longleftrightarrow> (\<forall>s. queue_path s (snd (f s)))"

lemma path_same: "async_jobs s' = async_jobs s \<Longrightarrow> queue_path s s'"
  by (auto simp: queue_path_def intro: work)

lemma quiet_same: "(\<And>s. async_jobs (snd (f s)) = async_jobs s) \<Longrightarrow> quiet f"
  by (simp add: quiet_def path_same)

lemma then_path:
  assumes "queue_path s (snd m)" and "\<And>a. quiet (g a)"
  shows "queue_path s (snd (j_then m g))"
proof (cases m)
  case (Pair r t)
  then show ?thesis using assms by (cases r) (auto simp: j_then_def quiet_def intro: queue.rel_trans)
qed

lemma quiet_then: "quiet f \<Longrightarrow> (\<And>a. quiet (g a)) \<Longrightarrow> quiet (\<lambda>s. j_then (f s) g)"
  by (auto simp: quiet_def [of f] quiet_def [of "\<lambda>s. j_then (f s) g"] intro: then_path)

lemma quiet_seq: "quiet f \<Longrightarrow> quiet g \<Longrightarrow> quiet (j_seq f g)"
  using quiet_then [of f "\<lambda>_. g"] by (simp add: quiet_def j_seq_def)

lemma quiet_if: "quiet f \<Longrightarrow> quiet g \<Longrightarrow> quiet (\<lambda>s. if b s then f s else g s)"
  by (simp add: quiet_def)

lemma quiet_const: "quiet (\<lambda>s. (r, s))" "quiet j_done" "quiet (j_refuse c)"
  by (simp_all add: quiet_def j_done_def j_refuse_def)

lemma quiet_when: "quiet f \<Longrightarrow> quiet (j_when b f)"
  by (simp add: j_when_def quiet_const)

lemma quiet_call: "quiet (call_service J c)" "quiet (run_service J c)"
proof -
  show c: "quiet (call_service J c)" by (rule quiet_same) (simp add: call_service_def)
  show "quiet (run_service J c)"
    using quiet_then [OF c, of "\<lambda>_. j_done"] by (simp add: quiet_def run_service_def quiet_const [unfolded quiet_def])
qed

lemma path_hub: "queue_path (s\<lparr>jhub := d\<rparr>) t \<Longrightarrow> queue_path s t"
  by (rule queue.rel_trans [OF path_same]) simp_all

lemma quiet_authorized: "quiet rest \<Longrightarrow> quiet (j_authorized J acting act pid rest)"
  unfolding quiet_def j_authorized_def
  by (auto split: prod.split option.split intro: path_same path_hub)

lemma quiet_enqueue: "quiet (enqueueJob J project acting ty p corr queue maxA)"
  unfolding quiet_def queue_path_def by (metis enqueue prod.collapse r_into_rtranclp)

lemma quiet_chained: "quiet (chained J acting corr pid ty p)"
  using quiet_then [OF quiet_enqueue, of "\<lambda>_. j_done"] by (simp add: quiet_def chained_def quiet_const [unfolded quiet_def])

lemma quiet_path: "quiet f \<Longrightarrow> f s = (r, s') \<Longrightarrow> queue_path s s'"
  by (metis quiet_def snd_conv)

lemma configure_same: "async_jobs (snd (configureProjectSource J pid acting ty url ref rp en s)) = async_jobs s"
  by (simp add: configureProjectSource_def j_authorized_def j_refuse_def note_project_def Let_def split: prod.split option.split)

lemma register_same: "async_jobs (snd (registerWorkspaceRoot J pid acting rp active s)) = async_jobs s"
  by (simp add: registerWorkspaceRoot_def j_authorized_def j_refuse_def note_project_def j_spend_def Let_def
      split: prod.split option.split)

lemma call_same: "async_jobs (snd (call_service J c s)) = async_jobs s"
  by (simp add: call_service_def)

lemma same_trans: "f s = (r, s') \<Longrightarrow> async_jobs (snd (f s)) = async_jobs s \<Longrightarrow> async_jobs s' = async_jobs s"
  by simp

lemma quiet_prepare: "quiet (prepareRepo J pid acting url cache ref p)"
  unfolding prepareRepo_def
  by (intro quiet_authorized quiet_same)
    (auto simp: j_refuse_def Let_def split: prod.split sum.split
      dest!: same_trans [OF _ call_same] same_trans [OF _ configure_same])

lemma quiet_scan: "quiet (scanWorkspaceChanges J pid acting rp delta)"
  unfolding scanWorkspaceChanges_def
  by (intro quiet_authorized quiet_same)
    (auto simp: Let_def split: prod.split sum.split
      dest!: same_trans [OF _ call_same] same_trans [OF _ register_same])

lemma quiet_with_root: "(\<And>r. quiet (f r)) \<Longrightarrow> quiet (with_root J pid p f)"
  by (auto simp: quiet_def with_root_def split: sum.split)

lemma quiet_summaries: "quiet (summaries J pid rt p)"
  unfolding summaries_def by (intro quiet_seq quiet_when quiet_call)

lemma quiet_memory: "quiet (builder_memory J pid rt p)"
proof -
  have "quiet (\<lambda>s. j_then (call_service J (S_estimate rt p) s) (\<lambda>large.
      run_service J (if an_flag large then S_large_memory pid rt p else S_memory pid rt p)))"
    by (intro quiet_then quiet_call)
  then show ?thesis
    unfolding quiet_def builder_memory_def Let_def by (blast intro: queue.rel_trans path_same [OF call_same])
qed

lemma quiet_rounds: "quiet (deep_rounds J pid rt p rs)"
proof (induction rs)
  case Nil
  then show ?case by (simp add: quiet_def j_done_def)
next
  case (Cons i rs)
  have "quiet (j_seq (j_when (i = 1 \<and> not_false ''run_shallow'' p) (summaries J pid rt p))
       (j_seq (j_when (i = 1 \<and> not_false ''builder_memory'' p \<and> memory_enabled J) (builder_memory J pid rt p))
         (j_seq (run_service J (S_index pid rt))
           (\<lambda>s. j_then (call_service J (S_eval pid p) s) (\<lambda>gate. if an_flag gate then j_done else deep_rounds J pid rt p rs)))))"
    by (intro quiet_seq quiet_when quiet_summaries quiet_memory quiet_call quiet_then) (simp add: Cons quiet_const)
  then show ?case by (simp add: quiet_def)
qed

lemma quiet_sync: "quiet (repo_sync J acting corr pid p)"
proof -
  have "quiet (\<lambda>s. j_then (prepareRepo J pid acting url cache ref p s)
        (\<lambda>(ok, rt). if \<not> ok then (\<lambda>s. (Inl Plain_error, s))
           else j_seq (chained J acting corr pid Git_ingest (q rt)) (chained J acting corr pid Index_run (root_payload rt))))"
    for url cache ref q
    by (intro quiet_then quiet_prepare) (auto intro: quiet_seq quiet_chained quiet_const split: prod.split)
  then show ?thesis by (simp add: quiet_def repo_sync_def Let_def)
qed

lemma quiet_execute: "quiet (executeByType J acting ty project p corr)"
proof -
  have "quiet (execute_on J acting corr pid ty p)" for pid
    by (cases ty) (auto simp: execute_on_def split: option.split
        intro!: quiet_with_root quiet_seq quiet_then quiet_when quiet_call quiet_chained quiet_const quiet_sync quiet_scan
          quiet_rounds quiet_summaries)
  then show ?thesis by (simp add: executeByType_def quiet_call quiet_const)
qed

text \<open>Claim, execute and end: a whole run is a path of the machine, for any other runs in flight.\<close>

lemma execute_path:
  assumes "queue_step (s, R) (s1, R @ [j])" and "execute_claimed J acting j s1 = (r, s')" and "j_id j \<notin> j_id ` set R"
  shows "queue_step\<^sup>*\<^sup>* (s, R) (s', R)"
proof -
  have gone: "remove1 j (R @ [j]) = R" using assms(3) by (auto simp: remove1_append)
  obtain res s2 where ex: "executeByType J acting (j_type j) (j_project j) (j_payload j) (j_corr j) s1 = (res, s2)" by force
  have mid: "queue_step\<^sup>*\<^sup>* (s1, R @ [j]) (s2, R @ [j])"
    using quiet_path [OF quiet_execute ex] by (simp add: queue_path_def)
  have "queue_step (s2, R @ [j]) (s', R)"
  proof (cases res)
    case (Inl x)
    then have "s' = snd (failJob J (j_id j) (j_attempts j) (j_max j) (je_message J x) s2)"
      using assms(2) ex by (simp add: execute_claimed_def)
    then show ?thesis using failed [of j "R @ [j]" s2 J "je_message J x"] gone by simp
  next
    case (Inr x)
    then have "s' = completeJob J (j_id j) s2" using assms(2) ex by (simp add: execute_claimed_def)
    then show ?thesis using succeed [of j "R @ [j]" s2 J] gone by simp
  qed
  then show ?thesis using assms(1) mid by (meson converse_rtranclp_into_rtranclp rtranclp.rtrancl_into_rtrancl)
qed

lemma hub_path: "queue_step\<^sup>*\<^sup>* (s\<lparr>jhub := d\<rparr>, R) q \<Longrightarrow> queue_step\<^sup>*\<^sup>* (s, R) q"
  by (rule converse_rtranclp_into_rtranclp [where r = queue_step], rule work) simp_all

lemma claim_free:
  assumes "queue_ok (s, R)" and "queue_step (s, R) (s1, R @ [j])"
  shows "j_id j \<notin> j_id ` set R"
  using queue_step_ok [OF assms(2,1)] by simp

lemma drain_path:
  assumes "queue_ok (s, R)" and "drain J queue scope acting s = (r, s')"
  shows "queue_step\<^sup>*\<^sup>* (s, R) (s', R)"
proof (cases "claimNextQueuedJob J queue scope s")
  case (Pair c s1)
  show ?thesis
  proof (cases c)
    case None
    then have "s1 = s" using Pair by (auto simp: claimNextQueuedJob_def split: list.splits)
    then show ?thesis using assms(2) Pair None by (simp add: drain_def)
  next
    case (Some j)
    then have st: "queue_step (s, R) (s1, R @ [j])" using Pair claim_next by blast
    obtain x where "execute_claimed J acting j s1 = (x, s')" using assms(2) Pair Some by (auto simp: drain_def split: prod.splits)
    then show ?thesis by (rule execute_path [OF st _ claim_free [OF assms(1) st]])
  qed
qed

lemma run_by_id_path:
  assumes "queue_ok (s, R)" and "run_by_id J jid acting s = (r, s')"
  shows "queue_step\<^sup>*\<^sup>* (s, R) (s', R)"
proof (cases "claimQueuedJobById J jid s")
  case (Pair c s1)
  consider "s1 = s" "s' = s" | j where "c = Inr (Some j)"
    using assms(2) Pair by (auto simp: run_by_id_def j_then_def claimQueuedJobById_def split: if_splits option.splits)
  then show ?thesis
  proof cases
    case 2
    then have st: "queue_step (s, R) (s1, R @ [j])" using Pair claim_id by blast
    obtain x where "execute_claimed J acting j s1 = (x, s')" using assms(2) Pair 2 by (auto simp: run_by_id_def j_then_def split: prod.splits)
    then show ?thesis by (rule execute_path [OF st _ claim_free [OF assms(1) st]])
  qed simp
qed

lemma find_filter: "find P xs = (case filter P xs of [] \<Rightarrow> None | x # _ \<Rightarrow> Some x)"
  by (induction xs) auto

lemma system_unique:
  assumes "principals_ok d" and "p \<in> set (principals d)" and "pr_is_system p"
  shows "getSystemPrincipal d = Some p"
proof -
  have "p \<in> set (filter pr_is_system (principals d))" using assms by simp
  moreover have "length (filter pr_is_system (principals d)) \<le> 1" using assms(1) by (simp add: principals_ok_def)
  ultimately have "filter pr_is_system (principals d) = [p]"
    by (cases "filter pr_is_system (principals d)") auto
  then show ?thesis by (simp add: getSystemPrincipal_def find_filter)
qed

text \<open>A worker that starts under enforcement holds what its gates ask for.\<close>

lemma worker_serves:
  assumes "worker_start A production s = Some identity" and "auth_enabled (hub_env A)" and "principals_ok (hub s)"
    and "\<And>p. p \<in> set (principals (hub s)) \<Longrightarrow> is_uuid (hub_env A) (pr_id p)"
  shows "hasGlobalGrant (hub_env A) identity A_write (hub s)"
proof -
  have "hasUsableSystemIdentity (hub s)" and id: "identity = map_option pr_id (getSystemPrincipal (hub s))"
    using assms(1,2) by (auto simp: worker_start_def Let_def split: if_splits)
  then obtain w g where w: "w \<in> set (principals (hub s))" "pr_is_system w" "pr_status w = P_active"
    and g: "g \<in> set (loadActiveGrants (pr_id w) (hub s))" "global_write g"
    by (auto simp: hasUsableSystemIdentity_def exists_where_def list_ex_iff)
  have "getSystemPrincipal (hub s) = Some w" using system_unique [OF assms(3)] w by simp
  moreover have "find_row pr_id (pr_id w) (principals (hub s)) = Some w"
    using assms(3) w(1) by (intro find_row_pkey) (simp_all add: principals_ok_def)
  ultimately show ?thesis
    using id w g assms(2,4) by (auto simp: hasGlobalGrant_def loadPrincipalLite_def list_ex_iff global_write_def capabilityCovers_def intro!: bexI [of _ g])
qed

section \<open>A small installation\<close>

text \<open>
  Authorization on; every service answers. \<open>root\<close> is the root principal, \<open>mia\<close> may write to project \<open>p\<close>
  and nothing else.
\<close>

definition dev_jobs :: job_env where
  "dev_jobs = \<lparr>henv = auth_env, je_broker = False, je_cwd = ''/app'', text_number = (\<lambda>_. NaN), loop_enabled = True,
     memory_enabled = True, je_chunk_root = (\<lambda>_. None), je_service = (\<lambda>_ _. Inr \<lparr>an_ok = True, an_flag = True\<rparr>),
     je_message = (\<lambda>_. ''error'')\<rparr>"

definition mia_db :: db where
  "mia_db = members_db\<lparr>grants := [\<lparr>g_id = ''g'', g_grantee = ''mia'', g_scope_type = S_project, g_scope_id = Some ''p'',
     g_capability = C_write, g_granted_by = ''root'', g_granted_at = 0, g_revoked_at = None\<rparr>]\<rparr>"

definition idle_jobs :: job_db where
  "idle_jobs = \<lparr>jhub = mia_db, async_jobs = [], project_sources = [], project_workspaces = [], published = [], calls = []\<rparr>"

definition enqueued_jobs :: job_db where
  "enqueued_jobs = snd (enqueueJob dev_jobs (Some ''p'') (Some ''root'') Index_run [(''root'', JStr '' /srv '')] None None None idle_jobs)"

definition running_jobs :: job_db where
  "running_jobs = snd (claimNextQueuedJob dev_jobs ''default'' None enqueued_jobs)"

definition the_run :: job_row where
  "the_run = hd (async_jobs running_jobs)"

definition cancelled_jobs :: job_db where
  "cancelled_jobs = snd (cancelJob dev_jobs ''u'' None (Some ''root'') running_jobs)"

lemma queue_run:
  "queue_reachable (enqueued_jobs, [])" "queue_reachable (running_jobs, [the_run])"
  "queue_reachable (completeJob dev_jobs ''u'' running_jobs, [])" "queue_reachable (cancelled_jobs, [the_run])"
proof -
  have start: "queue_reachable (idle_jobs, [])" by (rule empty) (simp add: idle_jobs_def)
  show enq: "queue_reachable (enqueued_jobs, [])"
    by (rule next_step [OF start]) (rule enqueue, unfold enqueued_jobs_def, rule prod.collapse [symmetric])
  have claim: "claimNextQueuedJob dev_jobs ''default'' None enqueued_jobs = (Some the_run, running_jobs)" by code_simp
  show run: "queue_reachable (running_jobs, [the_run])"
    using next_step [OF enq claim_next [OF claim]] by simp
  have "j_id the_run = ''u''" by code_simp
  then show "queue_reachable (completeJob dev_jobs ''u'' running_jobs, [])"
    using next_step [OF run succeed [of the_run "[the_run]" _ dev_jobs]] by simp
  show "queue_reachable (cancelled_jobs, [the_run])"
    by (rule next_step [OF run]) (rule cancel, unfold cancelled_jobs_def, rule prod.collapse [symmetric])
qed

text \<open>
  A cancelled job comes back: when the run that was in flight fails, the job is queued again, and when it succeeds the job
  counts as succeeded.
\<close>

lemma cancelled_comes_back:
  "map j_status (async_jobs cancelled_jobs) = [J_cancelled] \<and>
   map j_status (async_jobs (snd (failJob dev_jobs ''u'' (j_attempts the_run) (j_max the_run) [] cancelled_jobs))) = [J_queued] \<and>
   map j_status (async_jobs (completeJob dev_jobs ''u'' cancelled_jobs)) = [J_succeeded]"
  by code_simp

text \<open>
  The gate on \<^verbatim>\<open>cache_root\<close> tests for a string, the executor takes the text of any value: \<open>mia\<close> is refused the
  string but not the array, and the worker then clones to a root of her choice and queues it on its own authority.
\<close>

definition smuggled :: "json \<Rightarrow> (string \<times> backend) job_outcome" where
  "smuggled v = enqueueJob dev_jobs (Some ''p'') (Some ''mia'') Repo_sync [(''git_url'', JStr ''u''), (''cache_root'', v)] None None None idle_jobs"

lemma cache_root_smuggled:
  "fst (smuggled (JStr ''/etc'')) = Inl (Hub BAD_REQUEST) \<and>
   (let s = snd (runNextJob dev_jobs None None (Some ''root'') (snd (smuggled (JArr [JStr ''/etc'']))))
    in calls s = [S_git ''p'' ''u'' ''/etc/p'' ''main'' [(''git_url'', JStr ''u''), (''cache_root'', JArr [JStr ''/etc''])]] \<and>
       map (\<lambda>j. (pget ''root'' (j_payload j), pget ''root_authorized_by'' (j_payload j))) (drop 1 (async_jobs s)) =
         [(Some (JStr ''/etc/p''), Some (JStr ''root'')), (Some (JStr ''/etc/p''), Some (JStr ''root''))])"
  by code_simp

text \<open>A blank root passes the gate of \<open>configureProjectSource\<close> and takes the place of an authorized one.\<close>

lemma blank_root_clobbers:
  "let s = snd (configureProjectSource dev_jobs ''p'' (Some ''root'') Remote_git None None (Some ''/srv'') None idle_jobs);
       s' = snd (configureProjectSource dev_jobs ''p'' (Some ''mia'') Remote_git None None (Some '' '') None s)
   in resolveProjectRoot dev_jobs (Some ''p'') None None s = Inr ''/srv'' \<and>
      isl (resolveProjectRoot dev_jobs (Some ''p'') None None s')"
  by code_simp

text \<open>A project named \<^verbatim>\<open>..\<close> is kept by the sanitizer, and its root is the parent of the cache.\<close>

lemma parent_of_cache: "path_resolve ''/app'' [''/cache/repos'', safe_project ''..''] = ''/cache''"
  by code_simp

section \<open>Properties\<close>


text \<open>
  Property C29. The runs of a job exclude each other and are counted: whatever workers and callers do, no two runs in
  flight have the same job, each belongs to a running or cancelled job and is one of its allowed attempts; no job
  was ever started more often than allowed, and a queued one may still be started.
\<close>

theorem job_runs_exclusive:
  assumes "queue_reachable (s, R)"
  shows "distinct (map j_id R) \<and>
    (\<forall>r \<in> set R. 0 < j_attempts r \<and> (\<exists>j \<in> set (async_jobs s). j_id j = j_id r \<and> j_attempts j = j_attempts r \<and>
       j_max j = j_max r \<and> (j_status j = J_running \<or> j_status j = J_cancelled))) \<and>
    (\<forall>j \<in> set (async_jobs s). j_attempts j \<le> j_max j \<and> (j_status j = J_queued \<longrightarrow> j_attempts j < j_max j))"
  using queue_reachable_ok [OF assms] by (auto simp: row_ok_def run_of_def)

theorem job_runs_exclusive_witness: "j_attempts the_run \<le> j_max the_run"
proof -
  have "the_run \<in> set (async_jobs running_jobs)" by code_simp
  then show ?thesis using job_runs_exclusive [OF queue_run(2)] by blast
qed

text \<open>
  Property C30. An ended job stays ended: a succeeded or dead job, and a cancelled one with no run in flight, keeps status, attempts,
  error and time of its end for ever, and is never claimed again.
\<close>

theorem job_end_final:
  assumes "queue_reachable (s, R)" and "queue_step\<^sup>*\<^sup>* (s, R) (s', R')" and "j \<in> set (async_jobs s)"
    and "j_status j = J_succeeded \<or> j_status j = J_dead_letter \<or> (j_status j = J_cancelled \<and> j_id j \<notin> j_id ` set R)"
  shows "\<exists>j' \<in> set (async_jobs s'). j_id j' = j_id j \<and> j_status j' = j_status j \<and> j_attempts j' = j_attempts j \<and>
    j_error j' = j_error j \<and> j_finished j' = j_finished j \<and> j_id j \<notin> j_id ` set R'"
proof -
  have ok: "queue_ok (s, R)" by (rule queue_reachable_ok [OF assms(1)])
  have "j_status j = J_running \<or> j_status j = J_cancelled" if "x \<in> set R" "j_id j = j_id x" for x
    using run_row [OF ok that(1) assms(3) that(2)] by (simp add: run_of_def)
  then have "j_status j = J_running \<or> j_status j = J_cancelled" if "j_id j \<in> j_id ` set R" using that by blast
  then have "j_id j \<notin> j_id ` set R" using assms(4) by (metis job_status.distinct)
  then have "ended_job (s, R) j" using assms(3,4) by auto
  from ended_later [OF assms(2) ok this] show ?thesis by (auto simp: same_end_def)
qed

theorem job_end_final_witness: "\<exists>j' \<in> set (async_jobs (completeJob dev_jobs ''u'' running_jobs)). j_status j' = J_succeeded"
proof -
  let ?j = "hd (async_jobs (completeJob dev_jobs ''u'' running_jobs))"
  have "?j \<in> set (async_jobs (completeJob dev_jobs ''u'' running_jobs))" "j_status ?j = J_succeeded" by code_simp+
  then show ?thesis using job_end_final [OF queue_run(3) rtranclp.rtrancl_refl, of ?j] by auto
qed

text \<open>
  Property C31. What the executor does is a path of that machine: each call of \<open>runNextJob\<close> or \<open>runJobById\<close>, chained jobs included,
  claims at most one job and ends its run, whatever other runs are in flight.
\<close>

theorem run_refines:
  assumes "queue_reachable (s, R)"
    and "runNextJob J queue scope acting s = (r, s') \<or> runJobById J jid acting s = (r, s')"
  shows "queue_step\<^sup>*\<^sup>* (s, R) (s', R)"
proof -
  have ok: "queue_ok (s, R)" by (rule queue_reachable_ok [OF assms(1)])
  have drained: "queue_step\<^sup>*\<^sup>* (s, R) (s', R)" if "drain J q sc acting (s\<lparr>jhub := d\<rparr>) = (r, s')" for d q sc
    by (rule hub_path [of d]) (rule drain_path [OF _ that], use ok in simp)
  have by_id: "queue_step\<^sup>*\<^sup>* (s, R) (s', R)" if "run_by_id J jid acting (s\<lparr>jhub := d\<rparr>) = (r, s')" for d
    by (rule hub_path [of d]) (rule run_by_id_path [OF _ that], use ok in simp)
  have same: "s = s\<lparr>jhub := jhub s\<rparr>" by simp
  from assms(2) show ?thesis
  proof
    assume "runNextJob J queue scope acting s = (r, s')"
    then show ?thesis using drained drained [of _ _ "jhub s"] hub_path [OF rtranclp.rtrancl_refl]
      by (auto simp: runNextJob_def j_authorized_def j_refuse_def Let_def split: if_splits prod.splits option.splits)
  next
    assume "runJobById J jid acting s = (r, s')"
    then show ?thesis using by_id by_id [of "jhub s"] hub_path [OF rtranclp.rtrancl_refl]
      by (auto simp: runJobById_def j_authorized_def j_refuse_def split: if_splits prod.splits option.splits)
  qed
qed

theorem run_refines_witness:
  "queue_step\<^sup>*\<^sup>* (enqueued_jobs, []) (snd (runNextJob dev_jobs None None (Some ''root'') enqueued_jobs), [])"
  using run_refines [OF queue_run(1), OF disjI1, OF prod.collapse [symmetric]] .

end
