(* ===== verification/UrlFetch.thy ===== *)
theory UrlFetch
  imports Principals Chaining "HOL-Library.Word"
begin

text \<open>
  Fetching from addresses a caller names (services/urlFetch.ts, services/pinnedHttpAgent.ts, the fetching part of
  services/exchange/pullFromRemote.ts): the refused address ranges, the check of a host, the loop over redirects with one pinned
  address per hop, the limits on type and size.

  The network is the parameter \<open>web\<close>; a resolver may answer differently at every lookup. Every connection is
  recorded with the address it is pinned to.
\<close>

section \<open>Addresses\<close>

text \<open>\<^verbatim>\<open>net.isIPv4\<close>: four decimal octets without leading zeros.\<close>

definition digits_value :: "string \<Rightarrow> nat" where
  "digits_value s = foldl (\<lambda>n c. 10 * n + (of_char c - 48)) 0 s"

definition is_number :: "string \<Rightarrow> bool" where
  "is_number s \<longleftrightarrow> s \<noteq> [] \<and> list_all is_digit s"

definition is_octet :: "string \<Rightarrow> bool" where
  "is_octet s \<longleftrightarrow> is_number s \<and> (length s = 1 \<or> hd s \<noteq> CHR ''0'') \<and> length s \<le> 3 \<and> digits_value s \<le> 255"

definition isIPv4 :: "string \<Rightarrow> bool" where
  "isIPv4 s \<longleftrightarrow> length (split_on (CHR ''.'') s) = 4 \<and> list_all is_octet (split_on (CHR ''.'') s)"

text \<open>
  \<^verbatim>\<open>net.isIPv6\<close>: groups of one to four hexadecimal digits; one \<open>::\<close> may stand for zero groups, an IPv4 address for the last
  two; a zone may follow \<open>%\<close>.
\<close>

definition is_seg :: "string \<Rightarrow> bool" where
  "is_seg s \<longleftrightarrow> s \<noteq> [] \<and> length s \<le> 4 \<and> list_all is_hex s"

fun split_gap :: "string \<Rightarrow> string \<times> string option" where
  "split_gap (CHR '':'' # CHR '':'' # rest) = ([], Some rest)"
| "split_gap (c # cs) = (case split_gap cs of (l, r) \<Rightarrow> (c # l, r))"
| "split_gap [] = ([], None)"

definition v6_parts :: "string \<Rightarrow> string list" where
  "v6_parts s = (if s = [] then [] else split_on (CHR '':'') s)"

definition v6_groups :: "string list \<Rightarrow> (nat \<times> bool) option" where
  "v6_groups ps =
     (if list_all is_seg ps then Some (length ps, False)
      else if list_all is_seg (butlast ps) \<and> isIPv4 (last ps) then Some (length ps - 1, True) else None)"

definition v6_address :: "string \<Rightarrow> bool" where
  "v6_address s = (case split_gap s of
     (l, None) \<Rightarrow> (case v6_groups (v6_parts l) of Some (n, v4) \<Rightarrow> n = (if v4 then 6 else 8) | None \<Rightarrow> False)
   | (l, Some r) \<Rightarrow> list_all is_seg (v6_parts l) \<and> (case v6_groups (v6_parts r) of
         Some (n, v4) \<Rightarrow> length (v6_parts l) + n \<le> (if v4 then 5 else 7) | None \<Rightarrow> False))"

definition zone_char :: "char \<Rightarrow> bool" where
  "zone_char c \<longleftrightarrow> is_digit c \<or> (c \<ge> CHR ''a'' \<and> c \<le> CHR ''z'') \<or> (c \<ge> CHR ''A'' \<and> c \<le> CHR ''Z'') \<or>
     c = CHR ''-'' \<or> c = CHR ''.'' \<or> c = CHR '':''"

definition isIPv6 :: "string \<Rightarrow> bool" where
  "isIPv6 s \<longleftrightarrow> (let addr = takeWhile (\<lambda>c. c \<noteq> CHR ''%'') s; zone = dropWhile (\<lambda>c. c \<noteq> CHR ''%'') s
     in v6_address addr \<and> (zone = [] \<or> (tl zone \<noteq> [] \<and> list_all zone_char (tl zone))))"

text \<open>\<^verbatim>\<open>ip.split('.').map(Number)\<close> on text that passed \<open>isIPv4\<close> or consists of digit groups.\<close>

definition private_octets :: "nat \<Rightarrow> nat \<Rightarrow> bool" where
  "private_octets a b \<longleftrightarrow> a = 10 \<or> (a = 172 \<and> 16 \<le> b \<and> b \<le> 31) \<or> (a = 192 \<and> b = 168) \<or> a = 127 \<or>
     (a = 169 \<and> b = 254) \<or> (a = 100 \<and> 64 \<le> b \<and> b \<le> 127) \<or> (224 \<le> a \<and> a \<le> 239) \<or> a = 0 \<or> 240 \<le> a"

definition isPrivateIPv4 :: "string \<Rightarrow> bool" where
  "isPrivateIPv4 ip =
     (let parts = split_on (CHR ''.'') ip in
      if length parts \<noteq> 4 \<or> list_ex (\<lambda>p. \<not> is_number p \<or> 255 < digits_value p) parts then True
      else private_octets (digits_value (parts ! 0)) (digits_value (parts ! 1)))"

text \<open>\<^verbatim>\<open>/^::ffff:(\d+\.\d+\.\d+\.\d+)$/\<close>\<close>

definition mapped_v4 :: "string \<Rightarrow> string option" where
  "mapped_v4 s = (let rest = drop 7 s; parts = split_on (CHR ''.'') rest in
     if startsWith ''::ffff:'' s \<and> length parts = 4 \<and> list_all is_number parts then Some rest else None)"

definition isPrivateIPv6 :: "string \<Rightarrow> bool" where
  "isPrivateIPv6 ip =
     (let lower = toLowerCase ip in
      if lower = ''::'' \<or> lower = ''::1'' then True
      else if list_ex (\<lambda>p. startsWith p lower) [''fe80:'', ''fe8'', ''fe9'', ''fea'', ''feb'', ''fc'', ''fd'', ''ff''] then True
      else case mapped_v4 lower of Some v4 \<Rightarrow> isPrivateIPv4 v4 | None \<Rightarrow> False)"

definition is_bad :: "string \<Rightarrow> bool" where
  "is_bad addr = (if isIPv4 addr then isPrivateIPv4 addr else if isIPv6 addr then isPrivateIPv6 addr else True)"

section \<open>The network\<close>

text \<open>A parsed URL: scheme with its colon, host name, host with port, path, the whole text.\<close>

record url =
  u_protocol :: string
  u_host :: string
  u_authority :: string
  u_path :: string
  u_href :: string

text \<open>A body without a stream is read at once; a stream is its chunks, then its end or an error.\<close>

datatype body = Whole string | Chunks "string list" bool

record response =
  rs_status :: int
  rs_location :: "string option"
  rs_length :: "string option"
  rs_type :: "string option"
  rs_disposition :: "string option"
  rs_body :: body

record pinned_address =
  pa_address :: string
  pa_family :: nat

text \<open>
  \<open>dns n\<close> is the \<open>n\<close>-th lookup, \<open>serve n\<close> the answer at the \<open>n\<close>-th connection: a response, or whether the failure was a timeout.
  \<open>allow_private\<close> is the test switch. \<open>uri_decode\<close> and \<open>uri_encode\<close> are \<^verbatim>\<open>decodeURIComponent\<close> and \<^verbatim>\<open>encodeURIComponent\<close>.
\<close>

record web =
  parse_url :: "string \<Rightarrow> url option"
  join_url :: "url \<Rightarrow> string \<Rightarrow> url option"
  dns :: "nat \<Rightarrow> string \<Rightarrow> (string \<times> nat) list option"
  serve :: "nat \<Rightarrow> url \<Rightarrow> bool + response"
  uri_decode :: "string \<Rightarrow> string option"
  uri_encode :: "string \<Rightarrow> string"
  allow_private :: bool

record traffic =
  lookups :: "(string \<times> (string \<times> nat) list) list"
  connections :: "(url \<times> pinned_address) list"

datatype fetch_error = SSRF_BLOCKED | DNS_FAILED | DNS_EMPTY | INVALID_URL | BAD_SCHEME | TOO_MANY_REDIRECTS
  | TIMEOUT | FETCH_FAILED | BAD_REDIRECT | UPSTREAM_ERROR | TOO_LARGE | UNSUPPORTED_TYPE | Uri_malformed | Read_failed

fun http_status :: "fetch_error \<Rightarrow> nat" where
  "http_status SSRF_BLOCKED = 403"
| "http_status TOO_MANY_REDIRECTS = 502"
| "http_status TIMEOUT = 504"
| "http_status FETCH_FAILED = 502"
| "http_status BAD_REDIRECT = 502"
| "http_status UPSTREAM_ERROR = 502"
| "http_status TOO_LARGE = 413"
| "http_status UNSUPPORTED_TYPE = 415"
| "http_status _ = 400"

type_synonym 'r fetched = "(fetch_error + 'r) \<times> traffic"

definition MAX_SIZE_BYTES :: nat where "MAX_SIZE_BYTES = 10 * 1024 * 1024"
definition MAX_REDIRECTS :: nat where "MAX_REDIRECTS = 5"

definition ALLOWED_MIME_PREFIXES :: "string list" where
  "ALLOWED_MIME_PREFIXES = [''application/pdf'', ''application/msword'',
     ''application/vnd.openxmlformats-officedocument.wordprocessingml.document'', ''application/epub+zip'',
     ''application/vnd.oasis.opendocument.text'', ''application/rtf'', ''text/rtf'', ''text/html'', ''text/plain'',
     ''text/markdown'', ''image/png'', ''image/jpeg'', ''image/jpg'', ''image/webp'']"

definition family_of :: "nat \<Rightarrow> nat" where
  "family_of f = (if f = 6 then 6 else 4)"

definition assertHostAllowed :: "web \<Rightarrow> string \<Rightarrow> traffic \<Rightarrow> pinned_address fetched" where
  "assertHostAllowed W host t =
     (if isIPv4 host \<or> isIPv6 host
      then (if \<not> allow_private W \<and> is_bad host then (Inl SSRF_BLOCKED, t)
            else (Inr \<lparr>pa_address = host, pa_family = (if isIPv4 host then 4 else 6)\<rparr>, t))
      else case dns W (length (lookups t)) host of
          None \<Rightarrow> (Inl DNS_FAILED, t\<lparr>lookups := lookups t @ [(host, [])]\<rparr>)
        | Some records \<Rightarrow>
            let t' = t\<lparr>lookups := lookups t @ [(host, records)]\<rparr> in
            (case records of
               [] \<Rightarrow> (Inl DNS_EMPTY, t')
             | first # _ \<Rightarrow>
                 if \<not> allow_private W \<and> list_ex (\<lambda>r. is_bad (fst r)) records then (Inl SSRF_BLOCKED, t')
                 else (Inr \<lparr>pa_address = fst first, pa_family = family_of (snd first)\<rparr>, t')))"

section \<open>Names and types\<close>

definition extension_of :: "string \<Rightarrow> string" where
  "extension_of pth = toLowerCase (last (split_on (CHR ''.'') pth))"

definition docTypeFromMime :: "string \<Rightarrow> string \<Rightarrow> string" where
  "docTypeFromMime mime pth =
     (let lower = toLowerCase mime; is_type = (\<lambda>p. startsWith p lower) in
      if is_type ''application/pdf'' then ''pdf''
      else if is_type ''application/vnd.openxmlformats-officedocument.wordprocessingml'' then ''docx''
      else if is_type ''application/msword'' then ''docx''
      else if is_type ''application/epub'' then ''epub''
      else if is_type ''application/vnd.oasis.opendocument.text'' then ''odt''
      else if is_type ''application/rtf'' \<or> is_type ''text/rtf'' then ''rtf''
      else if is_type ''text/html'' then ''html''
      else if is_type ''text/markdown'' then ''markdown''
      else if is_type ''text/plain''
      then (if extension_of pth = ''md'' \<or> extension_of pth = ''markdown'' then ''markdown'' else ''text'')
      else if is_type ''image/'' then ''image'' else ''text'')"

text \<open>
  \<^verbatim>\<open>/filename\*?=(?:UTF-\d+'')?["']?([^"';]+)["']?/i\<close>: the first position where it matches, and its group.
\<close>

definition plain_name :: "string \<Rightarrow> string option" where
  "plain_name s =
     (let body = (if s \<noteq> [] \<and> (hd s = CHR 0x22 \<or> hd s = CHR 0x27) then tl s else s);
          name = takeWhile (\<lambda>c. c \<noteq> CHR 0x22 \<and> c \<noteq> CHR 0x27 \<and> c \<noteq> CHR '';'') body
      in if name = [] then None else Some name)"

definition charset_rest :: "string \<Rightarrow> string option" where
  "charset_rest s =
     (if startsWith ''utf-'' (toLowerCase s)
      then (let rest = dropWhile is_digit (drop 4 s) in
            if rest \<noteq> drop 4 s \<and> startsWith [CHR 0x27, CHR 0x27] rest then Some (drop 2 rest) else None)
      else None)"

definition value_name :: "string \<Rightarrow> string option" where
  "value_name s = (case Option.bind (charset_rest s) plain_name of Some n \<Rightarrow> Some n | None \<Rightarrow> plain_name s)"

definition name_here :: "string \<Rightarrow> string option" where
  "name_here s =
     (if startsWith ''filename'' (toLowerCase s)
      then (let rest = drop 8 s; after_star = (if rest \<noteq> [] \<and> hd rest = CHR ''*'' then tl rest else rest) in
            if after_star \<noteq> [] \<and> hd after_star = CHR ''='' then value_name (tl after_star) else None)
      else None)"

fun disposition_name :: "string \<Rightarrow> string option" where
  "disposition_name [] = None"
| "disposition_name (c # cs) = (case name_here (c # cs) of Some n \<Rightarrow> Some n | None \<Rightarrow> disposition_name cs)"

definition safe_name :: "string \<Rightarrow> string" where
  "safe_name s = take 255 (map (\<lambda>c. if c = CHR 0x5C \<or> c = CHR ''/'' then CHR ''_'' else c) s)"

definition deriveFilename :: "web \<Rightarrow> url \<Rightarrow> string option \<Rightarrow> string option" where
  "deriveFilename W u disposition =
     (case Option.bind disposition disposition_name of
        Some n \<Rightarrow> map_option safe_name (uri_decode W n)
      | None \<Rightarrow> (case filter (\<lambda>p. p \<noteq> []) (split_on (CHR ''/'') (u_path u)) of
            [] \<Rightarrow> Some (u_host u @ ''.bin'')
          | p # ps \<Rightarrow> map_option safe_name (uri_decode W (last (p # ps)))))"

text \<open>\<^verbatim>\<open>parseInt(s, 10)\<close>; a value beyond the largest double is infinite.\<close>

definition parse_int :: "string \<Rightarrow> int option" where
  "parse_int s =
     (let t = dropWhile js_space s; neg = (t \<noteq> [] \<and> hd t = CHR ''-'');
          u = (if t \<noteq> [] \<and> (hd t = CHR ''-'' \<or> hd t = CHR ''+'') then tl t else t);
          ds = takeWhile is_digit u
      in if ds = [] then None else Some (if neg then - int (digits_value ds) else int (digits_value ds)))"

definition declared_too_large :: "nat \<Rightarrow> string option \<Rightarrow> bool" where
  "declared_too_large bound header \<longleftrightarrow> (case header of None \<Rightarrow> False | Some h \<Rightarrow>
     h \<noteq> [] \<and> (case parse_int h of None \<Rightarrow> False | Some n \<Rightarrow> n < 2 ^ 1024 - 2 ^ 970 \<and> int bound < n))"

definition content_type :: "string \<Rightarrow> string option \<Rightarrow> string" where
  "content_type dflt header = toLowerCase (trim (hd (split_on (CHR '';'') (case header of None \<Rightarrow> dflt | Some h \<Rightarrow> h))))"

text \<open>Reading a stream with the running size; an error of the stream surfaces after the chunks before it.\<close>

fun read_chunks :: "nat \<Rightarrow> nat \<Rightarrow> string list \<Rightarrow> bool \<Rightarrow> fetch_error + string" where
  "read_chunks bound n [] ok = (if ok then Inr [] else Inl Read_failed)"
| "read_chunks bound n (c # cs) ok =
     (if bound < n + length c then Inl TOO_LARGE
      else case read_chunks bound (n + length c) cs ok of Inl e \<Rightarrow> Inl e | Inr rest \<Rightarrow> Inr (c @ rest))"

definition read_body :: "nat \<Rightarrow> body \<Rightarrow> fetch_error + string" where
  "read_body bound b = (case b of
     Whole s \<Rightarrow> if bound < length s then Inl TOO_LARGE else Inr s
   | Chunks cs ok \<Rightarrow> read_chunks bound 0 cs ok)"

record fetch_result =
  fr_buffer :: string
  fr_mime :: string
  fr_doc_type :: string
  fr_filename :: string
  fr_final :: string

section \<open>Hops\<close>

datatype hop = Redirect url | Done fetch_result

definition http_scheme :: "url \<Rightarrow> bool" where
  "http_scheme u \<longleftrightarrow> u_protocol u = ''http:'' \<or> u_protocol u = ''https:''"

definition redirect_to :: "web \<Rightarrow> url \<Rightarrow> response \<Rightarrow> fetch_error + hop" where
  "redirect_to W u r = (case rs_location r of
     None \<Rightarrow> Inl BAD_REDIRECT
   | Some l \<Rightarrow> if l = [] then Inl BAD_REDIRECT else (case join_url W u l of
         None \<Rightarrow> Inl BAD_REDIRECT
       | Some v \<Rightarrow> if \<not> http_scheme v then Inl BAD_SCHEME else Inr (Redirect v)))"

definition accept_document :: "web \<Rightarrow> url \<Rightarrow> response \<Rightarrow> fetch_error + hop" where
  "accept_document W u r =
     (let ct = content_type ''application/octet-stream'' (rs_type r) in
      if declared_too_large MAX_SIZE_BYTES (rs_length r) then Inl TOO_LARGE
      else if \<not> list_ex (\<lambda>m. startsWith m ct) ALLOWED_MIME_PREFIXES then Inl UNSUPPORTED_TYPE
      else case read_body MAX_SIZE_BYTES (rs_body r) of
          Inl e \<Rightarrow> Inl e
        | Inr buffer \<Rightarrow> (case deriveFilename W u (rs_disposition r) of
            None \<Rightarrow> Inl Uri_malformed
          | Some n \<Rightarrow> Inr (Done \<lparr>fr_buffer = buffer, fr_mime = ct, fr_doc_type = docTypeFromMime ct (u_path u),
              fr_filename = n, fr_final = u_href u\<rparr>)))"

definition runHop :: "web \<Rightarrow> url \<Rightarrow> pinned_address \<Rightarrow> traffic \<Rightarrow> hop fetched" where
  "runHop W u pinned t =
     (let t' = t\<lparr>connections := connections t @ [(u, pinned)]\<rparr> in
      case serve W (length (connections t)) u of
        Inl timed_out \<Rightarrow> (Inl (if timed_out then TIMEOUT else FETCH_FAILED), t')
      | Inr r \<Rightarrow>
          if 300 \<le> rs_status r \<and> rs_status r < 400 then (redirect_to W u r, t')
          else if 400 \<le> rs_status r then (Inl UPSTREAM_ERROR, t')
          else (accept_document W u r, t'))"

text \<open>The loop; the argument is \<^verbatim>\<open>redirectsLeft\<close>.\<close>

fun fetch_hops :: "web \<Rightarrow> nat \<Rightarrow> url \<Rightarrow> traffic \<Rightarrow> fetch_result fetched" where
  "fetch_hops W left u t = (case assertHostAllowed W (u_host u) t of
     (Inl e, t1) \<Rightarrow> (Inl e, t1)
   | (Inr pinned, t1) \<Rightarrow> (case runHop W u pinned t1 of
         (Inl e, t2) \<Rightarrow> (Inl e, t2)
       | (Inr (Done v), t2) \<Rightarrow> (Inr v, t2)
       | (Inr (Redirect v), t2) \<Rightarrow> (case left of 0 \<Rightarrow> (Inl TOO_MANY_REDIRECTS, t2) | Suc n \<Rightarrow> fetch_hops W n v t2)))"

declare fetch_hops.simps [simp del]

definition fetchUrlAsDocument :: "web \<Rightarrow> string \<Rightarrow> traffic \<Rightarrow> fetch_result fetched" where
  "fetchUrlAsDocument W raw t = (case parse_url W raw of
     None \<Rightarrow> (Inl INVALID_URL, t)
   | Some u \<Rightarrow> if \<not> http_scheme u then (Inl BAD_SCHEME, t) else fetch_hops W MAX_REDIRECTS u t)"

section \<open>Pulling a bundle from another instance\<close>

datatype pull_error = P_invalid_url | P_invalid_api_key | P_invalid_project_id | P_bad_scheme | P_ssrf_blocked | P_unreachable
  | P_timeout | P_upstream_error | P_bad_content_type | P_too_large

definition MAX_BUNDLE_BYTES :: nat where "MAX_BUNDLE_BYTES = 500 * 1024 * 1024"
definition MAX_PROJECT_ID_LENGTH :: nat where "MAX_PROJECT_ID_LENGTH = 256"

text \<open>\<^verbatim>\<open>/^[\x20-\x7E\t]+$/\<close>\<close>

definition api_key_ok :: "string \<Rightarrow> bool" where
  "api_key_ok k \<longleftrightarrow> k \<noteq> [] \<and> list_all (\<lambda>c. (32 \<le> code_of c \<and> code_of c \<le> 126) \<or> code_of c = 9) k"

definition export_url :: "web \<Rightarrow> url \<Rightarrow> string \<Rightarrow> url" where
  "export_url W u pid = (let p = ''/api/projects/'' @ uri_encode W pid @ ''/export'' in
     u\<lparr>u_path := p, u_href := u_protocol u @ ''//'' @ u_authority u @ p\<rparr>)"

text \<open>A stream that fails before its end counts as stalled.\<close>

definition pull_body :: "response \<Rightarrow> pull_error + string" where
  "pull_body r =
     (let ct = content_type [] (rs_type r) in
      if \<not> (ct = ''application/zip'' \<or> startsWith ''application/zip+'' ct) then Inl P_bad_content_type
      else if declared_too_large MAX_BUNDLE_BYTES (rs_length r) then Inl P_too_large
      else case rs_body r of
          Whole _ \<Rightarrow> Inl P_upstream_error
        | Chunks cs ok \<Rightarrow> (case read_chunks MAX_BUNDLE_BYTES 0 cs ok of
            Inl TOO_LARGE \<Rightarrow> Inl P_too_large
          | Inl _ \<Rightarrow> Inl P_timeout
          | Inr b \<Rightarrow> Inr b))"

definition pull_bundle :: "web \<Rightarrow> string \<Rightarrow> string \<Rightarrow> string option \<Rightarrow> traffic \<Rightarrow> (pull_error + string) \<times> traffic" where
  "pull_bundle W raw pid key t = (case parse_url W raw of
     None \<Rightarrow> (Inl P_invalid_url, t)
   | Some u \<Rightarrow>
       if \<not> http_scheme u then (Inl P_bad_scheme, t)
       else if MAX_PROJECT_ID_LENGTH < length pid then (Inl P_invalid_project_id, t)
       else if key \<noteq> None \<and> \<not> api_key_ok (or_else key []) then (Inl P_invalid_api_key, t)
       else case assertHostAllowed W (u_host u) t of
           (Inl e, t1) \<Rightarrow> (Inl (if e = SSRF_BLOCKED then P_ssrf_blocked else P_unreachable), t1)
         | (Inr pinned, t1) \<Rightarrow>
             let v = export_url W u pid; t2 = t1\<lparr>connections := connections t1 @ [(v, pinned)]\<rparr> in
             (case serve W (length (connections t1)) v of
                Inl timed_out \<Rightarrow> (Inl (if timed_out then P_timeout else P_unreachable), t2)
              | Inr r \<Rightarrow> if 300 \<le> rs_status r then (Inl P_upstream_error, t2) else (pull_body r, t2)))"

text \<open>\<open>import_bundle\<close> is services/exchange/importProject.ts, which is not modelled.\<close>

definition pullFromRemote ::
  "env \<Rightarrow> web \<Rightarrow> (string \<Rightarrow> db \<Rightarrow> 'r outcome) \<Rightarrow> string \<Rightarrow> string option \<Rightarrow> string \<Rightarrow> string \<Rightarrow> string option \<Rightarrow>
    db \<times> traffic \<Rightarrow> (exn + pull_error + 'r \<times> nat) \<times> db \<times> traffic" where
  "pullFromRemote E W import_bundle target acting raw pid key s =
     (case assertAuthorized E acting A_write (rref K_project target) (fst s) of
        (Some x, d) \<Rightarrow> (Inl x, d, snd s)
      | (None, d) \<Rightarrow> (case pull_bundle W raw pid key (snd s) of
            (Inl e, t) \<Rightarrow> (Inr (Inl e), d, t)
          | (Inr b, t) \<Rightarrow> (case import_bundle b d of
                (Inl x, d') \<Rightarrow> (Inl x, d', t)
              | (Inr r, d') \<Rightarrow> (Inr (Inr (r, length b)), d', t))))"

end
