(* ===== verification/UrlGuard.thy ===== *)
theory UrlGuard
  imports UrlFetch Scenario "HOL-Library.Code_Target_Nat"
begin

text \<open>
  What the guard against requests to internal addresses gives: the refused IPv4 ranges are exactly the listed
  blocks, and every connection of a fetch goes to an address that was checked, of the host it is made for.
\<close>

unbundle bit_operations_syntax

section \<open>Dotted addresses\<close>

definition octet :: "nat \<Rightarrow> 32 word \<Rightarrow> nat" where
  "octet i w = unat (drop_bit (24 - 8 * i) w AND 255)"

definition dotted :: "32 word \<Rightarrow> string" where
  "dotted w = join_with ''.'' (map show_nat [octet 0 w, octet 1 w, octet 2 w, octet 3 w])"

text \<open>The network blocks: their address and the length of their prefix.\<close>

definition private_networks :: "(32 word \<times> nat) list" where
  "private_networks = [(0x0A000000, 8), (0xAC100000, 12), (0xC0A80000, 16), (0x7F000000, 8), (0xA9FE0000, 16),
     (0x64400000, 10), (0xE0000000, 4), (0x00000000, 8), (0xF0000000, 4)]"

definition in_network :: "32 word \<Rightarrow> 32 word \<times> nat \<Rightarrow> bool" where
  "in_network w n \<longleftrightarrow> drop_bit (32 - snd n) w = drop_bit (32 - snd n) (fst n)"

lemma low_byte: "unat ((v :: 32 word) AND 255) = unat v mod 256"
proof -
  have "v AND 255 = take_bit 8 v" by (simp add: take_bit_eq_mask mask_eq_exp_minus_1)
  then have "unat (v AND 255) = take_bit 8 (unat v)" by (simp only: unsigned_take_bit_eq)
  also have "\<dots> = unat v mod 256" by (simp add: take_bit_eq_mod)
  finally show ?thesis .
qed

lemma unat_drop: "unat (drop_bit k (w :: 32 word)) = unat w div 2 ^ k"
  by (simp only: unat_drop_bit_eq) (simp add: drop_bit_eq_div)

lemma octet_value: "octet i w = unat w div 2 ^ (24 - 8 * i) mod 256"
  by (simp only: octet_def low_byte unat_drop)

lemma octet_bound: "octet i w < 256"
  by (simp add: octet_value)

lemma in_network_value: "in_network w n \<longleftrightarrow> unat w div 2 ^ (32 - snd n) = unat (fst n) div 2 ^ (32 - snd n)"
  by (simp only: in_network_def word_unat_eq_iff unat_drop)

lemma octets_private:
  "private_octets (octet 0 w) (octet 1 w) \<longleftrightarrow> list_ex (in_network w) private_networks"
proof -
  have "unat w < 2 ^ LENGTH(32)" by (rule unsigned_less)
  then have bound: "unat w < 2 ^ 32" by simp
  define x where "x = unat w div 65536"
  have x: "x < 65536" "octet 0 w = x div 256" "octet 1 w = x mod 256"
    using bound by (simp_all add: x_def octet_value div_mult2_eq [symmetric] less_mult_imp_div_less)
  have q: "unat w div 16777216 = x div 256" "unat w div 1048576 = x div 16" "unat w div 4194304 = x div 64" "unat w div 268435456 = x div 4096"
    by (simp_all add: x_def div_mult2_eq [symmetric])
  define a b where "a = x div 256" and "b = x mod 256"
  then have ab: "x = 256 * a + b" "b < 256" "a < 256" using x(1) by auto
  have range: "x div 16 = 2753 \<longleftrightarrow> 44048 \<le> x \<and> x < 44064" "x div 64 = 401 \<longleftrightarrow> 25664 \<le> x \<and> x < 25728"
    "x div 4096 = 14 \<longleftrightarrow> 57344 \<le> x \<and> x < 61440" "x div 4096 = 15 \<longleftrightarrow> 61440 \<le> x"
    using x(1) by linarith+
  have "a = 172 \<and> 16 \<le> b \<and> b \<le> 31 \<longleftrightarrow> x div 16 = 2753" using ab unfolding range by presburger
  moreover have "a = 192 \<and> b = 168 \<longleftrightarrow> x = 49320" using ab unfolding range by presburger
  moreover have "a = 169 \<and> b = 254 \<longleftrightarrow> x = 43518" using ab unfolding range by presburger
  moreover have "a = 100 \<and> 64 \<le> b \<and> b \<le> 127 \<longleftrightarrow> x div 64 = 401" using ab unfolding range by presburger
  moreover have "224 \<le> a \<and> a \<le> 239 \<longleftrightarrow> x div 4096 = 14" using ab unfolding range by presburger
  moreover have "240 \<le> a \<longleftrightarrow> x div 4096 = 15" using ab unfolding range by presburger
  ultimately have "private_octets (octet 0 w) (octet 1 w) \<longleftrightarrow> x div 256 = 10 \<or> x div 16 = 2753 \<or> x = 49320 \<or> x div 256 = 127 \<or>
      x = 43518 \<or> x div 64 = 401 \<or> x div 4096 = 14 \<or> x div 256 = 0 \<or> x div 4096 = 15"
    unfolding private_octets_def x(2,3) a_def [symmetric] b_def [symmetric] by (simp only:)
  moreover have "list_ex (in_network w) private_networks \<longleftrightarrow> x div 256 = 10 \<or> x div 16 = 2753 \<or> x = 49320 \<or> x div 256 = 127 \<or>
      x = 43518 \<or> x div 64 = 401 \<or> x div 4096 = 14 \<or> x div 256 = 0 \<or> x div 4096 = 15"
    by (simp add: private_networks_def in_network_value q del: div_eq_0_iff) (simp add: x_def)
  ultimately show ?thesis by (simp only:)
qed

section \<open>Reading what is printed\<close>

lemma zero_char: "char_of (48 :: nat) = CHR ''0''"
  by code_simp

lemma show_digits: "n < 256 \<Longrightarrow> is_octet (show_nat n) \<and> digits_value (show_nat n) = n \<and> list_all (\<lambda>c. c \<noteq> CHR ''.'') (show_nat n)"
proof -
  assume n: "n < 256"
  have dot: "char_of (k + 48) \<noteq> CHR ''.''" if "k < 10" for k :: nat
  proof
    assume "char_of (k + 48) = CHR ''.''"
    then have "(of_char (char_of (k + 48) :: char) :: nat) = of_char (CHR ''.'')" by simp
    then show False using that by (simp add: of_char_of)
  qed
  have zero: "char_of (k + 48) = CHR ''0'' \<longleftrightarrow> k = 0" if "k < 10" for k :: nat
  proof
    assume "char_of (k + 48) = CHR ''0''"
    then have "(of_char (char_of (k + 48) :: char) :: nat) = of_char (CHR ''0'')" by simp
    then show "k = 0" using that by (simp add: of_char_of)
  qed (simp only: add_0 zero_char)
  consider "n < 10" | "10 \<le> n" "n < 100" | "100 \<le> n" by linarith
  then show ?thesis
  proof cases
    case 1
    then show ?thesis using dot [of n]
      by (simp add: show_nat.simps [of n] is_octet_def is_number_def is_digit_def code_of_def digits_value_def of_char_of)
  next
    case 2
    then have d: "n div 10 < 10" "n mod 10 < 10" "n div 10 \<noteq> 0" by auto
    then show ?thesis using 2 dot [OF d(1)] dot [OF d(2)] zero [OF d(1)]
      by (simp add: show_nat.simps [of n] show_nat.simps [of "n div 10"] is_octet_def is_number_def is_digit_def code_of_def
          digits_value_def of_char_of)
  next
    case 3
    then have d: "n div 10 div 10 < 10" "n div 10 mod 10 < 10" "n mod 10 < 10" "n div 10 div 10 \<noteq> 0" "\<not> n div 10 < 10"
      using n by auto
    have le: "n div 10 mod 10 \<le> 9" "n mod 10 \<le> 9" by presburger+
    have v: "10 * (10 * (n div 10 div 10) + n div 10 mod 10) + n mod 10 = n" by presburger
    then show ?thesis using 3 n d le dot [OF d(1)] dot [OF d(2)] dot [OF d(3)] zero [OF d(1)]
      by (simp add: show_nat.simps [of n] show_nat.simps [of "n div 10"] show_nat.simps [of "n div 10 div 10"] is_octet_def
          is_number_def is_digit_def code_of_def digits_value_def of_char_of)
  qed
qed

lemma split_on_none: "list_all (\<lambda>x. x \<noteq> c) p \<Longrightarrow> split_on c p = [p]"
  by (induction p) auto

lemma split_on_head: "list_all (\<lambda>x. x \<noteq> c) p \<Longrightarrow> split_on c (p @ c # rest) = p # split_on c rest"
  by (induction p) auto

lemma split_dotted: "split_on (CHR ''.'') (dotted w) = map show_nat [octet 0 w, octet 1 w, octet 2 w, octet 3 w]"
  using show_digits [OF octet_bound] by (simp add: dotted_def split_on_head split_on_none)

section \<open>The hops of a fetch\<close>

text \<open>
  A connection is good when its address is not refused and is either the literal host of its URL or the first answer of a
  lookup of that host, none of whose answers is refused.
\<close>

definition good_connection :: "(string \<times> (string \<times> nat) list) list \<Rightarrow> url \<times> pinned_address \<Rightarrow> bool" where
  "good_connection ls c \<longleftrightarrow> (let host = u_host (fst c); a = pa_address (snd c) in
     http_scheme (fst c) \<and> \<not> is_bad a \<and>
     (((isIPv4 host \<or> isIPv6 host) \<and> a = host) \<or>
      (\<exists>r rs. (host, r # rs) \<in> set ls \<and> a = fst r \<and> list_all (\<lambda>x. \<not> is_bad (fst x)) (r # rs))))"

lemma good_mono: "good_connection ls c \<Longrightarrow> set ls \<subseteq> set ls' \<Longrightarrow> good_connection ls' c"
  unfolding good_connection_def Let_def by blast

lemma host_allowed:
  assumes "assertHostAllowed W (u_host u) t = (r, t')" and "\<not> allow_private W" and "http_scheme u"
  shows "\<exists>ls. lookups t' = lookups t @ ls \<and> connections t' = connections t \<and> (\<forall>a. r = Inr a \<longrightarrow> good_connection ls (u, a))"
proof (cases "isIPv4 (u_host u) \<or> isIPv6 (u_host u)")
  case True
  then have "t' = t \<and> (\<forall>a. r = Inr a \<longrightarrow> pa_address a = u_host u \<and> \<not> is_bad (u_host u))"
    using assms(1,2) by (auto simp: assertHostAllowed_def split: if_splits)
  then show ?thesis using True assms(3) by (auto simp: good_connection_def)
next
  case False
  show ?thesis
  proof (cases "dns W (length (lookups t)) (u_host u)")
    case None
    then show ?thesis using False assms(1) by (auto simp: assertHostAllowed_def)
  next
    case (Some records)
    then have t': "lookups t' = lookups t @ [(u_host u, records)]" "connections t' = connections t"
      using False assms(1) by (auto simp: assertHostAllowed_def Let_def split: list.splits if_splits)
    have "good_connection [(u_host u, records)] (u, a)" if ra: "r = Inr a" for a
    proof -
      obtain x xs where "records = x # xs" "list_all (\<lambda>r. \<not> is_bad (fst r)) (x # xs)" "pa_address a = fst x"
        using Some False assms(1,2) ra
        by (auto simp: assertHostAllowed_def Let_def list_ex_iff list_all_iff split: list.splits if_splits)
      then show ?thesis using assms(3) by (auto simp: good_connection_def)
    qed
    then show ?thesis using t' by blast
  qed
qed

lemma redirect_scheme: "redirect_to W u r = Inr (Redirect v) \<Longrightarrow> http_scheme v"
  by (auto simp: redirect_to_def split: option.splits if_splits)

lemma redirect_not_done: "redirect_to W u r \<noteq> Inr (Done v)"
  by (auto simp: redirect_to_def split: option.splits if_splits)

lemma accept_not_redirect: "accept_document W u r \<noteq> Inr (Redirect v)"
  by (auto simp: accept_document_def Let_def split: sum.splits option.splits if_splits)

lemma read_chunks_size: "read_chunks bound n cs ok = Inr b \<Longrightarrow> n \<le> bound \<Longrightarrow> n + length b \<le> bound"
  by (induction cs arbitrary: n b) (fastforce split: if_splits sum.splits)+

definition sound_document :: "fetch_result \<Rightarrow> bool" where
  "sound_document v \<longleftrightarrow> length (fr_buffer v) \<le> MAX_SIZE_BYTES \<and> list_ex (\<lambda>m. startsWith m (fr_mime v)) ALLOWED_MIME_PREFIXES"

lemma accepted_sound: "accept_document W u r = Inr (Done v) \<Longrightarrow> sound_document v"
  using read_chunks_size [of MAX_SIZE_BYTES 0]
  by (auto simp: accept_document_def Let_def sound_document_def read_body_def split: sum.splits option.splits if_splits body.splits)

lemma runHop_cases:
  assumes "runHop W u a t = (r, t')"
  shows "lookups t' = lookups t \<and> connections t' = connections t @ [(u, a)] \<and>
    (\<forall>v. r = Inr (Redirect v) \<longrightarrow> http_scheme v) \<and> (\<forall>v. r = Inr (Done v) \<longrightarrow> sound_document v)"
  using assms redirect_scheme redirect_not_done accept_not_redirect accepted_sound
  by (auto simp: runHop_def Let_def split: sum.splits if_splits)

lemma hops_guarded:
  assumes "fetch_hops W left u t = (r, t')" and "\<not> allow_private W" and "http_scheme u"
  shows "\<exists>ls cs. lookups t' = lookups t @ ls \<and> connections t' = connections t @ cs \<and> length cs \<le> Suc left \<and>
    (\<forall>c \<in> set cs. good_connection ls c) \<and> (\<forall>v. r = Inr v \<longrightarrow> sound_document v)"
  using assms
proof (induction left arbitrary: u t)
  case (0 u t)
  obtain p t1 where p: "assertHostAllowed W (u_host u) t = (p, t1)" by force
  from host_allowed [OF p 0(2,3)] obtain ls where ls: "lookups t1 = lookups t @ ls" "connections t1 = connections t"
    "\<And>a. p = Inr a \<Longrightarrow> good_connection ls (u, a)" by blast
  show ?case
  proof (cases p)
    case (Inl e)
    then show ?thesis using 0(1) p ls by (auto simp: fetch_hops.simps)
  next
    case (Inr a)
    obtain h t2 where h: "runHop W u a t1 = (h, t2)" by force
    note hop = runHop_cases [OF h]
    have "t' = t2" "\<And>v. r = Inr v \<Longrightarrow> h = Inr (Done v)"
      using 0(1) p Inr h by (auto simp: fetch_hops.simps split: sum.splits hop.splits)
    then show ?thesis using hop ls Inr by (intro exI [of _ ls] exI [of _ "[(u, a)]"]) auto
  qed
next
  case (Suc left u t)
  obtain p t1 where p: "assertHostAllowed W (u_host u) t = (p, t1)" by force
  from host_allowed [OF p Suc(3,4)] obtain ls where ls: "lookups t1 = lookups t @ ls" "connections t1 = connections t"
    "\<And>a. p = Inr a \<Longrightarrow> good_connection ls (u, a)" by blast
  show ?case
  proof (cases p)
    case (Inl e)
    then show ?thesis using Suc(2) p ls by (auto simp: fetch_hops.simps)
  next
    case (Inr a)
    obtain h t2 where h: "runHop W u a t1 = (h, t2)" by force
    note hop = runHop_cases [OF h]
    show ?thesis
    proof (cases "\<exists>v. h = Inr (Redirect v)")
      case True
      then obtain v where v: "h = Inr (Redirect v)" "http_scheme v" using hop by blast
      have "fetch_hops W left v t2 = (r, t')" using Suc(2) p Inr h v by (simp add: fetch_hops.simps [of W "Suc left"])
      from Suc(1) [OF this Suc(3) v(2)] obtain ls' cs where rest: "lookups t' = lookups t2 @ ls'" "connections t' = connections t2 @ cs"
        "length cs \<le> Suc left" "\<forall>c \<in> set cs. good_connection ls' c" "\<forall>v. r = Inr v \<longrightarrow> sound_document v" by blast
      have "good_connection (ls @ ls') c" if "c \<in> set ((u, a) # cs)" for c
        using that rest(4) ls(3) Inr good_mono [of ls c "ls @ ls'"] good_mono [of ls' c "ls @ ls'"] by auto
      then show ?thesis using rest hop ls by (intro exI [of _ "ls @ ls'"] exI [of _ "(u, a) # cs"]) simp
    next
      case False
      then have "t' = t2" "\<And>v. r = Inr v \<Longrightarrow> h = Inr (Done v)"
        using Suc(2) p Inr h by (auto simp: fetch_hops.simps [of W "Suc left"] split: sum.splits hop.splits)
      then show ?thesis using hop ls Inr by (intro exI [of _ ls] exI [of _ "[(u, a)]"]) auto
    qed
  qed
qed

text \<open>A pull makes at most one connection, and a good one.\<close>

lemma pull_guarded:
  assumes "pull_bundle W raw pid key t = (r, t')" and "\<not> allow_private W"
  shows "\<exists>ls cs. lookups t' = lookups t @ ls \<and> connections t' = connections t @ cs \<and> length cs \<le> 1 \<and>
    (\<forall>c \<in> set cs. good_connection ls c) \<and> (\<forall>b. r = Inr b \<longrightarrow> length b \<le> MAX_BUNDLE_BYTES)"
proof (cases "connections t' = connections t \<and> lookups t' = lookups t \<and> isl r")
  case True
  then show ?thesis by (intro exI [of _ "[]"]) auto
next
  case False
  then obtain u where u: "parse_url W raw = Some u" "http_scheme u"
    using assms(1) by (auto simp: pull_bundle_def split: option.splits if_splits)
  obtain p t1 where p: "assertHostAllowed W (u_host u) t = (p, t1)" by force
  from host_allowed [OF p assms(2) u(2)] obtain ls where ls: "lookups t1 = lookups t @ ls" "connections t1 = connections t"
    "\<And>a. p = Inr a \<Longrightarrow> good_connection ls (u, a)" by blast
  have size: "pull_body x = Inr b \<Longrightarrow> length b \<le> MAX_BUNDLE_BYTES" for x b
    using read_chunks_size [of MAX_BUNDLE_BYTES 0]
    by (auto simp: pull_body_def Let_def split: if_splits body.splits sum.splits fetch_error.splits)
  have same: "good_connection ls (export_url W u pid, a) = good_connection ls (u, a)" for a
    by (simp add: good_connection_def export_url_def http_scheme_def Let_def)
  show ?thesis
  proof (cases p)
    case (Inl e)
    then show ?thesis using False assms(1) p u ls
      by (intro exI [of _ ls] exI [of _ "[]"]) (auto simp: pull_bundle_def split: if_splits)
  next
    case (Inr a)
    then show ?thesis using False assms(1) p u ls size same
      by (intro exI [of _ ls] exI [of _ "[(export_url W u pid, a)]"])
        (auto simp: pull_bundle_def Let_def split: if_splits sum.splits)
  qed
qed

section \<open>Properties\<close>

text \<open>
  Property C32. The IPv4 addresses that are refused are exactly those of nine network blocks: private, loopback, link-local, carrier-grade,
  multicast and reserved. Every 32-bit address, printed with dots, is recognized as an address.
\<close>

theorem private_blocks:
  "isIPv4 (dotted w) \<and> is_bad (dotted w) = list_ex (in_network w) private_networks"
proof -
  note parts = split_dotted [of w]
  have ip: "isIPv4 (dotted w)" using show_digits [OF octet_bound] by (simp add: isIPv4_def parts)
  have "isPrivateIPv4 (dotted w) = private_octets (octet 0 w) (octet 1 w)"
  proof -
    have "is_number (show_nat (octet i w)) \<and> digits_value (show_nat (octet i w)) = octet i w" for i
      using show_digits [OF octet_bound [of i w]] by (simp add: is_octet_def)
    moreover have "\<not> 255 < octet i w" for i using octet_bound [of i w] by simp
    ultimately show ?thesis by (simp add: isPrivateIPv4_def parts)
  qed
  then show ?thesis using ip by (simp add: is_bad_def octets_private [unfolded One_nat_def])
qed

text \<open>
  Property C10. No fetch leaves the public network: whatever the resolver and the servers answer, each of its at most six connections
  uses http or https and is pinned to an address that is not refused and belongs to the host of its URL (none of whose other
  addresses is refused either); what is returned has an allowed type and at most ten megabytes.
\<close>

theorem fetch_guarded:
  assumes "fetchUrlAsDocument W raw t = (r, t')" and "\<not> allow_private W"
  shows "\<exists>ls cs. lookups t' = lookups t @ ls \<and> connections t' = connections t @ cs \<and> length cs \<le> MAX_REDIRECTS + 1 \<and>
    (\<forall>c \<in> set cs. good_connection ls c) \<and>
    (\<forall>v. r = Inr v \<longrightarrow> length (fr_buffer v) \<le> MAX_SIZE_BYTES \<and> list_ex (\<lambda>m. startsWith m (fr_mime v)) ALLOWED_MIME_PREFIXES)"
proof (cases "parse_url W raw")
  case None
  then show ?thesis using assms(1) by (auto simp: fetchUrlAsDocument_def)
next
  case (Some u)
  show ?thesis
  proof (cases "http_scheme u")
    case True
    then have "fetch_hops W MAX_REDIRECTS u t = (r, t')" using assms(1) Some by (simp add: fetchUrlAsDocument_def)
    from hops_guarded [OF this assms(2) True] show ?thesis by (simp add: sound_document_def)
  next
    case False
    then show ?thesis using assms(1) Some by (auto simp: fetchUrlAsDocument_def)
  qed
qed

text \<open>One host, whose server redirects to a name that resolves inside.\<close>

definition small_web :: web where
  "small_web = \<lparr>parse_url = (\<lambda>s. Some \<lparr>u_protocol = ''http:'', u_host = s, u_authority = s, u_path = ''/a.md'', u_href = s\<rparr>),
     join_url = (\<lambda>u l. Some (u\<lparr>u_host := l\<rparr>)), dns = (\<lambda>n h. Some [(if h = ''in'' then ''10.0.0.1'' else ''93.184.216.34'', 4)]),
     serve = (\<lambda>n u. Inr \<lparr>rs_status = 302, rs_location = Some ''in'', rs_length = None, rs_type = None, rs_disposition = None,
       rs_body = Whole []\<rparr>), uri_decode = Some, uri_encode = (\<lambda>s. s), allow_private = False\<rparr>"

definition no_traffic :: traffic where
  "no_traffic = \<lparr>lookups = [], connections = []\<rparr>"

theorem fetch_guarded_witness:
  "fst (fetchUrlAsDocument small_web ''out'' no_traffic) = Inl SSRF_BLOCKED \<and>
   (\<exists>cs. connections (snd (fetchUrlAsDocument small_web ''out'' no_traffic)) = cs \<and> length cs \<le> MAX_REDIRECTS + 1)"
proof -
  have "fst (fetchUrlAsDocument small_web ''out'' no_traffic) = Inl SSRF_BLOCKED" by code_simp
  moreover have "\<not> allow_private small_web" by code_simp
  moreover have "connections no_traffic = []" by code_simp
  ultimately show ?thesis
    using fetch_guarded [of small_web "''out''" no_traffic, OF prod.collapse [symmetric]] by auto
qed

text \<open>
  What the IPv6 side lets through: the NAT64 form of the loopback address, an IPv4-compatible one, a documentation address;
  and a bracketed literal is not taken for an address at all.
\<close>

lemma ipv6_gaps:
  "\<not> is_bad ''64:ff9b::7f00:1'' \<and> \<not> is_bad ''::127.0.0.1'' \<and> \<not> is_bad ''2001:db8::1'' \<and> \<not> is_bad ''::ffff:7f00:1'' \<and>
   is_bad ''::ffff:127.0.0.1'' \<and> \<not> isIPv6 ''[2606:4700::1]''"
  by code_simp

end
