(* ===== verification/Spec2Isabelle.thy ===== *)
theory Spec2Isabelle
  imports System Leases Lockout Filing Readiness Codec JobLaw UrlGuard
begin

text \<open>
  \<^bold>\<open>A verification library of the coordination and identity services of free-context-hub.\<close>

  The program is a hub for software agents and the people who direct them. Its own logic is a coordination
  protocol over one Postgres database: topics with a roster of participants at three levels of authority, an
  append-only event log per topic, a board of tasks with claims and versioned artifacts, approval requests
  that climb a route of offices, motions and votes of decision bodies, intake and disputes, the sweeps that
  recover from callers who disappear, and the authorization gate every operation passes first. Below it lies
  the identity of the callers: principals with one root of trust, API keys, people with passwords, second
  factors, invites and sessions, and the grants that give each of them authority. This library translates those services (src/src/services/*.ts) into HOL functions and proves what makes them correct.

  \<^bold>\<open>How the code is modelled.\<close>

  \<^item> The database is the record \<open>db\<close> of \<open>Schema\<close>: one list of row records per table, in the order of insertion.
    \<^verbatim>\<open>SELECT\<close> is \<open>filter\<close> or \<open>find_row\<close>, \<^verbatim>\<open>UPDATE\<close> is \<open>update_where\<close>, \<^verbatim>\<open>DELETE\<close> is \<open>delete_where\<close>,
    \<^verbatim>\<open>INSERT\<close> is \<open>insert_row\<close>, which throws when the primary key or a unique index the code relies on is taken.
  \<^item> A transaction body is a value of \<open>tx\<close> (\<open>Prelude\<close>): it goes on with a result, rolls back with an answer
    (\<open>Abort\<close>), or throws; \<open>transaction\<close> commits or restores the tables (sequences and identifiers already drawn
    stay drawn, as in Postgres). An operation returns \<open>exn + result\<close> with the new database; a refusal the code
    returns as a status value is a constructor of the result datatype of the operation.
  \<^item> \<open>env\<close> holds what one call reads from outside: the switch \<^verbatim>\<open>MCP_AUTH_ENABLED\<close> (\<open>auth_enabled\<close>), the clock
    of the database (\<open>pg_now\<close>) and of the process (\<open>js_now\<close>), both in milliseconds, the identifier generators
    (\<open>pg_uuid\<close>, \<open>uuid_of\<close>), the Postgres test for the syntax of an identifier (\<open>is_uuid\<close>) and the decimal text of
    a number (\<open>num_text\<close>).
    They are parameters of every theorem, with no assumption on them except where a theorem names one.
  \<^item> JavaScript numbers are \<open>jsnum\<close> (finite rationals, infinities, NaN), since the guards of the code test for
    them; NUMERIC columns are exact rationals; \<^verbatim>\<open>BIGSERIAL\<close> and counters are naturals.

  \<^bold>\<open>Theories and code.\<close> All paths are under src/src/services unless said otherwise.

  \<^item> \<open>Prelude\<close>: text functions (\<open>trim\<close>), numbers, tables, transactions, \<open>after\<close> and \<open>aborts\<close> (what holds after a
    transaction body that goes on, or for every answer it rolls back with) with their rules in \<open>after_simps\<close> and \<open>aborts_simps\<close>.
  \<^item> \<open>Schema\<close>: rows and enumerations (src/migrations/0053, 0054, 0056, 0057, 0058), \<open>db\<close>, \<open>env\<close>, the locales
    \<open>effect\<close> (a relation on databases that sequences of writes respect) and \<open>table_invariant\<close>.
  \<^item> \<open>Authorize\<close>: authorize.ts, the decision core and the gate; locale \<open>gate\<close>. \<open>Grants\<close>: grants.ts.
  \<^item> \<open>Events\<close>: coordinationEvents.ts and the catalogues of coordinationConstants.ts; \<open>log_ok\<close>, the law of the log,
    and the locales \<open>append_service\<close>, \<open>base_service\<close>, \<open>log_service\<close>: what a relation must
    tolerate so that every writer of events respects it.
  \<^item> \<open>Topics\<close>, \<open>Closing\<close>: topics.ts (charter, join, grant level, read; \<open>closeTopic\<close> with its phases and passes).
  \<^item> \<open>Chaining\<close>: chaining.ts, the validation of the follow-up task of a decision and its posting. \<open>DoaMatrix\<close>:
    doaMatrix.ts, the row of the matrix and the route it gives.
  \<^item> \<open>Artifacts\<close>: artifacts.ts. \<open>Board\<close>: board.ts. \<open>BoardLaw\<close>: \<open>board_ok\<close>, the law of tasks, artifacts, versions
    and claims, and that every operation keeps it.
  \<^item> \<open>Bodies\<close>: decisionBodies.ts, proxies.ts. \<open>Motions\<close>: motions.ts. \<open>Requests\<close>: requests.ts. \<open>Disputes\<close>:
    disputes.ts. \<open>Intake\<close>: intake.ts. \<open>Sweep\<close>: coordinationSweep.ts.
  \<^item> \<open>RouteLaw\<close>: the abstract machine of requests, steps and motions (\<open>route_move\<close>) with its law \<open>route_ok\<close>;
    \<open>Routing\<close>: each operation refines it (\<open>routed\<close>). \<open>Filing\<close>: what submissions, disputes and triage leave behind.
  \<^item> \<open>System\<close>: \<open>step\<close>, one commit of any operation, and \<open>reachable\<close>; the invariants of the whole.
  \<^item> \<open>Leases\<close>: artifactLeases.ts. \<open>Lockout\<close>: lockout.ts and the order in which a login consults it.
  \<^item> \<open>Scenario\<close>: small databases on which the witnesses run.
  \<^item> \<open>AuthSchema\<close>: the rows of keys, credentials, factors, sessions, invites and reset tokens (src/migrations/0041,
    0071), the database \<open>auth_db\<close> of identity (its field \<open>hub\<close> is the coordination database), the environment
    \<open>auth_env\<close> with its parameters. \<open>Principals\<close>: principals.ts. \<open>ApiKeys\<close>: apiKeys.ts. \<open>Bootstrap\<close>:
    bootstrap.ts, backfillGrants.ts, migrateCoordinationActors.ts. \<open>Credentials\<close>: passwordCredentials.ts, mfa.ts, invites.ts.
  \<^item> \<open>Sessions\<close>: sessions.ts and api/middleware/sessionAuth.ts. \<open>Login\<close>: api/routes/auth.ts, api/middleware/auth.ts,
    mcp/auth.ts, actingPrincipal.ts. \<open>Delegation\<close>: grantCapability.ts and its law, that a granter passes on only
    what it has.
  \<^item> \<open>AuthLaw\<close>: \<open>auth_ok\<close>, the law of identity (keys bound to principals, one root, unique hashes and
    identifiers), and \<open>auth_evolved\<close>, what no operation undoes (revocations, used invites and tokens). \<open>AuthSystem\<close>:
    \<open>auth_step\<close>, one call of any operation, \<open>auth_reachable\<close> and \<open>auth_later\<close>; every operation is \<open>sound\<close>.
    \<open>Identity\<close>: what follows for credentials, sessions, invites and resets. \<open>Rotation\<close>: the rotation of keys.
    \<open>Readiness\<close>: the check before enforcement is switched on, the backfill and the migration. \<open>Codec\<close>: base 32 and
    one-time codes.
  \<^item> \<open>Jobs\<close>: jobQueue.ts and the enqueuing of sweepScheduler.ts; its state \<open>job_db\<close> holds the coordination database, the tables of
    jobs, sources and workspaces (src/migrations/0006, 0046, 0069). \<open>Worker\<close>: utils/resolveProjectRoot.ts, repoSources.ts,
    workspaceTracker.ts, jobExecutor.ts, bootPosture.ts and the start of src/src/worker.ts. \<open>JobLaw\<close>: \<open>queue_step\<close>, the statements of
    any number of workers and callers with the runs in flight, its law \<open>queue_ok\<close>, the executor as a path of it.
  \<^item> \<open>UrlFetch\<close>: urlFetch.ts, pinnedHttpAgent.ts and the fetching part of exchange/pullFromRemote.ts over a network that is a
    parameter. \<open>UrlGuard\<close>: the refused networks and the guard on every connection.

  The services call one another as in the code: every writer ends in \<open>appendEvent\<close>; a decided or tallied request
  ends in \<open>emitChain\<close>, which posts a task; a motion of a request step ends in \<open>applyMotionToStep\<close>; a dispute
  submits a request; triage may open a dispute. A locale states what a caller needs of the service below (what
  its writes may do to the tables), the lemmas of the callers are proved inside, and the interpretations
  discharge it for the relations of interest: \<open>log_ext\<close> (the log only grows), \<open>topic_step\<close>, \<open>board_step\<close>,
  \<open>claims_shrink\<close>, \<open>route_same\<close> and \<open>routed\<close>.

  \<^bold>\<open>What is shown.\<close> Of the whole system, for every interleaving of commits: gap-free logs, sealed closed topics,
  exclusive claims, one artifact per task, version histories, statuses that only move forward, decisions that
  are final, approvals that rest on endorsed steps, and that every operation refines the abstract machine of
  routes. Of the operations: what each grants, refuses and leaves (append, replay, join, levels, claim, complete, write, submit,
  decide, vote, tally, dispute, triage, grants, leases, lockout), that paging through a log ends with all of it,
  and that closing a topic always completes. Of identity, for every sequence of calls: one root and one worker
  identity that stay active; revoked credentials, ended sessions, used invites and reset tokens never work again;
  a session is what it was created as; a delegated grant never gives more than its granter has; a rotated key
  overlaps its successor exactly as announced; enforcement that passes its readiness check locks nobody out. Of jobs: exclusive and counted runs, final outcomes, roots only on
  global authority. Of fetches: no connection to a refused address, whatever the resolver and the servers answer.

  \<^bold>\<open>Bounds.\<close> Paging in \<open>replay_complete\<close> runs with \<open>t_next_seq + 1\<close> as its fuel: every page but the last
  holds at least one event and no log has more than \<open>t_next_seq\<close>. The retry loops carry the bounds of the code
  (three rounds in \<open>createGrant\<close> and in \<open>claimArtifact\<close>, five redirects in \<open>fetch_hops\<close>). Everything else is structural recursion.

  \<^bold>\<open>Assumptions of the model.\<close> Identifiers are in the canonical lower-case form Postgres prints. A transaction is
  atomic (the code takes row locks); operations of several transactions appear in \<open>step\<close> also in their parts.
  A call reads each clock once. Foreign keys are not modelled: the code checks existence itself where it
  matters. Connection failures are absent; a violated key or unique index, a failed cast, a refused event are
  errors of the model. The write to the decision log of \<open>authorize\<close>, which the code makes on a best-effort basis, succeeds.
  Hashes, HMAC, argon2, random bytes and \<^verbatim>\<open>decodeURIComponent\<close> are parameters of \<open>auth_env\<close>, drawn in sequence where they are
  random; a theorem that needs one of their properties names it. Numbers of the configuration are naturals,
  characters are below 256, instants are whole milliseconds. The services a job calls (git, indexing, summaries, evaluation)
  answer \<open>je_service\<close>, the resolver, the servers and the URL parser are fields of \<open>web\<close>.

  \<^bold>\<open>Not modelled\<close>: messages of errors and log output; the attributes of cookies, the remaining HTTP routes and the
  MCP tools, which extract parameters and call the services; retrieval, lessons, indexing, the knowledge
  graph, the git commands, the import of bundles, and the model-driven services, whose results come from embeddings, language
  models, Neo4j or external programs; the web interface and the test programs.
\<close>

end
